(* ===== verification/Js_Prelude.thy ===== *)
theory Js_Prelude
  imports Complex_Main "HOL-Library.List_Lexorder" "HOL-Library.Char_ord"
    "HOL-Library.Sublist" "HOL-Library.Multiset"
begin

text \<open>
  What the program uses of JavaScript, shared by every component: strings of code units with
  the case, trim, search and replace operations of \<^verbatim>\<open>String.prototype\<close>; truthiness
  and the operators \<^verbatim>\<open>||\<close> and \<^verbatim>\<open>??\<close> on optional values; numbers with
  NaN and the infinities, and \<^verbatim>\<open>Number(value)\<close> on the values a JSON body can hold;
  \<^verbatim>\<open>Math.round\<close>; the stable \<^verbatim>\<open>Array.prototype.sort\<close>; and insertion-ordered
  \<^verbatim>\<open>Map\<close> objects.
  Strings are code units up to 255 and the case conversions act on the ASCII letters. A finite
  number is a rational: the rounding of binary floating point is not modelled.
\<close>

named_theorems js_defs "definitions of the string and number operations, for evaluation"

type_synonym jstring = string

section \<open>Strings\<close>

definition code_at :: "char \<Rightarrow> nat" where
  [js_defs]: "code_at c = of_char c"

definition is_digit :: "char \<Rightarrow> bool" where
  [js_defs]: "is_digit c \<longleftrightarrow> 48 \<le> code_at c \<and> code_at c \<le> 57"

definition is_upper :: "char \<Rightarrow> bool" where
  [js_defs]: "is_upper c \<longleftrightarrow> 65 \<le> code_at c \<and> code_at c \<le> 90"

definition is_lower :: "char \<Rightarrow> bool" where
  [js_defs]: "is_lower c \<longleftrightarrow> 97 \<le> code_at c \<and> code_at c \<le> 122"

definition is_space :: "char \<Rightarrow> bool" where
  [js_defs]: "is_space c \<longleftrightarrow> code_at c \<in> set [9, 10, 11, 12, 13, 32, 160]"

definition lower_char :: "char \<Rightarrow> char" where
  [js_defs]: "lower_char c = (if is_upper c then char_of (code_at c + 32) else c)"

definition upper_char :: "char \<Rightarrow> char" where
  [js_defs]: "upper_char c = (if is_lower c then char_of (code_at c - 32) else c)"

definition toLowerCase :: "jstring \<Rightarrow> jstring" where
  [js_defs]: "toLowerCase s = map lower_char s"

definition toUpperCase :: "jstring \<Rightarrow> jstring" where
  [js_defs]: "toUpperCase s = map upper_char s"

definition trim_start :: "jstring \<Rightarrow> jstring" where
  [js_defs]: "trim_start s = dropWhile is_space s"

definition trim :: "jstring \<Rightarrow> jstring" where
  [js_defs]: "trim s = rev (dropWhile is_space (rev (trim_start s)))"

definition startsWith :: "jstring \<Rightarrow> jstring \<Rightarrow> bool" where
  [js_defs]: "startsWith s p \<longleftrightarrow> prefix p s"

definition endsWith :: "jstring \<Rightarrow> jstring \<Rightarrow> bool" where
  [js_defs]: "endsWith s p \<longleftrightarrow> suffix p s"

definition str_includes :: "jstring \<Rightarrow> jstring \<Rightarrow> bool" where
  [js_defs]: "str_includes s p \<longleftrightarrow> sublist p s"

text \<open>\<^verbatim>\<open>s.toLowerCase().replace(/[^a-z0-9]/g, '')\<close> keeps lower-case letters and digits.\<close>

definition alnum_key :: "jstring \<Rightarrow> jstring" where
  [js_defs]: "alnum_key s = filter (\<lambda>c. is_lower c \<or> is_digit c) (toLowerCase s)"

text \<open>\<^verbatim>\<open>xs.join(sep)\<close>.\<close>

fun join :: "jstring \<Rightarrow> jstring list \<Rightarrow> jstring" where
  "join sep [] = []"
| "join sep [x] = x"
| "join sep (x # y # ys) = x @ sep @ join sep (y # ys)"

text \<open>
  \<^verbatim>\<open>s.split(/[class]+/).filter(Boolean)\<close>: the maximal runs of characters outside the
  separator class. The accumulator holds the current run, reversed.
\<close>

fun split_runs :: "(char \<Rightarrow> bool) \<Rightarrow> jstring \<Rightarrow> jstring \<Rightarrow> jstring list" where
  "split_runs p acc [] = (if acc = [] then [] else [rev acc])"
| "split_runs p acc (c # cs) =
     (if p c then (if acc = [] then split_runs p [] cs else rev acc # split_runs p [] cs)
      else split_runs p (c # acc) cs)"

text \<open>\<^verbatim>\<open>s.split(sep)\<close> for a one-character separator: empty pieces are kept.\<close>

fun split_on :: "char \<Rightarrow> jstring \<Rightarrow> jstring list" where
  "split_on d [] = [[]]"
| "split_on d (c # cs) =
     (if c = d then [] # split_on d cs
      else case split_on d cs of [] \<Rightarrow> [[c]] | p # ps \<Rightarrow> (c # p) # ps)"

lemma split_on_not_Nil [simp]: "split_on d s \<noteq> []"
  by (cases s) (auto split: list.splits)

lemma split_on_piece: "d \<notin> set a \<Longrightarrow> split_on d (a @ d # b) = a # split_on d b"
  by (induction a) (auto split: list.splits)

lemma split_on_single: "d \<notin> set a \<Longrightarrow> split_on d a = [a]"
  by (induction a) auto

lemma digit_not_space: "is_digit c \<Longrightarrow> \<not> is_space c"
  by (auto simp: is_digit_def is_space_def)

lemma digit_not_sign: "is_digit c \<Longrightarrow> c \<noteq> CHR ''-'' \<and> c \<noteq> CHR ''+''"
  by (auto simp: is_digit_def code_at_def)

subsection \<open>Case and trim laws\<close>

lemma code_at_less [simp]: "code_at c < 256"
  by (simp add: code_at_def)

lemma code_at_char_of [simp]: "n < 256 \<Longrightarrow> code_at (char_of n) = n"
  by (simp add: code_at_def)

lemma char_of_code_at [simp]: "char_of (code_at c) = c"
  by (simp add: code_at_def)

lemma code_at_inject: "code_at c = code_at d \<longleftrightarrow> c = d"
  by (metis char_of_code_at)

lemma lower_char_idem [simp]: "lower_char (lower_char c) = lower_char c"
  by (auto simp: lower_char_def is_upper_def)

lemma lower_upper_char [simp]: "lower_char (upper_char c) = lower_char c"
  by (auto simp: lower_char_def upper_char_def is_upper_def is_lower_def)

lemma upper_lower_char [simp]: "upper_char (lower_char c) = upper_char c"
  by (auto simp: lower_char_def upper_char_def is_upper_def is_lower_def)

lemma upper_char_idem [simp]: "upper_char (upper_char c) = upper_char c"
  by (auto simp: upper_char_def is_lower_def)

lemma is_space_lower_char [simp]: "is_space (lower_char c) \<longleftrightarrow> is_space c"
  by (auto simp: is_space_def lower_char_def is_upper_def)

lemma is_space_upper_char [simp]: "is_space (upper_char c) \<longleftrightarrow> is_space c"
  by (auto simp: is_space_def upper_char_def is_lower_def)

lemma toLowerCase_idem [simp]: "toLowerCase (toLowerCase s) = toLowerCase s"
  by (simp add: toLowerCase_def)

lemma toLowerCase_Nil [simp]: "toLowerCase [] = []"
  by (simp add: toLowerCase_def)

lemma toLowerCase_eq_Nil [simp]: "toLowerCase s = [] \<longleftrightarrow> s = []"
  by (simp add: toLowerCase_def)

lemma toLowerCase_append [simp]: "toLowerCase (s @ t) = toLowerCase s @ toLowerCase t"
  by (simp add: toLowerCase_def)

lemma toLowerCase_Cons [simp]: "toLowerCase (c # s) = lower_char c # toLowerCase s"
  by (simp add: toLowerCase_def)

lemma length_toLowerCase [simp]: "length (toLowerCase s) = length s"
  by (simp add: toLowerCase_def)

lemma trim_Nil [simp]: "trim [] = []"
  by (simp add: trim_def trim_start_def)

lemma dropWhile_map_rev: "dropWhile p (rev (map f s)) = map f (dropWhile (\<lambda>x. p (f x)) (rev s))"
  by (simp add: dropWhile_map rev_map comp_def)

lemma toLowerCase_trim: "toLowerCase (trim s) = trim (toLowerCase s)"
  by (simp add: toLowerCase_def trim_def trim_start_def dropWhile_map dropWhile_map_rev
      comp_def rev_map)

lemma trim_start_no_lead: "trim_start s = [] \<or> \<not> is_space (hd (trim_start s))"
  unfolding trim_start_def by (metis hd_dropWhile)

lemma dropWhile_hd: "xs = [] \<or> \<not> p (hd xs) \<Longrightarrow> dropWhile p xs = xs"
  by (cases xs) auto

lemma trim_id: "s = [] \<or> (\<not> is_space (hd s) \<and> \<not> is_space (last s)) \<Longrightarrow> trim s = s"
  by (auto simp: trim_def trim_start_def dropWhile_hd hd_rev)

lemma trim_idem [simp]: "trim (trim s) = trim s"
proof (rule trim_id)
  let ?u = "dropWhile is_space (rev (trim_start s))"
  obtain w where w: "rev (trim_start s) = w @ ?u"
    by (metis takeWhile_dropWhile_id)
  show "trim s = [] \<or> (\<not> is_space (hd (trim s)) \<and> \<not> is_space (last (trim s)))"
  proof (cases "?u = []")
    case True
    then show ?thesis by (simp add: trim_def)
  next
    case False
    then have last: "\<not> is_space (last (trim s))"
      by (simp add: trim_def last_rev hd_dropWhile)
    have "trim_start s = trim s @ rev w"
      using w by (metis rev_append rev_rev_ident trim_def)
    moreover have "trim s \<noteq> []" using False by (simp add: trim_def)
    ultimately have "hd (trim_start s) = hd (trim s)" and "trim_start s \<noteq> []" by auto
    then have "\<not> is_space (hd (trim s))" using trim_start_no_lead [of s] by simp
    with last show ?thesis by simp
  qed
qed

lemma alnum_key_lower [simp]: "alnum_key (toLowerCase s) = alnum_key s"
  by (simp add: alnum_key_def)

lemma split_runs_nonempty: "w \<in> set (split_runs p acc s) \<Longrightarrow> w \<noteq> []"
  by (induction p acc s rule: split_runs.induct) (fastforce split: if_splits)+

lemma split_runs_no_sep:
  "(\<forall>c\<in>set acc. \<not> p c) \<Longrightarrow> w \<in> set (split_runs p acc s) \<Longrightarrow> \<forall>c\<in>set w. \<not> p c"
  by (induction p acc s rule: split_runs.induct) (fastforce split: if_splits)+

lemma split_runs_run:
  "(\<forall>c\<in>set w. \<not> p c) \<Longrightarrow> split_runs p acc (w @ s) = split_runs p (rev w @ acc) s"
  by (induction w arbitrary: acc) auto

lemma split_runs_join:
  assumes "p d" and "\<forall>w\<in>set ws. w \<noteq> [] \<and> (\<forall>c\<in>set w. \<not> p c)"
  shows "split_runs p [] (join [d] ws) = ws"
  using assms(2)
proof (induction "[d]" ws rule: join.induct)
  case (2 x)
  then show ?case using split_runs_run [of x p "[]" "[]"] by simp
next
  case (3 x y ys)
  then show ?case
    using assms(1) split_runs_run [of x p "[]" "[d] @ join [d] (y # ys)"] by simp
qed simp

section \<open>Optional values, truthiness\<close>

text \<open>
  An optional or nullable string is \<open>None\<close> where the code treats \<^verbatim>\<open>undefined\<close> and
  \<^verbatim>\<open>null\<close> alike, which \<^verbatim>\<open>||\<close>, \<^verbatim>\<open>??\<close> and \<^verbatim>\<open>?.\<close> do.
\<close>

definition truthy :: "jstring option \<Rightarrow> bool" where
  [js_defs]: "truthy x \<longleftrightarrow> (case x of None \<Rightarrow> False | Some s \<Rightarrow> s \<noteq> [])"

definition str_or :: "jstring option \<Rightarrow> jstring \<Rightarrow> jstring" where
  [js_defs]: "str_or x d = (case x of None \<Rightarrow> d | Some s \<Rightarrow> if s = [] then d else s)"

definition coalesce :: "'a option \<Rightarrow> 'a option \<Rightarrow> 'a option" where
  [js_defs]: "coalesce x y = (case x of None \<Rightarrow> y | Some a \<Rightarrow> Some a)"

definition default_to :: "'a option \<Rightarrow> 'a \<Rightarrow> 'a" where
  [js_defs]: "default_to x d = (case x of None \<Rightarrow> d | Some a \<Rightarrow> a)"

lemma coalesce_simps [simp]:
  "coalesce None y = y" "coalesce (Some a) y = Some a"
  by (simp_all add: coalesce_def)

lemma default_to_simps [simp]:
  "default_to None d = d" "default_to (Some a) d = a"
  by (simp_all add: default_to_def)

lemma str_or_simps [simp]:
  "str_or None d = d" "str_or (Some []) d = d" "str_or (Some (c # s)) d = c # s"
  by (simp_all add: str_or_def)

lemma str_or_truthy: "truthy (Some s) \<Longrightarrow> str_or (Some s) d = s"
  by (simp add: str_or_def truthy_def)

section \<open>Numbers\<close>

datatype jsnum = Fin rat | PosInf | NegInf | NaN

datatype jsval = JUndefined | JNull | JNum jsnum | JStr jstring

definition isFinite :: "jsnum \<Rightarrow> bool" where
  [js_defs]: "isFinite n \<longleftrightarrow> (case n of Fin _ \<Rightarrow> True | _ \<Rightarrow> False)"

definition fin_or_zero :: "jsnum \<Rightarrow> rat" where
  [js_defs]: "fin_or_zero n = (case n of Fin q \<Rightarrow> q | _ \<Rightarrow> 0)"

lemma isFinite_simps [simp]:
  "isFinite (Fin q)" "\<not> isFinite PosInf" "\<not> isFinite NegInf" "\<not> isFinite NaN"
  by (simp_all add: isFinite_def)

text \<open>\<^verbatim>\<open>Math.round\<close>: ties go towards plus infinity.\<close>

definition js_round :: "rat \<Rightarrow> int" where
  [js_defs]: "js_round x = \<lfloor>x + 1 / 2\<rfloor>"

text \<open>\<^verbatim>\<open>Math.round(x * 100) / 100\<close>, which the program uses on amounts.\<close>

definition round2 :: "rat \<Rightarrow> rat" where
  [js_defs]: "round2 x = of_int (js_round (x * 100)) / 100"

lemma js_round_of_int [simp]: "js_round (of_int n) = n"
  by (simp add: js_round_def floor_unique)

lemma js_round_bounds: "of_int (js_round x) \<le> x + 1 / 2" "x - 1 / 2 < of_int (js_round x)"
  unfolding js_round_def by linarith+

lemma js_round_mono: "x \<le> y \<Longrightarrow> js_round x \<le> js_round y"
  by (simp add: js_round_def floor_mono)

lemma js_round_nonneg: "0 \<le> x \<Longrightarrow> 0 \<le> js_round x"
  by (simp add: js_round_def)

lemma round2_idem [simp]: "round2 (round2 x) = round2 x"
  by (simp add: round2_def)

lemma round2_mono: "x \<le> y \<Longrightarrow> round2 x \<le> round2 y"
  by (simp add: round2_def js_round_mono divide_right_mono)

lemma round2_zero [simp]: "round2 0 = 0"
  using js_round_of_int [of 0] by (simp add: round2_def)

lemma round2_nonneg: "0 \<le> x \<Longrightarrow> 0 \<le> round2 x"
  using round2_mono [of 0 x] by simp

lemma round2_close: "\<bar>round2 x - x\<bar> \<le> 1 / 200"
proof -
  have "\<bar>of_int (js_round (x * 100)) - x * 100\<bar> \<le> (1 / 2 :: rat)"
    using js_round_bounds [of "x * 100"] by linarith
  then have "\<bar>(of_int (js_round (x * 100)) - x * 100) / 100\<bar> \<le> (1 / 200 :: rat)"
    by (simp add: abs_divide)
  then show ?thesis by (simp add: round2_def diff_divide_distrib)
qed

subsection \<open>The numeric value of a string\<close>

definition digits_value :: "jstring \<Rightarrow> nat" where
  [js_defs]: "digits_value s = foldl (\<lambda>a c. 10 * a + (code_at c - 48)) 0 s"

text \<open>\<^verbatim>\<open>parseInt(s, 10)\<close>, \<open>None\<close> for NaN.\<close>

definition parse_int :: "jstring \<Rightarrow> int option" where
  [js_defs]: "parse_int s =
     (let s' = trim_start s; neg = startsWith s' ''-'';
          r = (if neg \<or> startsWith s' ''+'' then tl s' else s');
          ds = takeWhile is_digit r
      in if ds = [] then None
         else Some (if neg then - int (digits_value ds) else int (digits_value ds)))"

definition parse_exponent :: "jstring \<Rightarrow> int option" where
  [js_defs]: "parse_exponent s = (case s of [] \<Rightarrow> Some 0
     | e # r \<Rightarrow>
        (if lower_char e \<noteq> CHR ''e'' then None
         else let neg = startsWith r ''-'';
                  ds = (if neg \<or> startsWith r ''+'' then tl r else r)
              in if ds = [] \<or> \<not> list_all is_digit ds then None
                 else Some ((if neg then -1 else 1) * int (digits_value ds))))"

definition pow10 :: "int \<Rightarrow> rat" where
  [js_defs]: "pow10 e = (if 0 \<le> e then 10 ^ nat e else 1 / 10 ^ nat (- e))"

definition parse_unsigned :: "jstring \<Rightarrow> rat option" where
  [js_defs]: "parse_unsigned s =
     (let ip = takeWhile is_digit s; r = dropWhile is_digit s;
          dot = startsWith r ''.'';
          fp = (if dot then takeWhile is_digit (tl r) else []);
          r' = (if dot then dropWhile is_digit (tl r) else r)
      in if ip = [] \<and> fp = [] then None
         else map_option
                (\<lambda>e. of_nat (digits_value (ip @ fp)) / 10 ^ length fp * pow10 e)
                (parse_exponent r'))"

definition radix_digit :: "char \<Rightarrow> nat" where
  [js_defs]: "radix_digit c = (if is_digit c then code_at c - 48
     else if is_lower (lower_char c) then code_at (lower_char c) - 87 else 99)"

definition parse_radix :: "nat \<Rightarrow> jstring \<Rightarrow> jsnum" where
  [js_defs]: "parse_radix b s = (if s = [] \<or> \<not> list_all (\<lambda>c. radix_digit c < b) s then NaN
     else Fin (of_nat (foldl (\<lambda>a c. b * a + radix_digit c) 0 s)))"

definition neg_num :: "jsnum \<Rightarrow> jsnum" where
  [js_defs]: "neg_num n = (case n of Fin q \<Rightarrow> Fin (- q) | PosInf \<Rightarrow> NegInf
     | NegInf \<Rightarrow> PosInf | NaN \<Rightarrow> NaN)"

definition parse_decimal :: "jstring \<Rightarrow> jsnum" where
  [js_defs]: "parse_decimal s = (if s = ''Infinity'' then PosInf
     else case parse_unsigned s of None \<Rightarrow> NaN | Some q \<Rightarrow> Fin q)"

text \<open>\<^verbatim>\<open>Number(s)\<close> of a string, after the StringToNumber grammar of ECMA-262.\<close>

definition number_of_string :: "jstring \<Rightarrow> jsnum" where
  [js_defs]: "number_of_string s0 = (let s = trim s0; pre = toLowerCase (take 2 s) in
     if s = [] then Fin 0
     else if pre = ''0x'' then parse_radix 16 (drop 2 s)
     else if pre = ''0o'' then parse_radix 8 (drop 2 s)
     else if pre = ''0b'' then parse_radix 2 (drop 2 s)
     else if startsWith s ''-'' then neg_num (parse_decimal (tl s))
     else if startsWith s ''+'' then parse_decimal (tl s)
     else parse_decimal s)"

definition js_Number :: "jsval \<Rightarrow> jsnum" where
  [js_defs]: "js_Number v = (case v of JUndefined \<Rightarrow> NaN | JNull \<Rightarrow> Fin 0 | JNum n \<Rightarrow> n
     | JStr s \<Rightarrow> number_of_string s)"

lemma js_Number_simps [simp]:
  "js_Number JUndefined = NaN" "js_Number JNull = Fin 0" "js_Number (JNum n) = n"
  "js_Number (JStr s) = number_of_string s"
  by (simp_all add: js_Number_def)

section \<open>Lists\<close>

text \<open>The sum \<^verbatim>\<open>xs.reduce((sum, x) => sum + f(x), 0)\<close>.\<close>

definition reduce_sum :: "('a \<Rightarrow> rat) \<Rightarrow> 'a list \<Rightarrow> rat" where
  "reduce_sum f xs = foldl (\<lambda>s x. s + f x) 0 xs"

lemma foldl_add: "foldl (\<lambda>s x. s + f x) (a::rat) xs = a + sum_list (map f xs)"
  by (induction xs arbitrary: a) auto

lemma reduce_sum_eq: "reduce_sum f xs = sum_list (map f xs)"
  by (simp add: reduce_sum_def foldl_add)

lemma reduce_sum_Nil [simp]: "reduce_sum f [] = 0"
  by (simp add: reduce_sum_eq)

lemma reduce_sum_Cons [simp]: "reduce_sum f (x # xs) = f x + reduce_sum f xs"
  by (simp add: reduce_sum_eq)

lemma reduce_sum_append [simp]: "reduce_sum f (xs @ ys) = reduce_sum f xs + reduce_sum f ys"
  by (simp add: reduce_sum_eq)

lemma reduce_sum_partition:
  "reduce_sum f (filter P xs) + reduce_sum f (filter (\<lambda>x. \<not> P x) xs) = reduce_sum f xs"
  by (induction xs) auto

lemma reduce_sum_nonneg: "(\<And>x. x \<in> set xs \<Longrightarrow> 0 \<le> f x) \<Longrightarrow> 0 \<le> reduce_sum f xs"
  by (induction xs) auto

lemma find_filter: "List.find P xs = (case filter P xs of [] \<Rightarrow> None | x # _ \<Rightarrow> Some x)"
  by (induction xs) auto

lemma find_SomeD: "List.find P xs = Some x \<Longrightarrow> x \<in> set xs \<and> P x"
  by (auto simp: find_Some_iff)

section \<open>Errors as values\<close>

datatype js_error = TypeError | RangeError

type_synonym 'a result = "js_error + 'a"

fun traverse :: "('a \<Rightarrow> 'e + 'b) \<Rightarrow> 'a list \<Rightarrow> 'e + 'b list" where
  "traverse f [] = Inr []"
| "traverse f (x # xs) = (case f x of Inl e \<Rightarrow> Inl e | Inr y \<Rightarrow>
     (case traverse f xs of Inl e \<Rightarrow> Inl e | Inr ys \<Rightarrow> Inr (y # ys)))"

lemma traverse_total: "(\<And>x. x \<in> set xs \<Longrightarrow> f x = Inr (g x)) \<Longrightarrow> traverse f xs = Inr (map g xs)"
  by (induction xs) auto

lemma traverse_Inr: "traverse f xs = Inr ys \<Longrightarrow> x \<in> set xs \<Longrightarrow> \<exists>y. f x = Inr y"
  by (induction xs arbitrary: ys) (auto split: sum.splits)

lemma traverse_map: "traverse f xs = Inr ys \<Longrightarrow> ys = map (\<lambda>x. projr (f x)) xs"
  by (induction xs arbitrary: ys) (auto split: sum.splits)

lemma traverse_Inl: "traverse f xs = Inl e \<Longrightarrow> \<exists>x\<in>set xs. f x = Inl e"
  by (induction xs) (auto split: sum.splits)

end
