(* ===== verification/Js_Date.thy ===== *)
theory Js_Date
  imports Js_Prelude
begin

text \<open>
  Calendar dates as ECMA-262 computes them. A local \<^verbatim>\<open>Date\<close> at midnight is its day
  number (days since 1 January 1970); \<open>make_day\<close> is the standard's MakeDay with the
  overflow of months and days, \<open>year_of_day\<close>, \<open>month_of_day\<close> and \<open>date_of_day\<close> are
  getFullYear, getMonth (from 0) and getDate. The time zone and the parsing of strings outside
  the date-only ISO format are the parameters of \<open>date_env\<close>. The last part orders
  \<^verbatim>\<open>YYYY-MM-DD\<close> keys as the days they name.
\<close>

section \<open>Days, months and years\<close>

definition is_leap :: "int \<Rightarrow> bool" where
  "is_leap y \<longleftrightarrow> y mod 4 = 0 \<and> (y mod 100 \<noteq> 0 \<or> y mod 400 = 0)"

definition day_from_year :: "int \<Rightarrow> int" where
  "day_from_year y = 365 * (y - 1970) + (y - 1969) div 4 - (y - 1901) div 100 + (y - 1601) div 400"

definition month_start :: "bool \<Rightarrow> int \<Rightarrow> int" where
  "month_start leap m =
     [0, 31, 59, 90, 120, 151, 181, 212, 243, 273, 304, 334, 365] ! nat m +
     (if leap \<and> 2 \<le> m then 1 else 0)"

definition days_in_month :: "int \<Rightarrow> int \<Rightarrow> int" where
  "days_in_month y m = month_start (is_leap y) (m + 1) - month_start (is_leap y) m"

definition make_day :: "int \<Rightarrow> int \<Rightarrow> int \<Rightarrow> int" where
  "make_day y m d = (let ym = y + m div 12 in
     day_from_year ym + month_start (is_leap ym) (m mod 12) + d - 1)"

definition year_of_day :: "int \<Rightarrow> int" where
  "year_of_day n = (let e = 1970 + (400 * n) div 146097 in
     if day_from_year (e + 1) \<le> n then e + 1 else if n < day_from_year e then e - 1 else e)"

fun find_month :: "bool \<Rightarrow> int \<Rightarrow> nat \<Rightarrow> int" where
  "find_month leap k 0 = 0"
| "find_month leap k (Suc i) =
     (if month_start leap (int (Suc i)) \<le> k then int (Suc i) else find_month leap k i)"

definition month_of_day :: "int \<Rightarrow> int" where
  "month_of_day n = (let y = year_of_day n in find_month (is_leap y) (n - day_from_year y) 11)"

definition date_of_day :: "int \<Rightarrow> int" where
  "date_of_day n = (let y = year_of_day n in
     n - day_from_year y - month_start (is_leap y) (month_of_day n) + 1)"

lemma div_bounds: "0 < c \<Longrightarrow> c * (a div c) \<le> a \<and> a < c * (a div c) + (c::int)"
  using mult_div_mod_eq [of c a] pos_mod_sign [of c a] pos_mod_bound [of c a] by linarith

lemma div_Suc:
  assumes "0 < (c::int)"
  shows "(a + 1) div c = a div c + (if (a + 1) mod c = 0 then 1 else 0)"
proof (cases "a mod c = c - 1")
  case True
  then have "a + 1 = c * (a div c + 1) + 0"
    using mult_div_mod_eq [of c a] by (simp add: distrib_left)
  then show ?thesis
    using assms int_div_pos_eq [of "a + 1" c "a div c + 1" 0] int_mod_pos_eq [of "a + 1" c "a div c + 1" 0]
    by simp
next
  case False
  then have r: "a mod c + 1 < c" "0 \<le> a mod c"
    using assms pos_mod_bound [of c a] pos_mod_sign [of c a] by linarith+
  have "a + 1 = c * (a div c) + (a mod c + 1)" by simp
  then show ?thesis
    using r int_div_pos_eq [of "a + 1" c "a div c" "a mod c + 1"]
      int_mod_pos_eq [of "a + 1" c "a div c" "a mod c + 1"] by simp
qed

lemma day_from_year_bounds:
  "146097 * y - 287811596 \<le> 400 * day_from_year y"
  "400 * day_from_year y \<le> 146097 * y - 287810501"
proof -
  define p q r where d: "p = (y - 1969) div 4" "q = (y - 1901) div 100" "r = (y - 1601) div 400"
  have "4 * p \<le> y - 1969" "y - 1969 < 4 * p + 4" "100 * q \<le> y - 1901" "y - 1901 < 100 * q + 100"
    "400 * r \<le> y - 1601" "y - 1601 < 400 * r + 400"
    unfolding d using div_bounds [of 4] div_bounds [of 100] div_bounds [of 400] by simp_all
  moreover have "day_from_year y = 365 * y - 719050 + p - q + r"
    by (simp add: day_from_year_def d)
  ultimately show "146097 * y - 287811596 \<le> 400 * day_from_year y"
    "400 * day_from_year y \<le> 146097 * y - 287810501" by linarith+
qed

lemma day_from_year_mono: "y < y' \<Longrightarrow> day_from_year y < day_from_year y'"
  using day_from_year_bounds [of y] day_from_year_bounds [of y'] by linarith

lemma day_from_year_le_iff [simp]: "day_from_year y \<le> day_from_year y' \<longleftrightarrow> y \<le> y'"
  using day_from_year_mono by (metis linorder_not_less order_le_less)

lemma mod_shift: "(y + c * k) mod c = y mod (c::int)"
  by (rule mod_mult_self2)

lemma div_step:
  assumes "0 < (c::int)" "b = c * k"
  shows "(y - b) div c = (y - (b + 1)) div c + (if y mod c = 0 then 1 else 0)"
proof -
  have "y - (b + 1) + 1 = y - b" by simp
  moreover have "y + c * (- k) = y - b" using assms(2) by simp
  ultimately show ?thesis using div_Suc [OF assms(1), of "y - (b + 1)"] mod_shift [of y c "- k"]
    by simp
qed

lemma leap_divs:
  "(y - 1968) div 4 = (y - 1969) div 4 + (if y mod 4 = 0 then 1 else (0::int))"
  "(y - 1900) div 100 = (y - 1901) div 100 + (if y mod 100 = 0 then 1 else 0)"
  "(y - 1600) div 400 = (y - 1601) div 400 + (if y mod 400 = 0 then 1 else 0)"
proof -
  have "(1968::int) + 1 = 1969" "(1900::int) + 1 = 1901" "(1600::int) + 1 = 1601" by simp_all
  note n = this
  have "(1968::int) = 4 * 492" "(1900::int) = 100 * 19" "(1600::int) = 400 * 4" by simp_all
  note k = this
  have p: "(0::int) < 4" "(0::int) < 100" "(0::int) < 400" by simp_all
  show "(y - 1968) div 4 = (y - 1969) div 4 + (if y mod 4 = 0 then 1 else (0::int))"
    by (rule div_step [OF p(1) k(1), unfolded n])
  show "(y - 1900) div 100 = (y - 1901) div 100 + (if y mod 100 = 0 then 1 else 0)"
    by (rule div_step [OF p(2) k(2), unfolded n])
  show "(y - 1600) div 400 = (y - 1601) div 400 + (if y mod 400 = 0 then 1 else 0)"
    by (rule div_step [OF p(3) k(3), unfolded n])
qed

lemma mod_dvd_zero: "b dvd a \<Longrightarrow> y mod a = 0 \<Longrightarrow> y mod b = (0::int)"
  using mod_mod_cancel [of b a y] by simp

lemma leap_indicator:
  "(if is_leap y then 366 else 365) = 365 + (if y mod 4 = 0 then 1 else 0)
     - (if y mod 100 = 0 then 1 else 0) + (if y mod 400 = 0 then 1 else (0::int))"
proof -
  have gen: "(C \<longrightarrow> B) \<Longrightarrow> (B \<longrightarrow> A) \<Longrightarrow>
    (if A \<and> (\<not> B \<or> C) then 366 else 365) = 365 + (if A then 1 else 0)
      - (if B then 1 else 0) + (if C then 1 else (0::int))" for A B C
    by (cases A; cases B; cases C) simp_all
  have "y mod 400 = 0 \<longrightarrow> y mod 100 = 0"
    by (intro impI, rule mod_dvd_zero [of 100 400]) simp_all
  moreover have "y mod 100 = 0 \<longrightarrow> y mod 4 = 0"
    by (intro impI, rule mod_dvd_zero [of 4 100]) simp_all
  ultimately show ?thesis unfolding is_leap_def by (rule gen)
qed

lemma day_from_year_Suc:
  "day_from_year (y + 1) = day_from_year y + (if is_leap y then 366 else 365)"
proof -
  have gen: "365 * (x + 1) + (p + a) - (q + b) + (r + c) =
    365 * x + p - q + r + (365 + a - b + c)" for x p q r a b c :: int
    by simp
  have "y + 1 - 1970 = y - 1970 + 1" "y + 1 - 1969 = y - 1968" "y + 1 - 1901 = y - 1900"
    "y + 1 - 1601 = y - 1600" by simp_all
  then show ?thesis
    unfolding leap_indicator day_from_year_def by (simp only: leap_divs gen)
qed

lemma year_of_day_bounds:
  "day_from_year (year_of_day n) \<le> n" "n < day_from_year (year_of_day n + 1)"
proof -
  define e where "e = 1970 + (400 * n) div 146097"
  have e: "146097 * e - 287811090 \<le> 400 * n" "400 * n < 146097 * e - 287664993"
    using div_bounds [of 146097 "400 * n"] unfolding e_def by simp_all
  have "day_from_year (e - 1) \<le> n"
  proof -
    have "400 * day_from_year (e - 1) \<le> 146097 * e - 287956598"
      using day_from_year_bounds(2) [of "e - 1"] by simp
    then show ?thesis using e(1) by linarith
  qed
  moreover have "n < day_from_year (e + 2)"
  proof -
    have "146097 * e - 287519402 \<le> 400 * day_from_year (e + 2)"
      using day_from_year_bounds(1) [of "e + 2"] by simp
    then show ?thesis using e(2) by linarith
  qed
  ultimately have "day_from_year (year_of_day n) \<le> n \<and> n < day_from_year (year_of_day n + 1)"
    unfolding year_of_day_def Let_def e_def [symmetric] by (simp add: algebra_simps)
  then show "day_from_year (year_of_day n) \<le> n" "n < day_from_year (year_of_day n + 1)" by auto
qed

lemma year_of_day_unique: "day_from_year y \<le> n \<Longrightarrow> n < day_from_year (y + 1) \<Longrightarrow> year_of_day n = y"
  using year_of_day_bounds [of n] day_from_year_le_iff [of "y + 1" "year_of_day n"]
    day_from_year_le_iff [of "year_of_day n + 1" y] by linarith

lemma month_cases:
  assumes "0 \<le> m" "m < (12::int)"
  obtains "m = 0" | "m = 1" | "m = 2" | "m = 3" | "m = 4" | "m = 5" | "m = 6" | "m = 7"
    | "m = 8" | "m = 9" | "m = 10" | "m = 11"
  using assms by (atomize_elim) presburger

lemma find_month_correct:
  assumes "0 \<le> m" "m < 12" "month_start l m \<le> k" "k < month_start l (m + 1)"
  shows "find_month l k 11 = m"
  using assms(3,4) by (cases rule: month_cases [OF assms(1,2)])
    (auto simp: month_start_def numeral_eq_Suc split: if_splits)

lemma find_month_invariant:
  "0 \<le> k \<Longrightarrow> 0 \<le> find_month l k i \<and> find_month l k i \<le> int i \<and>
    month_start l (find_month l k i) \<le> k \<and>
    (find_month l k i = int i \<or> k < month_start l (find_month l k i + 1))"
proof (induction i)
  case 0
  then show ?case by (simp add: month_start_def)
next
  case (Suc i)
  then show ?case by (auto simp: add.commute)
qed

lemma find_month_bounds:
  assumes "0 \<le> k" "k < month_start l 12"
  shows "0 \<le> find_month l k 11 \<and> find_month l k 11 < 12 \<and>
    month_start l (find_month l k 11) \<le> k \<and> k < month_start l (find_month l k 11 + 1)"
proof -
  have "int 11 = 11" "(11::int) + 1 = 12" by simp_all
  then show ?thesis using find_month_invariant [OF assms(1), of l 11] assms(2)
    by (metis eval_nat_numeral(3) linorder_not_less nle_le order_le_less_trans zless_add1_eq)
qed

lemma month_start_year: "month_start l 12 = (if l then 366 else 365)"
  by (simp add: month_start_def)

definition valid_date :: "int \<Rightarrow> int \<Rightarrow> int \<Rightarrow> bool" where
  "valid_date y m d \<longleftrightarrow> 0 \<le> m \<and> m < 12 \<and> 1 \<le> d \<and> d \<le> days_in_month y m"

lemma month_start_range:
  "0 \<le> m \<Longrightarrow> m < 12 \<Longrightarrow> 0 \<le> month_start l m \<and> month_start l (m + 1) \<le> month_start l 12"
  by (erule (1) month_cases) (auto simp: month_start_def)

lemma days_in_month_bounds: "0 \<le> m \<Longrightarrow> m < 12 \<Longrightarrow> 28 \<le> days_in_month y m \<and> days_in_month y m \<le> 31"
  by (erule (1) month_cases) (auto simp: days_in_month_def month_start_def)

lemma make_day_normal: "0 \<le> m \<Longrightarrow> m < 12 \<Longrightarrow>
    make_day y m d = day_from_year y + month_start (is_leap y) m + d - 1"
  by (simp add: make_day_def)

lemma valid_date_doy:
  assumes "valid_date y m d"
  shows "month_start (is_leap y) m \<le> make_day y m d - day_from_year y"
    "make_day y m d - day_from_year y < month_start (is_leap y) (m + 1)"
    "day_from_year y \<le> make_day y m d" "make_day y m d < day_from_year (y + 1)"
proof -
  have m: "0 \<le> m" "m < 12" using assms by (auto simp: valid_date_def)
  have "0 \<le> month_start (is_leap y) m" "month_start (is_leap y) (m + 1) \<le> month_start (is_leap y) 12"
    using month_start_range [OF m] by auto
  then show "month_start (is_leap y) m \<le> make_day y m d - day_from_year y"
    "make_day y m d - day_from_year y < month_start (is_leap y) (m + 1)"
    "day_from_year y \<le> make_day y m d" "make_day y m d < day_from_year (y + 1)"
    using assms m
    by (auto simp: valid_date_def make_day_normal days_in_month_def day_from_year_Suc
        month_start_year split: if_splits)
qed

text \<open>Building a date and reading its fields are inverse.\<close>

lemma fields_make_day:
  assumes "valid_date y m d"
  shows "year_of_day (make_day y m d) = y" "month_of_day (make_day y m d) = m"
    "date_of_day (make_day y m d) = d"
proof -
  note b = valid_date_doy [OF assms]
  show y: "year_of_day (make_day y m d) = y" using b by (intro year_of_day_unique)
  have m: "0 \<le> m" "m < 12" using assms by (auto simp: valid_date_def)
  show mo: "month_of_day (make_day y m d) = m"
    using find_month_correct [OF m b(1,2)] y by (simp add: month_of_day_def)
  show "date_of_day (make_day y m d) = d"
    using y mo m by (simp add: date_of_day_def make_day_normal)
qed

lemma fields_valid: "valid_date (year_of_day n) (month_of_day n) (date_of_day n)"
  and make_day_fields: "make_day (year_of_day n) (month_of_day n) (date_of_day n) = n"
proof -
  let ?y = "year_of_day n"
  have "0 \<le> n - day_from_year ?y" "n - day_from_year ?y < month_start (is_leap ?y) 12"
    using year_of_day_bounds [of n] by (auto simp: day_from_year_Suc month_start_year split: if_splits)
  note b = find_month_bounds [OF this]
  then show v: "valid_date ?y (month_of_day n) (date_of_day n)"
    by (auto simp: valid_date_def days_in_month_def month_of_day_def date_of_day_def Let_def)
  then show "make_day ?y (month_of_day n) (date_of_day n) = n"
    by (simp add: valid_date_def make_day_normal) (simp add: date_of_day_def Let_def)
qed

text \<open>Day 0 of the next month is the last day of this one.\<close>

lemma make_day_last:
  assumes "0 \<le> m" "m < 12"
  shows "make_day y (m + 1) 0 = make_day y m (days_in_month y m)"
proof (cases "m = 11")
  case True
  then show ?thesis
    by (simp add: make_day_def days_in_month_def day_from_year_Suc)
      (simp add: month_start_def)
next
  case False
  then show ?thesis using assms by (simp add: make_day_normal days_in_month_def)
qed

lemma valid_last: "0 \<le> m \<Longrightarrow> m < 12 \<Longrightarrow> valid_date y m (days_in_month y m)"
  using days_in_month_bounds [of m y] by (simp add: valid_date_def)

lemma valid_first: "0 \<le> m \<Longrightarrow> m < 12 \<Longrightarrow> valid_date y m 1"
  using days_in_month_bounds [of m y] by (simp add: valid_date_def)

lemma last_day_fields:
  assumes "0 \<le> m" "m < 12"
  shows "year_of_day (make_day y (m + 1) 0) = y" "month_of_day (make_day y (m + 1) 0) = m"
    "date_of_day (make_day y (m + 1) 0) = days_in_month y m"
  using fields_make_day [OF valid_last [OF assms, of y]] make_day_last [OF assms] by simp_all

lemma make_day_month_norm: "make_day y m d = make_day (y + m div 12) (m mod 12) d"
  by (simp add: make_day_def)

lemma make_day_add: "make_day y m (d + k) = make_day y m d + k"
  by (simp add: make_day_def Let_def)

section \<open>Decimal digits and date keys\<close>

definition digit_char :: "nat \<Rightarrow> char" where
  [js_defs]: "digit_char n = char_of (48 + n)"

fun dec :: "nat \<Rightarrow> jstring" where
  "dec n = (if n < 10 then [digit_char n] else dec (n div 10) @ [digit_char (n mod 10)])"

declare dec.simps [simp del]

text \<open>\<^verbatim>\<open>String(n)\<close> of an integer, and \<^verbatim>\<open>s.padStart(w, '0')\<close>.\<close>

definition int_str :: "int \<Rightarrow> jstring" where
  [js_defs]: "int_str n = (if n < 0 then CHR ''-'' # dec (nat (- n)) else dec (nat n))"

definition pad_start :: "nat \<Rightarrow> jstring \<Rightarrow> jstring" where
  [js_defs]: "pad_start w s = replicate (w - length s) (CHR ''0'') @ s"

lemma code_at_digit [simp]: "n < 10 \<Longrightarrow> code_at (digit_char n) = 48 + n"
  by (simp add: digit_char_def)

lemma is_digit_digit_char [simp]: "n < 10 \<Longrightarrow> is_digit (digit_char n)"
  by (simp add: is_digit_def)

lemma char_less_code: "(c :: char) < d \<longleftrightarrow> code_at c < code_at d"
  by (simp add: code_at_def less_char_def)

lemma digit_char_less [simp]: "m < 10 \<Longrightarrow> n < 10 \<Longrightarrow> digit_char m < digit_char n \<longleftrightarrow> m < n"
  by (simp add: char_less_code)

lemma digit_char_eq [simp]: "m < 10 \<Longrightarrow> n < 10 \<Longrightarrow> digit_char m = digit_char n \<longleftrightarrow> m = n"
  by (metis add_left_cancel code_at_digit)

lemma digit_char_0: "digit_char 0 = CHR ''0''"
proof -
  have "of_char (CHR ''0'') = (48 :: nat)" by simp
  then show ?thesis by (metis add_0_right char_of_char digit_char_def)
qed

text \<open>Fixed-width decimals: what zero padding produces, ordered as the numbers are.\<close>

fun fixed :: "nat \<Rightarrow> nat \<Rightarrow> jstring" where
  "fixed 0 n = []"
| "fixed (Suc w) n = fixed w (n div 10) @ [digit_char (n mod 10)]"

lemma length_fixed [simp]: "length (fixed w n) = w"
  by (induction w arbitrary: n) auto

lemma fixed_zero: "fixed w 0 = replicate w (CHR ''0'')"
  by (induction w) (auto simp: digit_char_0 replicate_append_same)

lemma dec_step: "10 \<le> n \<Longrightarrow> dec n = dec (n div 10) @ [digit_char (n mod 10)]"
  by (simp add: dec.simps [of n])

lemma dec_small: "n < 10 \<Longrightarrow> dec n = [digit_char n]"
  by (simp add: dec.simps [of n])

lemma pad_start_fixed: "0 < w \<Longrightarrow> n < 10 ^ w \<Longrightarrow> pad_start w (dec n) = fixed w n"
proof (induction w arbitrary: n)
  case (Suc w)
  show ?case
  proof (cases "n < 10")
    case True
    then show ?thesis by (simp add: dec_small pad_start_def fixed_zero)
  next
    case False
    then have "w \<noteq> 0" using Suc.prems by (cases w) auto
    moreover have "n div 10 < 10 ^ w" using Suc.prems by (simp add: less_mult_imp_div_less mult.commute)
    ultimately have "pad_start w (dec (n div 10)) = fixed w (n div 10)" using Suc.IH by simp
    then show ?thesis using False by (simp add: dec_step pad_start_def)
  qed
qed simp

lemma lex_append:
  "length a = length b \<Longrightarrow> (a @ x < b @ y) \<longleftrightarrow> (a < b \<or> (a = b \<and> x < (y :: 'a :: linorder list)))"
proof (induction a b rule: list_induct2)
  case (Cons u us v vs)
  then show ?case by auto
qed simp

lemma fixed_inject: "m < 10 ^ w \<Longrightarrow> n < 10 ^ w \<Longrightarrow> fixed w m = fixed w n \<longleftrightarrow> m = n"
proof (induction w arbitrary: m n)
  case (Suc w)
  have "m div 10 < 10 ^ w" "n div 10 < 10 ^ w"
    using Suc.prems by (simp_all add: less_mult_imp_div_less mult.commute)
  then have "fixed (Suc w) m = fixed (Suc w) n \<longleftrightarrow> m div 10 = n div 10 \<and> m mod 10 = n mod 10"
    using Suc.IH by simp
  then show ?case by (metis mult_div_mod_eq)
qed simp

lemma fixed_less: "m < 10 ^ w \<Longrightarrow> n < 10 ^ w \<Longrightarrow> fixed w m < fixed w n \<longleftrightarrow> m < n"
proof (induction w arbitrary: m n)
  case (Suc w)
  have d: "m div 10 < 10 ^ w" "n div 10 < 10 ^ w"
    using Suc.prems by (simp_all add: less_mult_imp_div_less mult.commute)
  then have "fixed (Suc w) m < fixed (Suc w) n \<longleftrightarrow>
      m div 10 < n div 10 \<or> (m div 10 = n div 10 \<and> m mod 10 < n mod 10)"
    using Suc.IH [OF d] fixed_inject [OF d] by (simp add: lex_append)
  also have "\<dots> \<longleftrightarrow> m < n"
    using mult_div_mod_eq [of 10 m] mult_div_mod_eq [of 10 n]
      mod_less_divisor [of 10 m] mod_less_divisor [of 10 n] by linarith
  finally show ?case .
qed simp

text \<open>
  \<^verbatim>\<open>YYYY-MM-DD\<close> with zero padding, as \<^verbatim>\<open>fmt\<close>, \<^verbatim>\<open>toDateOnlyKey\<close> and
  \<^verbatim>\<open>toISOString().slice(0, 10)\<close> write it. The month counts from 0.
\<close>

definition date_key :: "int \<Rightarrow> int \<Rightarrow> int \<Rightarrow> jstring" where
  "date_key y m d = pad_start 4 (int_str y) @ ''-'' @ pad_start 2 (int_str (m + 1)) @ ''-'' @
     pad_start 2 (int_str d)"

definition day_key :: "int \<Rightarrow> jstring" where
  "day_key n = date_key (year_of_day n) (month_of_day n) (date_of_day n)"

lemma pad_int_str: "0 < w \<Longrightarrow> 0 \<le> n \<Longrightarrow> n < 10 ^ w \<Longrightarrow> pad_start w (int_str n) = fixed w (nat n)"
  by (simp add: int_str_def) (rule pad_start_fixed, simp_all add: nat_less_iff)

lemma int_str_no_pad:
  assumes "10 ^ (w - 1) \<le> n" "n < 10 ^ w" "0 < w"
  shows "int_str n = pad_start w (int_str n)"
proof -
  have "10 ^ w \<le> k \<Longrightarrow> Suc w \<le> length (dec k)" for k w
  proof (induction w arbitrary: k)
    case (Suc w)
    have "10 \<le> 10 * (10 :: nat) ^ w" by simp
    then have "10 \<le> k" using Suc.prems by (metis order_trans power_Suc)
    moreover have "10 ^ w \<le> k div 10" using Suc.prems by (simp add: less_eq_div_iff_mult_less_eq mult.commute)
    ultimately show ?case using Suc.IH [of "k div 10"] by (simp add: dec_step)
  next
    case 0
    then show ?case by (subst dec.simps) simp
  qed
  moreover have "10 ^ (w - 1) \<le> nat n" using assms(1) by (simp add: le_nat_iff)
  ultimately have "w \<le> length (dec (nat n))" using assms(3) by (metis Suc_pred')
  moreover have "0 \<le> n" using assms(1) by (meson order_trans zero_le_numeral zero_le_power)
  ultimately show ?thesis by (simp add: int_str_def pad_start_def)
qed

lemma month_start_mono:
  assumes "0 \<le> m" "m \<le> m'" "m' \<le> 12"
  shows "month_start l m \<le> month_start l m'"
proof -
  have "sorted [0, 31, 59, 90, 120, 151, 181, 212, 243, 273, 304, 334, 365 :: int]" by simp
  then have "[0, 31, 59, 90, 120, 151, 181, 212, 243, 273, 304, 334, 365 :: int] ! nat m
      \<le> [0, 31, 59, 90, 120, 151, 181, 212, 243, 273, 304, 334, 365] ! nat m'"
    by (rule sorted_nth_mono) (use assms in \<open>auto simp: nat_le_iff\<close>)
  then show ?thesis using assms by (auto simp: month_start_def)
qed

lemma make_day_less_lex:
  assumes v: "valid_date y m d" "valid_date y' m' d'"
    and less: "y < y' \<or> (y = y' \<and> (m < m' \<or> (m = m' \<and> d < d')))"
  shows "make_day y m d < make_day y' m' d'"
proof -
  note b = valid_date_doy [OF v(1)] and b' = valid_date_doy [OF v(2)]
  have m: "0 \<le> m" "m < 12" "0 \<le> m'" "m' < 12" using v by (auto simp: valid_date_def)
  consider "y < y'" | "y = y'" "m < m'" | "y = y'" "m = m'" "d < d'" using less by blast
  then show ?thesis
  proof cases
    case 1
    then have "day_from_year (y + 1) \<le> day_from_year y'" by (simp add: day_from_year_le_iff)
    then show ?thesis using b(4) b'(3) by linarith
  next
    case 2
    then have "month_start (is_leap y) (m + 1) \<le> month_start (is_leap y) m'"
      using m by (intro month_start_mono) auto
    then show ?thesis using b(2) b'(1) 2 by simp
  next
    case 3
    then show ?thesis using m by (simp add: make_day_normal)
  qed
qed

lemma make_day_less_iff:
  assumes "valid_date y m d" "valid_date y' m' d'"
  shows "make_day y m d < make_day y' m' d' \<longleftrightarrow>
    y < y' \<or> (y = y' \<and> (m < m' \<or> (m = m' \<and> d < d')))"
  using make_day_less_lex [OF assms] make_day_less_lex [OF assms(2,1)]
  by (metis linorder_neqE not_less_iff_gr_or_eq)

lemma date_key_less_iff:
  assumes v: "valid_date y m d" "valid_date y' m' d'"
    and y: "0 \<le> y" "y < 10000" "0 \<le> y'" "y' < 10000"
  shows "date_key y m d < date_key y' m' d' \<longleftrightarrow> make_day y m d < make_day y' m' d'"
proof -
  have r: "0 \<le> m" "m < 12" "1 \<le> d" "d \<le> 31" "0 \<le> m'" "m' < 12" "1 \<le> d'" "d' \<le> 31"
    using v days_in_month_bounds [of m y] days_in_month_bounds [of m' y']
    by (auto simp: valid_date_def)
  have k: "date_key a b c = fixed 4 (nat a) @ ''-'' @ fixed 2 (nat (b + 1)) @ ''-'' @ fixed 2 (nat c)"
    if "0 \<le> a" "a < 10000" "0 \<le> b" "b < 12" "1 \<le> c" "c \<le> 31" for a b c
    using that pad_int_str [of 4 a] pad_int_str [of 2 "b + 1"] pad_int_str [of 2 c]
    by (simp add: date_key_def)
  show ?thesis
    unfolding k [OF y(1,2) r(1-4)] k [OF y(3,4) r(5-8)] make_day_less_iff [OF v]
    using y r fixed_less [of "nat y" 4 "nat y'"] fixed_inject [of "nat y" 4 "nat y'"]
      fixed_less [of "nat (m + 1)" 2 "nat (m' + 1)"] fixed_inject [of "nat (m + 1)" 2 "nat (m' + 1)"]
      fixed_less [of "nat d" 2 "nat d'"]
    by (auto simp: lex_append nat_less_iff zless_nat_conj)
qed

definition four_digit_day :: "int \<Rightarrow> bool" where
  "four_digit_day n \<longleftrightarrow> 0 \<le> year_of_day n \<and> year_of_day n < 10000"

lemma day_key_less_iff:
  assumes "four_digit_day m" "four_digit_day n"
  shows "day_key m < day_key n \<longleftrightarrow> m < n"
proof -
  have "day_key m < day_key n \<longleftrightarrow> make_day (year_of_day m) (month_of_day m) (date_of_day m)
      < make_day (year_of_day n) (month_of_day n) (date_of_day n)"
    unfolding day_key_def using assms
    by (intro date_key_less_iff) (auto simp: four_digit_day_def fields_valid)
  then show ?thesis by (simp add: make_day_fields)
qed

lemma day_key_le_iff:
  "four_digit_day m \<Longrightarrow> four_digit_day n \<Longrightarrow> day_key m \<le> day_key n \<longleftrightarrow> m \<le> n"
  using day_key_less_iff [of n m] by (simp add: linorder_not_less [symmetric])

section \<open>Date objects and their environment\<close>

text \<open>
  The host supplies the time zone and the parsing of strings outside the ISO date-only format:
  \<open>de_parse\<close> is \<^verbatim>\<open>Date.parse\<close> there (milliseconds, \<open>None\<close> for NaN), \<open>de_offset t\<close> is
  the local offset at the instant \<open>t\<close>, and \<open>de_midnight n\<close> the instant at which the local
  day \<open>n\<close> begins.
\<close>

record date_env =
  de_parse :: "jstring \<Rightarrow> int option"
  de_offset :: "int \<Rightarrow> int"
  de_midnight :: "int \<Rightarrow> int"

abbreviation ms_per_day :: int where "ms_per_day \<equiv> 86400000"

definition local_day :: "date_env \<Rightarrow> int \<Rightarrow> int" where
  "local_day e t = (t + de_offset e t) div ms_per_day"

definition zone_ok :: "date_env \<Rightarrow> bool" where
  "zone_ok e \<longleftrightarrow> (\<forall>n. local_day e (de_midnight e n) = n)"

text \<open>The host in UTC that parses nothing beyond the ISO format, for concrete examples.\<close>

definition utc_env :: date_env where
  "utc_env = \<lparr>de_parse = (\<lambda>_. None), de_offset = (\<lambda>_. 0),
     de_midnight = (\<lambda>n. n * ms_per_day)\<rparr>"

lemma zone_ok_utc: "zone_ok utc_env"
  by (simp add: zone_ok_def local_day_def utc_env_def)

text \<open>\<^verbatim>\<open>new Date(y, m, d)\<close> reads the years 0 to 99 as 1900 to 1999.\<close>

definition new_date :: "int \<Rightarrow> int \<Rightarrow> int \<Rightarrow> int" where
  "new_date y m d = make_day (if 0 \<le> y \<and> y \<le> 99 then 1900 + y else y) m d"

definition two_digits :: "jstring \<Rightarrow> int" where
  [js_defs]: "two_digits s = int (digits_value s)"

text \<open>The prefix test \<^verbatim>\<open>/^(\d{4})-(\d{2})-(\d{2})/\<close>.\<close>

definition date_only_prefix :: "jstring \<Rightarrow> bool" where
  [js_defs]: "date_only_prefix s \<longleftrightarrow> 10 \<le> length s \<and>
     list_all is_digit (take 4 s) \<and> s ! 4 = CHR ''-'' \<and>
     list_all is_digit (take 2 (drop 5 s)) \<and> s ! 7 = CHR ''-'' \<and>
     list_all is_digit (take 2 (drop 8 s))"

text \<open>
  \<^verbatim>\<open>new Date(s).getTime()\<close>: a valid \<^verbatim>\<open>YYYY-MM-DD\<close> is UTC midnight; every other
  string, an impossible calendar date included, is left to the host.
\<close>

definition date_parse :: "date_env \<Rightarrow> jstring \<Rightarrow> int option" where
  "date_parse e s =
     (let y = two_digits (take 4 s); m = two_digits (take 2 (drop 5 s)) - 1;
          d = two_digits (take 2 (drop 8 s))
      in if date_only_prefix s \<and> length s = 10 \<and> valid_date y m d
         then Some (ms_per_day * make_day y m d) else de_parse e s)"

text \<open>\<^verbatim>\<open>toISOString().slice(0, 10)\<close>, with the expanded years outside 0 to 9999.\<close>

definition iso_year :: "int \<Rightarrow> jstring" where
  "iso_year y = (if 0 \<le> y \<and> y \<le> 9999 then pad_start 4 (int_str y)
     else (if y < 0 then ''-'' else ''+'') @ pad_start 6 (int_str \<bar>y\<bar>))"

definition iso_slice10 :: "int \<Rightarrow> jstring" where
  "iso_slice10 t = (let n = t div ms_per_day in
     take 10 (iso_year (year_of_day n) @ ''-'' @ pad_start 2 (int_str (month_of_day n + 1)) @
       ''-'' @ pad_start 2 (int_str (date_of_day n))))"

lemma length_date_key:
  assumes "valid_date y m d" "0 \<le> y" "y < 10000"
  shows "length (date_key y m d) = 10"
proof -
  have "0 \<le> m" "m < 12" "1 \<le> d" "d \<le> 31"
    using assms days_in_month_bounds [of m y] by (auto simp: valid_date_def)
  then show ?thesis
    using assms pad_int_str [of 4 y] pad_int_str [of 2 "m + 1"] pad_int_str [of 2 d]
    by (simp add: date_key_def)
qed

lemma iso_slice10_day_key:
  "four_digit_day (t div ms_per_day) \<Longrightarrow> iso_slice10 t = day_key (t div ms_per_day)"
  using length_date_key [OF fields_valid [of "t div ms_per_day"]]
  by (simp add: iso_slice10_def iso_year_def four_digit_day_def day_key_def date_key_def Let_def)

lemma digits_value_fixed: "n < 10 ^ w \<Longrightarrow> digits_value (fixed w n) = n"
proof (induction w arbitrary: n)
  case 0
  then show ?case by (simp add: digits_value_def)
next
  case (Suc w)
  have "n div 10 < 10 ^ w" using Suc.prems by (simp add: less_mult_imp_div_less mult.commute)
  then show ?case using Suc.IH [of "n div 10"] by (simp add: digits_value_def)
qed

lemma all_digits_fixed: "list_all is_digit (fixed w n)"
  by (induction w arbitrary: n) auto

text \<open>Writing a date key and parsing it gives back the day.\<close>

lemma date_parse_date_key:
  assumes v: "valid_date y m d" and y: "0 \<le> y" "y < 10000"
  shows "date_only_prefix (date_key y m d)"
    "date_parse e (date_key y m d) = Some (ms_per_day * make_day y m d)"
proof -
  have r: "0 \<le> m" "m < 12" "1 \<le> d" "d \<le> 31"
    using v days_in_month_bounds [of m y] by (auto simp: valid_date_def)
  let ?Y = "fixed 4 (nat y)" and ?M = "fixed 2 (nat (m + 1))" and ?D = "fixed 2 (nat d)"
  have k: "date_key y m d = ?Y @ ''-'' @ ?M @ ''-'' @ ?D"
    using r y pad_int_str [of 4 y] pad_int_str [of 2 "m + 1"] pad_int_str [of 2 d]
    by (simp add: date_key_def)
  have s: "take 4 (?Y @ z) = ?Y" "drop 5 (?Y @ c # z) = z" "(?Y @ c # z) ! 4 = c" for c z
    by (simp_all add: nth_append)
  have s2: "take 2 (?M @ z) = ?M" "take 2 ?D = ?D" for z by simp_all
  have s8: "drop 8 (date_key y m d) = ?D" and n7: "date_key y m d ! 7 = CHR ''-''"
    by (simp_all add: k nth_append)
  have pieces: "take 4 (date_key y m d) = ?Y" "take 2 (drop 5 (date_key y m d)) = ?M"
    "take 2 (drop 8 (date_key y m d)) = ?D" "date_key y m d ! 4 = CHR ''-''"
    unfolding s8 by (simp_all add: k s s2 nth_append)
  show p: "date_only_prefix (date_key y m d)"
    unfolding date_only_prefix_def pieces n7
    using length_date_key [OF v y] by (simp add: all_digits_fixed)
  have vals: "two_digits ?Y = y" "two_digits ?M = m + 1" "two_digits ?D = d"
    using y r by (simp_all add: two_digits_def digits_value_fixed nat_less_iff)
  show "date_parse e (date_key y m d) = Some (ms_per_day * make_day y m d)"
    unfolding date_parse_def pieces vals Let_def using p length_date_key [OF v y] v by simp
qed

lemma date_parse_day_key:
  "four_digit_day n \<Longrightarrow> date_parse e (day_key n) = Some (ms_per_day * n)"
  using date_parse_date_key(2) [OF fields_valid, of n e]
  by (simp add: day_key_def four_digit_day_def make_day_fields)

lemma date_only_day_key: "four_digit_day n \<Longrightarrow> date_only_prefix (day_key n) \<and> length (day_key n) = 10"
  using date_parse_date_key(1) [OF fields_valid, of n] length_date_key [OF fields_valid, of n]
  by (simp add: day_key_def four_digit_day_def)

section \<open>Keys and days\<close>

lemma year_of_day_mono: "m \<le> n \<Longrightarrow> year_of_day m \<le> year_of_day n"
proof -
  assume "m \<le> n"
  then have "day_from_year (year_of_day m) < day_from_year (year_of_day n + 1)"
    using year_of_day_bounds(1) [of m] year_of_day_bounds(2) [of n] by linarith
  then have "\<not> day_from_year (year_of_day n + 1) \<le> day_from_year (year_of_day m)" by linarith
  then show ?thesis using day_from_year_le_iff [of "year_of_day n + 1" "year_of_day m"] by linarith
qed

lemma four_digit_between: "four_digit_day a \<Longrightarrow> four_digit_day b \<Longrightarrow> a \<le> n \<Longrightarrow> n \<le> b \<Longrightarrow> four_digit_day n"
  using year_of_day_mono [of a n] year_of_day_mono [of n b] by (simp add: four_digit_day_def)

lemma day_key_digit: "four_digit_day n \<Longrightarrow> \<exists>c s. day_key n = c # s \<and> is_digit c"
  using date_only_day_key [of n] by (cases "day_key n") (auto simp: date_only_prefix_def)

lemma iso_slice10_sign:
  "\<not> four_digit_day (t div ms_per_day) \<Longrightarrow>
   \<exists>c s. iso_slice10 t = c # s \<and> (c = CHR ''+'' \<or> c = CHR ''-'')"
  by (auto simp: four_digit_day_def iso_slice10_def iso_year_def Let_def)

lemma sign_less_digit: "c = CHR ''+'' \<or> c = CHR ''-'' \<Longrightarrow> is_digit d \<Longrightarrow> c # s < d # z"
  by (auto simp: char_less_code is_digit_def code_at_def)

lemma iso_in_range:
  assumes "four_digit_day a" "four_digit_day b"
  shows "day_key a \<le> iso_slice10 t \<and> iso_slice10 t \<le> day_key b \<longleftrightarrow>
    a \<le> t div ms_per_day \<and> t div ms_per_day \<le> b"
proof (cases "four_digit_day (t div ms_per_day)")
  case True
  then show ?thesis using assms by (simp add: iso_slice10_day_key day_key_le_iff)
next
  case False
  obtain c s where "iso_slice10 t = c # s" "c = CHR ''+'' \<or> c = CHR ''-''"
    using iso_slice10_sign [OF False] by blast
  moreover obtain d z where "day_key a = d # z" "is_digit d" using day_key_digit [OF assms(1)] by blast
  ultimately have "iso_slice10 t < day_key a" using sign_less_digit by simp
  then show ?thesis using False four_digit_between [OF assms] by auto
qed

section \<open>Keys with an unpadded year\<close>

text \<open>
  \<^verbatim>\<open>`${year}-${month}-${day}`\<close> with two-digit padding of month and day only;
  \<open>m1\<close> is the month counted from 1.
\<close>

definition raw_date :: "int \<Rightarrow> int \<Rightarrow> int \<Rightarrow> jstring" where
  "raw_date y m1 d = int_str y @ ''-'' @ pad_start 2 (int_str m1) @ ''-'' @ pad_start 2 (int_str d)"

definition raw_day_key :: "int \<Rightarrow> jstring" where
  "raw_day_key n = raw_date (year_of_day n) (month_of_day n + 1) (date_of_day n)"

definition plain_day :: "int \<Rightarrow> bool" where
  "plain_day n \<longleftrightarrow> 1000 \<le> year_of_day n \<and> year_of_day n < 10000"

lemma plain_four_digit: "plain_day n \<Longrightarrow> four_digit_day n"
  by (simp add: plain_day_def four_digit_day_def)

lemma raw_date_key: "1000 \<le> y \<Longrightarrow> y < 10000 \<Longrightarrow> raw_date y (m + 1) d = date_key y m d"
  using int_str_no_pad [of 4 y] by (simp add: raw_date_def date_key_def)

lemma raw_day_key_eq: "plain_day n \<Longrightarrow> raw_day_key n = day_key n"
  by (simp add: raw_day_key_def day_key_def plain_day_def raw_date_key)

end
