(* ===== verification/Js_Collections.thy ===== *)
theory Js_Collections
  imports Js_Prelude
begin

text \<open>
  The collections of the JavaScript library the program relies on: the stable
  \<^verbatim>\<open>Array.prototype.sort\<close> with a comparator, and \<^verbatim>\<open>Map\<close> and
  \<^verbatim>\<open>Set\<close> objects, which iterate in insertion order.
  Two interfaces are stated as locales: a consistent comparator, under which the sort is a sorted
  and stable permutation, and a keyed store with the lookup laws its clients use.
\<close>

section \<open>Sorting with a comparator\<close>

text \<open>
  \<open>le x y\<close> stands for \<^verbatim>\<open>cmp(x, y) <= 0\<close>. Inserting from the right keeps elements the
  comparator does not tell apart in their order, as ECMA-262 requires of \<^verbatim>\<open>sort\<close>.
\<close>

fun insort_by :: "('a \<Rightarrow> 'a \<Rightarrow> bool) \<Rightarrow> 'a \<Rightarrow> 'a list \<Rightarrow> 'a list" where
  "insort_by le x [] = [x]"
| "insort_by le x (y # ys) = (if le x y then x # y # ys else y # insort_by le x ys)"

definition js_sort :: "('a \<Rightarrow> 'a \<Rightarrow> bool) \<Rightarrow> 'a list \<Rightarrow> 'a list" where
  "js_sort le xs = foldr (insort_by le) xs []"

lemma js_sort_Nil [simp]: "js_sort le [] = []"
  by (simp add: js_sort_def)

lemma js_sort_Cons [simp]: "js_sort le (x # xs) = insort_by le x (js_sort le xs)"
  by (simp add: js_sort_def)

lemma mset_insort_by [simp]: "mset (insort_by le x xs) = add_mset x (mset xs)"
  by (induction xs) auto

lemma mset_js_sort [simp]: "mset (js_sort le xs) = mset xs"
  by (induction xs) auto

lemma set_insort_by [simp]: "set (insort_by le x xs) = insert x (set xs)"
  by (induction xs) auto

lemma set_js_sort [simp]: "set (js_sort le xs) = set xs"
  by (induction xs) auto

lemma length_js_sort [simp]: "length (js_sort le xs) = length xs"
  by (metis mset_js_sort size_mset)

lemma js_sort_eq_Nil [simp]: "js_sort le xs = [] \<longleftrightarrow> xs = []"
  by (metis length_0_conv length_js_sort)

lemma distinct_js_sort [simp]: "distinct (js_sort le xs) \<longleftrightarrow> distinct xs"
  by (metis mset_js_sort mset_eq_imp_distinct_iff)

lemma sum_list_js_sort: "sum_list (map f (js_sort le xs)) = (sum_list (map f xs) :: rat)"
proof -
  have "mset (map f (js_sort le xs)) = mset (map f xs)" by simp
  then show ?thesis by (metis sum_mset_sum_list)
qed

lemma insort_by_cong:
  "(\<And>y. y \<in> set xs \<Longrightarrow> le x y \<longleftrightarrow> le' x y) \<Longrightarrow> insort_by le x xs = insort_by le' x xs"
  by (induction xs) auto

lemma js_sort_cong:
  "(\<And>x y. x \<in> set xs \<Longrightarrow> y \<in> set xs \<Longrightarrow> le x y \<longleftrightarrow> le' x y) \<Longrightarrow> js_sort le xs = js_sort le' xs"
proof (induction xs)
  case (Cons x xs)
  then have "js_sort le xs = js_sort le' xs" by simp
  then show ?case using Cons.prems by (auto intro: insort_by_cong)
qed simp

locale comparator =
  fixes le :: "'a \<Rightarrow> 'a \<Rightarrow> bool"
  assumes le_total: "le x y \<or> le y x"
    and le_trans: "le x y \<Longrightarrow> le y z \<Longrightarrow> le x z"
begin

lemma le_refl: "le x x"
  using le_total by blast

lemma sorted_insort_by: "sorted_wrt le xs \<Longrightarrow> sorted_wrt le (insort_by le x xs)"
  using le_total le_trans by (induction xs) auto

lemma sorted_js_sort: "sorted_wrt le (js_sort le xs)"
  by (induction xs) (auto intro: sorted_insort_by)

lemma insort_by_le_all: "(\<forall>y\<in>set xs. le x y) \<Longrightarrow> insort_by le x xs = x # xs"
  by (cases xs) auto

lemma js_sort_sorted_id: "sorted_wrt le xs \<Longrightarrow> js_sort le xs = xs"
  by (induction xs) (auto simp: insort_by_le_all)

lemma js_sort_idem: "js_sort le (js_sort le xs) = js_sort le xs"
  by (rule js_sort_sorted_id) (rule sorted_js_sort)

lemma filter_insort_by:
  "sorted_wrt le xs \<Longrightarrow>
   filter P (insort_by le x xs) = (if P x then insort_by le x (filter P xs) else filter P xs)"
proof (induction xs)
  case Nil
  then show ?case by simp
next
  case (Cons y ys)
  show ?case
  proof (cases "le x y")
    case True
    then have "\<forall>z\<in>set (filter P (y # ys)). le x z"
      using Cons.prems le_trans by auto
    then have "insort_by le x (filter P (y # ys)) = x # filter P (y # ys)"
      by (rule insort_by_le_all)
    then show ?thesis using True by simp
  next
    case False
    then show ?thesis using Cons by simp
  qed
qed

text \<open>Filtering commutes with sorting: the stability of the sort.\<close>

lemma filter_js_sort: "filter P (js_sort le xs) = js_sort le (filter P xs)"
  by (induction xs) (auto simp: filter_insort_by sorted_js_sort)

lemma js_sort_stable:
  assumes "\<And>y z. P y \<Longrightarrow> P z \<Longrightarrow> le y z"
  shows "filter P (js_sort le xs) = filter P xs"
proof -
  have "sorted_wrt le (filter P xs)"
    by (rule sorted_wrt_mono_rel [of _ "\<lambda>_ _. True"]) (auto simp: assms sorted_wrt_iff_nth_less)
  then show ?thesis by (simp add: filter_js_sort js_sort_sorted_id)
qed

lemma js_sort_hd_least: "xs \<noteq> [] \<Longrightarrow> y \<in> set xs \<Longrightarrow> le (hd (js_sort le xs)) y"
proof -
  assume "xs \<noteq> []" and y: "y \<in> set xs"
  then obtain z zs where z: "js_sort le xs = z # zs" by (cases "js_sort le xs") auto
  have "y \<in> set (z # zs)" using y z by (metis set_js_sort)
  moreover have "sorted_wrt le (z # zs)" using sorted_js_sort [of xs] z by simp
  ultimately show ?thesis using z le_refl by auto
qed

lemma take_js_sort_sorted: "sorted_wrt le (take n (js_sort le xs))"
  by (rule sorted_wrt_take) (rule sorted_js_sort)

end

text \<open>The comparators of the program compare a key, upwards or downwards.\<close>

lemma comparator_key: "comparator (\<lambda>x y. (f x :: 'k :: linorder) \<le> f y)"
  by unfold_locales auto

lemma comparator_key_desc: "comparator (\<lambda>x y. (f y :: 'k :: linorder) \<le> f x)"
  by unfold_locales auto

definition up_by :: "('a \<Rightarrow> 'k :: linorder) \<Rightarrow> 'a \<Rightarrow> 'a \<Rightarrow> bool" where
  "up_by f x y \<longleftrightarrow> f x \<le> f y"

definition down_by :: "('a \<Rightarrow> 'k :: linorder) \<Rightarrow> 'a \<Rightarrow> 'a \<Rightarrow> bool" where
  "down_by f x y \<longleftrightarrow> f y \<le> f x"

interpretation up: comparator "up_by f"
  by unfold_locales (auto simp: up_by_def)

interpretation down: comparator "down_by f"
  by unfold_locales (auto simp: down_by_def)

section \<open>Insertion-ordered maps\<close>

text \<open>
  A \<^verbatim>\<open>Map\<close> is its list of entries in insertion order with distinct keys; \<open>map_set\<close>
  overwrites in place or appends. Objects used as dictionaries behave the same on
  non-numeric keys.
\<close>

type_synonym ('k, 'v) js_map = "('k \<times> 'v) list"

fun map_set :: "'k \<Rightarrow> 'v \<Rightarrow> ('k, 'v) js_map \<Rightarrow> ('k, 'v) js_map" where
  "map_set k v [] = [(k, v)]"
| "map_set k v ((a, b) # m) = (if a = k then (a, v) # m else (a, b) # map_set k v m)"

definition map_get :: "('k, 'v) js_map \<Rightarrow> 'k \<Rightarrow> 'v option" where
  "map_get m k = map_of m k"

definition map_delete :: "'k \<Rightarrow> ('k, 'v) js_map \<Rightarrow> ('k, 'v) js_map" where
  "map_delete k m = filter (\<lambda>e. fst e \<noteq> k) m"

definition map_ok :: "('k, 'v) js_map \<Rightarrow> bool" where
  "map_ok m \<longleftrightarrow> distinct (map fst m)"

locale keyed_store =
  fixes get :: "'s \<Rightarrow> 'k \<Rightarrow> 'v option"
    and put :: "'k \<Rightarrow> 'v \<Rightarrow> 's \<Rightarrow> 's"
    and remove :: "'k \<Rightarrow> 's \<Rightarrow> 's"
    and invar :: "'s \<Rightarrow> bool"
  assumes get_put: "invar s \<Longrightarrow> get (put k v s) k' = (if k' = k then Some v else get s k')"
    and get_remove: "invar s \<Longrightarrow> get (remove k s) k' = (if k' = k then None else get s k')"
    and invar_put: "invar s \<Longrightarrow> invar (put k v s)"
    and invar_remove: "invar s \<Longrightarrow> invar (remove k s)"
begin

lemma get_put_same: "invar s \<Longrightarrow> get (put k v s) k = Some v"
  by (simp add: get_put)

lemma get_put_other: "invar s \<Longrightarrow> k' \<noteq> k \<Longrightarrow> get (put k v s) k' = get s k'"
  by (simp add: get_put)

lemma get_remove_same: "invar s \<Longrightarrow> get (remove k s) k = None"
  by (simp add: get_remove)

lemma get_remove_other: "invar s \<Longrightarrow> k' \<noteq> k \<Longrightarrow> get (remove k s) k' = get s k'"
  by (simp add: get_remove)

lemma put_remove: "invar s \<Longrightarrow> get (put k v (remove k s)) k' = get (put k v s) k'"
  by (simp add: get_put get_remove invar_remove)

end

lemma map_get_map_set: "map_get (map_set k v m) k' = (if k' = k then Some v else map_get m k')"
  by (induction k v m rule: map_set.induct) (auto simp: map_get_def)

lemma keys_map_set [simp]: "fst ` set (map_set k v m) = insert k (fst ` set m)"
  by (induction k v m rule: map_set.induct) auto

lemma map_ok_map_set: "map_ok m \<Longrightarrow> map_ok (map_set k v m)"
proof (induction k v m rule: map_set.induct)
  case (2 k v a b m)
  have "fst x \<noteq> a" if "a \<noteq> k" "x \<in> set (map_set k v m)" for x
  proof -
    have "fst x \<in> insert k (fst ` set m)" using that(2) by (metis imageI keys_map_set)
    then show ?thesis using 2 that by (auto simp: map_ok_def)
  qed
  then show ?case using 2 by (force simp: map_ok_def)
qed (simp add: map_ok_def)

lemma map_get_map_delete: "map_get (map_delete k m) k' = (if k' = k then None else map_get m k')"
  by (induction m) (auto simp: map_get_def map_delete_def)

lemma map_ok_map_delete: "map_ok m \<Longrightarrow> map_ok (map_delete k m)"
  by (simp add: map_ok_def map_delete_def distinct_map_filter)

interpretation jsmap: keyed_store map_get map_set map_delete map_ok
  by unfold_locales
    (simp_all add: map_get_map_set map_get_map_delete map_ok_map_set map_ok_map_delete)

text \<open>Adding to the number stored at a key, \<^verbatim>\<open>m.set(k, (m.get(k) ?? 0) + x)\<close>.\<close>

definition map_add :: "'k \<Rightarrow> rat \<Rightarrow> ('k, rat) js_map \<Rightarrow> ('k, rat) js_map" where
  "map_add k x m = map_set k (default_to (map_get m k) 0 + x) m"

definition map_total :: "('k, rat) js_map \<Rightarrow> rat" where
  "map_total m = sum_list (map snd m)"

lemma sum_snd_map_set:
  "sum_list (map snd (map_set k v m)) =
   sum_list (map snd m) + v - default_to (map_get m k) (0 :: rat)"
  by (induction k v m rule: map_set.induct) (auto simp: map_get_def)

lemma map_total_add: "map_total (map_add k x m) = map_total m + x"
  by (simp add: map_total_def map_add_def sum_snd_map_set)

lemma map_ok_add: "map_ok m \<Longrightarrow> map_ok (map_add k x m)"
  by (simp add: map_add_def map_ok_map_set)

lemma vals_map_set: "v' \<in> set (map snd (map_set k v m)) \<Longrightarrow> v' = v \<or> v' \<in> set (map snd m)"
  by (induction k v m rule: map_set.induct) (auto split: if_splits)

lemma map_get_in: "map_get m k = Some v \<Longrightarrow> v \<in> set (map snd m)"
  unfolding map_get_def by (drule map_of_SomeD) force

lemma map_add_pos:
  assumes "\<forall>v\<in>set (map snd m). 0 < v" and "0 < x"
  shows "\<forall>v\<in>set (map snd (map_add k x m)). 0 < v"
proof
  fix v assume "v \<in> set (map snd (map_add k x m))"
  then consider "v = default_to (map_get m k) 0 + x" | "v \<in> set (map snd m)"
    using vals_map_set unfolding map_add_def by metis
  then show "0 < v"
  proof cases
    case 1
    then show ?thesis using assms map_get_in [of m k] by (cases "map_get m k") fastforce+
  next
    case 2
    then show ?thesis using assms by blast
  qed
qed

section \<open>Insertion-ordered sets\<close>

definition set_add :: "'a \<Rightarrow> 'a list \<Rightarrow> 'a list" where
  "set_add x xs = (if x \<in> set xs then xs else xs @ [x])"

definition set_of_list :: "'a list \<Rightarrow> 'a list" where
  "set_of_list xs = foldl (\<lambda>s x. set_add x s) [] xs"

lemma set_set_add [simp]: "set (set_add x xs) = insert x (set xs)"
  by (auto simp: set_add_def)

lemma distinct_set_add [simp]: "distinct (set_add x xs) \<longleftrightarrow> distinct xs"
  by (auto simp: set_add_def)

lemma set_foldl_set_add: "set (foldl (\<lambda>s x. set_add x s) acc xs) = set acc \<union> set xs"
  by (induction xs arbitrary: acc) auto

lemma distinct_foldl_set_add:
  "distinct (foldl (\<lambda>s x. set_add x s) acc xs) \<longleftrightarrow> distinct acc"
  by (induction xs arbitrary: acc) auto

lemma set_set_of_list [simp]: "set (set_of_list xs) = set xs"
  by (simp add: set_of_list_def set_foldl_set_add)

lemma distinct_set_of_list [simp]: "distinct (set_of_list xs)"
  by (simp add: set_of_list_def distinct_foldl_set_add)

end
