(* ===== verification/Js_Chars.thy ===== *)
theory Js_Chars
  imports Js_Prelude
begin

text \<open>
  The character operations evaluated once on every printable ASCII literal, so that concrete
  strings (the taxonomy, the keys of the lookups, the examples) are computed by rewriting.
\<close>

named_theorems char_eval "the character operations on printable ASCII literals"

lemma char_ofI: "of_char c = (n :: nat) \<Longrightarrow> char_of n = c"
  by auto

lemma lower_char_eval:
  "lower_char (CHR '' '') = CHR '' ''" "lower_char (CHR ''!'') = CHR ''!''"
  "lower_char (CHR ''#'') = CHR ''#''" "lower_char (CHR ''$'') = CHR ''$''"
  "lower_char (CHR ''%'') = CHR ''%''" "lower_char (CHR ''&'') = CHR ''&''"
  "lower_char (CHR ''('') = CHR ''(''" "lower_char (CHR '')'') = CHR '')''"
  "lower_char (CHR ''*'') = CHR ''*''" "lower_char (CHR ''+'') = CHR ''+''"
  "lower_char (CHR '','') = CHR '',''" "lower_char (CHR ''-'') = CHR ''-''"
  "lower_char (CHR ''.'') = CHR ''.''" "lower_char (CHR ''/'') = CHR ''/''"
  "lower_char (CHR ''0'') = CHR ''0''" "lower_char (CHR ''1'') = CHR ''1''"
  "lower_char (CHR ''2'') = CHR ''2''" "lower_char (CHR ''3'') = CHR ''3''"
  "lower_char (CHR ''4'') = CHR ''4''" "lower_char (CHR ''5'') = CHR ''5''"
  "lower_char (CHR ''6'') = CHR ''6''" "lower_char (CHR ''7'') = CHR ''7''"
  "lower_char (CHR ''8'') = CHR ''8''" "lower_char (CHR ''9'') = CHR ''9''"
  "lower_char (CHR '':'') = CHR '':''" "lower_char (CHR '';'') = CHR '';''"
  "lower_char (CHR ''<'') = CHR ''<''" "lower_char (CHR ''='') = CHR ''=''"
  "lower_char (CHR ''>'') = CHR ''>''" "lower_char (CHR ''?'') = CHR ''?''"
  "lower_char (CHR ''@'') = CHR ''@''" "lower_char (CHR ''A'') = CHR ''a''"
  "lower_char (CHR ''B'') = CHR ''b''" "lower_char (CHR ''C'') = CHR ''c''"
  "lower_char (CHR ''D'') = CHR ''d''" "lower_char (CHR ''E'') = CHR ''e''"
  "lower_char (CHR ''F'') = CHR ''f''" "lower_char (CHR ''G'') = CHR ''g''"
  "lower_char (CHR ''H'') = CHR ''h''" "lower_char (CHR ''I'') = CHR ''i''"
  "lower_char (CHR ''J'') = CHR ''j''" "lower_char (CHR ''K'') = CHR ''k''"
  "lower_char (CHR ''L'') = CHR ''l''" "lower_char (CHR ''M'') = CHR ''m''"
  "lower_char (CHR ''N'') = CHR ''n''" "lower_char (CHR ''O'') = CHR ''o''"
  "lower_char (CHR ''P'') = CHR ''p''" "lower_char (CHR ''Q'') = CHR ''q''"
  "lower_char (CHR ''R'') = CHR ''r''" "lower_char (CHR ''S'') = CHR ''s''"
  "lower_char (CHR ''T'') = CHR ''t''" "lower_char (CHR ''U'') = CHR ''u''"
  "lower_char (CHR ''V'') = CHR ''v''" "lower_char (CHR ''W'') = CHR ''w''"
  "lower_char (CHR ''X'') = CHR ''x''" "lower_char (CHR ''Y'') = CHR ''y''"
  "lower_char (CHR ''Z'') = CHR ''z''" "lower_char (CHR ''['') = CHR ''[''"
  "lower_char (CHR '']'') = CHR '']''" "lower_char (CHR ''^'') = CHR ''^''"
  "lower_char (CHR ''_'') = CHR ''_''" "lower_char (CHR ''a'') = CHR ''a''"
  "lower_char (CHR ''b'') = CHR ''b''" "lower_char (CHR ''c'') = CHR ''c''"
  "lower_char (CHR ''d'') = CHR ''d''" "lower_char (CHR ''e'') = CHR ''e''"
  "lower_char (CHR ''f'') = CHR ''f''" "lower_char (CHR ''g'') = CHR ''g''"
  "lower_char (CHR ''h'') = CHR ''h''" "lower_char (CHR ''i'') = CHR ''i''"
  "lower_char (CHR ''j'') = CHR ''j''" "lower_char (CHR ''k'') = CHR ''k''"
  "lower_char (CHR ''l'') = CHR ''l''" "lower_char (CHR ''m'') = CHR ''m''"
  "lower_char (CHR ''n'') = CHR ''n''" "lower_char (CHR ''o'') = CHR ''o''"
  "lower_char (CHR ''p'') = CHR ''p''" "lower_char (CHR ''q'') = CHR ''q''"
  "lower_char (CHR ''r'') = CHR ''r''" "lower_char (CHR ''s'') = CHR ''s''"
  "lower_char (CHR ''t'') = CHR ''t''" "lower_char (CHR ''u'') = CHR ''u''"
  "lower_char (CHR ''v'') = CHR ''v''" "lower_char (CHR ''w'') = CHR ''w''"
  "lower_char (CHR ''x'') = CHR ''x''" "lower_char (CHR ''y'') = CHR ''y''"
  "lower_char (CHR ''z'') = CHR ''z''" "lower_char (CHR ''{'') = CHR ''{''"
  "lower_char (CHR ''|'') = CHR ''|''" "lower_char (CHR ''}'') = CHR ''}''"
  "lower_char (CHR ''~'') = CHR ''~''"
  by (simp_all add: lower_char_def is_upper_def code_at_def) (rule char_ofI, simp)+

lemma upper_char_eval:
  "upper_char (CHR '' '') = CHR '' ''" "upper_char (CHR ''!'') = CHR ''!''"
  "upper_char (CHR ''#'') = CHR ''#''" "upper_char (CHR ''$'') = CHR ''$''"
  "upper_char (CHR ''%'') = CHR ''%''" "upper_char (CHR ''&'') = CHR ''&''"
  "upper_char (CHR ''('') = CHR ''(''" "upper_char (CHR '')'') = CHR '')''"
  "upper_char (CHR ''*'') = CHR ''*''" "upper_char (CHR ''+'') = CHR ''+''"
  "upper_char (CHR '','') = CHR '',''" "upper_char (CHR ''-'') = CHR ''-''"
  "upper_char (CHR ''.'') = CHR ''.''" "upper_char (CHR ''/'') = CHR ''/''"
  "upper_char (CHR ''0'') = CHR ''0''" "upper_char (CHR ''1'') = CHR ''1''"
  "upper_char (CHR ''2'') = CHR ''2''" "upper_char (CHR ''3'') = CHR ''3''"
  "upper_char (CHR ''4'') = CHR ''4''" "upper_char (CHR ''5'') = CHR ''5''"
  "upper_char (CHR ''6'') = CHR ''6''" "upper_char (CHR ''7'') = CHR ''7''"
  "upper_char (CHR ''8'') = CHR ''8''" "upper_char (CHR ''9'') = CHR ''9''"
  "upper_char (CHR '':'') = CHR '':''" "upper_char (CHR '';'') = CHR '';''"
  "upper_char (CHR ''<'') = CHR ''<''" "upper_char (CHR ''='') = CHR ''=''"
  "upper_char (CHR ''>'') = CHR ''>''" "upper_char (CHR ''?'') = CHR ''?''"
  "upper_char (CHR ''@'') = CHR ''@''" "upper_char (CHR ''A'') = CHR ''A''"
  "upper_char (CHR ''B'') = CHR ''B''" "upper_char (CHR ''C'') = CHR ''C''"
  "upper_char (CHR ''D'') = CHR ''D''" "upper_char (CHR ''E'') = CHR ''E''"
  "upper_char (CHR ''F'') = CHR ''F''" "upper_char (CHR ''G'') = CHR ''G''"
  "upper_char (CHR ''H'') = CHR ''H''" "upper_char (CHR ''I'') = CHR ''I''"
  "upper_char (CHR ''J'') = CHR ''J''" "upper_char (CHR ''K'') = CHR ''K''"
  "upper_char (CHR ''L'') = CHR ''L''" "upper_char (CHR ''M'') = CHR ''M''"
  "upper_char (CHR ''N'') = CHR ''N''" "upper_char (CHR ''O'') = CHR ''O''"
  "upper_char (CHR ''P'') = CHR ''P''" "upper_char (CHR ''Q'') = CHR ''Q''"
  "upper_char (CHR ''R'') = CHR ''R''" "upper_char (CHR ''S'') = CHR ''S''"
  "upper_char (CHR ''T'') = CHR ''T''" "upper_char (CHR ''U'') = CHR ''U''"
  "upper_char (CHR ''V'') = CHR ''V''" "upper_char (CHR ''W'') = CHR ''W''"
  "upper_char (CHR ''X'') = CHR ''X''" "upper_char (CHR ''Y'') = CHR ''Y''"
  "upper_char (CHR ''Z'') = CHR ''Z''" "upper_char (CHR ''['') = CHR ''[''"
  "upper_char (CHR '']'') = CHR '']''" "upper_char (CHR ''^'') = CHR ''^''"
  "upper_char (CHR ''_'') = CHR ''_''" "upper_char (CHR ''a'') = CHR ''A''"
  "upper_char (CHR ''b'') = CHR ''B''" "upper_char (CHR ''c'') = CHR ''C''"
  "upper_char (CHR ''d'') = CHR ''D''" "upper_char (CHR ''e'') = CHR ''E''"
  "upper_char (CHR ''f'') = CHR ''F''" "upper_char (CHR ''g'') = CHR ''G''"
  "upper_char (CHR ''h'') = CHR ''H''" "upper_char (CHR ''i'') = CHR ''I''"
  "upper_char (CHR ''j'') = CHR ''J''" "upper_char (CHR ''k'') = CHR ''K''"
  "upper_char (CHR ''l'') = CHR ''L''" "upper_char (CHR ''m'') = CHR ''M''"
  "upper_char (CHR ''n'') = CHR ''N''" "upper_char (CHR ''o'') = CHR ''O''"
  "upper_char (CHR ''p'') = CHR ''P''" "upper_char (CHR ''q'') = CHR ''Q''"
  "upper_char (CHR ''r'') = CHR ''R''" "upper_char (CHR ''s'') = CHR ''S''"
  "upper_char (CHR ''t'') = CHR ''T''" "upper_char (CHR ''u'') = CHR ''U''"
  "upper_char (CHR ''v'') = CHR ''V''" "upper_char (CHR ''w'') = CHR ''W''"
  "upper_char (CHR ''x'') = CHR ''X''" "upper_char (CHR ''y'') = CHR ''Y''"
  "upper_char (CHR ''z'') = CHR ''Z''" "upper_char (CHR ''{'') = CHR ''{''"
  "upper_char (CHR ''|'') = CHR ''|''" "upper_char (CHR ''}'') = CHR ''}''"
  "upper_char (CHR ''~'') = CHR ''~''"
  by (simp_all add: upper_char_def is_lower_def code_at_def) (rule char_ofI, simp)+

lemma is_space_eval:
  "is_space (CHR '' '')" "\<not> is_space (CHR ''!'')" "\<not> is_space (CHR ''#'')"
  "\<not> is_space (CHR ''$'')" "\<not> is_space (CHR ''%'')" "\<not> is_space (CHR ''&'')"
  "\<not> is_space (CHR ''('')" "\<not> is_space (CHR '')'')" "\<not> is_space (CHR ''*'')"
  "\<not> is_space (CHR ''+'')" "\<not> is_space (CHR '','')" "\<not> is_space (CHR ''-'')"
  "\<not> is_space (CHR ''.'')" "\<not> is_space (CHR ''/'')" "\<not> is_space (CHR ''0'')"
  "\<not> is_space (CHR ''1'')" "\<not> is_space (CHR ''2'')" "\<not> is_space (CHR ''3'')"
  "\<not> is_space (CHR ''4'')" "\<not> is_space (CHR ''5'')" "\<not> is_space (CHR ''6'')"
  "\<not> is_space (CHR ''7'')" "\<not> is_space (CHR ''8'')" "\<not> is_space (CHR ''9'')"
  "\<not> is_space (CHR '':'')" "\<not> is_space (CHR '';'')" "\<not> is_space (CHR ''<'')"
  "\<not> is_space (CHR ''='')" "\<not> is_space (CHR ''>'')" "\<not> is_space (CHR ''?'')"
  "\<not> is_space (CHR ''@'')" "\<not> is_space (CHR ''A'')" "\<not> is_space (CHR ''B'')"
  "\<not> is_space (CHR ''C'')" "\<not> is_space (CHR ''D'')" "\<not> is_space (CHR ''E'')"
  "\<not> is_space (CHR ''F'')" "\<not> is_space (CHR ''G'')" "\<not> is_space (CHR ''H'')"
  "\<not> is_space (CHR ''I'')" "\<not> is_space (CHR ''J'')" "\<not> is_space (CHR ''K'')"
  "\<not> is_space (CHR ''L'')" "\<not> is_space (CHR ''M'')" "\<not> is_space (CHR ''N'')"
  "\<not> is_space (CHR ''O'')" "\<not> is_space (CHR ''P'')" "\<not> is_space (CHR ''Q'')"
  "\<not> is_space (CHR ''R'')" "\<not> is_space (CHR ''S'')" "\<not> is_space (CHR ''T'')"
  "\<not> is_space (CHR ''U'')" "\<not> is_space (CHR ''V'')" "\<not> is_space (CHR ''W'')"
  "\<not> is_space (CHR ''X'')" "\<not> is_space (CHR ''Y'')" "\<not> is_space (CHR ''Z'')"
  "\<not> is_space (CHR ''['')" "\<not> is_space (CHR '']'')" "\<not> is_space (CHR ''^'')"
  "\<not> is_space (CHR ''_'')" "\<not> is_space (CHR ''a'')" "\<not> is_space (CHR ''b'')"
  "\<not> is_space (CHR ''c'')" "\<not> is_space (CHR ''d'')" "\<not> is_space (CHR ''e'')"
  "\<not> is_space (CHR ''f'')" "\<not> is_space (CHR ''g'')" "\<not> is_space (CHR ''h'')"
  "\<not> is_space (CHR ''i'')" "\<not> is_space (CHR ''j'')" "\<not> is_space (CHR ''k'')"
  "\<not> is_space (CHR ''l'')" "\<not> is_space (CHR ''m'')" "\<not> is_space (CHR ''n'')"
  "\<not> is_space (CHR ''o'')" "\<not> is_space (CHR ''p'')" "\<not> is_space (CHR ''q'')"
  "\<not> is_space (CHR ''r'')" "\<not> is_space (CHR ''s'')" "\<not> is_space (CHR ''t'')"
  "\<not> is_space (CHR ''u'')" "\<not> is_space (CHR ''v'')" "\<not> is_space (CHR ''w'')"
  "\<not> is_space (CHR ''x'')" "\<not> is_space (CHR ''y'')" "\<not> is_space (CHR ''z'')"
  "\<not> is_space (CHR ''{'')" "\<not> is_space (CHR ''|'')" "\<not> is_space (CHR ''}'')"
  "\<not> is_space (CHR ''~'')"
  by (simp_all add: is_space_def code_at_def)

lemma is_digit_eval:
  "\<not> is_digit (CHR '' '')" "\<not> is_digit (CHR ''!'')" "\<not> is_digit (CHR ''#'')"
  "\<not> is_digit (CHR ''$'')" "\<not> is_digit (CHR ''%'')" "\<not> is_digit (CHR ''&'')"
  "\<not> is_digit (CHR ''('')" "\<not> is_digit (CHR '')'')" "\<not> is_digit (CHR ''*'')"
  "\<not> is_digit (CHR ''+'')" "\<not> is_digit (CHR '','')" "\<not> is_digit (CHR ''-'')"
  "\<not> is_digit (CHR ''.'')" "\<not> is_digit (CHR ''/'')" "is_digit (CHR ''0'')"
  "is_digit (CHR ''1'')" "is_digit (CHR ''2'')" "is_digit (CHR ''3'')" "is_digit (CHR ''4'')"
  "is_digit (CHR ''5'')" "is_digit (CHR ''6'')" "is_digit (CHR ''7'')" "is_digit (CHR ''8'')"
  "is_digit (CHR ''9'')" "\<not> is_digit (CHR '':'')" "\<not> is_digit (CHR '';'')"
  "\<not> is_digit (CHR ''<'')" "\<not> is_digit (CHR ''='')" "\<not> is_digit (CHR ''>'')"
  "\<not> is_digit (CHR ''?'')" "\<not> is_digit (CHR ''@'')" "\<not> is_digit (CHR ''A'')"
  "\<not> is_digit (CHR ''B'')" "\<not> is_digit (CHR ''C'')" "\<not> is_digit (CHR ''D'')"
  "\<not> is_digit (CHR ''E'')" "\<not> is_digit (CHR ''F'')" "\<not> is_digit (CHR ''G'')"
  "\<not> is_digit (CHR ''H'')" "\<not> is_digit (CHR ''I'')" "\<not> is_digit (CHR ''J'')"
  "\<not> is_digit (CHR ''K'')" "\<not> is_digit (CHR ''L'')" "\<not> is_digit (CHR ''M'')"
  "\<not> is_digit (CHR ''N'')" "\<not> is_digit (CHR ''O'')" "\<not> is_digit (CHR ''P'')"
  "\<not> is_digit (CHR ''Q'')" "\<not> is_digit (CHR ''R'')" "\<not> is_digit (CHR ''S'')"
  "\<not> is_digit (CHR ''T'')" "\<not> is_digit (CHR ''U'')" "\<not> is_digit (CHR ''V'')"
  "\<not> is_digit (CHR ''W'')" "\<not> is_digit (CHR ''X'')" "\<not> is_digit (CHR ''Y'')"
  "\<not> is_digit (CHR ''Z'')" "\<not> is_digit (CHR ''['')" "\<not> is_digit (CHR '']'')"
  "\<not> is_digit (CHR ''^'')" "\<not> is_digit (CHR ''_'')" "\<not> is_digit (CHR ''a'')"
  "\<not> is_digit (CHR ''b'')" "\<not> is_digit (CHR ''c'')" "\<not> is_digit (CHR ''d'')"
  "\<not> is_digit (CHR ''e'')" "\<not> is_digit (CHR ''f'')" "\<not> is_digit (CHR ''g'')"
  "\<not> is_digit (CHR ''h'')" "\<not> is_digit (CHR ''i'')" "\<not> is_digit (CHR ''j'')"
  "\<not> is_digit (CHR ''k'')" "\<not> is_digit (CHR ''l'')" "\<not> is_digit (CHR ''m'')"
  "\<not> is_digit (CHR ''n'')" "\<not> is_digit (CHR ''o'')" "\<not> is_digit (CHR ''p'')"
  "\<not> is_digit (CHR ''q'')" "\<not> is_digit (CHR ''r'')" "\<not> is_digit (CHR ''s'')"
  "\<not> is_digit (CHR ''t'')" "\<not> is_digit (CHR ''u'')" "\<not> is_digit (CHR ''v'')"
  "\<not> is_digit (CHR ''w'')" "\<not> is_digit (CHR ''x'')" "\<not> is_digit (CHR ''y'')"
  "\<not> is_digit (CHR ''z'')" "\<not> is_digit (CHR ''{'')" "\<not> is_digit (CHR ''|'')"
  "\<not> is_digit (CHR ''}'')" "\<not> is_digit (CHR ''~'')"
  by (simp_all add: is_digit_def code_at_def)

lemma is_lower_eval:
  "\<not> is_lower (CHR '' '')" "\<not> is_lower (CHR ''!'')" "\<not> is_lower (CHR ''#'')"
  "\<not> is_lower (CHR ''$'')" "\<not> is_lower (CHR ''%'')" "\<not> is_lower (CHR ''&'')"
  "\<not> is_lower (CHR ''('')" "\<not> is_lower (CHR '')'')" "\<not> is_lower (CHR ''*'')"
  "\<not> is_lower (CHR ''+'')" "\<not> is_lower (CHR '','')" "\<not> is_lower (CHR ''-'')"
  "\<not> is_lower (CHR ''.'')" "\<not> is_lower (CHR ''/'')" "\<not> is_lower (CHR ''0'')"
  "\<not> is_lower (CHR ''1'')" "\<not> is_lower (CHR ''2'')" "\<not> is_lower (CHR ''3'')"
  "\<not> is_lower (CHR ''4'')" "\<not> is_lower (CHR ''5'')" "\<not> is_lower (CHR ''6'')"
  "\<not> is_lower (CHR ''7'')" "\<not> is_lower (CHR ''8'')" "\<not> is_lower (CHR ''9'')"
  "\<not> is_lower (CHR '':'')" "\<not> is_lower (CHR '';'')" "\<not> is_lower (CHR ''<'')"
  "\<not> is_lower (CHR ''='')" "\<not> is_lower (CHR ''>'')" "\<not> is_lower (CHR ''?'')"
  "\<not> is_lower (CHR ''@'')" "\<not> is_lower (CHR ''A'')" "\<not> is_lower (CHR ''B'')"
  "\<not> is_lower (CHR ''C'')" "\<not> is_lower (CHR ''D'')" "\<not> is_lower (CHR ''E'')"
  "\<not> is_lower (CHR ''F'')" "\<not> is_lower (CHR ''G'')" "\<not> is_lower (CHR ''H'')"
  "\<not> is_lower (CHR ''I'')" "\<not> is_lower (CHR ''J'')" "\<not> is_lower (CHR ''K'')"
  "\<not> is_lower (CHR ''L'')" "\<not> is_lower (CHR ''M'')" "\<not> is_lower (CHR ''N'')"
  "\<not> is_lower (CHR ''O'')" "\<not> is_lower (CHR ''P'')" "\<not> is_lower (CHR ''Q'')"
  "\<not> is_lower (CHR ''R'')" "\<not> is_lower (CHR ''S'')" "\<not> is_lower (CHR ''T'')"
  "\<not> is_lower (CHR ''U'')" "\<not> is_lower (CHR ''V'')" "\<not> is_lower (CHR ''W'')"
  "\<not> is_lower (CHR ''X'')" "\<not> is_lower (CHR ''Y'')" "\<not> is_lower (CHR ''Z'')"
  "\<not> is_lower (CHR ''['')" "\<not> is_lower (CHR '']'')" "\<not> is_lower (CHR ''^'')"
  "\<not> is_lower (CHR ''_'')" "is_lower (CHR ''a'')" "is_lower (CHR ''b'')"
  "is_lower (CHR ''c'')" "is_lower (CHR ''d'')" "is_lower (CHR ''e'')" "is_lower (CHR ''f'')"
  "is_lower (CHR ''g'')" "is_lower (CHR ''h'')" "is_lower (CHR ''i'')" "is_lower (CHR ''j'')"
  "is_lower (CHR ''k'')" "is_lower (CHR ''l'')" "is_lower (CHR ''m'')" "is_lower (CHR ''n'')"
  "is_lower (CHR ''o'')" "is_lower (CHR ''p'')" "is_lower (CHR ''q'')" "is_lower (CHR ''r'')"
  "is_lower (CHR ''s'')" "is_lower (CHR ''t'')" "is_lower (CHR ''u'')" "is_lower (CHR ''v'')"
  "is_lower (CHR ''w'')" "is_lower (CHR ''x'')" "is_lower (CHR ''y'')" "is_lower (CHR ''z'')"
  "\<not> is_lower (CHR ''{'')" "\<not> is_lower (CHR ''|'')" "\<not> is_lower (CHR ''}'')"
  "\<not> is_lower (CHR ''~'')"
  by (simp_all add: is_lower_def code_at_def)

lemmas [char_eval] = lower_char_eval upper_char_eval is_space_eval is_digit_eval is_lower_eval

lemma alnum_key_eval:
  "alnum_key ((CHR '' '') # s) = alnum_key s" "alnum_key ((CHR ''!'') # s) = alnum_key s"
  "alnum_key ((CHR ''#'') # s) = alnum_key s" "alnum_key ((CHR ''$'') # s) = alnum_key s"
  "alnum_key ((CHR ''%'') # s) = alnum_key s" "alnum_key ((CHR ''&'') # s) = alnum_key s"
  "alnum_key ((CHR ''('') # s) = alnum_key s" "alnum_key ((CHR '')'') # s) = alnum_key s"
  "alnum_key ((CHR ''*'') # s) = alnum_key s" "alnum_key ((CHR ''+'') # s) = alnum_key s"
  "alnum_key ((CHR '','') # s) = alnum_key s" "alnum_key ((CHR ''-'') # s) = alnum_key s"
  "alnum_key ((CHR ''.'') # s) = alnum_key s" "alnum_key ((CHR ''/'') # s) = alnum_key s"
  "alnum_key ((CHR ''0'') # s) = CHR ''0'' # alnum_key s"
  "alnum_key ((CHR ''1'') # s) = CHR ''1'' # alnum_key s"
  "alnum_key ((CHR ''2'') # s) = CHR ''2'' # alnum_key s"
  "alnum_key ((CHR ''3'') # s) = CHR ''3'' # alnum_key s"
  "alnum_key ((CHR ''4'') # s) = CHR ''4'' # alnum_key s"
  "alnum_key ((CHR ''5'') # s) = CHR ''5'' # alnum_key s"
  "alnum_key ((CHR ''6'') # s) = CHR ''6'' # alnum_key s"
  "alnum_key ((CHR ''7'') # s) = CHR ''7'' # alnum_key s"
  "alnum_key ((CHR ''8'') # s) = CHR ''8'' # alnum_key s"
  "alnum_key ((CHR ''9'') # s) = CHR ''9'' # alnum_key s"
  "alnum_key ((CHR '':'') # s) = alnum_key s" "alnum_key ((CHR '';'') # s) = alnum_key s"
  "alnum_key ((CHR ''<'') # s) = alnum_key s" "alnum_key ((CHR ''='') # s) = alnum_key s"
  "alnum_key ((CHR ''>'') # s) = alnum_key s" "alnum_key ((CHR ''?'') # s) = alnum_key s"
  "alnum_key ((CHR ''@'') # s) = alnum_key s"
  "alnum_key ((CHR ''A'') # s) = CHR ''a'' # alnum_key s"
  "alnum_key ((CHR ''B'') # s) = CHR ''b'' # alnum_key s"
  "alnum_key ((CHR ''C'') # s) = CHR ''c'' # alnum_key s"
  "alnum_key ((CHR ''D'') # s) = CHR ''d'' # alnum_key s"
  "alnum_key ((CHR ''E'') # s) = CHR ''e'' # alnum_key s"
  "alnum_key ((CHR ''F'') # s) = CHR ''f'' # alnum_key s"
  "alnum_key ((CHR ''G'') # s) = CHR ''g'' # alnum_key s"
  "alnum_key ((CHR ''H'') # s) = CHR ''h'' # alnum_key s"
  "alnum_key ((CHR ''I'') # s) = CHR ''i'' # alnum_key s"
  "alnum_key ((CHR ''J'') # s) = CHR ''j'' # alnum_key s"
  "alnum_key ((CHR ''K'') # s) = CHR ''k'' # alnum_key s"
  "alnum_key ((CHR ''L'') # s) = CHR ''l'' # alnum_key s"
  "alnum_key ((CHR ''M'') # s) = CHR ''m'' # alnum_key s"
  "alnum_key ((CHR ''N'') # s) = CHR ''n'' # alnum_key s"
  "alnum_key ((CHR ''O'') # s) = CHR ''o'' # alnum_key s"
  "alnum_key ((CHR ''P'') # s) = CHR ''p'' # alnum_key s"
  "alnum_key ((CHR ''Q'') # s) = CHR ''q'' # alnum_key s"
  "alnum_key ((CHR ''R'') # s) = CHR ''r'' # alnum_key s"
  "alnum_key ((CHR ''S'') # s) = CHR ''s'' # alnum_key s"
  "alnum_key ((CHR ''T'') # s) = CHR ''t'' # alnum_key s"
  "alnum_key ((CHR ''U'') # s) = CHR ''u'' # alnum_key s"
  "alnum_key ((CHR ''V'') # s) = CHR ''v'' # alnum_key s"
  "alnum_key ((CHR ''W'') # s) = CHR ''w'' # alnum_key s"
  "alnum_key ((CHR ''X'') # s) = CHR ''x'' # alnum_key s"
  "alnum_key ((CHR ''Y'') # s) = CHR ''y'' # alnum_key s"
  "alnum_key ((CHR ''Z'') # s) = CHR ''z'' # alnum_key s"
  "alnum_key ((CHR ''['') # s) = alnum_key s" "alnum_key ((CHR '']'') # s) = alnum_key s"
  "alnum_key ((CHR ''^'') # s) = alnum_key s" "alnum_key ((CHR ''_'') # s) = alnum_key s"
  "alnum_key ((CHR ''a'') # s) = CHR ''a'' # alnum_key s"
  "alnum_key ((CHR ''b'') # s) = CHR ''b'' # alnum_key s"
  "alnum_key ((CHR ''c'') # s) = CHR ''c'' # alnum_key s"
  "alnum_key ((CHR ''d'') # s) = CHR ''d'' # alnum_key s"
  "alnum_key ((CHR ''e'') # s) = CHR ''e'' # alnum_key s"
  "alnum_key ((CHR ''f'') # s) = CHR ''f'' # alnum_key s"
  "alnum_key ((CHR ''g'') # s) = CHR ''g'' # alnum_key s"
  "alnum_key ((CHR ''h'') # s) = CHR ''h'' # alnum_key s"
  "alnum_key ((CHR ''i'') # s) = CHR ''i'' # alnum_key s"
  "alnum_key ((CHR ''j'') # s) = CHR ''j'' # alnum_key s"
  "alnum_key ((CHR ''k'') # s) = CHR ''k'' # alnum_key s"
  "alnum_key ((CHR ''l'') # s) = CHR ''l'' # alnum_key s"
  "alnum_key ((CHR ''m'') # s) = CHR ''m'' # alnum_key s"
  "alnum_key ((CHR ''n'') # s) = CHR ''n'' # alnum_key s"
  "alnum_key ((CHR ''o'') # s) = CHR ''o'' # alnum_key s"
  "alnum_key ((CHR ''p'') # s) = CHR ''p'' # alnum_key s"
  "alnum_key ((CHR ''q'') # s) = CHR ''q'' # alnum_key s"
  "alnum_key ((CHR ''r'') # s) = CHR ''r'' # alnum_key s"
  "alnum_key ((CHR ''s'') # s) = CHR ''s'' # alnum_key s"
  "alnum_key ((CHR ''t'') # s) = CHR ''t'' # alnum_key s"
  "alnum_key ((CHR ''u'') # s) = CHR ''u'' # alnum_key s"
  "alnum_key ((CHR ''v'') # s) = CHR ''v'' # alnum_key s"
  "alnum_key ((CHR ''w'') # s) = CHR ''w'' # alnum_key s"
  "alnum_key ((CHR ''x'') # s) = CHR ''x'' # alnum_key s"
  "alnum_key ((CHR ''y'') # s) = CHR ''y'' # alnum_key s"
  "alnum_key ((CHR ''z'') # s) = CHR ''z'' # alnum_key s"
  "alnum_key ((CHR ''{'') # s) = alnum_key s" "alnum_key ((CHR ''|'') # s) = alnum_key s"
  "alnum_key ((CHR ''}'') # s) = alnum_key s" "alnum_key ((CHR ''~'') # s) = alnum_key s"
  by (simp_all add: alnum_key_def char_eval)

lemma alnum_key_Nil: "alnum_key [] = []"
  by (simp add: alnum_key_def)

lemmas key_eval = alnum_key_eval alnum_key_Nil

end
