(* ===== verification/Api_Types.thy ===== *)
theory Api_Types
  imports Js_Collections Js_Date Js_Chars
begin

text \<open>
  The data the backend and the frontend exchange (\<^verbatim>\<open>types/api.ts\<close>). A field the type
  declares optional or nullable is an option; \<^verbatim>\<open>amount\<close> is a value of a JSON body, because
  the code passes it through \<^verbatim>\<open>Number(...)\<close> before every use.
\<close>

datatype FinancialProvider = Plaid | Teller

record TransactionLocation =
  tl_address :: "jstring option"
  tl_city :: "jstring option"
  tl_region :: "jstring option"
  tl_postal_code :: "jstring option"

record TransactionCategory =
  tc_primary :: jstring
  tc_detailed :: "jstring option"
  tc_confidence_level :: "jstring option"

record Transaction =
  tx_id :: jstring
  tx_account_id :: "jstring option"
  tx_date :: jstring
  tx_name :: jstring
  tx_merchant :: "jstring option"
  tx_amount :: jsval
  tx_pending :: "bool option"
  tx_category :: "TransactionCategory option"
  tx_account_name :: jstring
  tx_account_type :: jstring
  tx_account_mask :: "jstring option"
  tx_provider :: "FinancialProvider option"
  tx_running_balance :: "rat option"
  tx_location :: "TransactionLocation option"
  tx_custom_category :: "jstring option"
  tx_custom_subcategory :: "jstring option"
  tx_rule_category :: "jstring option"
  tx_rule_subcategory :: "jstring option"

record UserCategory =
  uc_id :: jstring
  uc_user_id :: jstring
  uc_name :: jstring
  uc_parent_category :: "jstring option"
  uc_created_at :: jstring

record CategoryRule =
  cr_id :: jstring
  cr_user_id :: jstring
  cr_pattern :: jstring
  cr_category_name :: jstring
  cr_subcategory_name :: "jstring option"
  cr_created_at :: jstring
  cr_updated_at :: jstring

datatype BudgetFrequency = Monthly | Quarterly | Semi_annual | Annual

record Budget =
  bd_id :: jstring
  bd_category :: jstring
  bd_amount :: rat
  bd_frequency :: "BudgetFrequency option"
  bd_rollover :: "bool option"
  bd_rollover_start_month :: "jstring option"
  bd_created_at :: "jstring option"

datatype ConnectionHealth = Connected | Needs_reauth | Error_state

record ProviderConnectionStatus =
  pc_is_connected :: bool
  pc_last_sync_at :: "jstring option"
  pc_institution_name :: "jstring option"
  pc_connection_id :: "jstring option"
  pc_transaction_count :: int
  pc_account_count :: int
  pc_sync_in_progress :: bool
  pc_error_message :: "jstring option"
  pc_status :: "ConnectionHealth option"

record AccountIssue =
  ai_id :: jstring
  ai_institutionName :: jstring
  ai_status :: ConnectionHealth
  ai_errorMessage :: "jstring option"
  ai_lastSyncAt :: "jstring option"

text \<open>\<^verbatim>\<open>t.category?.primary\<close> and \<^verbatim>\<open>t.category?.detailed\<close>.\<close>

definition category_primary :: "Transaction \<Rightarrow> jstring option" where
  "category_primary t = map_option tc_primary (tx_category t)"

definition category_detailed :: "Transaction \<Rightarrow> jstring option" where
  "category_detailed t = Option.bind (tx_category t) tc_detailed"

text \<open>
  A transaction with every optional field absent, from which the concrete examples are built.
\<close>

definition bare_transaction :: "jstring \<Rightarrow> jstring \<Rightarrow> rat \<Rightarrow> jstring \<Rightarrow> Transaction" where
  "bare_transaction i day amt cat = \<lparr>tx_id = i, tx_account_id = None, tx_date = day,
     tx_name = i, tx_merchant = None, tx_amount = JNum (Fin amt), tx_pending = None,
     tx_category = Some \<lparr>tc_primary = cat, tc_detailed = None, tc_confidence_level = None\<rparr>,
     tx_account_name = ''Checking'', tx_account_type = ''depository'', tx_account_mask = None,
     tx_provider = None, tx_running_balance = None, tx_location = None,
     tx_custom_category = None, tx_custom_subcategory = None, tx_rule_category = None,
     tx_rule_subcategory = None\<rparr>"

end
