(* ===== verification/Categories.thy ===== *)
theory Categories
  imports Api_Types
begin

text \<open>
  The category taxonomy and its lookups (\<^verbatim>\<open>utils/categories.ts\<close>): the display form of a
  provider category, the subcategories of a major category, the major category a label resolves
  to, and the categories spending leaves out. The optional array of user categories is a list;
  an absent one is the empty list, on which the code does the same.
\<close>

section \<open>Display names\<close>

definition is_word_sep :: "char \<Rightarrow> bool" where
  [js_defs]: "is_word_sep c \<longleftrightarrow> c = CHR ''_'' \<or> is_space c"

fun title_word :: "jstring \<Rightarrow> jstring" where
  "title_word [] = []"
| "title_word (c # cs) = upper_char c # toLowerCase cs"

definition display_form :: "jstring \<Rightarrow> jstring" where
  "display_form s = join '' '' (map title_word (split_runs is_word_sep [] s))"

definition formatCategoryName :: "jstring option \<Rightarrow> jstring" where
  "formatCategoryName categoryPrimary =
     (if \<not> truthy categoryPrimary then ''Shopping''
      else let s = the categoryPrimary; nrm = toLowerCase (trim s) in
        if nrm \<in> set [''other'', ''uncategorized'', ''unknown'', ''general merchandise'',
             ''general_merchandise'', ''general'']
        then ''Shopping''
        else let formatted = display_form (trim s) in
          if toLowerCase formatted = ''general merchandise'' \<or> toLowerCase formatted = ''other''
          then ''Shopping'' else formatted)"

section \<open>The taxonomy\<close>

datatype CategoryGroupType = Expense | Income | Exclude_from_Budget

datatype CategoryDefinition =
  CategoryDefinition (cat_name: jstring) (cat_type: CategoryGroupType)
    (cat_subcategories: "jstring list")

definition CATEGORIES_TAXONOMY :: "CategoryDefinition list" where
  "CATEGORIES_TAXONOMY = [
    CategoryDefinition ''Bills & Utilities'' Expense
      [''AI'', ''Internet'', ''Phone'', ''Television'', ''Utilities'', ''Water''],
    CategoryDefinition ''Childcare'' Expense
      [''Baby Supplies'', ''Babysitter & Daycare'', ''Child Support'', ''Kids Activities'',
       ''Toys''],
    CategoryDefinition ''Earned Income'' Income
      [''Bonus'', ''Paycheck''],
    CategoryDefinition ''Education'' Expense
      [''Books & Supplies'', ''Tuition''],
    CategoryDefinition ''Entertainment'' Expense
      [''Amusement'', ''Arts'', ''Movies & DVDs'', ''Music'', ''Newspaper & Magazines'',
       ''Subscription''],
    CategoryDefinition ''Food & Dining'' Expense
      [''Alcohol & Bars'', ''Coffee Shops'', ''Fast Food'', ''Restaurants''],
    CategoryDefinition ''Gifts & Donations'' Expense
      [''Charity'', ''Children Allowance'', ''Gifts''],
    CategoryDefinition ''Groceries'' Expense
      [''Groceries''],
    CategoryDefinition ''Home Improvement'' Expense
      [''Furnishings'', ''Household Supplies'', ''Lawn & Garden'', ''Plants & Needs''],
    CategoryDefinition ''Home Management'' Expense
      [''Home Insurance'', ''Home Services'', ''Mortgage''],
    CategoryDefinition ''Insurance'' Expense
      [''Auto Insurance'', ''Car Insurance'', ''Health Insurance'', ''Life Insurance''],
    CategoryDefinition ''Medical'' Expense
      [''Dentist'', ''Doctor'', ''Eyecare'', ''Labs'', ''Mental Health'', ''Pharmacy''],
    CategoryDefinition ''Pets'' Expense
      [''Boarding'', ''Insurance''],
    CategoryDefinition ''Shopping'' Expense
      [''Books'', ''Clothing'', ''Decor'', ''Electronics'', ''Hair'', ''Hobbies'', ''Home'',
       ''Kitchen'', ''Laundry'', ''Personal Care'', ''Spa & Massage'', ''Toys''],
    CategoryDefinition ''Taxes'' Expense
      [''Federal Tax'', ''Local Tax'', ''Property Tax'', ''Sales Tax'', ''State Tax'',
       ''Tax Filing''],
    CategoryDefinition ''Tax Refund'' Income
      [''Federal Tax'', ''Local Tax'', ''Property Tax'', ''Sales Tax'', ''State Tax''],
    CategoryDefinition ''Transportation'' Expense
      [''Auto Payment'', ''Car Insurance'', ''Car Maintainance'', ''Car Registration'',
       ''Gas'', ''Parking'', ''Public Transport'', ''Toll'', ''Traffic Ticket''],
    CategoryDefinition ''Transfer'' Exclude_from_Budget
      [''Cash Spending Transfer'', ''Credit Card Payment'', ''Crypto Deposit'',
       ''Crypto Withdrawal'', ''Investment Deposit'', ''Investment Withdrawal'',
       ''Mortgage Payment''],
    CategoryDefinition ''Travel'' Expense
      [''Air Travel'', ''Hotel'', ''Rental Car & Transportation'']]"

definition getAllMajorCategories :: "jstring list" where
  "getAllMajorCategories = map cat_name CATEGORIES_TAXONOMY"

text \<open>\<^verbatim>\<open>CATEGORIES_TAXONOMY.find((c) => c.name.toLowerCase() === key)\<close>.\<close>

definition find_major :: "jstring \<Rightarrow> CategoryDefinition option" where
  "find_major key = List.find (\<lambda>c. toLowerCase (cat_name c) = key) CATEGORIES_TAXONOMY"

definition subcategory_kept :: "jstring \<Rightarrow> jstring \<Rightarrow> bool" where
  "subcategory_kept nrm sub \<longleftrightarrow>
     \<not> startsWith (toLowerCase sub) ''other '' \<and> toLowerCase sub \<noteq> ''other'' \<and>
     toLowerCase sub \<noteq> ''uncategorized'' \<and> toLowerCase sub \<noteq> ''general merchandise'' \<and>
     toLowerCase sub \<noteq> ''general_merchandise'' \<and>
     (if nrm = ''groceries'' then True else toLowerCase (trim sub) \<noteq> nrm)"

definition is_child_of :: "jstring \<Rightarrow> UserCategory \<Rightarrow> bool" where
  "is_child_of nrm uc \<longleftrightarrow> truthy (uc_parent_category uc) \<and>
     toLowerCase (the (uc_parent_category uc)) = nrm"

definition getSubcategoriesForCategory :: "jstring \<Rightarrow> UserCategory list \<Rightarrow> jstring list" where
  "getSubcategoriesForCategory categoryName userCategories =
     (let nrm = toLowerCase (trim categoryName);
          base = (case find_major nrm of None \<Rightarrow> [] | Some c \<Rightarrow> cat_subcategories c);
          subs = foldl (\<lambda>acc uc. if is_child_of nrm uc then set_add (uc_name uc) acc else acc)
                  base userCategories
      in filter (subcategory_kept nrm) subs)"

section \<open>Resolving a label to its major category\<close>

definition getMajorCategoryForSubcategory ::
    "jstring \<Rightarrow> UserCategory list \<Rightarrow> jstring option" where
  "getMajorCategoryForSubcategory subcategoryName userCategories =
     (let nrm = toLowerCase (trim subcategoryName) in
      if nrm \<in> set [''general merchandise'', ''general_merchandise'', ''other'',
           ''uncategorized'', ''general'']
      then Some ''Shopping''
      else let uc = List.find (\<lambda>c. toLowerCase (uc_name c) = nrm) userCategories;
               parent = Option.bind uc uc_parent_category in
        if truthy parent then parent
        else case List.find (\<lambda>cat. list_ex (\<lambda>sub. toLowerCase sub = nrm) (cat_subcategories cat))
                    CATEGORIES_TAXONOMY of
          Some cat \<Rightarrow> Some (cat_name cat)
        | None \<Rightarrow>
            if startsWith nrm ''other '' then
              (case find_major (trim (drop 6 nrm)) of
                 Some matched \<Rightarrow> Some (cat_name matched)
               | None \<Rightarrow> Some ''Shopping'')
            else if nrm = ''water'' \<or> str_includes nrm ''water'' \<or>
                str_includes nrm ''rent_and_utilities'' \<or>
                str_includes nrm ''rent & utilities''
              then Some ''Bills & Utilities''
            else if nrm = ''home supplies'' \<or> nrm = ''home_supplies'' \<or> nrm = ''homesupplies''
              then Some ''Home Improvement''
            else None)"

definition resolve_tail :: "jstring \<Rightarrow> UserCategory list \<Rightarrow> jstring" where
  "resolve_tail clean userCategories =
     (if startsWith (toLowerCase clean) ''other '' then
        (case find_major (toLowerCase (trim (drop 6 clean))) of
           Some matched \<Rightarrow> cat_name matched
         | None \<Rightarrow> ''Shopping'')
      else case List.find (\<lambda>c. toLowerCase (uc_name c) = toLowerCase clean) userCategories of
        Some uc \<Rightarrow> str_or (uc_parent_category uc) (uc_name uc)
      | None \<Rightarrow>
          let formatted = formatCategoryName (Some clean) in
          if formatted = ''Shopping'' then ''Shopping''
          else case find_major (toLowerCase formatted) of
            Some m \<Rightarrow> cat_name m
          | None \<Rightarrow> formatted)"

definition resolveMajorCategory :: "jstring option \<Rightarrow> UserCategory list \<Rightarrow> jstring" where
  "resolveMajorCategory categoryOrSubcategory userCategories =
     (if \<not> truthy categoryOrSubcategory then ''Shopping''
      else let clean = trim (the categoryOrSubcategory) in
        if clean = [] then ''Shopping''
        else let normKey = alnum_key clean in
          if normKey \<in> set [''rentandutilities'', ''rentutilities'', ''rentandutilitieswater'',
               ''rentutilitieswater'']
          then ''Bills & Utilities''
          else if normKey = ''homesupplies'' \<or> normKey = ''householdsupplies''
          then ''Home Improvement''
          else if normKey \<in> set [''personalcare'', ''generalmerchandise'', ''other'',
               ''uncategorized'', ''unknown'']
          then ''Shopping''
          else if normKey = ''foodanddrink'' \<or> normKey = ''fooddrink'' then ''Food & Dining''
          else case find_major (toLowerCase clean) of
            Some directMatch \<Rightarrow> cat_name directMatch
          | None \<Rightarrow>
              let fromSub = getMajorCategoryForSubcategory clean userCategories in
              if truthy fromSub then the fromSub else resolve_tail clean userCategories)"

definition excluded_keys :: "jstring list" where
  "excluded_keys = [''creditcardbill'', ''creditcardbills'', ''creditcardpayment'',
     ''creditcardpayments'', ''investment'', ''investments'', ''transferin'', ''transferout'',
     ''loanpaymentscreditcardpayment'', ''income'', ''transfer'', ''transferexcludefrombudget'',
     ''cashspendingtransfer'', ''cryptodeposit'', ''cryptoother'', ''cryptowithdrawal'',
     ''investmentdeposit'', ''investmentwithdrawal'', ''mortgagepayment'', ''othertransfer'',
     ''paycheck'', ''bonus'']"

definition isSpendingExcludedCategory :: "jstring option \<Rightarrow> bool" where
  "isSpendingExcludedCategory category =
     (if \<not> truthy category then False
      else if resolveMajorCategory category [] \<in>
          set [''Transfer'', ''Tax Refund'', ''Earned Income''] then True
      else alnum_key (trim (the category)) \<in> set excluded_keys)"

section \<open>Laws of the display name\<close>

lemma is_word_sep_lower [simp]: "is_word_sep (lower_char c) \<longleftrightarrow> is_word_sep c"
proof -
  have "lower_char c = CHR ''_'' \<longleftrightarrow> c = CHR ''_''"
    unfolding code_at_inject [symmetric] by (auto simp: lower_char_def is_upper_def code_at_def)
  then show ?thesis by (simp add: is_word_sep_def)
qed

lemma is_word_sep_upper [simp]: "is_word_sep (upper_char c) \<longleftrightarrow> is_word_sep c"
proof -
  have "upper_char c = CHR ''_'' \<longleftrightarrow> c = CHR ''_''"
    unfolding code_at_inject [symmetric] by (auto simp: upper_char_def is_lower_def code_at_def)
  then show ?thesis by (simp add: is_word_sep_def)
qed

lemma split_runs_lower:
  "split_runs is_word_sep (map lower_char acc) (toLowerCase s) =
   map toLowerCase (split_runs is_word_sep acc s)"
proof (induction is_word_sep acc s rule: split_runs.induct)
  case (1 acc)
  then show ?case by (simp add: toLowerCase_def rev_map)
next
  case (2 acc c cs)
  then show ?case by (auto simp: toLowerCase_def rev_map)
qed

lemma title_word_lower [simp]: "title_word (toLowerCase w) = title_word w"
  by (cases w) auto

lemma title_word_idem [simp]: "title_word (title_word w) = title_word w"
  by (cases w) auto

lemma title_word_eq_Nil [simp]: "title_word w = [] \<longleftrightarrow> w = []"
  by (cases w) auto

lemma title_word_no_sep:
  "\<forall>c\<in>set w. \<not> is_word_sep c \<Longrightarrow> \<forall>c\<in>set (title_word w). \<not> is_word_sep c"
  by (cases w) (auto simp: toLowerCase_def)

lemma display_form_lower [simp]: "display_form (toLowerCase s) = display_form s"
proof -
  have "split_runs is_word_sep [] (toLowerCase s) = map toLowerCase (split_runs is_word_sep [] s)"
    using split_runs_lower [of "[]" s] by simp
  then show ?thesis by (simp add: display_form_def comp_def)
qed

lemma join_ends:
  assumes "ws \<noteq> []" "\<forall>w\<in>set ws. w \<noteq> []"
  shows "join sep ws \<noteq> []" "hd (join sep ws) = hd (hd ws)" "last (join sep ws) = last (last ws)"
  using assms by (induction sep ws rule: join.induct) auto

definition clean_words :: "jstring list \<Rightarrow> bool" where
  "clean_words ws \<longleftrightarrow> (\<forall>w\<in>set ws. w \<noteq> [] \<and> (\<forall>c\<in>set w. \<not> is_word_sep c))"

lemma display_words: "clean_words (map title_word (split_runs is_word_sep [] s))"
proof -
  have "w \<noteq> [] \<and> (\<forall>c\<in>set w. \<not> is_word_sep c)" if "w \<in> set (split_runs is_word_sep [] s)" for w
    using split_runs_nonempty [OF that] split_runs_no_sep [OF _ that] by simp
  then have "title_word w \<noteq> [] \<and> (\<forall>c\<in>set (title_word w). \<not> is_word_sep c)"
    if "w \<in> set (split_runs is_word_sep [] s)" for w
    using that title_word_no_sep [of w] by simp
  then show ?thesis unfolding clean_words_def by simp
qed

lemma clean_join:
  assumes "clean_words ws"
  shows "trim (join '' '' ws) = join '' '' ws" "split_runs is_word_sep [] (join '' '' ws) = ws"
proof -
  show "trim (join '' '' ws) = join '' '' ws"
  proof (cases "ws = []")
    case False
    have ne: "\<forall>w\<in>set ws. w \<noteq> []" using assms by (auto simp: clean_words_def)
    have "hd ws \<in> set ws" "last ws \<in> set ws" using False by auto
    moreover from this have "hd (hd ws) \<in> set (hd ws)" "last (last ws) \<in> set (last ws)"
      using ne by auto
    ultimately have "\<not> is_space (hd (hd ws))" "\<not> is_space (last (last ws))"
      using assms unfolding clean_words_def is_word_sep_def by blast+
    then show ?thesis using join_ends [OF False ne, of "'' ''"] by (intro trim_id) simp
  qed simp
  show "split_runs is_word_sep [] (join '' '' ws) = ws"
    using assms by (intro split_runs_join) (auto simp: clean_words_def is_word_sep_def char_eval)
qed

lemma display_form_idem [simp]: "display_form (display_form s) = display_form s"
proof -
  let ?ws = "map title_word (split_runs is_word_sep [] s)"
  have "split_runs is_word_sep [] (display_form s) = ?ws"
    unfolding display_form_def by (rule clean_join(2)) (rule display_words)
  then show ?thesis by (simp add: display_form_def comp_def)
qed

lemma trim_display_form [simp]: "trim (display_form s) = display_form s"
  unfolding display_form_def by (rule clean_join(1)) (rule display_words)

lemma formatCategoryName_cases:
  "formatCategoryName x = ''Shopping'' \<or>
   (\<exists>s. x = Some s \<and> s \<noteq> [] \<and> formatCategoryName x = display_form (trim s))"
  by (cases x) (auto simp: formatCategoryName_def truthy_def Let_def)

lemma formatCategoryName_Shopping: "formatCategoryName (Some ''Shopping'') = ''Shopping''"
  by (simp add: formatCategoryName_def truthy_def display_form_def trim_def trim_start_def
      char_eval is_word_sep_def)

lemma formatCategoryName_display:
  "formatCategoryName (Some (display_form s)) \<in> {''Shopping'', display_form s}"
  by (auto simp: formatCategoryName_def Let_def)

lemma formatCategoryName_fixed:
  assumes "formatCategoryName x = y" "formatCategoryName (Some y) = y"
  shows "formatCategoryName (Some (formatCategoryName (Some y))) = y"
  using assms by simp

lemma formatCategoryName_lower:
  "formatCategoryName (Some (toLowerCase s)) = formatCategoryName (Some s)"
  by (simp add: formatCategoryName_def truthy_def Let_def toLowerCase_trim [symmetric])

lemma formatCategoryName_trim:
  "trim s \<noteq> [] \<Longrightarrow> formatCategoryName (Some (trim s)) = formatCategoryName (Some s)"
  by (cases "s = []") (auto simp: formatCategoryName_def truthy_def Let_def)

section \<open>Laws of the taxonomy\<close>

lemma find_major_Some: "find_major key = Some c \<Longrightarrow> c \<in> set CATEGORIES_TAXONOMY \<and>
    toLowerCase (cat_name c) = key"
  unfolding find_major_def by (drule find_SomeD)

lemma find_major_in:
  "\<forall>c\<in>set CATEGORIES_TAXONOMY. find_major (toLowerCase (cat_name c)) = Some c"
  by (simp add: CATEGORIES_TAXONOMY_def find_major_def char_eval)

definition special_keys :: "jstring list" where
  "special_keys = [''rentandutilities'', ''rentutilities'', ''rentandutilitieswater'',
     ''rentutilitieswater'', ''homesupplies'', ''householdsupplies'', ''personalcare'',
     ''generalmerchandise'', ''other'', ''uncategorized'', ''unknown'', ''foodanddrink'',
     ''fooddrink'']"

lemma major_keys:
  "map (\<lambda>c. alnum_key (cat_name c)) CATEGORIES_TAXONOMY =
   [''billsutilities'', ''childcare'', ''earnedincome'', ''education'', ''entertainment'',
    ''fooddining'', ''giftsdonations'', ''groceries'', ''homeimprovement'', ''homemanagement'',
    ''insurance'', ''medical'', ''pets'', ''shopping'', ''taxes'', ''taxrefund'',
    ''transportation'', ''transfer'', ''travel'']"
  by (simp only: CATEGORIES_TAXONOMY_def list.map CategoryDefinition.sel key_eval)

lemma major_key_not_special: "c \<in> set CATEGORIES_TAXONOMY \<Longrightarrow> alnum_key (cat_name c) \<notin> set special_keys"
proof -
  have "\<forall>k \<in> set (map (\<lambda>c. alnum_key (cat_name c)) CATEGORIES_TAXONOMY). k \<notin> set special_keys"
    unfolding major_keys by (simp add: special_keys_def)
  then show "c \<in> set CATEGORIES_TAXONOMY \<Longrightarrow> alnum_key (cat_name c) \<notin> set special_keys" by simp
qed

lemma major_nonempty: "\<forall>c\<in>set CATEGORIES_TAXONOMY. cat_name c \<noteq> []"
  by (simp add: CATEGORIES_TAXONOMY_def)

text \<open>Resolution once the special keys are out of the way.\<close>

lemma resolve_general:
  assumes "trim s \<noteq> []" "alnum_key (trim s) \<notin> set special_keys"
  shows "resolveMajorCategory (Some s) ucs =
    (case find_major (toLowerCase (trim s)) of Some m \<Rightarrow> cat_name m
     | None \<Rightarrow> let f = getMajorCategoryForSubcategory (trim s) ucs in
        if truthy f then the f else resolve_tail (trim s) ucs)"
proof -
  have "s \<noteq> []" using assms by auto
  then show ?thesis
    using assms by (simp add: resolveMajorCategory_def truthy_def special_keys_def Let_def)
qed

lemma resolve_major:
  assumes c: "c \<in> set CATEGORIES_TAXONOMY" and s: "toLowerCase (trim s) = toLowerCase (cat_name c)"
  shows "resolveMajorCategory (Some s) ucs = cat_name c"
proof -
  have "alnum_key (trim s) = alnum_key (cat_name c)" using s by (metis alnum_key_lower)
  moreover have "trim s \<noteq> []" using s major_nonempty c by (metis toLowerCase_eq_Nil)
  ultimately show ?thesis
    using major_key_not_special [OF c] find_major_in c s by (simp add: resolve_general)
qed

lemma fromSub_lower:
  "getMajorCategoryForSubcategory (toLowerCase s) ucs = getMajorCategoryForSubcategory s ucs"
  by (simp add: getMajorCategoryForSubcategory_def toLowerCase_trim [symmetric])

lemma toLowerCase_drop: "toLowerCase (drop n s) = drop n (toLowerCase s)"
  by (simp add: toLowerCase_def drop_map)

lemma resolve_tail_lower: "resolve_tail (toLowerCase s) ucs = resolve_tail s ucs"
  by (simp add: resolve_tail_def formatCategoryName_lower toLowerCase_trim toLowerCase_drop
      split: option.split)

lemma fromSub_cases:
  assumes "getMajorCategoryForSubcategory s ucs = Some r"
  shows "(\<exists>c\<in>set CATEGORIES_TAXONOMY. r = cat_name c) \<or>
    (\<exists>uc\<in>set ucs. toLowerCase (uc_name uc) = toLowerCase (trim s) \<and> uc_parent_category uc = Some r)"
proof -
  let ?n = "toLowerCase (trim s)"
  let ?p = "Option.bind (List.find (\<lambda>c. toLowerCase (uc_name c) = ?n) ucs) uc_parent_category"
  show ?thesis
  proof (cases "truthy ?p \<and> ?p = Some r")
    case True
    then show ?thesis by (auto simp: bind_eq_Some_conv dest!: find_SomeD)
  next
    case False
    have named: "\<exists>c\<in>set CATEGORIES_TAXONOMY. n = cat_name c"
      if "n \<in> set [''Shopping'', ''Bills & Utilities'', ''Home Improvement'']" for n
      using that by (auto simp: CATEGORIES_TAXONOMY_def)
    have "r \<in> set [''Shopping'', ''Bills & Utilities'', ''Home Improvement''] \<or>
        (\<exists>c\<in>set CATEGORIES_TAXONOMY. r = cat_name c)"
      using assms False unfolding getMajorCategoryForSubcategory_def Let_def
      by (auto dest!: find_SomeD find_major_Some split: if_splits option.splits)
    then show ?thesis using named by blast
  qed
qed

lemma resolve_tail_cases:
  "(\<exists>c\<in>set CATEGORIES_TAXONOMY. resolve_tail s ucs = cat_name c) \<or>
   (\<exists>uc\<in>set ucs. toLowerCase (uc_name uc) = toLowerCase s \<and>
      (resolve_tail s ucs = uc_name uc \<or> uc_parent_category uc = Some (resolve_tail s ucs))) \<or>
   resolve_tail s ucs = formatCategoryName (Some s)"
proof -
  have sh: "\<exists>c\<in>set CATEGORIES_TAXONOMY. ''Shopping'' = cat_name c"
    by (simp add: CATEGORIES_TAXONOMY_def)
  have so: "str_or x d = d \<or> x = Some (str_or x d)" for x d
    by (auto simp: str_or_def split: option.splits)
  show ?thesis
  proof (cases "startsWith (toLowerCase s) ''other ''")
    case True
    then show ?thesis using sh
      by (auto simp: resolve_tail_def dest!: find_major_Some split: option.splits)
  next
    case False
    show ?thesis
    proof (cases "List.find (\<lambda>c. toLowerCase (uc_name c) = toLowerCase s) ucs")
      case None
      then show ?thesis using False sh
        by (auto simp: resolve_tail_def Let_def dest!: find_major_Some split: option.splits)
    next
      case (Some uc)
      then have "uc \<in> set ucs" "toLowerCase (uc_name uc) = toLowerCase s"
        by (auto dest: find_SomeD)
      moreover have "resolve_tail s ucs = str_or (uc_parent_category uc) (uc_name uc)"
        using False Some by (simp add: resolve_tail_def)
      ultimately show ?thesis using so by metis
    qed
  qed
qed

section \<open>Subcategories of the taxonomy\<close>

lemma subcategory_keys:
  "map alnum_key (concat (map cat_subcategories CATEGORIES_TAXONOMY)) =
   [''ai'', ''internet'', ''phone'', ''television'', ''utilities'', ''water'', ''babysupplies'',
    ''babysitterdaycare'', ''childsupport'', ''kidsactivities'', ''toys'', ''bonus'',
    ''paycheck'', ''bookssupplies'', ''tuition'', ''amusement'', ''arts'', ''moviesdvds'',
    ''music'', ''newspapermagazines'', ''subscription'', ''alcoholbars'', ''coffeeshops'',
    ''fastfood'', ''restaurants'', ''charity'', ''childrenallowance'', ''gifts'', ''groceries'',
    ''furnishings'', ''householdsupplies'', ''lawngarden'', ''plantsneeds'', ''homeinsurance'',
    ''homeservices'', ''mortgage'', ''autoinsurance'', ''carinsurance'', ''healthinsurance'',
    ''lifeinsurance'', ''dentist'', ''doctor'', ''eyecare'', ''labs'', ''mentalhealth'',
    ''pharmacy'', ''boarding'', ''insurance'', ''books'', ''clothing'', ''decor'',
    ''electronics'', ''hair'', ''hobbies'', ''home'', ''kitchen'', ''laundry'',
    ''personalcare'', ''spamassage'', ''toys'', ''federaltax'', ''localtax'', ''propertytax'',
    ''salestax'', ''statetax'', ''taxfiling'', ''federaltax'', ''localtax'', ''propertytax'',
    ''salestax'', ''statetax'', ''autopayment'', ''carinsurance'', ''carmaintainance'',
    ''carregistration'', ''gas'', ''parking'', ''publictransport'', ''toll'', ''trafficticket'',
    ''cashspendingtransfer'', ''creditcardpayment'', ''cryptodeposit'', ''cryptowithdrawal'',
    ''investmentdeposit'', ''investmentwithdrawal'', ''mortgagepayment'', ''airtravel'',
    ''hotel'', ''rentalcartransportation'']"
  by (simp only: CATEGORIES_TAXONOMY_def list.map concat.simps append.simps CategoryDefinition.sel
      key_eval)

lemma subcategory_trimmed:
  "\<forall>c\<in>set CATEGORIES_TAXONOMY. \<forall>sub\<in>set (cat_subcategories c).
     sub \<noteq> [] \<and> \<not> is_space (hd sub) \<and> \<not> is_space (last sub)"
  by (simp only: CATEGORIES_TAXONOMY_def set_simps ball_simps CategoryDefinition.sel list.sel
      last.simps list.simps char_eval if_True if_False simp_thms)


lemma expense_keys_kept:
  "\<forall>c\<in>set CATEGORIES_TAXONOMY. cat_type c = Expense \<longrightarrow>
     alnum_key (cat_name c) \<notin> set excluded_keys \<and>
     (\<forall>sub\<in>set (cat_subcategories c). alnum_key sub \<notin> set excluded_keys)"
  by (simp add: CATEGORIES_TAXONOMY_def excluded_keys_def key_eval)

definition all_subcategories :: "jstring list" where
  "all_subcategories = concat (map cat_subcategories CATEGORIES_TAXONOMY)"

lemma special_subcategories:
  assumes "sub \<in> set all_subcategories" "alnum_key sub \<in> set special_keys"
  shows "sub = ''Household Supplies'' \<or> sub = ''Personal Care''"
proof -
  have "filter (\<lambda>p. fst p \<in> set special_keys)
      (zip (map alnum_key all_subcategories) all_subcategories) =
      [(''householdsupplies'', ''Household Supplies''), (''personalcare'', ''Personal Care'')]"
    unfolding all_subcategories_def subcategory_keys
    by (simp add: CATEGORIES_TAXONOMY_def special_keys_def)
  moreover have "(alnum_key sub, sub) \<in> set (filter (\<lambda>p. fst p \<in> set special_keys)
      (zip (map alnum_key all_subcategories) all_subcategories))"
    using assms by (force simp: zip_map1 zip_same)
  ultimately show ?thesis by auto
qed

lemma subcategory_not_general:
  assumes "sub \<in> set all_subcategories"
  shows "toLowerCase sub \<notin> set [''general merchandise'', ''general_merchandise'', ''other'',
    ''uncategorized'', ''general'']"
proof -
  have "\<forall>k\<in>set (map alnum_key all_subcategories).
      k \<notin> set [''generalmerchandise'', ''other'', ''uncategorized'', ''general'']"
    unfolding all_subcategories_def subcategory_keys by simp
  then have "alnum_key (toLowerCase sub) \<notin>
      set [''generalmerchandise'', ''other'', ''uncategorized'', ''general'']"
    using assms by simp
  then show ?thesis by (intro notI) (auto simp: key_eval dest: arg_cong [where f = alnum_key])
qed

text \<open>The major category a listed subcategory resolves to lists it, up to case, or has its name.\<close>

definition lists_label :: "CategoryDefinition \<Rightarrow> jstring \<Rightarrow> bool" where
  "lists_label d s \<longleftrightarrow> d \<in> set CATEGORIES_TAXONOMY \<and>
     (toLowerCase (cat_name d) = toLowerCase s \<or>
      (\<exists>sub\<in>set (cat_subcategories d). toLowerCase sub = toLowerCase s))"

lemma special_lists:
  "\<exists>d. lists_label d ''Household Supplies'' \<and>
     resolveMajorCategory (Some ''Household Supplies'') [] = cat_name d"
  "\<exists>d. lists_label d ''Personal Care'' \<and>
     resolveMajorCategory (Some ''Personal Care'') [] = cat_name d"
  by (simp_all add: lists_label_def CATEGORIES_TAXONOMY_def resolveMajorCategory_def truthy_def
      trim_def trim_start_def key_eval char_eval conj_disj_distribR ex_disj_distrib)

lemma fromSub_listed:
  assumes "sub \<in> set all_subcategories" "trim sub = sub"
  shows "\<exists>d. getMajorCategoryForSubcategory sub [] = Some (cat_name d) \<and> lists_label d sub"
proof -
  let ?P = "\<lambda>cat. list_ex (\<lambda>x. toLowerCase x = toLowerCase sub) (cat_subcategories cat)"
  have "\<exists>c\<in>set CATEGORIES_TAXONOMY. ?P c"
    using assms(1) by (auto simp: all_subcategories_def list_ex_iff)
  then obtain d where d: "List.find ?P CATEGORIES_TAXONOMY = Some d"
    by (cases "List.find ?P CATEGORIES_TAXONOMY") (auto simp: find_None_iff)
  then have "getMajorCategoryForSubcategory sub [] = Some (cat_name d)"
    using subcategory_not_general [OF assms(1)] assms(2)
    by (simp add: getMajorCategoryForSubcategory_def truthy_def)
  moreover have "lists_label d sub"
    using find_SomeD [OF d] by (auto simp: lists_label_def list_ex_iff)
  ultimately show ?thesis by blast
qed

lemma listed_label_resolves:
  assumes "sub \<in> set all_subcategories"
  shows "\<exists>d. lists_label d sub \<and> resolveMajorCategory (Some sub) [] = cat_name d"
proof -
  have t: "sub \<noteq> []" "trim sub = sub"
    using assms subcategory_trimmed by (auto simp: all_subcategories_def intro!: trim_id)
  show ?thesis
  proof (cases "alnum_key sub \<in> set special_keys")
    case True
    then show ?thesis using special_subcategories [OF assms] special_lists by metis
  next
    case False
    show ?thesis
    proof (cases "find_major (toLowerCase sub)")
      case (Some m)
      then show ?thesis using False t find_major_Some [OF Some]
        by (auto simp: resolve_general lists_label_def)
    next
      case None
      obtain d where d: "getMajorCategoryForSubcategory sub [] = Some (cat_name d)" "lists_label d sub"
        using fromSub_listed [OF assms t(2)] by blast
      then have "cat_name d \<noteq> []" using major_nonempty by (auto simp: lists_label_def)
      then show ?thesis using False t None d by (auto simp: resolve_general truthy_def)
    qed
  qed
qed

lemma excluded_label:
  assumes d: "lists_label d s" "resolveMajorCategory (Some s) [] = cat_name d" and s: "trim s = s" "s \<noteq> []"
  shows "isSpendingExcludedCategory (Some s) \<longleftrightarrow> cat_type d \<noteq> Expense"
proof -
  have names: "\<forall>c\<in>set CATEGORIES_TAXONOMY. cat_type c \<noteq> Expense \<longleftrightarrow>
      cat_name c \<in> set [''Transfer'', ''Tax Refund'', ''Earned Income'']"
    by (simp add: CATEGORIES_TAXONOMY_def)
  have dm: "d \<in> set CATEGORIES_TAXONOMY" using d by (simp add: lists_label_def)
  have "alnum_key s \<notin> set excluded_keys" if "cat_type d = Expense"
  proof -
    have e: "alnum_key (cat_name d) \<notin> set excluded_keys"
      "\<forall>sub\<in>set (cat_subcategories d). alnum_key sub \<notin> set excluded_keys"
      using expense_keys_kept dm that by auto
    from d(1) consider "toLowerCase (cat_name d) = toLowerCase s"
      | sub where "sub \<in> set (cat_subcategories d)" "toLowerCase sub = toLowerCase s"
      unfolding lists_label_def by blast
    then show ?thesis using e by cases (metis alnum_key_lower)+
  qed
  then show ?thesis
    using names dm d(2) s by (auto simp: isSpendingExcludedCategory_def truthy_def)
qed

text \<open>The names that are a category and a subcategory.\<close>

lemma name_of_both:
  assumes "sub \<in> set all_subcategories" "c \<in> set CATEGORIES_TAXONOMY" "toLowerCase (cat_name c) = toLowerCase sub"
  shows "sub = ''Insurance'' \<or> sub = ''Groceries''"
proof -
  have "filter (\<lambda>p. fst p \<in> set (map (\<lambda>c. alnum_key (cat_name c)) CATEGORIES_TAXONOMY))
      (zip (map alnum_key all_subcategories) all_subcategories) =
      [(''groceries'', ''Groceries''), (''insurance'', ''Insurance'')]"
    unfolding all_subcategories_def subcategory_keys major_keys by (simp add: CATEGORIES_TAXONOMY_def)
  moreover have "(alnum_key sub, sub) \<in> set (zip (map alnum_key all_subcategories) all_subcategories)"
    using assms(1) by (auto simp: zip_map1 zip_same_conv_map)
  moreover have "alnum_key sub \<in> set (map (\<lambda>c. alnum_key (cat_name c)) CATEGORIES_TAXONOMY)"
    using assms(2,3) by (auto simp: image_iff) (metis alnum_key_lower)
  ultimately have "(alnum_key sub, sub) \<in> set [(''groceries'', ''Groceries''), (''insurance'', ''Insurance'')]"
    using set_filter by (metis (no_types, lifting) CollectI fst_conv)
  then show ?thesis by auto
qed

lemma listed_or_insurance:
  assumes sub: "sub \<in> set all_subcategories" and d: "lists_label d sub" "resolveMajorCategory (Some sub) [] = cat_name d"
  shows "if sub = ''Insurance'' then cat_name d = sub
    else \<exists>x \<in> set (cat_subcategories d). toLowerCase x = toLowerCase sub"
proof -
  have ins: "resolveMajorCategory (Some ''Insurance'') [] = ''Insurance''"
    using resolve_major [of "CATEGORIES_TAXONOMY ! 10" "''Insurance''" "[]"]
    by (simp add: CATEGORIES_TAXONOMY_def trim_def trim_start_def char_eval)
  have gro: "\<exists>x \<in> set (cat_subcategories d). toLowerCase x = toLowerCase sub"
    if "sub = ''Groceries''" "toLowerCase (cat_name d) = toLowerCase sub"
    using resolve_major [of d "''Groceries''" "[]"] d that
    by (auto simp: lists_label_def CATEGORIES_TAXONOMY_def char_eval)
  consider "sub = ''Insurance''" | "sub = ''Groceries''" "toLowerCase (cat_name d) = toLowerCase sub"
    | "\<exists>x \<in> set (cat_subcategories d). toLowerCase x = toLowerCase sub"
    using d(1) name_of_both [OF sub] unfolding lists_label_def by metis
  then show ?thesis using ins gro d(2) by cases auto
qed

section \<open>Properties\<close>

lemma subcategories_step:
  "set (foldl (\<lambda>acc uc. if is_child_of n uc then set_add (uc_name uc) acc else acc) acc ucs) =
     set acc \<union> {uc_name uc |uc. uc \<in> set ucs \<and> is_child_of n uc}"
  "distinct (foldl (\<lambda>acc uc. if is_child_of n uc then set_add (uc_name uc) acc else acc) acc ucs) \<longleftrightarrow>
     distinct acc"
  by (induction ucs arbitrary: acc) auto

lemma taxonomy_distinct: "\<forall>c\<in>set CATEGORIES_TAXONOMY. distinct (cat_subcategories c)"
  by (simp add: CATEGORIES_TAXONOMY_def)

text \<open>
  The display name of a category settles after two applications: formatting a formatted name
  a second time changes nothing more, whatever the provider sent.
\<close>

theorem formatCategoryName_stable:
  "formatCategoryName (Some (formatCategoryName (Some (formatCategoryName x)))) =
   formatCategoryName (Some (formatCategoryName x))"
proof -
  have "formatCategoryName (Some (display_form s)) = display_form s \<or>
      formatCategoryName (Some (display_form s)) = ''Shopping''" for s
    using formatCategoryName_display [of s] by auto
  then show ?thesis using formatCategoryName_cases [of x] formatCategoryName_Shopping by metis
qed

text \<open>
  Resolving a label ignores its case and the whitespace around it, for every set of user
  categories.
\<close>

theorem resolveMajorCategory_insensitive:
  "resolveMajorCategory (Some s) ucs = resolveMajorCategory (Some (toLowerCase (trim s))) ucs"
proof (cases "s = []")
  case False
  then show ?thesis
    by (simp add: resolveMajorCategory_def truthy_def Let_def toLowerCase_trim [symmetric]
        fromSub_lower resolve_tail_lower split: option.split)
qed simp

text \<open>
  C20. A label that names a major category of the taxonomy, in any case and with any surrounding
  whitespace, resolves to exactly that category, whatever categories the user has added, and the label,
  as it is written, is left out of spending exactly when the taxonomy does not class it as an expense.
\<close>

theorem resolveMajorCategory_major:
  assumes "c \<in> set CATEGORIES_TAXONOMY" and "toLowerCase (trim s) = toLowerCase (cat_name c)"
  shows "resolveMajorCategory (Some s) ucs = cat_name c \<and>
    (isSpendingExcludedCategory (Some s) \<longleftrightarrow> cat_type c \<noteq> Expense) \<and>
    (isSpendingExcludedCategory (Some (cat_name c)) \<longleftrightarrow> cat_type c \<noteq> Expense)"
proof -
  have t: "trim (cat_name c) = cat_name c"
    using assms(1) by (auto simp: CATEGORIES_TAXONOMY_def char_eval intro!: trim_id)
  have "lists_label c (cat_name c)" using assms(1) by (simp add: lists_label_def)
  then have x: "isSpendingExcludedCategory (Some (cat_name c)) \<longleftrightarrow> cat_type c \<noteq> Expense"
    using t resolve_major [OF assms(1), of "cat_name c"] assms(1) major_nonempty
    by (simp add: excluded_label)
  have "alnum_key (trim s) = alnum_key (cat_name c)" using assms(2) by (metis alnum_key_lower)
  moreover have n: "cat_name c \<noteq> []" using assms(1) major_nonempty by blast
  moreover have "s \<noteq> []" using assms(2) n toLowerCase_eq_Nil by fastforce
  ultimately have "isSpendingExcludedCategory (Some s) \<longleftrightarrow> isSpendingExcludedCategory (Some (cat_name c))"
    using t resolve_major [OF assms] resolve_major [OF assms(1), of "cat_name c"]
    by (simp add: isSpendingExcludedCategory_def truthy_def)
  then show ?thesis using x resolve_major [OF assms] by simp
qed

theorem resolveMajorCategory_major_witness:
  "resolveMajorCategory (Some '' tRaVel '') [] = ''Travel'' \<and>
   \<not> isSpendingExcludedCategory (Some '' tRaVel '')"
  using resolveMajorCategory_major [of
      "CategoryDefinition ''Travel'' Expense [''Air Travel'', ''Hotel'', ''Rental Car & Transportation'']"
      "'' tRaVel ''" "[]"]
  by (simp add: CATEGORIES_TAXONOMY_def trim_def trim_start_def char_eval)

text \<open>
  C22. Every subcategory of the taxonomy resolves to a major category: Insurance, which is also the name
  of a major category that does not list it, to the category of that name, every other one to a category
  that lists it, up to case; and spending leaves it out exactly when the category it resolves to is not
  an expense.
\<close>

theorem subcategory_resolution:
  assumes "c \<in> set CATEGORIES_TAXONOMY" and "sub \<in> set (cat_subcategories c)"
  shows "\<exists>d \<in> set CATEGORIES_TAXONOMY. resolveMajorCategory (Some sub) [] = cat_name d \<and>
    (if sub = ''Insurance'' then cat_name d = sub
     else \<exists>x \<in> set (cat_subcategories d). toLowerCase x = toLowerCase sub) \<and>
    (isSpendingExcludedCategory (Some sub) \<longleftrightarrow> cat_type d \<noteq> Expense)"
proof -
  have sub: "sub \<in> set all_subcategories" using assms by (auto simp: all_subcategories_def)
  have "sub \<noteq> []" "trim sub = sub"
    using assms subcategory_trimmed by (auto intro!: trim_id)
  then obtain d where d: "lists_label d sub" "resolveMajorCategory (Some sub) [] = cat_name d"
      "isSpendingExcludedCategory (Some sub) \<longleftrightarrow> cat_type d \<noteq> Expense"
    using sub listed_label_resolves excluded_label by blast
  moreover have "d \<in> set CATEGORIES_TAXONOMY" using d(1) by (simp add: lists_label_def)
  ultimately show ?thesis using listed_or_insurance [OF sub d(1,2)] by blast
qed

theorem subcategory_resolution_witness:
  "\<exists>d \<in> set CATEGORIES_TAXONOMY. resolveMajorCategory (Some ''Mortgage Payment'') [] = cat_name d \<and>
     (\<exists>x \<in> set (cat_subcategories d). toLowerCase x = toLowerCase ''Mortgage Payment'')"
proof -
  have "CATEGORIES_TAXONOMY ! 17 \<in> set CATEGORIES_TAXONOMY"
      "''Mortgage Payment'' \<in> set (cat_subcategories (CATEGORIES_TAXONOMY ! 17))"
    by (simp_all add: CATEGORIES_TAXONOMY_def)
  note r = subcategory_resolution [OF this]
  have "''Mortgage Payment'' \<noteq> ''Insurance''" by simp
  then show ?thesis using r by (simp only: if_False) blast
qed

text \<open>
  A label never resolves to anything but a major category of the taxonomy, the user category
  of that name or its declared parent, or the display form of the label itself.
\<close>

theorem resolveMajorCategory_range:
  "(\<exists>c\<in>set CATEGORIES_TAXONOMY. resolveMajorCategory (Some s) ucs = cat_name c) \<or>
   (\<exists>uc\<in>set ucs. toLowerCase (uc_name uc) = toLowerCase (trim s) \<and>
      (resolveMajorCategory (Some s) ucs = uc_name uc \<or>
       uc_parent_category uc = Some (resolveMajorCategory (Some s) ucs))) \<or>
   resolveMajorCategory (Some s) ucs = formatCategoryName (Some s)"
proof -
  have named: "\<exists>c\<in>set CATEGORIES_TAXONOMY. n = cat_name c"
    if "n \<in> set [''Shopping'', ''Bills & Utilities'', ''Home Improvement'', ''Food & Dining'']" for n
    using that by (auto simp: CATEGORIES_TAXONOMY_def)
  show ?thesis
  proof (cases "trim s \<noteq> [] \<and> alnum_key (trim s) \<notin> set special_keys")
    case False
    then have "resolveMajorCategory (Some s) ucs \<in>
        set [''Shopping'', ''Bills & Utilities'', ''Home Improvement'', ''Food & Dining'']"
      by (auto simp: resolveMajorCategory_def special_keys_def Let_def truthy_def)
    then show ?thesis using named by blast
  next
    case True
    let ?f = "getMajorCategoryForSubcategory (trim s) ucs"
    have r: "resolveMajorCategory (Some s) ucs =
        (case find_major (toLowerCase (trim s)) of Some m \<Rightarrow> cat_name m
         | None \<Rightarrow> if truthy ?f then the ?f else resolve_tail (trim s) ucs)"
      using True by (simp add: resolve_general Let_def split: option.split)
    have t: "resolve_tail (trim s) ucs = formatCategoryName (Some s) \<longleftrightarrow>
        resolve_tail (trim s) ucs = formatCategoryName (Some (trim s))"
      using True by (simp add: formatCategoryName_trim)
    show ?thesis
      using fromSub_cases [of "trim s" ucs] resolve_tail_cases [of "trim s" ucs] t r
      by (cases "find_major (toLowerCase (trim s))"; cases ?f)
        (auto simp: truthy_def dest: find_major_Some split: if_splits)
  qed
qed

text \<open>
  The subcategories offered for a category are distinct and are exactly the ones of the
  taxonomy and the names of the user categories under it, less the catch-all labels and the
  label of the category itself.
\<close>

theorem getSubcategoriesForCategory_spec:
  "distinct (getSubcategoriesForCategory name ucs) \<and>
   set (getSubcategoriesForCategory name ucs) =
     {sub. subcategory_kept (toLowerCase (trim name)) sub \<and>
       ((\<exists>c. find_major (toLowerCase (trim name)) = Some c \<and> sub \<in> set (cat_subcategories c)) \<or>
        (\<exists>uc\<in>set ucs. is_child_of (toLowerCase (trim name)) uc \<and> sub = uc_name uc))}"
proof (cases "find_major (toLowerCase (trim name))")
  case None
  then show ?thesis
    by (auto simp: getSubcategoriesForCategory_def Let_def subcategories_step)
next
  case (Some c)
  then have "distinct (cat_subcategories c)"
    using find_major_Some taxonomy_distinct by blast
  then show ?thesis using Some
    by (auto simp: getSubcategoriesForCategory_def Let_def subcategories_step)
qed

end
