(* ===== verification/Tag_Themes.thy ===== *)
theory Tag_Themes
  imports Api_Types "HOL-Library.Word"
begin

text \<open>
  The colour theme of a category (\<^verbatim>\<open>utils/categories.ts\<close>): a 32-bit string hash that
  selects one of the ten themes. The shift, the subtraction and the addition stay far below the
  range in which a double is exact, and \<^verbatim>\<open>h |= 0\<close> brings the sum back to a signed 32-bit
  integer, so that a step is the arithmetic of \<open>32 word\<close>.
\<close>

record TagTheme =
  tt_key :: jstring
  tt_tag :: jstring
  tt_dot :: jstring
  tt_ring :: jstring
  tt_ringHex :: jstring
  tt_selectedTag :: jstring

definition PILL_TYPOGRAPHY :: jstring where
  "PILL_TYPOGRAPHY = ''text-[0.6rem] font-bold uppercase tracking-[0.18em]''"

definition TAG_THEMES :: "TagTheme list" where
  "TAG_THEMES = [
   \<lparr>tt_key = ''sky'',
     tt_tag = PILL_TYPOGRAPHY @
       '' text-slate-800 dark:text-sky-100 border border-sky-200/70 dark:border-sky-400/30 shadow-[0_18px_52px_-34px_rgba(14,165,233,0.55)] bg-[linear-gradient(130deg,_rgba(14,165,233,0.24),_rgba(14,165,233,0.08))] dark:bg-[linear-gradient(130deg,_rgba(56,189,248,0.18),_rgba(56,189,248,0.06))]'',
     tt_dot = ''bg-sky-500/90 dark:bg-sky-300/85'',
     tt_ring = ''ring-sky-400'', tt_ringHex = ''#38bdf8'',
     tt_selectedTag = PILL_TYPOGRAPHY @
       '' text-white bg-sky-500 border border-sky-300 shadow-[0_0_18px_rgba(14,165,233,0.85)] ring-2 ring-sky-300 dark:ring-sky-400 scale-[1.04] ring-offset-1 ring-offset-white dark:ring-offset-slate-950 font-extrabold''\<rparr>,
   \<lparr>tt_key = ''emerald'',
     tt_tag = PILL_TYPOGRAPHY @
       '' text-slate-800 dark:text-emerald-100 border border-emerald-200/70 dark:border-emerald-400/30 shadow-[0_18px_52px_-34px_rgba(16,185,129,0.55)] bg-[linear-gradient(130deg,_rgba(16,185,129,0.26),_rgba(16,185,129,0.08))] dark:bg-[linear-gradient(130deg,_rgba(34,197,94,0.2),_rgba(34,197,94,0.07))]'',
     tt_dot = ''bg-emerald-500/90 dark:bg-emerald-300/80'',
     tt_ring = ''ring-emerald-400'', tt_ringHex = ''#34d399'',
     tt_selectedTag = PILL_TYPOGRAPHY @
       '' text-white bg-emerald-500 border border-emerald-300 shadow-[0_0_18px_rgba(16,185,129,0.85)] ring-2 ring-emerald-300 dark:ring-emerald-400 scale-[1.04] ring-offset-1 ring-offset-white dark:ring-offset-slate-950 font-extrabold''\<rparr>,
   \<lparr>tt_key = ''cyan'',
     tt_tag = PILL_TYPOGRAPHY @
       '' text-slate-800 dark:text-cyan-100 border border-cyan-200/70 dark:border-cyan-400/30 shadow-[0_18px_52px_-34px_rgba(6,182,212,0.52)] bg-[linear-gradient(130deg,_rgba(6,182,212,0.25),_rgba(6,182,212,0.08))] dark:bg-[linear-gradient(130deg,_rgba(34,211,238,0.18),_rgba(34,211,238,0.06))]'',
     tt_dot = ''bg-cyan-500/90 dark:bg-cyan-300/80'',
     tt_ring = ''ring-cyan-400'', tt_ringHex = ''#22d3ee'',
     tt_selectedTag = PILL_TYPOGRAPHY @
       '' text-white bg-cyan-500 border border-cyan-300 shadow-[0_0_18px_rgba(6,182,212,0.85)] ring-2 ring-cyan-300 dark:ring-cyan-400 scale-[1.04] ring-offset-1 ring-offset-white dark:ring-offset-slate-950 font-extrabold''\<rparr>,
   \<lparr>tt_key = ''violet'',
     tt_tag = PILL_TYPOGRAPHY @
       '' text-slate-800 dark:text-violet-100 border border-violet-200/70 dark:border-violet-400/30 shadow-[0_18px_52px_-34px_rgba(139,92,246,0.54)] bg-[linear-gradient(130deg,_rgba(139,92,246,0.24),_rgba(139,92,246,0.08))] dark:bg-[linear-gradient(130deg,_rgba(167,139,250,0.2),_rgba(167,139,250,0.06))]'',
     tt_dot = ''bg-violet-500/90 dark:bg-violet-300/80'',
     tt_ring = ''ring-violet-400'', tt_ringHex = ''#a78bfa'',
     tt_selectedTag = PILL_TYPOGRAPHY @
       '' text-white bg-violet-600 border border-violet-300 shadow-[0_0_18px_rgba(139,92,246,0.85)] ring-2 ring-violet-300 dark:ring-violet-400 scale-[1.04] ring-offset-1 ring-offset-white dark:ring-offset-slate-950 font-extrabold''\<rparr>,
   \<lparr>tt_key = ''amber'',
     tt_tag = PILL_TYPOGRAPHY @
       '' text-slate-800 dark:text-amber-100 border border-amber-200/70 dark:border-amber-400/30 shadow-[0_18px_52px_-34px_rgba(245,158,11,0.5)] bg-[linear-gradient(130deg,_rgba(245,158,11,0.26),_rgba(245,158,11,0.1))] dark:bg-[linear-gradient(130deg,_rgba(251,191,36,0.24),_rgba(251,191,36,0.08))]'',
     tt_dot = ''bg-amber-500/90 dark:bg-amber-300/85'',
     tt_ring = ''ring-amber-400'', tt_ringHex = ''#fbbf24'',
     tt_selectedTag = PILL_TYPOGRAPHY @
       '' text-white bg-amber-500 border border-amber-300 shadow-[0_0_18px_rgba(245,158,11,0.85)] ring-2 ring-amber-300 dark:ring-amber-400 scale-[1.04] ring-offset-1 ring-offset-white dark:ring-offset-slate-950 font-extrabold''\<rparr>,
   \<lparr>tt_key = ''rose'',
     tt_tag = PILL_TYPOGRAPHY @
       '' text-slate-800 dark:text-rose-100 border border-rose-200/70 dark:border-rose-400/30 shadow-[0_18px_52px_-34px_rgba(244,63,94,0.5)] bg-[linear-gradient(130deg,_rgba(244,63,94,0.26),_rgba(244,63,94,0.1))] dark:bg-[linear-gradient(130deg,_rgba(251,113,133,0.22),_rgba(251,113,133,0.07))]'',
     tt_dot = ''bg-rose-500/90 dark:bg-rose-300/80'',
     tt_ring = ''ring-rose-400'', tt_ringHex = ''#fb7185'',
     tt_selectedTag = PILL_TYPOGRAPHY @
       '' text-white bg-rose-500 border border-rose-300 shadow-[0_0_18px_rgba(244,63,94,0.85)] ring-2 ring-rose-300 dark:ring-rose-400 scale-[1.04] ring-offset-1 ring-offset-white dark:ring-offset-slate-950 font-extrabold''\<rparr>,
   \<lparr>tt_key = ''indigo'',
     tt_tag = PILL_TYPOGRAPHY @
       '' text-slate-800 dark:text-indigo-100 border border-indigo-200/70 dark:border-indigo-400/30 shadow-[0_18px_52px_-34px_rgba(99,102,241,0.5)] bg-[linear-gradient(130deg,_rgba(99,102,241,0.26),_rgba(99,102,241,0.08))] dark:bg-[linear-gradient(130deg,_rgba(129,140,248,0.2),_rgba(129,140,248,0.06))]'',
     tt_dot = ''bg-indigo-500/90 dark:bg-indigo-300/80'',
     tt_ring = ''ring-indigo-400'', tt_ringHex = ''#818cf8'',
     tt_selectedTag = PILL_TYPOGRAPHY @
       '' text-white bg-indigo-600 border border-indigo-300 shadow-[0_0_18px_rgba(99,102,241,0.85)] ring-2 ring-indigo-300 dark:ring-indigo-400 scale-[1.04] ring-offset-1 ring-offset-white dark:ring-offset-slate-950 font-extrabold''\<rparr>,
   \<lparr>tt_key = ''fuchsia'',
     tt_tag = PILL_TYPOGRAPHY @
       '' text-slate-800 dark:text-fuchsia-100 border border-fuchsia-200/70 dark:border-fuchsia-400/30 shadow-[0_18px_52px_-34px_rgba(232,121,249,0.5)] bg-[linear-gradient(130deg,_rgba(232,121,249,0.26),_rgba(232,121,249,0.1))] dark:bg-[linear-gradient(130deg,_rgba(217,70,239,0.2),_rgba(217,70,239,0.06))]'',
     tt_dot = ''bg-fuchsia-500/90 dark:bg-fuchsia-300/80'',
     tt_ring = ''ring-fuchsia-400'', tt_ringHex = ''#e879f9'',
     tt_selectedTag = PILL_TYPOGRAPHY @
       '' text-white bg-fuchsia-600 border border-fuchsia-300 shadow-[0_0_18px_rgba(232,121,249,0.85)] ring-2 ring-fuchsia-300 dark:ring-fuchsia-400 scale-[1.04] ring-offset-1 ring-offset-white dark:ring-offset-slate-950 font-extrabold''\<rparr>,
   \<lparr>tt_key = ''teal'',
     tt_tag = PILL_TYPOGRAPHY @
       '' text-slate-800 dark:text-teal-100 border border-teal-200/70 dark:border-teal-400/30 shadow-[0_18px_52px_-34px_rgba(20,184,166,0.5)] bg-[linear-gradient(130deg,_rgba(20,184,166,0.25),_rgba(20,184,166,0.09))] dark:bg-[linear-gradient(130deg,_rgba(45,212,191,0.2),_rgba(45,212,191,0.06))]'',
     tt_dot = ''bg-teal-500/90 dark:bg-teal-300/80'',
     tt_ring = ''ring-teal-400'', tt_ringHex = ''#2dd4bf'',
     tt_selectedTag = PILL_TYPOGRAPHY @
       '' text-white bg-teal-500 border border-teal-300 shadow-[0_0_18px_rgba(20,184,166,0.85)] ring-2 ring-teal-300 dark:ring-teal-400 scale-[1.04] ring-offset-1 ring-offset-white dark:ring-offset-slate-950 font-extrabold''\<rparr>,
   \<lparr>tt_key = ''lime'',
     tt_tag = PILL_TYPOGRAPHY @
       '' text-slate-800 dark:text-lime-100 border border-lime-200/70 dark:border-lime-400/30 shadow-[0_18px_52px_-34px_rgba(132,204,22,0.48)] bg-[linear-gradient(130deg,_rgba(132,204,22,0.26),_rgba(132,204,22,0.1))] dark:bg-[linear-gradient(130deg,_rgba(163,230,53,0.2),_rgba(163,230,53,0.06))]'',
     tt_dot = ''bg-lime-500/90 dark:bg-lime-300/80'',
     tt_ring = ''ring-lime-400'', tt_ringHex = ''#a3e635'',
     tt_selectedTag = PILL_TYPOGRAPHY @
       '' text-white bg-lime-600 border border-lime-300 shadow-[0_0_18px_rgba(101,163,13,0.85)] ring-2 ring-lime-300 dark:ring-lime-400 scale-[1.04] ring-offset-1 ring-offset-white dark:ring-offset-slate-950 font-extrabold''\<rparr>]"

definition hash_step :: "32 word \<Rightarrow> char \<Rightarrow> 32 word" where
  "hash_step h c = push_bit 5 h - h + of_nat (code_at c)"

definition hashString :: "jstring \<Rightarrow> int" where
  "hashString str = \<bar>sint (foldl hash_step 0 str)\<bar>"

definition getTagThemeForCategory :: "jstring option \<Rightarrow> TagTheme" where
  "getTagThemeForCategory name =
     (let key = toLowerCase (str_or name ''Uncategorized'');
          idx = hashString key mod int (length TAG_THEMES)
      in TAG_THEMES ! nat idx)"

lemma length_themes [simp]: "length TAG_THEMES = 10"
  by (simp add: TAG_THEMES_def)

lemma hashString_bounds: "0 \<le> hashString s" "hashString s \<le> 2 ^ 31"
  using sint_range_size [of "foldl hash_step 0 s"]
  by (auto simp: hashString_def word_size)

text \<open>The step is the multiplication by 31 of the usual string hash.\<close>

lemma hash_step_mult: "hash_step h c = 31 * h + of_nat (code_at c)"
  by (simp add: hash_step_def push_bit_eq_mult algebra_simps)

text \<open>
  The theme of a category is always one of the ten themes, also at the most negative hash,
  whose absolute value is not a 32-bit integer; and it does not depend on the case of the name.
\<close>

theorem getTagThemeForCategory_total:
  "getTagThemeForCategory name \<in> set TAG_THEMES \<and>
   getTagThemeForCategory (Some (toLowerCase s)) = getTagThemeForCategory (Some s)"
proof
  let ?k = "toLowerCase (str_or name ''Uncategorized'')"
  have "nat (hashString ?k mod 10) < length TAG_THEMES" by (simp add: nat_less_iff)
  then show "getTagThemeForCategory name \<in> set TAG_THEMES"
    by (simp add: getTagThemeForCategory_def Let_def)
  show "getTagThemeForCategory (Some (toLowerCase s)) = getTagThemeForCategory (Some s)"
    by (cases s) (simp_all add: getTagThemeForCategory_def)
qed

end
