(* ===== verification/Transaction_Amounts.thy ===== *)
theory Transaction_Amounts
  imports Categories
begin

text \<open>
  The sign and the spending of a transaction (\<^verbatim>\<open>utils/transactionAmounts.ts\<close>): the numeric
  amount of a JSON value, the amount as displayed (a teller credit account keeps the provider's
  sign), and the net spending, from which the budget and the dashboard are computed.
\<close>

definition getNumericAmount :: "Transaction \<Rightarrow> rat" where
  "getNumericAmount t = fin_or_zero (js_Number (tx_amount t))"

definition is_credit_account :: "Transaction \<Rightarrow> bool" where
  "is_credit_account t \<longleftrightarrow>
     toLowerCase (tx_account_type t) \<in> set [''credit'', ''credit card'']"

definition getDisplayAmount :: "Transaction \<Rightarrow> rat" where
  "getDisplayAmount t =
     (if tx_provider t = Some Teller \<and> is_credit_account t then getNumericAmount t
      else - getNumericAmount t)"

definition isTransactionCategoryExcluded :: "Transaction \<Rightarrow> bool" where
  "isTransactionCategoryExcluded t =
     (if isSpendingExcludedCategory (category_primary t) \<or>
         isSpendingExcludedCategory (category_detailed t) \<or>
         isSpendingExcludedCategory (tx_custom_category t) \<or>
         isSpendingExcludedCategory (tx_rule_category t)
      then True
      else is_credit_account t \<and>
        alnum_key (trim (str_or (category_primary t) [])) = ''loanpayments'')"

definition getNetSpendingAmount :: "Transaction \<Rightarrow> rat" where
  "getNetSpendingAmount t =
     (if isTransactionCategoryExcluded t then 0
      else if \<not> is_credit_account t
        then (if 0 \<le> getDisplayAmount t then 0 else - getDisplayAmount t)
      else - getDisplayAmount t)"

definition isSpendingTransaction :: "Transaction \<Rightarrow> bool" where
  "isSpendingTransaction t \<longleftrightarrow> getDisplayAmount t < 0 \<and> \<not> isTransactionCategoryExcluded t"

lemma display_abs: "\<bar>getDisplayAmount t\<bar> = \<bar>getNumericAmount t\<bar>"
  by (simp add: getDisplayAmount_def)

text \<open>
  A transaction counts as spending exactly when its net spending is positive; net spending is
  never negative outside credit accounts, where a refund is negative spending of its full
  displayed amount; and it is never more than the absolute amount.
\<close>

theorem net_spending_sign:
  "(isSpendingTransaction t \<longleftrightarrow> 0 < getNetSpendingAmount t) \<and>
   (is_credit_account t \<or> 0 \<le> getNetSpendingAmount t) \<and>
   (getNetSpendingAmount t < 0 \<longleftrightarrow>
      is_credit_account t \<and> 0 < getDisplayAmount t \<and> \<not> isTransactionCategoryExcluded t) \<and>
   \<bar>getNetSpendingAmount t\<bar> \<le> \<bar>getNumericAmount t\<bar>"
  using display_abs [of t]
  by (auto simp: isSpendingTransaction_def getNetSpendingAmount_def)

end
