(* ===== verification/Date_Ranges.thy ===== *)
theory Date_Ranges
  imports Api_Types
begin

text \<open>
  Calendar keys and period selections (\<^verbatim>\<open>utils/dateOnly.ts\<close>,
  \<^verbatim>\<open>utils/dateRanges.ts\<close>): the date-only key of a timestamp, the range of a selected
  month or year, and the named ranges ending with the current month.
\<close>

section \<open>Date-only keys\<close>

definition toDateOnlyKey :: "date_env \<Rightarrow> jstring \<Rightarrow> jstring" where
  "toDateOnlyKey e value =
     (if date_only_prefix value then take 10 value
      else case date_parse e value of
        None \<Rightarrow> []
      | Some t \<Rightarrow>
          let n = local_day e t in
          raw_date (year_of_day n) (month_of_day n + 1) (date_of_day n))"

text \<open>The formatter of \<^verbatim>\<open>Intl.DateTimeFormat\<close> is a parameter, applied to a local day.\<close>

definition formatDateOnly :: "date_env \<Rightarrow> (jstring \<Rightarrow> int \<Rightarrow> jstring) \<Rightarrow> jstring \<Rightarrow> jstring \<Rightarrow> jstring"
  where
  "formatDateOnly e intl value locale' =
     (let key = toDateOnlyKey e value in
      if \<not> date_only_prefix key then value
      else intl locale' (new_date (two_digits (take 4 key)) (two_digits (take 2 (drop 5 key)) - 1)
        (two_digits (take 2 (drop 8 key)))))"

section \<open>Ranges\<close>

datatype DateRangeKey = Current_month | Past_2_months | Past_3_months | Past_6_months
  | Past_year | All_time

record MonthYearSelection =
  sel_year :: int
  sel_month :: "int option"

definition fmt :: "int \<Rightarrow> jstring" where
  "fmt d = pad_start 4 (int_str (year_of_day d)) @ ''-'' @
     pad_start 2 (int_str (month_of_day d + 1)) @ ''-'' @ pad_start 2 (int_str (date_of_day d))"

definition localDate :: "int \<Rightarrow> int \<Rightarrow> int \<Rightarrow> int" where
  "localDate year month0 day = make_day year month0 day"

definition getCurrentMonthSelection :: "int \<Rightarrow> MonthYearSelection" where
  "getCurrentMonthSelection today =
     \<lparr>sel_year = year_of_day today, sel_month = Some (month_of_day today)\<rparr>"

definition computeMonthRange :: "MonthYearSelection \<Rightarrow> jstring \<times> jstring" where
  "computeMonthRange selection = (case sel_month selection of
     None \<Rightarrow> (fmt (localDate (sel_year selection) 0 1), fmt (localDate (sel_year selection) 12 0))
   | Some m \<Rightarrow> (fmt (localDate (sel_year selection) m 1),
               fmt (localDate (sel_year selection) (m + 1) 0)))"

definition computeDateRange :: "int \<Rightarrow> DateRangeKey option \<Rightarrow> (jstring \<times> jstring) option" where
  "computeDateRange now key =
     (let y = year_of_day now; m = month_of_day now;
          firstOfMonth = (\<lambda>year month0. localDate year month0 1);
          lastOfMonth = (\<lambda>year month0. localDate year (month0 + 1) 0)
      in case key of
        Some Current_month \<Rightarrow> Some (fmt (firstOfMonth y m), fmt (lastOfMonth y m))
      | Some Past_2_months \<Rightarrow> Some (fmt (firstOfMonth y (m - 1)), fmt (lastOfMonth y m))
      | Some Past_3_months \<Rightarrow> Some (fmt (firstOfMonth y (m - 2)), fmt (lastOfMonth y m))
      | Some Past_6_months \<Rightarrow> Some (fmt (firstOfMonth y (m - 5)), fmt (lastOfMonth y m))
      | Some Past_year \<Rightarrow> Some (fmt (firstOfMonth y (m - 11)), fmt (lastOfMonth y m))
      | Some All_time \<Rightarrow> None
      | None \<Rightarrow> None)"

section \<open>Months as intervals of days\<close>

lemma fmt_day_key: "fmt = day_key"
  by (simp add: fun_eq_iff fmt_def day_key_def date_key_def)

definition month_index :: "int \<Rightarrow> int" where
  "month_index n = 12 * year_of_day n + month_of_day n"

lemma month_of_day_range: "0 \<le> month_of_day n" "month_of_day n < 12"
  using fields_valid [of n] by (auto simp: valid_date_def)

lemma month_index_eq_iff:
  "0 \<le> m \<Longrightarrow> m < 12 \<Longrightarrow> month_index n = 12 * y + m \<longleftrightarrow> year_of_day n = y \<and> month_of_day n = m"
  using month_of_day_range [of n] unfolding month_index_def by presburger

lemma month_index_year: "12 * y \<le> month_index n \<and> month_index n \<le> 12 * y + 11 \<longleftrightarrow> year_of_day n = y"
proof -
  have gen: "0 \<le> m \<Longrightarrow> m < 12 \<Longrightarrow> 12 * y \<le> 12 * x + m \<and> 12 * x + m \<le> 12 * y + 11 \<longleftrightarrow> x = y"
    for x m :: int
    by arith
  show ?thesis unfolding month_index_def by (rule gen [OF month_of_day_range])
qed

lemma first_of_month_le: "make_day y m 1 \<le> n \<longleftrightarrow> 12 * y + m \<le> month_index n"
proof -
  define Y M where "Y = y + m div 12" and "M = m mod 12"
  have M: "0 \<le> M" "M < 12" and eq: "12 * y + m = 12 * Y + M" by (simp_all add: Y_def M_def)
  have "n < make_day Y M 1 \<longleftrightarrow> year_of_day n < Y \<or> (year_of_day n = Y \<and>
      (month_of_day n < M \<or> (month_of_day n = M \<and> date_of_day n < 1)))"
    using make_day_less_iff [OF fields_valid valid_first [OF M]] by (simp add: make_day_fields)
  moreover have "1 \<le> date_of_day n" using fields_valid [of n] by (simp add: valid_date_def)
  ultimately have "make_day Y M 1 \<le> n \<longleftrightarrow> 12 * Y + M \<le> month_index n"
    using month_of_day_range [of n] M unfolding month_index_def by presburger
  then show ?thesis using eq make_day_month_norm [of y m 1] by (simp add: Y_def M_def add.commute)
qed

lemma le_last_of_month: "n \<le> make_day y (m + 1) 0 \<longleftrightarrow> month_index n \<le> 12 * y + m"
proof -
  have "make_day y (m + 1) 1 = make_day y (m + 1) 0 + 1"
    using make_day_add [of y "m + 1" 0 1] by simp
  then show ?thesis using first_of_month_le [of y "m + 1" n] by linarith
qed

lemma year_of_first: "year_of_day (make_day y m 1) = y + m div 12"
  using fields_make_day(1) [OF valid_first, of "m mod 12" "y + m div 12"]
    make_day_month_norm [of y m 1] by simp

lemma year_of_last: "year_of_day (make_day y (m + 1) 0) = y + m div 12"
proof -
  have "make_day y (m + 1) 0 = make_day (y + m div 12) (m mod 12 + 1) 0"
    using make_day_add [of y "m + 1" 1 "- 1"] make_day_add [of "y + m div 12" "m mod 12 + 1" 1 "- 1"]
      first_of_month_le [of y "m + 1"] first_of_month_le [of "y + m div 12" "m mod 12 + 1"]
    by (metis (no_types, opaque_lifting) add.assoc add_uminus_conv_diff diff_self distrib_left
        mult_div_mod_eq order_refl order_antisym)
  then show ?thesis using last_day_fields(1) [of "m mod 12" "y + m div 12"] by simp
qed

text \<open>A range of whole months, compared through its keys.\<close>

lemma month_range_keys:
  assumes "four_digit_day n" "0 \<le> y + m div 12" "y + m div 12 < 10000"
    "0 \<le> y' + m' div 12" "y' + m' div 12 < 10000"
  shows "fmt (localDate y m 1) \<le> day_key n \<and> day_key n \<le> fmt (localDate y' (m' + 1) 0) \<longleftrightarrow>
    12 * y + m \<le> month_index n \<and> month_index n \<le> 12 * y' + m'"
proof -
  have "four_digit_day (make_day y m 1)" "four_digit_day (make_day y' (m' + 1) 0)"
    using assms by (simp_all add: four_digit_day_def year_of_first year_of_last)
  then show ?thesis
    using assms(1) by (simp add: fmt_day_key localDate_def day_key_le_iff first_of_month_le
        le_last_of_month)
qed

section \<open>Properties\<close>

text \<open>
  C26. The range of a selected month holds exactly the keys of the days of that month, and the
  range of a whole year exactly the keys of the days of that year.
\<close>

theorem computeMonthRange_exact:
  assumes "four_digit_day n" and "0 \<le> sel_year s" and "sel_year s < 10000"
    and "\<And>m. sel_month s = Some m \<Longrightarrow> 0 \<le> m \<and> m < 12"
  shows "fst (computeMonthRange s) \<le> day_key n \<and> day_key n \<le> snd (computeMonthRange s) \<longleftrightarrow>
    year_of_day n = sel_year s \<and> (case sel_month s of None \<Rightarrow> True | Some m \<Rightarrow> month_of_day n = m)"
proof (cases "sel_month s")
  case None
  have "fst (computeMonthRange s) \<le> day_key n \<and> day_key n \<le> snd (computeMonthRange s) \<longleftrightarrow>
      12 * sel_year s \<le> month_index n \<and> month_index n \<le> 12 * sel_year s + 11"
    using month_range_keys [OF assms(1), of "sel_year s" 0 "sel_year s" 11] assms(2,3) None
    by (simp add: computeMonthRange_def)
  also have "\<dots> \<longleftrightarrow> year_of_day n = sel_year s"
    by (rule month_index_year)
  finally show ?thesis using None by simp
next
  case (Some m)
  then have m: "0 \<le> m" "m < 12" using assms(4) by auto
  then have "fst (computeMonthRange s) \<le> day_key n \<and> day_key n \<le> snd (computeMonthRange s) \<longleftrightarrow>
      12 * sel_year s + m \<le> month_index n \<and> month_index n \<le> 12 * sel_year s + m"
    using month_range_keys [OF assms(1), of "sel_year s" m "sel_year s" m] assms(2,3) Some
    by (simp add: computeMonthRange_def)
  also have "\<dots> \<longleftrightarrow> month_index n = 12 * sel_year s + m" by linarith
  also have "\<dots> \<longleftrightarrow> year_of_day n = sel_year s \<and> month_of_day n = m"
    by (rule month_index_eq_iff [OF m])
  finally show ?thesis using Some by simp
qed

theorem computeMonthRange_exact_witness:
  "fst (computeMonthRange \<lparr>sel_year = 2024, sel_month = Some 1\<rparr>) \<le> day_key 19782 \<and>
   day_key 19782 \<le> snd (computeMonthRange \<lparr>sel_year = 2024, sel_month = Some 1\<rparr>)"
proof -
  have d: "year_of_day 19782 = 2024" "month_of_day 19782 = 1" by code_simp+
  show ?thesis
    using computeMonthRange_exact [of 19782 "\<lparr>sel_year = 2024, sel_month = Some 1\<rparr>"] d
    by (simp add: four_digit_day_def)
qed

definition range_months :: "DateRangeKey \<Rightarrow> int option" where
  "range_months key = (case key of Current_month \<Rightarrow> Some 0 | Past_2_months \<Rightarrow> Some 1
     | Past_3_months \<Rightarrow> Some 2 | Past_6_months \<Rightarrow> Some 5 | Past_year \<Rightarrow> Some 11
     | All_time \<Rightarrow> None)"

text \<open>
  A named range holds exactly the days of the current month and of the 0, 1, 2, 5 or 11
  months before it, across the turn of the year; the all-time range has no bounds.
\<close>

theorem computeDateRange_exact:
  assumes "four_digit_day n" and "four_digit_day today" and "1 \<le> year_of_day today"
  shows "(case computeDateRange today (Some key) of None \<Rightarrow> True
      | Some (start, finish) \<Rightarrow> start \<le> day_key n \<and> day_key n \<le> finish) \<longleftrightarrow>
    (case range_months key of None \<Rightarrow> True
      | Some k \<Rightarrow> month_index today - k \<le> month_index n \<and> month_index n \<le> month_index today)"
proof (cases "range_months key")
  case None
  then have "key = All_time" by (cases key) (auto simp: range_months_def)
  then show ?thesis using None by (simp add: computeDateRange_def)
next
  case (Some k)
  then have k: "0 \<le> k" "k < 12" by (auto simp: range_months_def split: DateRangeKey.splits)
  let ?y = "year_of_day today" and ?m = "month_of_day today"
  have range: "computeDateRange today (Some key) =
      Some (fmt (localDate ?y (?m - k) 1), fmt (localDate ?y (?m + 1) 0))"
    using Some by (auto simp: computeDateRange_def range_months_def Let_def split: DateRangeKey.splits)
  have "0 \<le> ?y + (?m - k) div 12" "?y + (?m - k) div 12 < 10000" "?m div 12 = 0"
    using k month_of_day_range [of today] assms by (auto simp: four_digit_day_def)
  then show ?thesis
    using Some assms month_range_keys [of n ?y "?m - k" ?y ?m]
    by (simp add: range four_digit_day_def month_index_def algebra_simps)
qed

theorem computeDateRange_exact_witness:
  "(case computeDateRange 19782 (Some Past_year) of None \<Rightarrow> True
     | Some (start, finish) \<Rightarrow> start \<le> day_key 19500 \<and> day_key 19500 \<le> finish) \<longleftrightarrow>
   (case range_months Past_year of None \<Rightarrow> True
     | Some k \<Rightarrow> month_index 19782 - k \<le> month_index 19500 \<and> month_index 19500 \<le> month_index 19782)"
proof -
  have d: "year_of_day 19782 = 2024" "year_of_day 19500 = 2023" by code_simp+
  show ?thesis using computeDateRange_exact [of 19500 19782 Past_year] d
    by (simp add: four_digit_day_def)
qed

text \<open>
  The date-only key keeps a key it is given: the key of a calendar day is mapped to itself,
  whatever the time zone, and the key of a key is the key.
\<close>

theorem toDateOnlyKey_fixed:
  "four_digit_day n \<Longrightarrow> toDateOnlyKey e (day_key n @ rest) = day_key n"
  using date_only_day_key [of n]
  by (auto simp: toDateOnlyKey_def date_only_prefix_def nth_append)

theorem toDateOnlyKey_fixed_witness:
  "toDateOnlyKey utc_env (day_key 19782 @ ''T23:59:59Z'') = day_key 19782"
proof -
  have "year_of_day 19782 = 2024" by code_simp
  then show ?thesis using toDateOnlyKey_fixed [of 19782 utc_env "''T23:59:59Z''"]
    by (simp add: four_digit_day_def)
qed

end
