(* ===== verification/Transaction_Filter.thy ===== *)
theory Transaction_Filter
  imports Transaction_Amounts Date_Ranges
begin

text \<open>
  Filtering the list of transactions (\<^verbatim>\<open>domain/TransactionFilter.ts\<close>) and turning the
  backend's rows into the frontend's transactions (\<^verbatim>\<open>domain/TransactionTransformer.ts\<close>).
\<close>

section \<open>TransactionFilter\<close>

record FilterCriteria =
  fc_search :: "jstring option"
  fc_category :: "jstring option"
  fc_subcategory :: "jstring option"
  fc_dateRange :: "(jstring \<times> jstring) option"

definition matches_search :: "jstring \<Rightarrow> Transaction \<Rightarrow> bool" where
  "matches_search s t \<longleftrightarrow>
     str_includes (toLowerCase (tx_name t)) s \<or>
     str_includes (toLowerCase (str_or (tx_merchant t) [])) s \<or>
     (tx_pending t = Some True \<and> (s = ''pending'' \<or> (4 \<le> length s \<and> startsWith ''pending'' s)))"

definition filterBySearch :: "Transaction list \<Rightarrow> jstring \<Rightarrow> Transaction list" where
  "filterBySearch transactions search =
     (let s = toLowerCase (trim search) in
      if s = [] then transactions else filter (matches_search s) transactions)"

definition matches_category :: "jstring \<Rightarrow> Transaction \<Rightarrow> bool" where
  "matches_category category t \<longleftrightarrow>
     (let primary = str_or (category_primary t) [] in
      toLowerCase primary = toLowerCase category \<or>
      toLowerCase (formatCategoryName (Some primary)) =
        toLowerCase (formatCategoryName (Some category)))"

definition filterByCategory :: "Transaction list \<Rightarrow> jstring \<Rightarrow> Transaction list" where
  "filterByCategory transactions category = filter (matches_category category) transactions"

definition detailed_of :: "Transaction \<Rightarrow> jstring" where
  "detailed_of t = str_or (category_detailed t)
     (str_or (tx_custom_subcategory t) (str_or (tx_rule_subcategory t) []))"

definition matches_subcategory :: "jstring \<Rightarrow> Transaction \<Rightarrow> bool" where
  "matches_subcategory subcategory t \<longleftrightarrow> toLowerCase (detailed_of t) = toLowerCase subcategory"

definition filterBySubcategory :: "Transaction list \<Rightarrow> jstring \<Rightarrow> Transaction list" where
  "filterBySubcategory transactions subcategory =
     filter (matches_subcategory subcategory) transactions"

definition in_date_range :: "date_env \<Rightarrow> jstring \<Rightarrow> jstring \<Rightarrow> Transaction \<Rightarrow> bool" where
  "in_date_range e start finish t \<longleftrightarrow>
     start \<le> toDateOnlyKey e (tx_date t) \<and> toDateOnlyKey e (tx_date t) \<le> finish"

definition filterByDateRange ::
    "date_env \<Rightarrow> Transaction list \<Rightarrow> jstring \<Rightarrow> jstring \<Rightarrow> Transaction list" where
  "filterByDateRange e transactions start finish =
     filter (in_date_range e start finish) transactions"

definition sortByDate :: "date_env \<Rightarrow> Transaction list \<Rightarrow> Transaction list" where
  "sortByDate e transactions = js_sort (down_by (\<lambda>t. toDateOnlyKey e (tx_date t))) transactions"

definition filter_transactions ::
    "date_env \<Rightarrow> Transaction list \<Rightarrow> FilterCriteria \<Rightarrow> Transaction list" where
  "filter_transactions e transactions criteria =
     (let r0 = transactions;
          r1 = (if truthy (fc_search criteria)
                then filterBySearch r0 (the (fc_search criteria)) else r0);
          r2 = (if truthy (fc_category criteria)
                then filterByCategory r1 (the (fc_category criteria)) else r1);
          r3 = (if truthy (fc_subcategory criteria)
                then filterBySubcategory r2 (the (fc_subcategory criteria)) else r2);
          r4 = (case fc_dateRange criteria of None \<Rightarrow> r3
                | Some (start, finish) \<Rightarrow> filterByDateRange e r3 start finish)
      in sortByDate e r4)"

text \<open>What a criterion asks of one transaction.\<close>

definition matches :: "date_env \<Rightarrow> FilterCriteria \<Rightarrow> Transaction \<Rightarrow> bool" where
  "matches e c t \<longleftrightarrow>
     (toLowerCase (trim (str_or (fc_search c) [])) = [] \<or>
        matches_search (toLowerCase (trim (str_or (fc_search c) []))) t) \<and>
     (\<not> truthy (fc_category c) \<or> matches_category (the (fc_category c)) t) \<and>
     (\<not> truthy (fc_subcategory c) \<or> matches_subcategory (the (fc_subcategory c)) t) \<and>
     (case fc_dateRange c of None \<Rightarrow> True | Some (s, f) \<Rightarrow> in_date_range e s f t)"

lemma filter_as_predicate: "(if b then filter P xs else xs) = filter (\<lambda>x. \<not> b \<or> P x) xs"
  by simp

lemma search_as_predicate:
  "(if truthy x then filterBySearch ts (the x) else ts) =
   filter (\<lambda>t. toLowerCase (trim (str_or x [])) = [] \<or>
     matches_search (toLowerCase (trim (str_or x []))) t) ts"
  by (cases x) (auto simp: truthy_def filterBySearch_def str_or_def Let_def)

lemma filter_transactions_eq:
  "filter_transactions e ts c = sortByDate e (filter (matches e c) ts)"
proof -
  have m: "matches e c = (\<lambda>t. ((toLowerCase (trim (str_or (fc_search c) [])) = [] \<or>
        matches_search (toLowerCase (trim (str_or (fc_search c) []))) t) \<and>
      (\<not> truthy (fc_category c) \<or> matches_category (the (fc_category c)) t)) \<and>
      (\<not> truthy (fc_subcategory c) \<or> matches_subcategory (the (fc_subcategory c)) t) \<and>
      (case fc_dateRange c of None \<Rightarrow> True | Some (s, f) \<Rightarrow> in_date_range e s f t))"
    by (auto simp: fun_eq_iff matches_def)
  have d: "(case r of None \<Rightarrow> xs | Some (s, f) \<Rightarrow> filterByDateRange e xs s f) =
      filter (\<lambda>t. case r of None \<Rightarrow> True | Some (s, f) \<Rightarrow> in_date_range e s f t) xs" for r xs
    by (auto simp: filterByDateRange_def split: option.split)
  show ?thesis
    unfolding filter_transactions_def Let_def search_as_predicate filterByCategory_def
      filterBySubcategory_def filter_as_predicate d m
    by (simp add: conj_ac)
qed

text \<open>
  C12. Filtering keeps exactly the transactions that meet every criterion, newest first; among
  transactions of one day the original order survives, and filtering a filtered list changes
  nothing.
\<close>

theorem filter_transactions_correct:
  "sorted_wrt (\<lambda>a b. toDateOnlyKey e (tx_date b) \<le> toDateOnlyKey e (tx_date a))
     (filter_transactions e ts c) \<and>
   mset (filter_transactions e ts c) = filter_mset (matches e c) (mset ts) \<and>
   filter (\<lambda>t. toDateOnlyKey e (tx_date t) = k) (filter_transactions e ts c) =
     filter (\<lambda>t. toDateOnlyKey e (tx_date t) = k \<and> matches e c t) ts \<and>
   filter_transactions e (filter_transactions e ts c) c = filter_transactions e ts c"
proof (intro conjI)
  let ?key = "\<lambda>t. toDateOnlyKey e (tx_date t)"
  show "sorted_wrt (\<lambda>a b. ?key b \<le> ?key a) (filter_transactions e ts c)"
    using down.sorted_js_sort [of ?key "filter (matches e c) ts"]
    by (simp add: filter_transactions_eq sortByDate_def down_by_def [abs_def])
  show "mset (filter_transactions e ts c) = filter_mset (matches e c) (mset ts)"
    by (simp add: filter_transactions_eq sortByDate_def)
  show "filter (\<lambda>t. ?key t = k) (filter_transactions e ts c) =
      filter (\<lambda>t. ?key t = k \<and> matches e c t) ts"
    using down.js_sort_stable [of "\<lambda>t. ?key t = k" ?key "filter (matches e c) ts"]
    by (simp add: filter_transactions_eq sortByDate_def down_by_def conj_commute)
  show "filter_transactions e (filter_transactions e ts c) c = filter_transactions e ts c"
    by (simp add: filter_transactions_eq sortByDate_def down.filter_js_sort down.js_sort_idem)
qed

section \<open>TransactionTransformer\<close>

record BackendTransaction =
  bt_id :: jstring
  bt_account_id :: "jstring option"
  bt_date :: jstring
  bt_merchant_name :: "jstring option"
  bt_amount :: jsval
  bt_pending :: "bool option"
  bt_category_primary :: "jstring option"
  bt_category_detailed :: "jstring option"
  bt_category_confidence :: "jstring option"
  bt_account_name :: jstring
  bt_account_type :: jstring
  bt_account_mask :: "jstring option"
  bt_provider :: "FinancialProvider option"
  bt_running_balance :: "rat option"
  bt_location :: "TransactionLocation option"
  bt_custom_category :: "jstring option"
  bt_custom_subcategory :: "jstring option"
  bt_rule_category :: "jstring option"
  bt_rule_subcategory :: "jstring option"

definition transformed_primary :: "BackendTransaction \<Rightarrow> jstring" where
  "transformed_primary bt = default_to (coalesce (bt_custom_category bt)
     (coalesce (bt_rule_category bt) (bt_category_primary bt))) ''OTHER''"

definition candidate_detailed :: "BackendTransaction \<Rightarrow> jstring option" where
  "candidate_detailed bt =
     (if truthy (bt_custom_category bt) \<or> truthy (bt_rule_category bt)
      then coalesce (bt_custom_subcategory bt) (bt_rule_subcategory bt)
      else coalesce (bt_custom_subcategory bt)
             (coalesce (bt_rule_subcategory bt) (bt_category_detailed bt)))"

definition detailed_allowed :: "jstring \<Rightarrow> jstring \<Rightarrow> bool" where
  "detailed_allowed primary detailed \<longleftrightarrow>
     toLowerCase (trim detailed) \<noteq> ''other'' \<and>
     \<not> startsWith (toLowerCase (trim detailed)) ''other '' \<and>
     (if toLowerCase (trim primary) = ''groceries'' then True
      else toLowerCase (trim detailed) \<noteq> toLowerCase (trim primary))"

definition backendToFrontend :: "BackendTransaction \<Rightarrow> Transaction" where
  "backendToFrontend bt =
     (let primary = transformed_primary bt;
          detailed = candidate_detailed bt;
          category = \<lparr>tc_primary = primary,
            tc_detailed = (if truthy detailed \<and> detailed_allowed primary (the detailed)
              then detailed else None),
            tc_confidence_level = (if truthy (bt_category_confidence bt)
              then bt_category_confidence bt else None)\<rparr>
      in \<lparr>tx_id = bt_id bt, tx_account_id = bt_account_id bt, tx_date = bt_date bt,
          tx_name = str_or (bt_merchant_name bt) ''Unknown'', tx_merchant = bt_merchant_name bt,
          tx_amount = bt_amount bt, tx_pending = bt_pending bt, tx_category = Some category,
          tx_account_name = bt_account_name bt, tx_account_type = bt_account_type bt,
          tx_account_mask = bt_account_mask bt, tx_provider = bt_provider bt,
          tx_running_balance = bt_running_balance bt, tx_location = bt_location bt,
          tx_custom_category = bt_custom_category bt,
          tx_custom_subcategory = bt_custom_subcategory bt,
          tx_rule_category = bt_rule_category bt,
          tx_rule_subcategory = bt_rule_subcategory bt\<rparr>)"

text \<open>
  A transformed transaction never carries a catch-all subcategory or, outside groceries, one
  that repeats its category; and once the user or a rule has overridden the category, a
  subcategory can come only from the same override, never from the provider.
\<close>

theorem backendToFrontend_detailed:
  "(category_detailed (backendToFrontend bt) = None \<or>
    (\<exists>d. category_detailed (backendToFrontend bt) = Some d \<and> d \<noteq> [] \<and>
       detailed_allowed (transformed_primary bt) d \<and>
       (bt_custom_subcategory bt = Some d \<or>
        (bt_custom_subcategory bt = None \<and> bt_rule_subcategory bt = Some d) \<or>
        (bt_custom_subcategory bt = None \<and> bt_rule_subcategory bt = None \<and>
         bt_category_detailed bt = Some d \<and>
         \<not> truthy (bt_custom_category bt) \<and> \<not> truthy (bt_rule_category bt))))) \<and>
   category_primary (backendToFrontend bt) = Some (transformed_primary bt)"
  by (auto simp: category_detailed_def category_primary_def backendToFrontend_def Let_def
      candidate_detailed_def coalesce_def truthy_def split: option.splits if_splits)

end
