(* ===== verification/Account_Normalizer.thy ===== *)
theory Account_Normalizer
  imports Api_Types
begin

text \<open>
  Normalising the accounts of the two providers (\<^verbatim>\<open>domain/AccountNormalizer.ts\<close>): the
  first usable balance, name, mask and connection among the spellings the backends use.
  \<open>frac_str\<close> is \<^verbatim>\<open>String(n)\<close> of a number that is not an integer.
\<close>

datatype AccountKind = Checking | Savings | Credit | Loan | Investment | Other_account

record NormalizedAccount =
  na_id :: jstring
  na_name :: jstring
  na_mask :: jstring
  na_type :: AccountKind
  na_balance :: "rat option"
  na_transactions :: rat
  na_connectionKey :: "jstring option"

definition mapAccountType :: "jstring option \<Rightarrow> AccountKind" where
  "mapAccountType backendType =
     (let normalized = toLowerCase (default_to backendType []) in
      if normalized \<in> set [''depository'', ''checking''] then Checking
      else if normalized = ''savings'' then Savings
      else if normalized \<in> set [''credit'', ''credit card''] then Credit
      else if normalized = ''loan'' then Loan
      else if normalized \<in> set [''investment'', ''investments'', ''brokerage'', ''401k'', ''ira'']
        then Investment
      else Other_account)"

definition parseNumeric :: "jsval \<Rightarrow> rat option" where
  "parseNumeric value = (case value of
     JNum n \<Rightarrow> (case n of Fin q \<Rightarrow> Some q | _ \<Rightarrow> None)
   | JStr s \<Rightarrow> (case number_of_string s of Fin q \<Rightarrow> Some q | _ \<Rightarrow> None)
   | _ \<Rightarrow> None)"

record BackendAccount =
  ba_id :: jsval
  ba_name :: "jstring option"
  ba_account_name :: "jstring option"
  ba_official_name :: "jstring option"
  ba_institution_name :: "jstring option"
  ba_mask :: "jstring option"
  ba_account_mask :: "jstring option"
  ba_last_four :: jsval
  ba_lastFour :: jsval
  ba_account_type :: "jstring option"
  ba_type :: "jstring option"
  ba_accountType :: "jstring option"
  ba_subtype :: "jstring option"
  ba_balance_current :: jsval
  ba_balance_ledger :: jsval
  ba_current_balance :: jsval
  ba_transaction_count :: jsval
  ba_provider_connection_id :: jsval
  ba_connection_id :: jsval
  ba_plaid_connection_id :: jsval
  ba_providerConnectionId :: jsval
  ba_connectionId :: jsval

text \<open>\<^verbatim>\<open>??\<close>, truthiness and \<^verbatim>\<open>String\<close> on the values of a JSON body.\<close>

definition nullish :: "jsval \<Rightarrow> bool" where
  "nullish v \<longleftrightarrow> v = JUndefined \<or> v = JNull"

definition first_present :: "jsval list \<Rightarrow> jsval" where
  "first_present vs = (case List.find (\<lambda>v. \<not> nullish v) vs of None \<Rightarrow> JNull | Some v \<Rightarrow> v)"

definition js_truthy :: "jsval \<Rightarrow> bool" where
  "js_truthy v \<longleftrightarrow> (case v of JStr s \<Rightarrow> s \<noteq> [] | JNum n \<Rightarrow> n \<noteq> Fin 0 \<and> n \<noteq> NaN | _ \<Rightarrow> False)"

definition js_String :: "(rat \<Rightarrow> jstring) \<Rightarrow> jsval \<Rightarrow> jstring" where
  "js_String frac_str v = (case v of JUndefined \<Rightarrow> ''undefined'' | JNull \<Rightarrow> ''null''
     | JStr s \<Rightarrow> s
     | JNum n \<Rightarrow> (case n of
         Fin q \<Rightarrow> (if q = of_int \<lfloor>q\<rfloor> \<and> \<bar>q\<bar> < 10 ^ 21 then int_str \<lfloor>q\<rfloor> else frac_str q)
       | PosInf \<Rightarrow> ''Infinity'' | NegInf \<Rightarrow> ''-Infinity'' | NaN \<Rightarrow> ''NaN''))"

definition str_val :: "jstring option \<Rightarrow> jsval" where
  "str_val x = (case x of None \<Rightarrow> JUndefined | Some s \<Rightarrow> JStr s)"

definition normalize_account :: "(rat \<Rightarrow> jstring) \<Rightarrow> BackendAccount \<Rightarrow> NormalizedAccount" where
  "normalize_account frac_str account =
     (let connectionId = first_present [ba_provider_connection_id account,
            ba_connection_id account, ba_plaid_connection_id account,
            ba_providerConnectionId account, ba_connectionId account];
          balance = coalesce (parseNumeric (ba_balance_current account))
            (coalesce (parseNumeric (ba_balance_ledger account))
              (parseNumeric (ba_current_balance account)));
          transactions = default_to (parseNumeric (ba_transaction_count account)) 0;
          name = default_to (coalesce (ba_name account) (coalesce (ba_account_name account)
            (coalesce (ba_official_name account) (ba_institution_name account)))) ''Account'';
          maskSource = first_present [str_val (ba_mask account), str_val (ba_account_mask account),
            ba_last_four account, ba_lastFour account, JStr ''0000'']
      in \<lparr>na_id = js_String frac_str (ba_id account), na_name = name,
          na_mask = js_String frac_str maskSource,
          na_type = mapAccountType (coalesce (ba_account_type account)
            (coalesce (ba_type account) (coalesce (ba_accountType account) (ba_subtype account)))),
          na_balance = balance, na_transactions = transactions,
          na_connectionKey = (if js_truthy connectionId then Some (js_String frac_str connectionId)
            else None)\<rparr>)"

definition normalize :: "(rat \<Rightarrow> jstring) \<Rightarrow> BackendAccount list \<Rightarrow> NormalizedAccount list" where
  "normalize frac_str backendAccounts = map (normalize_account frac_str) backendAccounts"

text \<open>
  Normalising keeps the accounts and their order. A balance is present exactly when one of the
  three balance fields holds a finite number or a string that denotes one, and it is the first of
  them in the order current, ledger, legacy; a field that holds something else is skipped.
\<close>

theorem normalize_balance:
  "length (normalize frac_str accts) = length accts \<and>
   (i < length accts \<longrightarrow>
    na_balance (normalize frac_str accts ! i) =
      (case filter (\<lambda>v. v \<noteq> JNull \<and> isFinite (js_Number v))
         [ba_balance_current (accts ! i), ba_balance_ledger (accts ! i),
          ba_current_balance (accts ! i)] of
        [] \<Rightarrow> None | v # _ \<Rightarrow> Some (fin_or_zero (js_Number v))))"
proof -
  have p: "parseNumeric v = (if v \<noteq> JNull \<and> isFinite (js_Number v)
      then Some (fin_or_zero (js_Number v)) else None)" for v
    by (auto simp: parseNumeric_def fin_or_zero_def split: jsval.splits jsnum.splits)
  show ?thesis
    by (auto simp: normalize_def normalize_account_def Let_def p)
qed

definition bare_account :: "jsval \<Rightarrow> jsval \<Rightarrow> BackendAccount" where
  "bare_account cur led = \<lparr>ba_id = JNum (Fin 1), ba_name = None, ba_account_name = None,
     ba_official_name = None, ba_institution_name = None, ba_mask = None, ba_account_mask = None,
     ba_last_four = JUndefined, ba_lastFour = JUndefined, ba_account_type = None, ba_type = None,
     ba_accountType = None, ba_subtype = None, ba_balance_current = cur,
     ba_balance_ledger = led, ba_current_balance = JUndefined, ba_transaction_count = JNull,
     ba_provider_connection_id = JUndefined, ba_connection_id = JUndefined,
     ba_plaid_connection_id = JUndefined, ba_providerConnectionId = JUndefined,
     ba_connectionId = JUndefined\<rparr>"

theorem normalize_balance_witness:
  "na_balance (normalize (\<lambda>_. []) [bare_account (JStr ''n/a'') (JNum (Fin 7))] ! 0) = Some 7"
proof -
  have "number_of_string ''n/a'' = NaN"
    by (simp add: js_defs char_eval)
  then show ?thesis
    using normalize_balance [of "\<lambda>_. []" "[bare_account (JStr ''n/a'') (JNum (Fin 7))]" 0]
    by (simp add: fin_or_zero_def bare_account_def)
qed

end
