(* ===== verification/Budget_Calculator.thy ===== *)
theory Budget_Calculator
  imports Transaction_Filter
begin

text \<open>
  The budget arithmetic (\<^verbatim>\<open>domain/BudgetCalculator.ts\<close>): what a category spent between
  two dates, the rollover of unspent months, budgets composed of subcategory budgets, and the
  month's statistics. \<^verbatim>\<open>toISOString\<close> of an invalid date raises, so every operation that
  sums spending returns an error or a value.
\<close>

section \<open>Spending of a category\<close>

definition budget_matches :: "jstring \<Rightarrow> jstring option \<Rightarrow> Transaction \<Rightarrow> bool" where
  "budget_matches categoryId subcategoryId t =
     (let targetCat = toLowerCase categoryId;
          primary = str_or (category_primary t) [];
          detailed = toLowerCase (detailed_of t);
          sameName = (toLowerCase (formatCategoryName (Some primary)) =
            toLowerCase (formatCategoryName (Some categoryId)));
          sameMajor = (toLowerCase (resolveMajorCategory (Some primary) []) =
            toLowerCase (resolveMajorCategory (Some categoryId) []))
      in if isSpendingExcludedCategory (Some primary) then False
         else if truthy subcategoryId then
           (toLowerCase primary = targetCat \<or> sameName \<or> sameMajor) \<and>
           detailed = toLowerCase (the subcategoryId)
         else if detailed \<noteq> [] \<and> (detailed = targetCat \<or>
             toLowerCase (formatCategoryName (Some detailed)) =
               toLowerCase (formatCategoryName (Some categoryId)))
           then True
         else toLowerCase primary = targetCat \<or> sameName \<or>
           (toLowerCase (resolveMajorCategory (Some categoryId) []) = targetCat \<and> sameMajor))"

text \<open>\<^verbatim>\<open>new Date(t.date).toISOString().slice(0, 10)\<close>.\<close>

definition iso_date :: "date_env \<Rightarrow> Transaction \<Rightarrow> jstring result" where
  "iso_date e t = (case date_parse e (tx_date t) of None \<Rightarrow> Inl RangeError
     | Some ms \<Rightarrow> Inr (iso_slice10 ms))"

definition calculateSpent ::
    "date_env \<Rightarrow> Transaction list \<Rightarrow> jstring \<Rightarrow> jstring \<Rightarrow> jstring \<Rightarrow> jstring option \<Rightarrow> rat result"
  where
  "calculateSpent e transactions categoryId start finish subcategoryId =
     (let matched = filter (budget_matches categoryId subcategoryId) transactions in
      case traverse (iso_date e) matched of
        Inl err \<Rightarrow> Inl err
      | Inr dates \<Rightarrow> Inr (reduce_sum (\<lambda>p. getNetSpendingAmount (fst p))
          (filter (\<lambda>p. start \<le> snd p \<and> snd p \<le> finish) (zip matched dates))))"

section \<open>Rollover\<close>

record RolloverBudgetResult =
  rb_monthlyAmount :: rat
  rb_frequency :: BudgetFrequency
  rb_rollover :: bool
  rb_periodMultiplier :: int
  rb_periodAmount :: rat
  rb_monthSpent :: rat
  rb_ytdSpent :: rat
  rb_priorMonthsSpent :: rat
  rb_priorMonthsAllocated :: rat
  rb_priorCarryover :: rat
  rb_availableThisMonth :: rat
  rb_remainingThisMonth :: rat
  rb_isOverBudget :: bool
  rb_percentageUsed :: int

definition period_multiplier :: "bool \<Rightarrow> BudgetFrequency \<Rightarrow> int" where
  "period_multiplier isFullYear frequency =
     (if isFullYear
      then (case frequency of Quarterly \<Rightarrow> 4 | Semi_annual \<Rightarrow> 2 | Annual \<Rightarrow> 1 | Monthly \<Rightarrow> 12)
      else (case frequency of Quarterly \<Rightarrow> 3 | Semi_annual \<Rightarrow> 6 | Annual \<Rightarrow> 12 | Monthly \<Rightarrow> 1))"

definition last_date_of :: "int \<Rightarrow> int \<Rightarrow> int" where
  "last_date_of y m = date_of_day (new_date y m 0)"

text \<open>The first and last dates of the selection, with the year written without padding.\<close>

definition month_bounds :: "MonthYearSelection \<Rightarrow> jstring \<times> jstring" where
  "month_bounds period = (let y = sel_year period in case sel_month period of
     None \<Rightarrow> (int_str y @ ''-01-01'', int_str y @ ''-12-31'')
   | Some m \<Rightarrow> (int_str y @ ''-'' @ pad_start 2 (int_str (m + 1)) @ ''-01'',
               raw_date y (m + 1) (last_date_of y (m + 1))))"

text \<open>
  The year and month from which a budget rolls over; \<open>None\<close> stands for NaN, with which every
  comparison fails.
\<close>

definition rollover_start :: "date_env \<Rightarrow> Budget \<Rightarrow> int \<Rightarrow> int option \<times> int option" where
  "rollover_start e budget year =
     (if truthy (bd_rollover_start_month budget) then
        (case split_on (CHR ''-'') (the (bd_rollover_start_month budget)) of
           [p0, p1] \<Rightarrow> (parse_int p0, map_option (\<lambda>m. m - 1) (parse_int p1))
         | _ \<Rightarrow> (Some year, Some 0))
      else if truthy (bd_created_at budget) then
        (case date_parse e (the (bd_created_at budget)) of
           None \<Rightarrow> (Some year, Some 0)
         | Some t \<Rightarrow> (Some (year_of_day (local_day e t)), Some (month_of_day (local_day e t))))
      else (Some year, Some 0))"

text \<open>
  The months before the selected one that count towards the carryover, and the date from which
  their spending is summed (absent when no spending is computed).
\<close>

definition prior_months ::
    "int option \<times> int option \<Rightarrow> MonthYearSelection \<Rightarrow> int \<times> jstring option" where
  "prior_months start period = (let y = sel_year period in
     case sel_month period of
       None \<Rightarrow> (0, None)
     | Some m \<Rightarrow> (case fst start of
         None \<Rightarrow> (0, None)
       | Some sy \<Rightarrow>
           if sy < y then (m, if 0 < m then Some (int_str y @ ''-01-01'') else None)
           else if y = sy then (case snd start of
               None \<Rightarrow> (0, None)
             | Some sm \<Rightarrow> if sm < m
                 then (m - sm, Some (int_str y @ ''-'' @ pad_start 2 (int_str (sm + 1)) @ ''-01''))
                 else (0, None))
           else (0, None)))"

definition computeRolloverBudget ::
    "date_env \<Rightarrow> Budget \<Rightarrow> Transaction list \<Rightarrow> MonthYearSelection \<Rightarrow> jstring option
      \<Rightarrow> RolloverBudgetResult result"
  where
  "computeRolloverBudget e budget ytd period selectedSubcategory =
     (let isFullYear = (sel_month period = None);
          monthlyAmount = bd_amount budget;
          frequency = default_to (bd_frequency budget) Monthly;
          rollover = (bd_rollover budget = Some True);
          periodMultiplier = period_multiplier isFullYear frequency;
          periodAmount = monthlyAmount * of_int periodMultiplier;
          monthStart = fst (month_bounds period);
          monthEnd = snd (month_bounds period);
          yearStart = int_str (sel_year period) @ ''-01-01'';
          spent = (\<lambda>s f. calculateSpent e ytd (bd_category budget) s f selectedSubcategory)
      in case spent monthStart monthEnd of Inl err \<Rightarrow> Inl err
         | Inr monthSpent \<Rightarrow>
      (case spent yearStart monthEnd of Inl err \<Rightarrow> Inl err
         | Inr ytdSpent \<Rightarrow>
      (let (priorMonthsCount, priorStart) =
             prior_months (rollover_start e budget (sel_year period)) period;
           m = default_to (sel_month period) 0;
           priorEnd = raw_date (sel_year period) m (last_date_of (sel_year period) m)
       in case (case priorStart of None \<Rightarrow> Inr 0 | Some s \<Rightarrow> spent s priorEnd) of
            Inl err \<Rightarrow> Inl err
          | Inr priorMonthsSpent \<Rightarrow>
       (let priorMonthsAllocated = of_int priorMonthsCount * monthlyAmount;
            priorCarryover = (if rollover \<and> 0 < priorMonthsCount
              then max 0 (priorMonthsAllocated - priorMonthsSpent) else 0);
            availableThisMonth = (if isFullYear
              then (if rollover then periodAmount + priorCarryover else periodAmount)
              else (if rollover then monthlyAmount + priorCarryover else monthlyAmount));
            remainingThisMonth = availableThisMonth - monthSpent
        in Inr \<lparr>rb_monthlyAmount = monthlyAmount, rb_frequency = frequency,
             rb_rollover = rollover, rb_periodMultiplier = periodMultiplier,
             rb_periodAmount = periodAmount, rb_monthSpent = monthSpent,
             rb_ytdSpent = ytdSpent, rb_priorMonthsSpent = priorMonthsSpent,
             rb_priorMonthsAllocated = priorMonthsAllocated,
             rb_priorCarryover = priorCarryover, rb_availableThisMonth = availableThisMonth,
             rb_remainingThisMonth = remainingThisMonth,
             rb_isOverBudget = (remainingThisMonth < 0),
             rb_percentageUsed = (if 0 < availableThisMonth
               then js_round (monthSpent / availableThisMonth * 100) else 0)\<rparr>))))"

section \<open>Composite budgets\<close>

record CompositeBudgetResult =
  cb_monthlyAmount :: rat
  cb_availableThisMonth :: rat
  cb_monthSpent :: rat
  cb_ytdSpent :: rat
  cb_remainingThisMonth :: rat
  cb_isOverBudget :: bool
  cb_percentageUsed :: int
  cb_hasRollover :: bool
  cb_totalPriorCarryover :: rat
  cb_directBudgetResult :: "RolloverBudgetResult option"
  cb_subcategoryResults :: "(jstring \<times> RolloverBudgetResult) list"

definition direct_result ::
    "date_env \<Rightarrow> Budget option \<Rightarrow> Transaction list \<Rightarrow> MonthYearSelection
      \<Rightarrow> RolloverBudgetResult option result" where
  "direct_result e directBudget ytd period = (case directBudget of None \<Rightarrow> Inr None
     | Some b \<Rightarrow> (case computeRolloverBudget e b ytd period None of Inl err \<Rightarrow> Inl err
         | Inr r \<Rightarrow> Inr (Some r)))"

definition sub_result ::
    "date_env \<Rightarrow> Transaction list \<Rightarrow> MonthYearSelection \<Rightarrow> jstring \<times> Budget
      \<Rightarrow> (jstring \<times> RolloverBudgetResult) result" where
  "sub_result e ytd period sb =
     (case computeRolloverBudget e (snd sb) ytd period (Some (fst sb)) of
        Inl err \<Rightarrow> Inl err | Inr r \<Rightarrow> Inr (fst sb, r))"

definition composite_totals ::
    "Budget option \<Rightarrow> (jstring \<times> Budget) list \<Rightarrow> MonthYearSelection
      \<Rightarrow> RolloverBudgetResult option \<Rightarrow> (jstring \<times> RolloverBudgetResult) list
      \<Rightarrow> rat \<Rightarrow> rat \<Rightarrow> CompositeBudgetResult" where
  "composite_totals directBudget subcategoryBudgets period direct subs monthSpent ytdSpent =
     (let isFullYear = (sel_month period = None);
          directMonthly = (case directBudget of None \<Rightarrow> 0 | Some b \<Rightarrow> bd_amount b);
          subcategoriesMonthly = reduce_sum (\<lambda>sb. bd_amount (snd sb)) subcategoryBudgets;
          monthlyAmount = (if isFullYear then (directMonthly + subcategoriesMonthly) * 12
            else directMonthly + subcategoriesMonthly);
          directAvailable = (case direct of Some r \<Rightarrow> rb_availableThisMonth r
            | None \<Rightarrow> if isFullYear then directMonthly * 12 else directMonthly);
          availableThisMonth = directAvailable +
            reduce_sum (\<lambda>sr. rb_availableThisMonth (snd sr)) subs;
          totalPriorCarryover = (case direct of None \<Rightarrow> 0 | Some r \<Rightarrow> rb_priorCarryover r) +
            reduce_sum (\<lambda>sr. rb_priorCarryover (snd sr)) subs;
          hasRollover = ((case directBudget of None \<Rightarrow> False | Some b \<Rightarrow> bd_rollover b = Some True) \<or>
            list_ex (\<lambda>sb. bd_rollover (snd sb) = Some True) subcategoryBudgets);
          remainingThisMonth = availableThisMonth - monthSpent
      in \<lparr>cb_monthlyAmount = monthlyAmount, cb_availableThisMonth = availableThisMonth,
          cb_monthSpent = monthSpent, cb_ytdSpent = ytdSpent,
          cb_remainingThisMonth = remainingThisMonth,
          cb_isOverBudget = (remainingThisMonth < 0),
          cb_percentageUsed = (if 0 < availableThisMonth
            then js_round (monthSpent / availableThisMonth * 100) else 0),
          cb_hasRollover = hasRollover, cb_totalPriorCarryover = totalPriorCarryover,
          cb_directBudgetResult = direct, cb_subcategoryResults = subs\<rparr>)"

definition computeCompositeMajorBudget ::
    "date_env \<Rightarrow> jstring \<Rightarrow> Budget option \<Rightarrow> (jstring \<times> Budget) list \<Rightarrow> Transaction list
      \<Rightarrow> MonthYearSelection \<Rightarrow> CompositeBudgetResult result" where
  "computeCompositeMajorBudget e majorCategory directBudget subcategoryBudgets ytd period =
     (case direct_result e directBudget ytd period of Inl err \<Rightarrow> Inl err
      | Inr direct \<Rightarrow>
     (case traverse (sub_result e ytd period) subcategoryBudgets of Inl err \<Rightarrow> Inl err
      | Inr subs \<Rightarrow>
     (case calculateSpent e ytd majorCategory (fst (month_bounds period))
             (snd (month_bounds period)) None of Inl err \<Rightarrow> Inl err
      | Inr monthSpent \<Rightarrow>
     (case calculateSpent e ytd majorCategory (int_str (sel_year period) @ ''-01-01'')
             (snd (month_bounds period)) None of Inl err \<Rightarrow> Inl err
      | Inr ytdSpent \<Rightarrow>
          Inr (composite_totals directBudget subcategoryBudgets period direct subs
            monthSpent ytdSpent)))))"

section \<open>Small operations and statistics\<close>

definition calculateRemaining :: "rat \<Rightarrow> rat \<Rightarrow> rat" where
  "calculateRemaining budget spent = max 0 (budget - spent)"

definition isOverBudget :: "rat \<Rightarrow> rat \<Rightarrow> bool" where
  "isOverBudget budget spent \<longleftrightarrow> budget < spent"

definition calculatePercentage :: "rat \<Rightarrow> rat \<Rightarrow> rat" where
  "calculatePercentage budget spent = (if budget = 0 then 0 else min 100 (spent / budget * 100))"

record ComputedBudget =
  cbud_id :: jstring
  cbud_category :: jstring
  cbud_amount :: rat
  cbud_spent :: rat

record BudgetStats =
  bs_totalBudgeted :: rat
  bs_totalSpent :: rat
  bs_remaining :: rat
  bs_variance :: rat
  bs_overBudgetCount :: nat
  bs_overBudgetCategories :: "jstring list"
  bs_daysRemaining :: int
  bs_totalDays :: int
  bs_activeBudgetCategories :: "jstring list"
  bs_nearLimitCategories :: "jstring list"

fun stats_totals ::
    "rat \<times> rat \<times> nat \<times> jstring list \<Rightarrow> ComputedBudget \<Rightarrow> rat \<times> rat \<times> nat \<times> jstring list" where
  "stats_totals (budgeted, spent, n, over) b =
     (budgeted + cbud_amount b, spent + cbud_spent b,
      if cbud_amount b < cbud_spent b then n + 1 else n,
      if cbud_amount b < cbud_spent b then over @ [cbud_category b] else over)"

definition near_limit :: "ComputedBudget \<Rightarrow> bool" where
  "near_limit b = (let utilization = (if 0 < cbud_amount b then cbud_spent b / cbud_amount b else 0)
     in 8 / 10 \<le> utilization \<and> utilization < 1)"

definition days_remaining :: "int \<Rightarrow> int \<Rightarrow> int \<Rightarrow> int \<Rightarrow> int" where
  "days_remaining now year monthNum lastDay =
     (if year_of_day now = year \<and> month_of_day now = monthNum
      then max 0 (lastDay - date_of_day now)
      else if year_of_day now < year \<or> (year_of_day now = year \<and> month_of_day now < monthNum)
      then lastDay else 0)"

definition computeStats :: "int \<Rightarrow> ComputedBudget list \<Rightarrow> int \<Rightarrow> BudgetStats" where
  "computeStats now computedBudgets month =
     (let year = year_of_day month; monthNum = month_of_day month;
          lastDay = last_date_of year (monthNum + 1)
      in if computedBudgets = [] then
           \<lparr>bs_totalBudgeted = 0, bs_totalSpent = 0, bs_remaining = 0, bs_variance = 0,
            bs_overBudgetCount = 0, bs_overBudgetCategories = [], bs_daysRemaining = 0,
            bs_totalDays = lastDay, bs_activeBudgetCategories = [], bs_nearLimitCategories = []\<rparr>
         else
           (let (budgeted, spent, n, over) = foldl stats_totals (0, 0, 0, []) computedBudgets in
            \<lparr>bs_totalBudgeted = budgeted, bs_totalSpent = spent,
             bs_remaining = max 0 (budgeted - spent), bs_variance = budgeted - spent,
             bs_overBudgetCount = n, bs_overBudgetCategories = over,
             bs_daysRemaining = days_remaining now year monthNum lastDay,
             bs_totalDays = lastDay, bs_activeBudgetCategories = map cbud_category computedBudgets,
             bs_nearLimitCategories =
               map cbud_category (take 3 (filter near_limit computedBudgets))\<rparr>))"

section \<open>Spending between two days\<close>

definition utc_day :: "date_env \<Rightarrow> Transaction \<Rightarrow> int" where
  "utc_day e t = the (date_parse e (tx_date t)) div ms_per_day"

definition dates_ok :: "date_env \<Rightarrow> jstring \<Rightarrow> jstring option \<Rightarrow> Transaction list \<Rightarrow> bool" where
  "dates_ok e cat sub ts \<longleftrightarrow>
     (\<forall>t\<in>set ts. budget_matches cat sub t \<longrightarrow> date_parse e (tx_date t) \<noteq> None)"

definition spent_on_days ::
    "date_env \<Rightarrow> Transaction list \<Rightarrow> jstring \<Rightarrow> jstring option \<Rightarrow> int \<Rightarrow> int \<Rightarrow> rat" where
  "spent_on_days e ts cat sub a b = sum_list (map getNetSpendingAmount
     (filter (\<lambda>t. budget_matches cat sub t \<and> a \<le> utc_day e t \<and> utc_day e t \<le> b) ts))"

lemma iso_date_ok: "date_parse e (tx_date t) \<noteq> None \<Longrightarrow>
    iso_date e t = Inr (iso_slice10 (the (date_parse e (tx_date t))))"
  by (auto simp: iso_date_def)

lemma sum_zip_filter:
  "reduce_sum (\<lambda>p. f (fst p)) (filter (\<lambda>p. P (snd p)) (zip xs (map g xs))) =
   sum_list (map f (filter (\<lambda>x. P (g x)) xs))"
  by (induction xs) auto

lemma calculateSpent_ok:
  assumes "dates_ok e cat sub ts"
  shows "calculateSpent e ts cat s f sub = Inr (sum_list (map getNetSpendingAmount
    (filter (\<lambda>t. budget_matches cat sub t \<and> s \<le> iso_slice10 (the (date_parse e (tx_date t))) \<and>
       iso_slice10 (the (date_parse e (tx_date t))) \<le> f) ts)))"
proof -
  let ?g = "\<lambda>t. iso_slice10 (the (date_parse e (tx_date t)))"
  have "traverse (iso_date e) (filter (budget_matches cat sub) ts) =
      Inr (map ?g (filter (budget_matches cat sub) ts))"
    using assms by (intro traverse_total) (auto simp: dates_ok_def iso_date_def)
  then show ?thesis
    by (simp add: calculateSpent_def sum_zip_filter [where P = "\<lambda>k. s \<le> k \<and> k \<le> f"] conj_ac)
qed

lemma calculateSpent_error:
  assumes "\<not> dates_ok e cat sub ts"
  shows "calculateSpent e ts cat s f sub = Inl RangeError"
proof -
  let ?m = "filter (budget_matches cat sub) ts"
  from assms obtain t where t: "t \<in> set ?m" "date_parse e (tx_date t) = None"
    by (auto simp: dates_ok_def)
  obtain err where err: "traverse (iso_date e) ?m = Inl err"
    using t traverse_Inr [of "iso_date e" ?m _ t]
    by (cases "traverse (iso_date e) ?m") (auto simp: iso_date_def)
  then have "err = RangeError"
    using traverse_Inl [OF err] by (auto simp: iso_date_def split: option.splits)
  then show ?thesis using err by (simp add: calculateSpent_def)
qed

lemma calculateSpent_Inr: "calculateSpent e ts cat s f sub = Inr x \<Longrightarrow> dates_ok e cat sub ts"
  using calculateSpent_error by fastforce

lemma calculateSpent_days_eq:
  assumes "dates_ok e cat sub ts" "four_digit_day a" "four_digit_day b"
  shows "calculateSpent e ts cat (day_key a) (day_key b) sub = Inr (spent_on_days e ts cat sub a b)"
  unfolding calculateSpent_ok [OF assms(1)] spent_on_days_def utc_day_def iso_in_range [OF assms(2,3)] ..

lemma sum_list_filter_split:
  "(\<And>x. P x \<longleftrightarrow> Q x \<or> R x) \<Longrightarrow> (\<And>x. \<not> (Q x \<and> R x)) \<Longrightarrow>
   sum_list (map f (filter P xs)) =
   sum_list (map f (filter Q xs)) + (sum_list (map f (filter R xs)) :: rat)"
  by (induction xs) auto

lemma spent_on_days_split:
  assumes "a \<le> b + 1" "b \<le> c"
  shows "spent_on_days e ts cat sub a c =
    spent_on_days e ts cat sub a b + spent_on_days e ts cat sub (b + 1) c"
  unfolding spent_on_days_def by (rule sum_list_filter_split) (use assms in auto)

section \<open>The bounds of the selected month\<close>

lemma new_date_late: "100 \<le> y \<Longrightarrow> new_date y m d = make_day y m d"
  by (simp add: new_date_def)

lemma day_key_valid: "valid_date y m d \<Longrightarrow> day_key (make_day y m d) = date_key y m d"
  by (simp add: day_key_def fields_make_day)

lemma pad2_one: "pad_start 2 (int_str 1) = ''01''"
  by (simp add: pad_start_def int_str_def dec_small digit_char_def char_ofI)

lemma first_key:
  assumes "1000 \<le> y" "y < 10000" "0 \<le> m" "m < 12"
  shows "int_str y @ ''-'' @ pad_start 2 (int_str (m + 1)) @ ''-01'' = day_key (make_day y m 1)"
  using raw_date_key [OF assms(1,2), of m 1] day_key_valid [OF valid_first [OF assms(3,4)]] pad2_one
  by (simp add: raw_date_def)

lemma last_key:
  assumes "1000 \<le> y" "y < 10000" "0 \<le> m" "m < 12"
  shows "raw_date y (m + 1) (last_date_of y (m + 1)) = day_key (make_day y (m + 1) 0)"
  using assms raw_date_key [of y m] day_key_valid [OF valid_last [OF assms(3,4)], of y]
    last_day_fields(3) [OF assms(3,4), of y] make_day_last [OF assms(3,4), of y]
  by (simp add: last_date_of_def new_date_late)

lemma month_bounds_key:
  assumes "1000 \<le> y" "y < 10000" "0 \<le> m" "m < 12" "sel_year p = y" "sel_month p = Some m"
  shows "month_bounds p = (day_key (make_day y m 1), day_key (make_day y (m + 1) 0))"
  using assms first_key [OF assms(1-4)] last_key [OF assms(1-4)] by (simp add: month_bounds_def)

lemma year_start_key:
  assumes "1000 \<le> y" "y < 10000"
  shows "int_str y @ ''-01-01'' = day_key (make_day y 0 1)"
  using first_key [OF assms, of 0] pad2_one by simp

lemma month_days_four_digit:
  assumes "1000 \<le> y" "y < 10000" "0 \<le> m" "m < 12"
  shows "four_digit_day (make_day y m 1)" "four_digit_day (make_day y (m + 1) 0)"
  using assms by (simp_all add: four_digit_day_def year_of_first year_of_last)

section \<open>The rollover computation as a relation between its parts\<close>

lemma computeRolloverBudget_fields:
  assumes "computeRolloverBudget e b ts p sub = Inr r"
  shows "calculateSpent e ts (bd_category b) (fst (month_bounds p)) (snd (month_bounds p)) sub =
      Inr (rb_monthSpent r)"
    and "calculateSpent e ts (bd_category b) (int_str (sel_year p) @ ''-01-01'')
      (snd (month_bounds p)) sub = Inr (rb_ytdSpent r)"
    and "(case snd (prior_months (rollover_start e b (sel_year p)) p) of None \<Rightarrow> Inr 0
      | Some s \<Rightarrow> calculateSpent e ts (bd_category b) s
          (raw_date (sel_year p) (default_to (sel_month p) 0)
             (last_date_of (sel_year p) (default_to (sel_month p) 0))) sub) =
      Inr (rb_priorMonthsSpent r)"
    and "rb_priorMonthsAllocated r =
      of_int (fst (prior_months (rollover_start e b (sel_year p)) p)) * bd_amount b"
    and "rb_priorCarryover r = (if bd_rollover b = Some True \<and>
        0 < fst (prior_months (rollover_start e b (sel_year p)) p)
      then max 0 (rb_priorMonthsAllocated r - rb_priorMonthsSpent r) else 0)"
    and "rb_periodMultiplier r =
      period_multiplier (sel_month p = None) (default_to (bd_frequency b) Monthly)"
    and "rb_availableThisMonth r = (if sel_month p = None
      then bd_amount b * of_int (rb_periodMultiplier r) else bd_amount b) + rb_priorCarryover r"
    and "rb_remainingThisMonth r = rb_availableThisMonth r - rb_monthSpent r"
    and "rb_isOverBudget r \<longleftrightarrow> rb_remainingThisMonth r < 0"
    and "rb_percentageUsed r = (if 0 < rb_availableThisMonth r
      then js_round (rb_monthSpent r / rb_availableThisMonth r * 100) else 0)"
    and "rb_monthlyAmount r = bd_amount b"
    and "rb_rollover r \<longleftrightarrow> bd_rollover b = Some True"
  using assms unfolding computeRolloverBudget_def Let_def
  by (auto split: sum.splits prod.splits if_splits)

lemma computeRolloverBudget_total:
  assumes "dates_ok e (bd_category b) sub ts"
  shows "\<exists>r. computeRolloverBudget e b ts p sub = Inr r"
proof -
  let ?pm = "prior_months (rollover_start e b (sel_year p)) p"
  show ?thesis
    unfolding computeRolloverBudget_def Let_def
    by (cases ?pm; cases "snd ?pm") (simp_all add: calculateSpent_ok [OF assms])
qed

lemma computeRolloverBudget_error:
  assumes "\<not> dates_ok e (bd_category b) sub ts"
  shows "computeRolloverBudget e b ts p sub = Inl RangeError"
  by (simp add: computeRolloverBudget_def Let_def calculateSpent_error [OF assms])

lemma composite_fields:
  assumes "computeCompositeMajorBudget e cat d subs ts p = Inr r"
  shows "cb_availableThisMonth r = (case cb_directBudgetResult r of
        Some x \<Rightarrow> rb_availableThisMonth x | None \<Rightarrow> 0) +
      sum_list (map (\<lambda>sr. rb_availableThisMonth (snd sr)) (cb_subcategoryResults r))"
    and "cb_totalPriorCarryover r = (case cb_directBudgetResult r of
        Some x \<Rightarrow> rb_priorCarryover x | None \<Rightarrow> 0) +
      sum_list (map (\<lambda>sr. rb_priorCarryover (snd sr)) (cb_subcategoryResults r))"
    and "cb_remainingThisMonth r = cb_availableThisMonth r - cb_monthSpent r"
    and "cb_isOverBudget r \<longleftrightarrow> cb_availableThisMonth r < cb_monthSpent r"
    and "map fst (cb_subcategoryResults r) = map fst subs"
    and "direct_result e d ts p = Inr (cb_directBudgetResult r)"
    and "traverse (sub_result e ts p) subs = Inr (cb_subcategoryResults r)"
    and "cb_monthlyAmount r = (case d of None \<Rightarrow> 0 | Some b \<Rightarrow> bd_amount b) *
        (if sel_month p = None then 12 else 1) +
      sum_list (map (\<lambda>sb. bd_amount (snd sb)) subs) * (if sel_month p = None then 12 else 1)"
    and "calculateSpent e ts cat (fst (month_bounds p)) (snd (month_bounds p)) None =
      Inr (cb_monthSpent r)"
proof -
  obtain dr srs ms ys where parts: "direct_result e d ts p = Inr dr"
      "traverse (sub_result e ts p) subs = Inr srs"
      "calculateSpent e ts cat (fst (month_bounds p)) (snd (month_bounds p)) None = Inr ms"
      "r = composite_totals d subs p dr srs ms ys"
    using assms unfolding computeCompositeMajorBudget_def by (auto split: sum.splits)
  have dn: "dr = None \<longleftrightarrow> d = None"
    using parts(1) by (auto simp: direct_result_def split: option.splits sum.splits)
  have "fst (projr (sub_result e ts p x)) = fst x" if "x \<in> set subs" for x
    using traverse_Inr [OF parts(2) that] by (auto simp: sub_result_def split: sum.splits)
  then have "map fst srs = map fst subs"
    unfolding traverse_map [OF parts(2)] by (simp add: comp_def)
  then show "map fst (cb_subcategoryResults r) = map fst subs"
    by (simp add: parts(4) composite_totals_def Let_def)
  show "direct_result e d ts p = Inr (cb_directBudgetResult r)"
    "traverse (sub_result e ts p) subs = Inr (cb_subcategoryResults r)"
    "calculateSpent e ts cat (fst (month_bounds p)) (snd (month_bounds p)) None = Inr (cb_monthSpent r)"
    "cb_remainingThisMonth r = cb_availableThisMonth r - cb_monthSpent r"
    "cb_isOverBudget r \<longleftrightarrow> cb_availableThisMonth r < cb_monthSpent r"
    by (simp_all add: parts composite_totals_def Let_def)
  show "cb_availableThisMonth r = (case cb_directBudgetResult r of
        Some x \<Rightarrow> rb_availableThisMonth x | None \<Rightarrow> 0) +
      sum_list (map (\<lambda>sr. rb_availableThisMonth (snd sr)) (cb_subcategoryResults r))"
    using dn by (cases dr; cases d) (simp_all add: parts composite_totals_def Let_def reduce_sum_eq)
  show "cb_totalPriorCarryover r = (case cb_directBudgetResult r of
        Some x \<Rightarrow> rb_priorCarryover x | None \<Rightarrow> 0) +
      sum_list (map (\<lambda>sr. rb_priorCarryover (snd sr)) (cb_subcategoryResults r))"
    by (simp add: parts composite_totals_def Let_def reduce_sum_eq)
  show "cb_monthlyAmount r = (case d of None \<Rightarrow> 0 | Some b \<Rightarrow> bd_amount b) *
        (if sel_month p = None then 12 else 1) +
      sum_list (map (\<lambda>sb. bd_amount (snd sb)) subs) * (if sel_month p = None then 12 else 1)"
    by (simp add: parts composite_totals_def Let_def reduce_sum_eq distrib_right)
qed

lemma stats_totals_eq:
  "foldl stats_totals (a, b, n, over) bs =
   (a + sum_list (map cbud_amount bs), b + sum_list (map cbud_spent bs),
    n + length (filter (\<lambda>x. cbud_amount x < cbud_spent x) bs),
    over @ map cbud_category (filter (\<lambda>x. cbud_amount x < cbud_spent x) bs))"
  by (induction bs arbitrary: a b n over) auto

lemma month_boundaries:
  assumes "0 \<le> m" "m < 12"
  shows "make_day y m 1 = make_day y m 0 + 1" "make_day y 0 1 \<le> make_day y m 0 + 1"
    "make_day y m 0 \<le> make_day y (m + 1) 0"
proof -
  show eq: "make_day y m 1 = make_day y m 0 + 1" using make_day_add [of y m 0 1] by simp
  have "month_index (make_day y m 1) = 12 * y + m"
    using fields_make_day [OF valid_first [OF assms], of y] by (simp add: month_index_def)
  then have "make_day y 0 1 \<le> make_day y m 1" "make_day y m 1 \<le> make_day y (m + 1) 0"
    using assms by (simp_all add: first_of_month_le le_last_of_month)
  then show "make_day y 0 1 \<le> make_day y m 0 + 1" "make_day y m 0 \<le> make_day y (m + 1) 0"
    using eq by linarith+
qed

lemma last_date_bounds:
  assumes "0 \<le> m" "m < 12"
  shows "28 \<le> last_date_of y (m + 1)" "last_date_of y (m + 1) \<le> 31"
proof -
  have "\<exists>y'. last_date_of y (m + 1) = days_in_month y' m"
    using last_day_fields(3) [OF assms] by (auto simp: last_date_of_def new_date_def)
  then show "28 \<le> last_date_of y (m + 1)" "last_date_of y (m + 1) \<le> 31"
    using days_in_month_bounds [OF assms] by auto
qed

section \<open>Properties\<close>

text \<open>
  C18. Between two calendar days with four-digit years, the spending of a category is the net
  spending of exactly the matching transactions whose UTC day lies between them; it is undefined
  (a RangeError) exactly when a matching transaction has a date that does not parse, whether or
  not that date would have counted.
\<close>

theorem calculateSpent_exact:
  assumes "four_digit_day a" and "four_digit_day b"
  shows "calculateSpent e ts cat (day_key a) (day_key b) sub =
    (if dates_ok e cat sub ts then Inr (spent_on_days e ts cat sub a b) else Inl RangeError)"
  using calculateSpent_days_eq [OF _ assms] calculateSpent_error by simp

theorem calculateSpent_exact_witness:
  "calculateSpent utc_env [bare_transaction ''t'' (day_key 19782) 25 ''Travel'']
     ''Travel'' (day_key 19700) (day_key 19800) None =
   Inr (spent_on_days utc_env [bare_transaction ''t'' (day_key 19782) 25 ''Travel'']
     ''Travel'' None 19700 19800)"
proof -
  have y: "year_of_day 19782 = 2024" "year_of_day 19700 = 2023" "year_of_day 19800 = 2024"
    by code_simp+
  then have "date_parse utc_env (day_key 19782) \<noteq> None"
    using date_parse_day_key [of 19782 utc_env] by (simp add: four_digit_day_def)
  then have "dates_ok utc_env ''Travel'' None [bare_transaction ''t'' (day_key 19782) 25 ''Travel'']"
    by (simp add: dates_ok_def bare_transaction_def)
  then show ?thesis
    using calculateSpent_exact [of 19700 19800] y by (simp add: four_digit_day_def)
qed

text \<open>
  The month of the year from which months count towards the carryover: the month the rollover starts in,
  January when it started in an earlier year, the selected month itself when it has not started yet.
\<close>

definition carry_from :: "int option \<times> int option \<Rightarrow> int \<Rightarrow> int \<Rightarrow> int" where
  "carry_from start y m = (case fst start of None \<Rightarrow> m
     | Some sy \<Rightarrow> if sy < y then 0 else if y = sy then (case snd start of None \<Rightarrow> m | Some sm \<Rightarrow> min sm m) else m)"

lemma prior_months_from:
  assumes "sel_month p = Some m" "0 \<le> m"
  shows "prior_months start p = (let k = carry_from start (sel_year p) m in
    (m - k, if k < m then Some (int_str (sel_year p) @ ''-'' @ pad_start 2 (int_str (k + 1)) @ ''-01'') else None))"
  using assms pad2_one by (auto simp: prior_months_def carry_from_def Let_def split: option.split)

lemma spent_on_no_days: "b < a \<Longrightarrow> spent_on_days e ts cat sub a b = 0"
proof -
  assume "b < a"
  then have none: "filter (\<lambda>t. budget_matches cat sub t \<and> a \<le> utc_day e t \<and> utc_day e t \<le> b) ts = []"
    by (simp add: filter_empty_conv)
  show ?thesis unfolding spent_on_days_def none by simp
qed

lemma month_first_last:
  assumes "0 \<le> k" "k \<le> m" "m < 12"
  shows "make_day y k 1 = make_day y k 0 + 1" "make_day y 0 1 \<le> make_day y k 0 + 1"
    "make_day y k 0 \<le> make_day y m 0" "make_day y m 0 \<le> make_day y (m + 1) 0"
proof -
  have i: "month_index (make_day y j 1) = 12 * y + j" if "0 \<le> j" "j < 12" for j
    using fields_make_day [OF valid_first [OF that], of y] by (simp add: month_index_def)
  show "make_day y k 1 = make_day y k 0 + 1" "make_day y 0 1 \<le> make_day y k 0 + 1"
    using month_boundaries [of k y] assms by simp_all
  show "make_day y m 0 \<le> make_day y (m + 1) 0" using month_boundaries [of m y] assms by simp
  have "make_day y k 1 \<le> make_day y m 1"
    using assms i [of m] by (simp add: first_of_month_le)
  then show "make_day y k 0 \<le> make_day y m 0"
    using month_boundaries(1) [of k y] month_boundaries(1) [of m y] assms by simp
qed

text \<open>
  C6. The spending of the year to date of a rollover budget, whenever its rollover starts, is that of the
  months before its rollover started, plus that of the prior months that count towards the carryover,
  plus that of the selected month; without months before the start it is the sum of the latter two. No
  day is counted twice and none is lost at a boundary, leap years included, and the prior months are
  allocated the amount of one month each. Only a start month written 00 is outside.
\<close>

theorem rollover_ytd_split:
  assumes "computeRolloverBudget e b ts p sub = Inr r"
    and "sel_month p = Some m" and "0 \<le> m" and "m < 12"
    and "1000 \<le> sel_year p" and "sel_year p < 10000"
    and "k = carry_from (rollover_start e b (sel_year p)) (sel_year p) m" and "0 \<le> k"
  shows "rb_ytdSpent r = spent_on_days e ts (bd_category b) sub (make_day (sel_year p) 0 1) (make_day (sel_year p) k 0) +
      rb_priorMonthsSpent r + rb_monthSpent r \<and>
    (k = 0 \<longrightarrow> rb_ytdSpent r = rb_priorMonthsSpent r + rb_monthSpent r) \<and>
    rb_priorMonthsSpent r = spent_on_days e ts (bd_category b) sub (make_day (sel_year p) k 1) (make_day (sel_year p) m 0) \<and>
    rb_monthSpent r = spent_on_days e ts (bd_category b) sub (make_day (sel_year p) m 1) (make_day (sel_year p) (m + 1) 0) \<and>
    rb_priorMonthsAllocated r = of_int (m - k) * bd_amount b"
proof -
  note F = computeRolloverBudget_fields [OF assms(1)]
  let ?y = "sel_year p" and ?c = "bd_category b"
  let ?spent = "spent_on_days e ts ?c sub"
  have km: "k \<le> m" using assms(3,7,8) by (auto simp: carry_from_def split: option.splits if_splits)
  note pm = prior_months_from [OF assms(2,3), of "rollover_start e b ?y", unfolded Let_def assms(7) [symmetric]]
  note B = month_first_last [OF assms(8) km assms(4), of ?y]
  have al: "rb_priorMonthsAllocated r = of_int (m - k) * bd_amount b" using F(4) pm by simp
  have ok: "dates_ok e ?c sub ts" using F(1) by (rule calculateSpent_Inr)
  note mb = month_bounds_key [OF assms(5,6,3,4) refl assms(2)]
  note fd = month_days_four_digit [OF assms(5,6,3,4)]
  have fy: "four_digit_day (make_day ?y 0 1)"
    by (rule month_days_four_digit) (use assms in auto)
  have M: "rb_monthSpent r = ?spent (make_day ?y m 1) (make_day ?y (m + 1) 0)"
    using F(1) unfolding mb by (simp add: calculateSpent_days_eq [OF ok fd])
  have Y: "rb_ytdSpent r = ?spent (make_day ?y 0 1) (make_day ?y (m + 1) 0)"
    using F(2) unfolding mb year_start_key [OF assms(5,6)] by (simp add: calculateSpent_days_eq [OF ok fy fd(2)])
  have P: "rb_priorMonthsSpent r = ?spent (make_day ?y k 1) (make_day ?y m 0)"
  proof (cases "k < m")
    case True
    then have k: "0 \<le> k" "k < 12" "0 \<le> m - 1" "m - 1 < 12" using assms(4,8) by auto
    then show ?thesis
      using F(3) True assms(2) last_key [OF assms(5,6) k(3,4)] first_key [OF assms(5,6) k(1,2)]
        calculateSpent_days_eq [OF ok month_days_four_digit(1) [OF assms(5,6) k(1,2)]
          month_days_four_digit(2) [OF assms(5,6) k(3,4)]]
      by (simp add: pm)
  next
    case False
    then show ?thesis using F(3) km B(1) spent_on_no_days [of "make_day ?y m 0" "make_day ?y k 1"] by (simp add: pm)
  qed
  have S: "rb_ytdSpent r = ?spent (make_day ?y 0 1) (make_day ?y k 0) + rb_priorMonthsSpent r + rb_monthSpent r"
    using spent_on_days_split [of "make_day ?y 0 1" "make_day ?y k 0" "make_day ?y (m + 1) 0"]
      spent_on_days_split [of "make_day ?y k 1" "make_day ?y m 0" "make_day ?y (m + 1) 0"]
      month_boundaries(1) [OF assms(3,4), of ?y] B unfolding Y M P by simp
  moreover have "?spent (make_day ?y 0 1) (make_day ?y k 0) = 0" if "k = 0"
    using B(1) unfolding that by (intro spent_on_no_days) simp
  ultimately show ?thesis using al M P by simp
qed

definition sample_budget :: "BudgetFrequency \<Rightarrow> bool \<Rightarrow> rat \<Rightarrow> Budget" where
  "sample_budget f roll amt = \<lparr>bd_id = ''b'', bd_category = ''Travel'', bd_amount = amt,
     bd_frequency = Some f, bd_rollover = Some roll, bd_rollover_start_month = Some ''2023-05'',
     bd_created_at = None\<rparr>"

definition sample_txs :: "Transaction list" where
  "sample_txs = [bare_transaction ''t'' (day_key 19782) 25 ''Travel'',
     bare_transaction ''u'' (day_key 19740) 40 ''Travel'']"

lemma sample_dates: "dates_ok utc_env cat sub sample_txs"
proof -
  have "year_of_day 19782 = 2024" "year_of_day 19740 = 2024" by code_simp+
  then have "date_parse utc_env (day_key 19782) \<noteq> None" "date_parse utc_env (day_key 19740) \<noteq> None"
    using date_parse_day_key [of 19782 utc_env] date_parse_day_key [of 19740 utc_env]
    by (simp_all add: four_digit_day_def)
  then show ?thesis by (simp add: dates_ok_def sample_txs_def bare_transaction_def)
qed

lemma sample_start: "rollover_start utc_env (sample_budget f roll amt) y = (Some 2023, Some 4)"
  by (simp add: rollover_start_def sample_budget_def truthy_def parse_int_def trim_start_def
      char_eval startsWith_def digits_value_def code_at_def)

theorem rollover_ytd_split_witness:
  "\<exists>r. computeRolloverBudget utc_env (sample_budget Monthly True 100) sample_txs
     \<lparr>sel_year = 2024, sel_month = Some 1\<rparr> None = Inr r \<and>
     rb_ytdSpent r = rb_priorMonthsSpent r + rb_monthSpent r \<and> rb_priorMonthsAllocated r = 100"
proof -
  obtain r where r: "computeRolloverBudget utc_env (sample_budget Monthly True 100) sample_txs
      \<lparr>sel_year = 2024, sel_month = Some 1\<rparr> None = Inr r"
    using computeRolloverBudget_total [OF sample_dates] by blast
  have "bd_amount (sample_budget Monthly True 100) = 100" by (simp add: sample_budget_def)
  then show ?thesis
    using r rollover_ytd_split [OF r, of 1 0] by (simp add: sample_start carry_from_def)
qed

text \<open>
  What a budget has available is its amount (times the periods of the year in the yearly
  view) plus the carryover; the carryover is never a debt and is zero without rollover; a budget is
  over exactly when the period's spending exceeds what is available, and then the percentage of a
  budget with something available is at least 100.
\<close>

theorem rollover_available:
  assumes "computeRolloverBudget e b ts p sub = Inr r"
  shows "rb_availableThisMonth r = (if sel_month p = None
      then bd_amount b * of_int (period_multiplier True (default_to (bd_frequency b) Monthly))
      else bd_amount b) + rb_priorCarryover r \<and>
    0 \<le> rb_priorCarryover r \<and> (bd_rollover b \<noteq> Some True \<longrightarrow> rb_priorCarryover r = 0) \<and>
    (rb_isOverBudget r \<longleftrightarrow> rb_availableThisMonth r < rb_monthSpent r) \<and>
    (rb_isOverBudget r \<longrightarrow> 0 < rb_availableThisMonth r \<longrightarrow> 100 \<le> rb_percentageUsed r)"
proof -
  note F = computeRolloverBudget_fields [OF assms]
  have "100 \<le> rb_percentageUsed r"
    if "rb_availableThisMonth r < rb_monthSpent r" "0 < rb_availableThisMonth r"
  proof -
    have "of_int 100 \<le> rb_monthSpent r / rb_availableThisMonth r * 100"
      using that by (simp add: field_simps)
    then have "js_round (of_int 100) \<le> js_round (rb_monthSpent r / rb_availableThisMonth r * 100)"
      by (rule js_round_mono)
    then show ?thesis using F(10) that js_round_of_int [of 100] by simp
  qed
  then show ?thesis using F(5-9) by auto
qed

theorem rollover_available_witness:
  "\<exists>r. computeRolloverBudget utc_env (sample_budget Quarterly True 100) sample_txs
     \<lparr>sel_year = 2024, sel_month = None\<rparr> None = Inr r \<and>
     rb_availableThisMonth r = 400 + rb_priorCarryover r \<and> 0 \<le> rb_priorCarryover r"
proof -
  obtain r where r: "computeRolloverBudget utc_env (sample_budget Quarterly True 100) sample_txs
      \<lparr>sel_year = 2024, sel_month = None\<rparr> None = Inr r"
    using computeRolloverBudget_total [OF sample_dates] by blast
  then show ?thesis
    using rollover_available [OF r] by (simp add: sample_budget_def period_multiplier_def)
qed

text \<open>
  A rollover computation returns a result exactly when every transaction the budget matches
  has a date that parses; its only error is the RangeError of \<^verbatim>\<open>toISOString\<close>.
\<close>

theorem computeRolloverBudget_defined:
  "((\<exists>r. computeRolloverBudget e b ts p sub = Inr r) \<longleftrightarrow> dates_ok e (bd_category b) sub ts) \<and>
   ((\<exists>err. computeRolloverBudget e b ts p sub = Inl err) \<longleftrightarrow>
    computeRolloverBudget e b ts p sub = Inl RangeError)"
  using computeRolloverBudget_total [of e b sub ts p] computeRolloverBudget_error [of e b sub ts p]
  by (cases "dates_ok e (bd_category b) sub ts") auto

text \<open>
  A composite budget adds up: what is available and what carries over are the sums over the
  direct budget and the subcategory budgets, in their order, and it is over budget exactly when
  the spending of the major category exceeds the sum available.
\<close>

theorem composite_adds_up:
  assumes "computeCompositeMajorBudget e cat d subs ts p = Inr r"
  shows "cb_availableThisMonth r = (case cb_directBudgetResult r of
        Some x \<Rightarrow> rb_availableThisMonth x | None \<Rightarrow> 0) +
      sum_list (map (\<lambda>sr. rb_availableThisMonth (snd sr)) (cb_subcategoryResults r)) \<and>
    cb_totalPriorCarryover r = (case cb_directBudgetResult r of
        Some x \<Rightarrow> rb_priorCarryover x | None \<Rightarrow> 0) +
      sum_list (map (\<lambda>sr. rb_priorCarryover (snd sr)) (cb_subcategoryResults r)) \<and>
    map fst (cb_subcategoryResults r) = map fst subs \<and>
    (cb_isOverBudget r \<longleftrightarrow> cb_availableThisMonth r < cb_monthSpent r)"
  using composite_fields [OF assms] by blast

lemma composite_sample_total:
  "\<exists>r. computeCompositeMajorBudget utc_env cat (Some (sample_budget f roll a))
     [(''Hotel'', sample_budget g roll' c)] sample_txs p = Inr r"
proof -
  obtain x where "computeRolloverBudget utc_env (sample_budget f roll a) sample_txs p None = Inr x"
    using computeRolloverBudget_total [OF sample_dates] by blast
  moreover obtain y where
    "computeRolloverBudget utc_env (sample_budget g roll' c) sample_txs p (Some ''Hotel'') = Inr y"
    using computeRolloverBudget_total [OF sample_dates] by blast
  ultimately show ?thesis
    by (simp add: computeCompositeMajorBudget_def direct_result_def sub_result_def
        calculateSpent_ok [OF sample_dates])
qed

theorem composite_adds_up_witness:
  "\<exists>r. computeCompositeMajorBudget utc_env ''Travel'' (Some (sample_budget Monthly True 100))
       [(''Hotel'', sample_budget Monthly False 50)] sample_txs
       \<lparr>sel_year = 2024, sel_month = Some 1\<rparr> = Inr r \<and>
     map fst (cb_subcategoryResults r) = [''Hotel''] \<and>
     (cb_isOverBudget r \<longleftrightarrow> cb_availableThisMonth r < cb_monthSpent r)"
proof -
  obtain r where r: "computeCompositeMajorBudget utc_env ''Travel''
      (Some (sample_budget Monthly True 100)) [(''Hotel'', sample_budget Monthly False 50)]
      sample_txs \<lparr>sel_year = 2024, sel_month = Some 1\<rparr> = Inr r"
    using composite_sample_total by blast
  then show ?thesis using composite_adds_up [OF r] by auto
qed

text \<open>
  In the yearly view a composite budget reports twelve times the amount of its direct budget
  as its monthly amount whatever the frequency, while the amount available uses 4, 2 or 1 periods
  for a quarterly, semi-annual or annual budget: the two agree only for a monthly one.
\<close>

theorem composite_year_mismatch:
  assumes "computeCompositeMajorBudget e cat (Some b) [] ts p = Inr r"
    and "sel_month p = None" and "0 < bd_amount b"
  shows "cb_monthlyAmount r = bd_amount b * 12 \<and>
    cb_availableThisMonth r =
      bd_amount b * of_int (period_multiplier True (default_to (bd_frequency b) Monthly)) \<and>
    (cb_monthlyAmount r = cb_availableThisMonth r \<longleftrightarrow>
      default_to (bd_frequency b) Monthly = Monthly)"
proof -
  note F = composite_fields [OF assms(1)]
  obtain x where x: "computeRolloverBudget e b ts p None = Inr x"
      "cb_directBudgetResult r = Some x"
    using F(6) by (auto simp: direct_result_def split: sum.splits)
  note G = computeRolloverBudget_fields [OF x(1)]
  have "rb_priorCarryover x = 0" using G(5) assms(2) by (simp add: prior_months_def)
  moreover have "cb_subcategoryResults r = []" using F(5) by simp
  ultimately have "cb_availableThisMonth r =
      bd_amount b * of_int (period_multiplier True (default_to (bd_frequency b) Monthly))"
    using F(1) x(2) G(6,7) assms(2) by simp
  moreover have "cb_monthlyAmount r = bd_amount b * 12" using F(8) assms(2) by simp
  ultimately show ?thesis
    using assms(3) by (cases "default_to (bd_frequency b) Monthly")
      (auto simp: period_multiplier_def)
qed

theorem composite_year_mismatch_witness:
  "\<exists>r. computeCompositeMajorBudget utc_env ''Travel'' (Some (sample_budget Quarterly False 100))
       [] sample_txs \<lparr>sel_year = 2024, sel_month = None\<rparr> = Inr r \<and>
     cb_monthlyAmount r = 1200 \<and> cb_availableThisMonth r = 400"
proof -
  obtain x where "computeRolloverBudget utc_env (sample_budget Quarterly False 100) sample_txs
      \<lparr>sel_year = 2024, sel_month = None\<rparr> None = Inr x"
    using computeRolloverBudget_total [OF sample_dates] by blast
  then obtain r where r: "computeCompositeMajorBudget utc_env ''Travel''
      (Some (sample_budget Quarterly False 100)) [] sample_txs
      \<lparr>sel_year = 2024, sel_month = None\<rparr> = Inr r"
    by (simp add: computeCompositeMajorBudget_def direct_result_def calculateSpent_ok [OF sample_dates])
  have "bd_amount (sample_budget Quarterly False 100) = 100"
    "bd_frequency (sample_budget Quarterly False 100) = Some Quarterly"
    by (simp_all add: sample_budget_def)
  then show ?thesis
    using r composite_year_mismatch [OF r] by (simp add: period_multiplier_def)
qed

text \<open>
  The statistics of a month are consistent: the variance is budgeted less spent and what
  remains is its positive part; the over-budget categories are, in order, those that spent more
  than their amount and are as many as counted; a category near its limit is never over it, and at
  most three are named; the days remaining lie between 0 and the days of the month.
\<close>

theorem computeStats_consistent:
  "bs_variance (computeStats now bs month) =
     sum_list (map cbud_amount bs) - sum_list (map cbud_spent bs) \<and>
   bs_remaining (computeStats now bs month) = max 0 (bs_variance (computeStats now bs month)) \<and>
   bs_overBudgetCategories (computeStats now bs month) =
     map cbud_category (filter (\<lambda>b. isOverBudget (cbud_amount b) (cbud_spent b)) bs) \<and>
   bs_overBudgetCount (computeStats now bs month) =
     length (bs_overBudgetCategories (computeStats now bs month)) \<and>
   length (bs_nearLimitCategories (computeStats now bs month)) \<le> 3 \<and>
   (\<exists>near. bs_nearLimitCategories (computeStats now bs month) = map cbud_category near \<and>
      set near \<subseteq> {b \<in> set bs. 0 < cbud_amount b \<and> \<not> isOverBudget (cbud_amount b) (cbud_spent b)}) \<and>
   0 \<le> bs_daysRemaining (computeStats now bs month) \<and>
   bs_daysRemaining (computeStats now bs month) \<le> bs_totalDays (computeStats now bs month) \<and>
   28 \<le> bs_totalDays (computeStats now bs month) \<and> bs_totalDays (computeStats now bs month) \<le> 31"
proof -
  let ?s = "computeStats now bs month"
  define L where "L = last_date_of (year_of_day month) (month_of_day month + 1)"
  have L: "28 \<le> L" "L \<le> 31" unfolding L_def by (intro last_date_bounds month_of_day_range)+
  have D: "0 \<le> days_remaining now y m L" "days_remaining now y m L \<le> L" for y m
    using L fields_valid [of now] by (auto simp: days_remaining_def valid_date_def)
  have near: "near_limit b \<Longrightarrow> 0 < cbud_amount b \<and> \<not> isOverBudget (cbud_amount b) (cbud_spent b)" for b
    by (auto simp: near_limit_def isOverBudget_def Let_def field_simps split: if_splits)
  have set_near: "set (take 3 (filter near_limit bs)) \<subseteq>
      {b \<in> set bs. 0 < cbud_amount b \<and> \<not> isOverBudget (cbud_amount b) (cbud_spent b)}"
    using near set_take_subset [of 3 "filter near_limit bs"] by fastforce
  have eq: "computeStats now bs month =
      \<lparr>bs_totalBudgeted = sum_list (map cbud_amount bs), bs_totalSpent = sum_list (map cbud_spent bs),
       bs_remaining = max 0 (sum_list (map cbud_amount bs) - sum_list (map cbud_spent bs)),
       bs_variance = sum_list (map cbud_amount bs) - sum_list (map cbud_spent bs),
       bs_overBudgetCount = length (filter (\<lambda>x. cbud_amount x < cbud_spent x) bs),
       bs_overBudgetCategories = map cbud_category (filter (\<lambda>x. cbud_amount x < cbud_spent x) bs),
       bs_daysRemaining = (if bs = [] then 0
         else days_remaining now (year_of_day month) (month_of_day month) L),
       bs_totalDays = L, bs_activeBudgetCategories = map cbud_category bs,
       bs_nearLimitCategories = map cbud_category (take 3 (filter near_limit bs))\<rparr>"
    by (simp add: computeStats_def Let_def stats_totals_eq L_def)
  show ?thesis
    unfolding eq using L D set_near by (auto simp: isOverBudget_def intro!: exI)
qed

end
