(* ===== verification/Dashboard_Calculator.thy ===== *)
theory Dashboard_Calculator
  imports Date_Ranges "HOL-Library.Product_Lexorder"
begin

text \<open>
  The dashboard (\<^verbatim>\<open>domain/DashboardCalculator.ts\<close>): the vertical range and the marked
  points of the net-worth chart, and the prediction of upcoming charges from the dates and amounts
  of past ones. The loop that moves a predicted date past today is a partial function on date
  keys; that it returns is proved.
\<close>

section \<open>The net-worth chart\<close>

record NetWorthPoint =
  nw_date :: jstring
  nw_value :: jsval

text \<open>The running minimum and maximum; \<open>None\<close> stands for the initial infinities.\<close>

definition track_extremes :: "rat option \<times> rat option \<Rightarrow> NetWorthPoint \<Rightarrow> rat option \<times> rat option" where
  "track_extremes acc point = (case js_Number (nw_value point) of
     Fin value \<Rightarrow>
       ((case fst acc of None \<Rightarrow> Some value | Some mn \<Rightarrow> if value < mn then Some value else Some mn),
        (case snd acc of None \<Rightarrow> Some value | Some mx \<Rightarrow> if mx < value then Some value else Some mx))
   | _ \<Rightarrow> acc)"

definition calculateNetYAxisDomain :: "NetWorthPoint list \<Rightarrow> (rat \<times> rat) option" where
  "calculateNetYAxisDomain series =
     (case foldl track_extremes (None, None) series of
        (Some mn, Some mx) \<Rightarrow>
          if mn = mx then
            let padding = max (\<bar>mx\<bar> * (1 / 10)) 500 in Some (mx - padding, mx + padding)
          else
            let span = \<bar>mx - mn\<bar>; padding = max (span * (8 / 100)) 500
            in Some (mn - padding, mx + padding)
      | _ \<Rightarrow> None)"

definition value_or_zero :: "NetWorthPoint \<Rightarrow> jsnum" where
  "value_or_zero p = (if nw_value p = JUndefined \<or> nw_value p = JNull then Fin 0
     else js_Number (nw_value p))"

definition change_indices :: "NetWorthPoint list \<Rightarrow> nat list" where
  "change_indices series = filter (\<lambda>i.
     let prev = value_or_zero (series ! (i - 1)); curr = value_or_zero (series ! i)
     in isFinite prev \<and> isFinite curr \<and> curr \<noteq> prev) [1..<length series]"

text \<open>\<^verbatim>\<open>for (let k = 0; k < xs.length; k += stride)\<close>.\<close>

function every :: "nat \<Rightarrow> 'a list \<Rightarrow> 'a list" where
  "every stride [] = []"
| "every stride (x # xs) = x # every stride (drop (stride - 1) xs)"
  by pat_completeness auto
termination by (relation "measure (length \<circ> snd)") auto

definition calculateNetDotIndices :: "NetWorthPoint list \<Rightarrow> nat list" where
  "calculateNetDotIndices series =
     (let changeIdx = change_indices series; maxDots = 30 in
      if changeIdx = [] then []
      else let stride = max 1 (nat \<lceil>(of_nat (length changeIdx) / of_nat maxDots :: rat)\<rceil>)
           in set_add (last changeIdx) (set_of_list (every stride changeIdx)))"

section \<open>Date keys\<close>

definition toDateKey_date :: "int \<Rightarrow> jstring" where
  "toDateKey_date day = raw_date (year_of_day day) (month_of_day day + 1) (date_of_day day)"

definition toDateKey :: "date_env \<Rightarrow> jstring \<Rightarrow> jstring" where
  "toDateKey e value =
     (if date_only_prefix value then take 10 value
      else case date_parse e value of None \<Rightarrow> []
      | Some t \<Rightarrow> toDateKey_date (local_day e t))"

text \<open>
  \<open>None\<close> is an invalid date. A key has digits only between its hyphens, so that the numbers are
  integers.
\<close>

definition fromDateKey :: "jstring \<Rightarrow> int option" where
  "fromDateKey value = (case map number_of_string (split_on (CHR ''-'') value) of
     Fin year # Fin month # Fin day # _ \<Rightarrow> Some (new_date \<lfloor>year\<rfloor> (\<lfloor>month\<rfloor> - 1) \<lfloor>day\<rfloor>)
   | _ \<Rightarrow> None)"

definition daysBetween :: "date_env \<Rightarrow> jstring \<Rightarrow> jstring \<Rightarrow> int option" where
  "daysBetween e start finish = (case (fromDateKey start, fromDateKey finish) of
     (Some s, Some f) \<Rightarrow>
       Some (js_round (of_int (de_midnight e f - de_midnight e s) / of_int ms_per_day))
   | _ \<Rightarrow> None)"

definition addDays :: "jstring \<Rightarrow> int \<Rightarrow> jstring" where
  "addDays value days = (case fromDateKey value of None \<Rightarrow> []
     | Some n \<Rightarrow> toDateKey_date (n + days))"

definition addMonthsClamped :: "jstring \<Rightarrow> int \<Rightarrow> jstring" where
  "addMonthsClamped value months = (case fromDateKey value of None \<Rightarrow> []
     | Some n \<Rightarrow>
        let originalDay = date_of_day n;
            first = make_day (year_of_day n) (month_of_day n + months) 1;
            lastDay = date_of_day (new_date (year_of_day first) (month_of_day first + 1) 0)
        in toDateKey_date (make_day (year_of_day first) (month_of_day first)
             (min originalDay lastDay)))"

section \<open>Charges\<close>

record ChargeTransaction =
  ct_account_id :: "jstring option"
  ct_account_type :: "jstring option"
  ct_amount :: jsval
  ct_date :: jstring
  ct_merchant :: "jstring option"
  ct_name :: "jstring option"
  ct_provider :: "jstring option"

datatype cadence = Weekly | Biweekly | Monthly_cadence | Quarterly_cadence | Yearly

datatype confidence = High | Medium

record UpcomingChargePrediction =
  up_merchant :: jstring
  up_amount :: rat
  up_nextDate :: jstring
  up_daysUntil :: "int option"
  up_cadence :: cadence
  up_confidence :: confidence
  up_occurrenceCount :: nat

record ChargeGroup =
  cg_merchant :: jstring
  cg_transactions :: "ChargeTransaction list"

definition charge_display :: "ChargeTransaction \<Rightarrow> rat" where
  "charge_display t = (case js_Number (ct_amount t) of
     Fin amount \<Rightarrow>
       if ct_provider t = Some ''teller'' \<and>
          toLowerCase (default_to (ct_account_type t) []) \<in> set [''credit'', ''credit card'']
       then amount else - amount
   | _ \<Rightarrow> 0)"

text \<open>\<^verbatim>\<open>.replace(/\s+/g, ' ')\<close> and \<^verbatim>\<open>.replace(/\s+\d{2,}.*$/, '')\<close>.\<close>

fun collapse_space :: "bool \<Rightarrow> jstring \<Rightarrow> jstring" where
  "collapse_space prev [] = []"
| "collapse_space prev (c # cs) =
     (if is_space c then (if prev then collapse_space True cs
        else CHR '' '' # collapse_space True cs)
      else c # collapse_space False cs)"

definition starts_two_digits :: "jstring \<Rightarrow> bool" where
  "starts_two_digits s \<longleftrightarrow> 2 \<le> length s \<and> list_all is_digit (take 2 s)"

fun cut_reference :: "jstring \<Rightarrow> jstring" where
  "cut_reference [] = []"
| "cut_reference (c # cs) =
     (if is_space c \<and> starts_two_digits cs then [] else c # cut_reference cs)"

definition normalizeMerchant :: "jstring \<Rightarrow> jstring" where
  "normalizeMerchant value = trim (cut_reference (collapse_space False value))"

definition group_step ::
    "(jstring, ChargeGroup) js_map \<Rightarrow> ChargeTransaction \<Rightarrow> (jstring, ChargeGroup) js_map" where
  "group_step groups t =
     (if 0 \<le> charge_display t then groups
      else let merchant = normalizeMerchant (str_or (ct_merchant t) (str_or (ct_name t) [])) in
        if merchant = [] then groups
        else let key = merchant @ '':'' @ str_or (ct_account_id t) ''all'' in
          case map_get groups key of
            Some existing \<Rightarrow> map_set key
              (existing\<lparr>cg_transactions := cg_transactions existing @ [t]\<rparr>) groups
          | None \<Rightarrow> map_set key \<lparr>cg_merchant = merchant, cg_transactions = [t]\<rparr> groups)"

definition groupChargeTransactions :: "ChargeTransaction list \<Rightarrow> (jstring, ChargeGroup) js_map" where
  "groupChargeTransactions transactions = foldl group_step [] transactions"

fun getIntervals :: "date_env \<Rightarrow> ChargeTransaction list \<Rightarrow> int list" where
  "getIntervals e (a # b # rest) =
     (case daysBetween e (toDateKey e (ct_date a)) (toDateKey e (ct_date b)) of
        Some diff \<Rightarrow> if 0 < diff then diff # getIntervals e (b # rest) else getIntervals e (b # rest)
      | None \<Rightarrow> getIntervals e (b # rest))"
| "getIntervals e _ = []"

definition cadence_days :: "cadence \<Rightarrow> int" where
  "cadence_days c = (case c of Weekly \<Rightarrow> 7 | Biweekly \<Rightarrow> 14 | Monthly_cadence \<Rightarrow> 30
     | Quarterly_cadence \<Rightarrow> 91 | Yearly \<Rightarrow> 365)"

definition matchCadence :: "rat \<Rightarrow> cadence option" where
  "matchCadence days =
     (let score = (\<lambda>c. \<bar>days - of_int (cadence_days c)\<bar>);
          matches = js_sort (up_by score) (filter
            (\<lambda>c. score c \<le> max 2 (of_int (cadence_days c) * (12 / 100)))
            [Weekly, Biweekly, Monthly_cadence, Quarterly_cadence, Yearly])
      in case matches of [] \<Rightarrow> None | c # _ \<Rightarrow> Some c)"

definition median :: "rat list \<Rightarrow> rat" where
  "median values = (let vs = js_sort (up_by id) values; middle = length vs div 2 in
     if vs = [] then 0
     else if length vs mod 2 = 1 then vs ! middle
     else (vs ! (middle - 1) + vs ! middle) / 2)"

definition last_four :: "'a list \<Rightarrow> 'a list" where
  "last_four xs = drop (length xs - 4) xs"

definition next_charge :: "cadence \<Rightarrow> jstring \<Rightarrow> jstring" where
  "next_charge c key = (if c = Monthly_cadence then addMonthsClamped key 1
     else addDays key (cadence_days c))"

partial_function (option) advance :: "cadence \<Rightarrow> jstring \<Rightarrow> jstring \<Rightarrow> jstring option" where
  "advance c nextDate todayKey =
     (if nextDate \<le> todayKey then advance c (next_charge c nextDate) todayKey
      else Some nextDate)"

definition amount_drift :: "rat list \<Rightarrow> rat" where
  "amount_drift recent =
     (let average = reduce_sum id recent / of_nat (length recent) in
      if 0 < average then Max (set (map (\<lambda>a. \<bar>a - average\<bar>) recent)) / average else 0)"

text \<open>
  The body of the loop over the groups: \<open>None\<close> when it does not return, \<open>Some None\<close> for a
  group that is skipped.
\<close>

definition predict_group ::
    "date_env \<Rightarrow> jstring \<Rightarrow> jstring \<Rightarrow> ChargeGroup \<Rightarrow> UpcomingChargePrediction option option" where
  "predict_group e todayKey horizon grp =
     (let ordered = js_sort (up_by (\<lambda>t. toDateKey e (ct_date t)))
            (filter (\<lambda>t. toDateKey e (ct_date t) \<noteq> []) (cg_transactions grp));
          intervals = getIntervals e ordered
      in if length ordered < 2 \<or> intervals = [] then Some None
         else case matchCadence (median (map of_int intervals)) of None \<Rightarrow> Some None
         | Some c \<Rightarrow>
           let stable = filter (\<lambda>i. of_int \<bar>i - cadence_days c\<bar> \<le>
                 max 2 (of_int (cadence_days c) * (18 / 100) :: rat)) intervals;
               amounts = map (\<lambda>t. \<bar>charge_display t\<bar>) ordered;
               recent = last_four amounts;
               predicted = median recent
           in if stable = [] \<or> predicted < 1 then Some None
              else case advance c (next_charge c (toDateKey e (ct_date (last ordered)))) todayKey of
                None \<Rightarrow> None
              | Some nextDate \<Rightarrow>
                  if horizon < nextDate then Some None
                  else Some (Some \<lparr>up_merchant = cg_merchant grp, up_amount = predicted,
                    up_nextDate = nextDate, up_daysUntil = daysBetween e todayKey nextDate,
                    up_cadence = c,
                    up_confidence = (if 3 \<le> length ordered \<and>
                        max 1 (int (length intervals) - 1) \<le> int (length stable) \<and>
                        amount_drift recent \<le> 2 / 10 then High else Medium),
                    up_occurrenceCount = length ordered\<rparr>))"

fun collect :: "('a \<Rightarrow> 'b option option) \<Rightarrow> 'a list \<Rightarrow> 'b list option" where
  "collect f [] = Some []"
| "collect f (x # xs) = (case f x of None \<Rightarrow> None
     | Some y \<Rightarrow> (case collect f xs of None \<Rightarrow> None
         | Some ys \<Rightarrow> Some (case y of None \<Rightarrow> ys | Some p \<Rightarrow> p # ys)))"

text \<open>
  \<^verbatim>\<open>a.daysUntil - b.daysUntil || b.amount - a.amount\<close>: a difference that is zero or NaN
  leaves the decision to the amounts.
\<close>

definition prediction_le :: "UpcomingChargePrediction \<Rightarrow> UpcomingChargePrediction \<Rightarrow> bool" where
  "prediction_le a b = (case (up_daysUntil a, up_daysUntil b) of
     (Some x, Some y) \<Rightarrow> if x - y \<noteq> 0 then x - y < 0 else up_amount b \<le> up_amount a
   | _ \<Rightarrow> up_amount b \<le> up_amount a)"

definition predictUpcomingCharges ::
    "date_env \<Rightarrow> ChargeTransaction list \<Rightarrow> int \<Rightarrow> int \<Rightarrow> UpcomingChargePrediction list option" where
  "predictUpcomingCharges e transactions today horizonDays =
     (if transactions = [] then Some []
      else let groups = groupChargeTransactions transactions;
               todayKey = toDateKey_date today;
               horizon = addDays todayKey horizonDays
        in case collect (predict_group e todayKey horizon) (map snd groups) of
             None \<Rightarrow> None
           | Some predictions \<Rightarrow> Some (take 8 (js_sort prediction_le predictions)))"

section \<open>Date keys are read back\<close>

lemma takeWhile_digits: "list_all is_digit s \<Longrightarrow> takeWhile is_digit s = s \<and> dropWhile is_digit s = []"
  by (induction s) auto

lemma number_of_digits:
  assumes "list_all is_digit s" "s \<noteq> []"
  shows "number_of_string s = Fin (of_nat (digits_value s))"
proof -
  obtain c cs where s: "s = c # cs" using assms(2) by (cases s) auto
  have d: "is_digit c" "list_all is_digit cs" using assms(1) s by auto
  have "is_digit (last s)" using assms by (auto simp: list_all_iff)
  then have t: "trim s = s" using d s by (intro trim_id) (auto simp: digit_not_space)
  have "toLowerCase (take 2 s) \<notin> set [''0x'', ''0o'', ''0b'']"
  proof (cases cs)
    case (Cons c2 cs')
    then have "is_digit c2" using d by simp
    then have "lower_char c2 = c2" by (auto simp: is_digit_def lower_char_def is_upper_def)
    then show ?thesis using Cons s \<open>is_digit c2\<close>
      by (auto simp: is_digit_def code_at_def)
  qed (use s in simp)
  moreover have "\<not> startsWith s ''-''" "\<not> startsWith s ''+''"
    using digit_not_sign [OF d(1)] s by (auto simp: startsWith_def)
  moreover have "s \<noteq> ''Infinity''" using d s by (auto simp: char_eval)
  moreover have "parse_unsigned s = Some (of_nat (digits_value s))"
    unfolding parse_unsigned_def Let_def
      takeWhile_digits [OF assms(1), THEN conjunct1] takeWhile_digits [OF assms(1), THEN conjunct2]
    using assms(2) by (simp add: startsWith_def parse_exponent_def pow10_def)
  ultimately show ?thesis
    using t assms(2) by (simp add: number_of_string_def Let_def parse_decimal_def)
qed

lemma number_of_fixed:
  "0 < w \<Longrightarrow> n < 10 ^ w \<Longrightarrow> number_of_string (fixed w n) = Fin (of_nat n)"
  using number_of_digits [OF all_digits_fixed, of w n] digits_value_fixed [of n w]
  by (metis length_fixed length_greater_0_conv)

lemma hyphen_not_fixed: "CHR ''-'' \<notin> set (fixed w n)"
  using all_digits_fixed [of w n] by (auto simp: list_all_iff char_eval)

lemma fromDateKey_date_key:
  assumes "valid_date y m d" "100 \<le> y" "y < 10000"
  shows "fromDateKey (date_key y m d) = Some (make_day y m d)"
proof -
  have r: "0 \<le> m" "m < 12" "1 \<le> d" "d \<le> 31"
    using assms(1) days_in_month_bounds [of m y] by (auto simp: valid_date_def)
  let ?Y = "fixed 4 (nat y)" and ?M = "fixed 2 (nat (m + 1))" and ?D = "fixed 2 (nat d)"
  have k: "date_key y m d = ?Y @ CHR ''-'' # ?M @ CHR ''-'' # ?D"
    using r assms pad_int_str [of 4 y] pad_int_str [of 2 "m + 1"] pad_int_str [of 2 d]
    by (simp add: date_key_def)
  have "split_on (CHR ''-'') (date_key y m d) = [?Y, ?M, ?D]"
    unfolding k by (simp only: split_on_piece split_on_single hyphen_not_fixed not_False_eq_True)
  moreover have "number_of_string ?Y = Fin (of_int y)" "number_of_string ?M = Fin (of_int (m + 1))"
    "number_of_string ?D = Fin (of_int d)"
    using assms r number_of_fixed [of 4 "nat y"] number_of_fixed [of 2 "nat (m + 1)"]
      number_of_fixed [of 2 "nat d"]
    by (simp_all add: nat_less_iff)
  ultimately show ?thesis
    using assms(2) by (simp add: fromDateKey_def new_date_def)
qed

lemma fromDateKey_day_key: "plain_day n \<Longrightarrow> fromDateKey (day_key n) = Some n"
  using fromDateKey_date_key [OF fields_valid, of n]
  by (simp add: plain_day_def day_key_def make_day_fields)

lemma toDateKey_date_plain: "plain_day n \<Longrightarrow> toDateKey_date n = day_key n"
  using raw_day_key_eq [of n] by (simp add: toDateKey_date_def raw_day_key_def)

lemma toDateKey_eq: "toDateKey e value = toDateOnlyKey e value"
  by (simp add: toDateKey_def toDateOnlyKey_def toDateKey_date_def Let_def split: option.split)

section \<open>The loop past today\<close>

lemma plain_mono: "plain_day m \<Longrightarrow> m \<le> n \<Longrightarrow> n \<le> k \<Longrightarrow> plain_day k \<Longrightarrow> plain_day n"
  using year_of_day_mono [of m n] year_of_day_mono [of n k] by (simp add: plain_day_def)

lemma year_ahead: "0 \<le> k \<Longrightarrow> k \<le> 365 \<Longrightarrow> year_of_day (n + k) \<le> year_of_day n + 1"
proof -
  assume k: "0 \<le> k" "k \<le> 365"
  let ?y = "year_of_day n"
  have "n < day_from_year (?y + 1)" by (rule year_of_day_bounds)
  moreover have "day_from_year (?y + 1) + 365 \<le> day_from_year (?y + 2)"
    using day_from_year_Suc [of "?y + 1"] by (simp add: add.assoc split: if_splits)
  ultimately have "n + k < day_from_year (?y + 2)" using k by linarith
  moreover have "day_from_year (year_of_day (n + k)) \<le> n + k" by (rule year_of_day_bounds)
  ultimately have "\<not> day_from_year (?y + 2) \<le> day_from_year (year_of_day (n + k))" by linarith
  then show ?thesis using day_from_year_le_iff [of "?y + 2" "year_of_day (n + k)"] by linarith
qed

definition early_day :: "int \<Rightarrow> bool" where
  "early_day n \<longleftrightarrow> 1000 \<le> year_of_day n \<and> year_of_day n < 9999"

lemma early_plain: "early_day n \<Longrightarrow> plain_day n"
  by (simp add: early_day_def plain_day_def)

lemma early_ahead: "early_day n \<Longrightarrow> 0 \<le> k \<Longrightarrow> k \<le> 365 \<Longrightarrow> plain_day (n + k)"
  using year_ahead [of k n] year_of_day_mono [of n "n + k"] by (simp add: early_day_def plain_day_def)

text \<open>One step from a day: the same day of the next month, or of its last day.\<close>

definition next_day :: "cadence \<Rightarrow> int \<Rightarrow> int" where
  "next_day c n = (if c = Monthly_cadence
     then let f = make_day (year_of_day n) (month_of_day n + 1) 1
       in f + min (date_of_day n) (days_in_month (year_of_day f) (month_of_day f)) - 1
     else n + cadence_days c)"

lemma next_month_first:
  "make_day (year_of_day n) (month_of_day n + 1) 1 =
   n + (days_in_month (year_of_day n) (month_of_day n) - date_of_day n) + 1"
  using make_day_add [of "year_of_day n" "month_of_day n + 1" 0 1]
    make_day_last [OF month_of_day_range, of "year_of_day n"]
    make_day_add [of "year_of_day n" "month_of_day n" "date_of_day n"
      "days_in_month (year_of_day n) (month_of_day n) - date_of_day n"]
    make_day_fields [of n] by simp

lemma next_day_bounds: "n < next_day c n" "next_day c n \<le> n + 365"
proof -
  let ?f = "make_day (year_of_day n) (month_of_day n + 1) 1"
  have d: "1 \<le> date_of_day n" "date_of_day n \<le> days_in_month (year_of_day n) (month_of_day n)"
    using fields_valid [of n] by (auto simp: valid_date_def)
  have l: "28 \<le> days_in_month (year_of_day ?f) (month_of_day ?f)"
    using days_in_month_bounds [OF month_of_day_range] by simp
  have u: "days_in_month (year_of_day n) (month_of_day n) \<le> 31"
    using days_in_month_bounds [OF month_of_day_range] by simp
  have "n < next_day c n \<and> next_day c n \<le> n + 365"
    using d l u next_month_first [of n]
    by (cases c) (auto simp: next_day_def cadence_days_def Let_def)
  then show "n < next_day c n" "next_day c n \<le> n + 365" by auto
qed

lemma plain_last: "1000 \<le> y \<Longrightarrow> 0 \<le> m \<Longrightarrow> m < 12 \<Longrightarrow>
    date_of_day (new_date y (m + 1) 0) = days_in_month y m"
  using last_day_fields(3) [of m y] by (simp add: new_date_def)

lemma next_charge_day:
  assumes "fromDateKey key = Some n" "early_day n"
  shows "next_charge c key = day_key (next_day c n)" "plain_day (next_day c n)"
proof -
  show p: "plain_day (next_day c n)"
    using early_ahead [OF assms(2), of "next_day c n - n"] next_day_bounds [where n = n and c = c] by simp
  show "next_charge c key = day_key (next_day c n)"
  proof (cases "c = Monthly_cadence")
    case False
    then show ?thesis using p assms(1)
      by (simp add: next_charge_def addDays_def next_day_def toDateKey_date_plain)
  next
    case True
    let ?f = "make_day (year_of_day n) (month_of_day n + 1) 1"
    have "year_of_day n \<le> year_of_day ?f"
      using fields_valid [of n] next_month_first [of n]
      by (intro year_of_day_mono) (auto simp: valid_date_def)
    then have y: "1000 \<le> year_of_day ?f" using assms(2) by (simp add: early_day_def)
    have fd: "date_of_day ?f = 1"
      using fields_make_day(3) [OF valid_first, of "(month_of_day n + 1) mod 12"
        "year_of_day n + (month_of_day n + 1) div 12"]
        make_day_month_norm [of "year_of_day n" "month_of_day n + 1" 1] by simp
    have "make_day (year_of_day ?f) (month_of_day ?f) x = ?f + x - 1" for x
      using make_day_add [of "year_of_day ?f" "month_of_day ?f" 1 "x - 1"] make_day_fields [of ?f] fd
      by simp
    then have "next_charge c key = toDateKey_date (next_day c n)"
      using True assms(1) plain_last [OF y month_of_day_range]
      by (simp add: next_charge_def addMonthsClamped_def next_day_def Let_def)
    then show ?thesis using p by (simp add: toDateKey_date_plain)
  qed
qed

lemma advance_returns:
  assumes "plain_day n" "early_day t"
  shows "\<exists>k. advance c (day_key n) (day_key t) = Some (day_key k) \<and> t < k \<and> n \<le> k \<and> plain_day k"
  using assms(1)
proof (induction "nat (t - n + 1)" arbitrary: n rule: less_induct)
  case less
  have le: "day_key n \<le> day_key t \<longleftrightarrow> n \<le> t"
    using less.prems assms(2) by (intro day_key_le_iff) (simp_all add: plain_four_digit early_plain)
  show ?case
  proof (cases "n \<le> t")
    case False
    then show ?thesis using le less.prems by (subst advance.simps) auto
  next
    case True
    then have e: "early_day n"
      using less.prems assms(2) year_of_day_mono [of n t] by (simp add: early_day_def plain_day_def)
    note nx = next_charge_day [OF fromDateKey_day_key [OF less.prems] e, of c]
    have "n < next_day c n" by (rule next_day_bounds)
    then have "nat (t - next_day c n + 1) < nat (t - n + 1)" using True by linarith
    from less.hyps [OF this nx(2)] obtain k where
      "advance c (day_key (next_day c n)) (day_key t) = Some (day_key k)" "t < k"
      "next_day c n \<le> k" "plain_day k" by blast
    then show ?thesis using True le nx(1) \<open>n < next_day c n\<close>
      by (subst advance.simps) auto
  qed
qed

section \<open>Extremes, strides, groups\<close>

definition finite_values :: "NetWorthPoint list \<Rightarrow> rat list" where
  "finite_values series = map (\<lambda>p. fin_or_zero (js_Number (nw_value p)))
     (filter (\<lambda>p. isFinite (js_Number (nw_value p))) series)"

lemma track_extremes_finite:
  "js_Number (nw_value p) = Fin v \<Longrightarrow> track_extremes acc p =
     ((case fst acc of None \<Rightarrow> Some v | Some mn \<Rightarrow> Some (min v mn)),
      (case snd acc of None \<Rightarrow> Some v | Some mx \<Rightarrow> Some (max v mx)))"
  by (auto simp: track_extremes_def min_def max_def split: option.splits)

lemma track_extremes_other: "\<not> isFinite (js_Number (nw_value p)) \<Longrightarrow> track_extremes acc p = acc"
  by (auto simp: track_extremes_def isFinite_def split: jsnum.splits)

lemma extremes_snoc:
  "foldl track_extremes (None, None) series =
   (if finite_values series = [] then (None, None)
    else (Some (Min (set (finite_values series))), Some (Max (set (finite_values series)))))"
proof (induction series rule: rev_induct)
  case Nil
  then show ?case by (simp add: finite_values_def)
next
  case (snoc p ps)
  show ?case
  proof (cases "js_Number (nw_value p)")
    case (Fin v)
    then have "finite_values (ps @ [p]) = finite_values ps @ [v]"
      by (simp add: finite_values_def fin_or_zero_def)
    then show ?thesis
      using snoc Fin by (simp add: track_extremes_finite)
  qed (use snoc in \<open>simp_all add: track_extremes_other finite_values_def\<close>)
qed

lemma every_subset: "set (every s xs) \<subseteq> set xs"
proof (induction s xs rule: every.induct)
  case (2 stride x xs)
  then show ?case using set_drop_subset [of "stride - 1" xs] by auto
qed simp

lemma every_length: "0 < s \<Longrightarrow> s * length (every s xs) < length xs + s"
proof (induction s xs rule: every.induct)
  case (2 stride x xs)
  then have "stride * length (every stride (drop (stride - 1) xs)) < length (drop (stride - 1) xs) + stride"
    by simp
  moreover have "length (drop (stride - 1) xs) + stride \<le> max stride (length xs + 1)"
    using 2(2) by simp
  ultimately show ?case using 2(2) by (cases "length xs < stride") (auto simp: algebra_simps)
qed simp

lemma change_indices_iff:
  "i \<in> set (change_indices series) \<longleftrightarrow> 1 \<le> i \<and> i < length series \<and>
     isFinite (value_or_zero (series ! (i - 1))) \<and> isFinite (value_or_zero (series ! i)) \<and>
     value_or_zero (series ! i) \<noteq> value_or_zero (series ! (i - 1))"
  by (auto simp: change_indices_def Let_def)

lemma group_step_members:
  assumes "\<forall>g\<in>set (map snd groups). set (cg_transactions g) \<subseteq> S" "t \<in> S"
  shows "\<forall>g\<in>set (map snd (group_step groups t)). set (cg_transactions g) \<subseteq> S"
proof -
  have "x \<in> S" if "map_get groups k = Some v" "x \<in> set (cg_transactions v)" for k v x
    using map_get_in [OF that(1)] that(2) assms(1) by blast
  then show ?thesis
    using assms unfolding group_step_def Let_def
    by (auto split: option.split dest!: vals_map_set simp del: set_map)
qed

lemma groups_members:
  "\<forall>g\<in>set (map snd (groupChargeTransactions ts)). set (cg_transactions g) \<subseteq> set ts"
proof -
  have gen: "set xs \<subseteq> S \<Longrightarrow> \<forall>g\<in>set (map snd acc). set (cg_transactions g) \<subseteq> S \<Longrightarrow>
    \<forall>g\<in>set (map snd (foldl group_step acc xs)). set (cg_transactions g) \<subseteq> S" for acc xs S
  proof (induction xs arbitrary: acc)
    case Nil
    then show ?case by (simp only: foldl.simps)
  next
    case (Cons x xs)
    have "x \<in> S" "set xs \<subseteq> S" using Cons.prems(1) by simp_all
    then show ?case unfolding foldl.simps
      by (intro Cons.IH group_step_members Cons.prems(2))
  qed
  show ?thesis unfolding groupChargeTransactions_def
    by (rule gen [OF order_refl]) simp
qed

lemma collect_returns:
  "(\<And>x. x \<in> set xs \<Longrightarrow> \<exists>r. f x = Some r \<and> (\<forall>p. r = Some p \<longrightarrow> P p)) \<Longrightarrow>
   \<exists>ys. collect f xs = Some ys \<and> (\<forall>p\<in>set ys. P p)"
proof (induction xs)
  case (Cons x xs)
  obtain ys where ys: "collect f xs = Some ys" "\<forall>p\<in>set ys. P p" using Cons by auto
  obtain r where "f x = Some r" "\<forall>p. r = Some p \<longrightarrow> P p" using Cons.prems [of x] by auto
  then show ?case using ys by (cases r) auto
qed simp

section \<open>Predictions\<close>

definition charge_dates_ok :: "date_env \<Rightarrow> ChargeTransaction list \<Rightarrow> bool" where
  "charge_dates_ok e ts \<longleftrightarrow> (\<forall>t\<in>set ts. toDateKey e (ct_date t) = [] \<or>
     (\<exists>n. fromDateKey (toDateKey e (ct_date t)) = Some n \<and> early_day n))"

text \<open>Local midnights are a whole number of days apart, up to less than half a day.\<close>

definition zone_steady :: "date_env \<Rightarrow> bool" where
  "zone_steady e \<longleftrightarrow> (\<forall>m n. 2 * \<bar>de_midnight e n - de_midnight e m - (n - m) * ms_per_day\<bar> < ms_per_day)"

lemma js_round_near:
  assumes "2 * \<bar>d - k * ms_per_day\<bar> < ms_per_day"
  shows "js_round (of_int d / of_int ms_per_day) = k"
proof -
  define x :: rat where "x = of_int d / of_int ms_per_day"
  have "of_int (2 * \<bar>d - k * ms_per_day\<bar>) < (of_int ms_per_day :: rat)"
    using assms by (simp only: of_int_less_iff)
  then have "\<bar>x - of_int k\<bar> < 1 / 2"
    by (simp add: x_def abs_if field_simps split: if_splits)
  then have "x - of_int k < 1 / 2" "- (x - of_int k) < 1 / 2"
    unfolding abs_less_iff by blast+
  then have "js_round x = k" unfolding js_round_def by (intro floor_unique) linarith+
  then show ?thesis by (simp add: x_def)
qed

lemma midnights_apart:
  "zone_steady e \<Longrightarrow> js_round (of_int (de_midnight e n - de_midnight e m) / of_int ms_per_day) = n - m"
  by (rule js_round_near) (simp add: zone_steady_def)

lemma daysBetween_exact:
  "zone_steady e \<Longrightarrow> plain_day m \<Longrightarrow> plain_day n \<Longrightarrow> daysBetween e (day_key m) (day_key n) = Some (n - m)"
  using midnights_apart [of e n m] by (simp add: daysBetween_def fromDateKey_day_key)

definition prediction_ok :: "date_env \<Rightarrow> int \<Rightarrow> int \<Rightarrow> UpcomingChargePrediction \<Rightarrow> bool" where
  "prediction_ok e today h p \<longleftrightarrow> (\<exists>k. up_nextDate p = day_key k \<and> today < k \<and> k \<le> today + h \<and>
     up_daysUntil p = Some (k - today)) \<and> 1 \<le> up_amount p \<and> 2 \<le> up_occurrenceCount p"

lemma predict_group_returns:
  assumes e: "zone_steady e" and t: "early_day today" and h: "0 \<le> h" "h \<le> 365"
    and g: "charge_dates_ok e (cg_transactions g)"
  shows "\<exists>r. predict_group e (day_key today) (day_key (today + h)) g = Some r \<and>
    (\<forall>p. r = Some p \<longrightarrow> prediction_ok e today h p)"
proof -
  define xs where "xs = js_sort (up_by (\<lambda>t. toDateKey e (ct_date t)))
    (filter (\<lambda>t. toDateKey e (ct_date t) \<noteq> []) (cg_transactions g))"
  have adv: "\<exists>k. advance c (next_charge c (toDateKey e (ct_date (last xs)))) (day_key today) = Some (day_key k)
      \<and> today < k \<and> plain_day k" if "xs \<noteq> []" for c
  proof -
    have "last xs \<in> set xs" using that by simp
    then obtain n where n: "fromDateKey (toDateKey e (ct_date (last xs))) = Some n" "early_day n"
      using g by (auto simp: xs_def charge_dates_ok_def)
    show ?thesis
      using next_charge_day [OF n, of c] advance_returns [OF _ t, of "next_day c n" c] by auto
  qed
  have hz: "plain_day (today + h)" using early_ahead [OF t h] .
  show ?thesis
    unfolding predict_group_def xs_def [symmetric] Let_def
  proof (cases "length xs < 2 \<or> getIntervals e xs = []", goal_cases)
    case 1
    then show ?case by simp
  next
    case 2
    show ?case
    proof (cases "matchCadence (median (map of_int (getIntervals e xs)))")
      case None
      then show ?thesis using 2 by simp
    next
      case (Some c)
      obtain k where k: "advance c (next_charge c (toDateKey e (ct_date (last xs)))) (day_key today) =
          Some (day_key k)" "today < k" "plain_day k"
        using adv [of c] 2 by fastforce
      have "\<not> day_key (today + h) < day_key k \<Longrightarrow> k \<le> today + h"
        using day_key_less_iff [OF plain_four_digit [OF hz] plain_four_digit [OF k(3)]] by simp
      then show ?thesis
        using 2 Some k daysBetween_exact [OF e early_plain [OF t] k(3)]
        by (auto simp: prediction_ok_def)
    qed
  qed
qed

lemma prediction_le_key:
  "prediction_ok e t h a \<Longrightarrow> prediction_ok e t h b \<Longrightarrow>
   prediction_le a b = up_by (\<lambda>p. (the (up_daysUntil p), - up_amount p)) a b"
  by (auto simp: prediction_ok_def prediction_le_def up_by_def)

lemma predictions_ok:
  assumes "zone_steady e" and "early_day today" and "0 \<le> h" and "h \<le> 365" and "charge_dates_ok e ts"
  shows "\<exists>ys. predictUpcomingCharges e ts today h = Some (take 8 (js_sort prediction_le ys)) \<and>
    (\<forall>p\<in>set ys. prediction_ok e today h p)"
proof (cases "ts = []")
  case False
  let ?f = "predict_group e (day_key today) (day_key (today + h))"
  have keys: "toDateKey_date today = day_key today" "addDays (day_key today) h = day_key (today + h)"
    using early_plain [OF assms(2)] early_ahead [OF assms(2-4)]
    by (simp_all add: toDateKey_date_plain addDays_def fromDateKey_day_key)
  have "\<exists>r. ?f g = Some r \<and> (\<forall>p. r = Some p \<longrightarrow> prediction_ok e today h p)"
    if "g \<in> set (map snd (groupChargeTransactions ts))" for g
  proof -
    have "set (cg_transactions g) \<subseteq> set ts" using groups_members [of ts] that by blast
    then have "charge_dates_ok e (cg_transactions g)"
      using assms(5) unfolding charge_dates_ok_def by blast
    then show ?thesis by (rule predict_group_returns [OF assms(1-4)])
  qed
  then obtain ys where "collect ?f (map snd (groupChargeTransactions ts)) = Some ys"
      "\<forall>p\<in>set ys. prediction_ok e today h p"
    using collect_returns [of "map snd (groupChargeTransactions ts)" ?f "prediction_ok e today h"]
    by blast
  then show ?thesis using False by (auto simp: predictUpcomingCharges_def keys)
qed (auto simp: predictUpcomingCharges_def intro: exI [of _ "[]"])

section \<open>Properties\<close>

text \<open>
  The chart's vertical range exists exactly when some point has a finite value; it then holds
  every such value with a margin of at least 500 on both sides.
\<close>

theorem calculateNetYAxisDomain_covers:
  "(calculateNetYAxisDomain series = None \<longleftrightarrow> finite_values series = []) \<and>
   (\<forall>lo hi v. calculateNetYAxisDomain series = Some (lo, hi) \<longrightarrow> v \<in> set (finite_values series) \<longrightarrow>
      lo + 500 \<le> v \<and> v + 500 \<le> hi)"
proof (cases "finite_values series = []")
  case True
  then show ?thesis by (simp add: calculateNetYAxisDomain_def extremes_snoc)
next
  case False
  define S where "S = set (finite_values series)"
  define p where "p = (if Min S = Max S then max (\<bar>Max S\<bar> * (1 / 10)) 500
    else max (\<bar>Max S - Min S\<bar> * (8 / 100)) 500)"
  have "calculateNetYAxisDomain series = Some (Min S - p, Max S + p)"
    using False by (simp add: calculateNetYAxisDomain_def extremes_snoc Let_def p_def S_def)
  moreover have "500 \<le> p" by (simp add: p_def)
  moreover have "Min S \<le> v \<and> v \<le> Max S" if "v \<in> S" for v
    using that by (simp add: S_def)
  ultimately have "calculateNetYAxisDomain series \<noteq> None \<and>
      (\<forall>lo hi v. calculateNetYAxisDomain series = Some (lo, hi) \<longrightarrow> v \<in> S \<longrightarrow>
        lo + 500 \<le> v \<and> v + 500 \<le> hi)"
    by fastforce
  then show ?thesis using False by (simp add: S_def)
qed

theorem calculateNetYAxisDomain_covers_witness:
  "calculateNetYAxisDomain [\<lparr>nw_date = ''a'', nw_value = JNum (Fin 100)\<rparr>,
     \<lparr>nw_date = ''b'', nw_value = JNum NaN\<rparr>] \<noteq> None"
  using calculateNetYAxisDomain_covers [of "[\<lparr>nw_date = ''a'', nw_value = JNum (Fin 100)\<rparr>,
     \<lparr>nw_date = ''b'', nw_value = JNum NaN\<rparr>]"]
  by (simp add: finite_values_def)

text \<open>
  The marked points of the chart are distinct, at most 31, each of them a point whose value
  differs from its predecessor's, and the last change is always marked.
\<close>

theorem calculateNetDotIndices_bounded:
  "distinct (calculateNetDotIndices series) \<and> length (calculateNetDotIndices series) \<le> 31 \<and>
   set (calculateNetDotIndices series) \<subseteq> set (change_indices series) \<and>
   (change_indices series = [] \<or>
    last (change_indices series) \<in> set (calculateNetDotIndices series))"
proof (cases "change_indices series = []")
  case True
  then show ?thesis by (simp add: calculateNetDotIndices_def)
next
  case False
  define xs where "xs = change_indices series"
  define s where "s = max 1 (nat \<lceil>(of_nat (length xs) / of_nat 30 :: rat)\<rceil>)"
  have eq: "calculateNetDotIndices series = set_add (last xs) (set_of_list (every s xs))"
    using False by (simp add: calculateNetDotIndices_def xs_def s_def Let_def)
  have "of_nat (length xs) \<le> (30 * of_nat s :: rat)"
  proof -
    have "(of_nat (length xs) / 30 :: rat) \<le> of_int \<lceil>(of_nat (length xs) / 30 :: rat)\<rceil>"
      by (rule le_of_int_ceiling)
    also have "\<dots> \<le> of_nat s" unfolding s_def by (simp add: of_nat_nat)
    finally show ?thesis by simp
  qed
  then have "length xs \<le> 30 * s" by (metis of_nat_le_iff of_nat_mult of_nat_numeral)
  moreover have s: "0 < s" by (simp add: s_def)
  ultimately have "s * length (every s xs) < s * 31"
    using every_length [OF s, of xs] by linarith
  then have "length (every s xs) \<le> 30" by simp
  moreover have "length (set_of_list (every s xs)) \<le> length (every s xs)"
    by (metis card_length distinct_card distinct_set_of_list set_set_of_list)
  ultimately have "length (calculateNetDotIndices series) \<le> 31"
    unfolding eq by (auto simp: set_add_def)
  moreover have "last xs \<in> set xs" using False by (simp add: xs_def)
  ultimately show ?thesis
    unfolding eq using every_subset [of s xs] by (auto simp: xs_def [symmetric])
qed

text \<open>
  C1. Predicting upcoming charges returns: the loop that moves a predicted date past today ends
  for every history whose dates are calendar days with four-digit years. The predictions are at
  most eight, in the order of their days and then of falling amounts; each of them falls after
  today and within the horizon, on a day exactly as far away as stated, rests on at least two
  charges and has an amount of at least 1.
\<close>

theorem predictUpcomingCharges_returns:
  assumes "zone_steady e" and "early_day today" and "0 \<le> h" and "h \<le> 365"
    and "charge_dates_ok e ts"
  shows "\<exists>ps. predictUpcomingCharges e ts today h = Some ps \<and> length ps \<le> 8 \<and>
    (\<forall>p\<in>set ps. prediction_ok e today h p) \<and>
    sorted (map (\<lambda>p. (the (up_daysUntil p), - up_amount p)) ps)"
proof -
  let ?k = "\<lambda>p. (the (up_daysUntil p), - up_amount p)"
  obtain ys where ys: "predictUpcomingCharges e ts today h = Some (take 8 (js_sort prediction_le ys))"
      "\<forall>p\<in>set ys. prediction_ok e today h p"
    using predictions_ok [OF assms] by blast
  have sort: "js_sort prediction_le ys = js_sort (up_by ?k) ys"
    using ys(2) by (intro js_sort_cong prediction_le_key) auto
  have "sorted (map ?k (take 8 (js_sort (up_by ?k) ys)))"
    using up.take_js_sort_sorted [of ?k 8 ys] by (simp add: up_by_def [abs_def] sorted_map)
  moreover have "set (take 8 (js_sort (up_by ?k) ys)) \<subseteq> set ys"
    using set_take_subset [of 8 "js_sort (up_by ?k) ys"] by simp
  ultimately show ?thesis using ys by (auto simp: sort)
qed

definition sample_charge :: "jstring \<Rightarrow> rat \<Rightarrow> ChargeTransaction" where
  "sample_charge day amt = \<lparr>ct_account_id = None, ct_account_type = Some ''depository'',
     ct_amount = JNum (Fin amt), ct_date = day, ct_merchant = Some ''Gym'', ct_name = None,
     ct_provider = None\<rparr>"

theorem predictUpcomingCharges_returns_witness:
  "\<exists>ps. predictUpcomingCharges utc_env [sample_charge (day_key 19750) 30,
       sample_charge (day_key 19780) 30] 19790 45 = Some ps \<and> length ps \<le> 8"
proof -
  have y: "year_of_day 19750 = 2024" "year_of_day 19780 = 2024" "year_of_day 19790 = 2024"
    by code_simp+
  then have d: "early_day 19750" "early_day 19780" "early_day 19790" by (simp_all add: early_day_def)
  have k: "toDateKey utc_env (day_key n) = day_key n" if "early_day n" for n
    using date_only_day_key [OF plain_four_digit [OF early_plain [OF that]]]
    by (simp add: toDateKey_def)
  have "charge_dates_ok utc_env [sample_charge (day_key 19750) 30, sample_charge (day_key 19780) 30]"
    using d k fromDateKey_day_key early_plain by (auto simp: charge_dates_ok_def sample_charge_def)
  moreover have "zone_steady utc_env" by (simp add: zone_steady_def utc_env_def algebra_simps)
  ultimately show ?thesis
    using predictUpcomingCharges_returns [of utc_env 19790 45] d by fastforce
qed

text \<open>
  A monthly charge moves to the next calendar month, on the same day of the month or on the last
  day of a shorter month, and never back up: from the 31st of January the next dates are the 29th
  of February and then the 29th of March.
\<close>

theorem next_charge_monthly:
  assumes "early_day n"
  shows "\<exists>k. next_charge Monthly_cadence (day_key n) = day_key k \<and>
    month_index k = month_index n + 1 \<and>
    date_of_day k = min (date_of_day n) (days_in_month (year_of_day k) (month_of_day k))"
proof -
  let ?f = "make_day (year_of_day n) (month_of_day n + 1) 1"
  let ?y = "year_of_day n + (month_of_day n + 1) div 12" and ?m = "(month_of_day n + 1) mod 12"
  have m: "0 \<le> ?m" "?m < 12" by simp_all
  have ff: "year_of_day ?f = ?y" "month_of_day ?f = ?m"
    using fields_make_day [OF valid_first [OF m]] make_day_month_norm [of _ _ 1] by metis+
  let ?d = "min (date_of_day n) (days_in_month ?y ?m)"
  have "1 \<le> date_of_day n" using fields_valid [of n] by (simp add: valid_date_def)
  then have v: "valid_date ?y ?m ?d" using m days_in_month_bounds [OF m, of ?y] by (simp add: valid_date_def)
  have "next_day Monthly_cadence n = make_day ?y ?m ?d"
    using make_day_add [of ?y ?m 1 "?d - 1"]
    unfolding next_day_def Let_def ff make_day_month_norm [of "year_of_day n" "month_of_day n + 1" 1]
    by (simp add: fields_make_day [OF valid_first [OF m]])
  then have 1: "next_charge Monthly_cadence (day_key n) = day_key (make_day ?y ?m ?d)"
    using next_charge_day(1) [OF fromDateKey_day_key [OF early_plain [OF assms]] assms, of Monthly_cadence]
    by (simp only:)
  have 2: "month_index (make_day ?y ?m ?d) = month_index n + 1"
    unfolding month_index_def [of "make_day ?y ?m ?d"] fields_make_day [OF v]
    by (simp add: month_index_def)
  show ?thesis
    by (rule exI [of _ "make_day ?y ?m ?d"]) (simp only: 1 2 fields_make_day [OF v] simp_thms)
qed

theorem next_charge_monthly_witness:
  "\<exists>k. next_charge Monthly_cadence (day_key 19753) = day_key k \<and>
     month_index k = month_index 19753 + 1"
proof -
  have "year_of_day 19753 = 2024" by code_simp
  then show ?thesis using next_charge_monthly [of 19753] by (auto simp: early_day_def)
qed

end
