(* ===== verification/Sankey_Calculator.thy ===== *)
theory Sankey_Calculator
  imports Transaction_Amounts
begin

text \<open>
  The cash-flow diagram (\<^verbatim>\<open>domain/SankeyCalculator.ts\<close>): one pass over the transactions
  accumulates income by source and spending by category and subcategory; the statistics and the
  nodes and links of the diagram are computed from the accumulators. The diagram is a state of
  nodes, links and the index of node ids, threaded through the additions in the order of the code.
  An infinite amount, which a JSON number cannot denote, is not modelled: such a transaction
  counts as zero.
\<close>

section \<open>Colours and minor subcategories\<close>

definition CATEGORY_COLORS :: "(jstring, jstring) js_map" where
  "CATEGORY_COLORS = [
     (''earned income'', ''#10b981''), (''income'', ''#10b981''), (''paycheck'', ''#059669''),
     (''salary'', ''#059669''), (''bonus'', ''#34d399''), (''net savings'', ''#10b981''),
     (''from savings'', ''#f59e0b''), (''total income'', ''#0d9488''),
     (''total spending'', ''#64748b''), (''bills & utilities'', ''#0284c7''),
     (''food & dining'', ''#f43f5e''), (''groceries'', ''#84cc16''),
     (''home management'', ''#6366f1''), (''home improvement'', ''#06b6d4''),
     (''shopping'', ''#8b5cf6''), (''transportation'', ''#f97316''), (''medical'', ''#ec4899''),
     (''education'', ''#14b8a6''), (''entertainment'', ''#3b82f6''),
     (''childcare'', ''#d946ef''), (''insurance'', ''#0284c7''), (''pets'', ''#eab308''),
     (''gifts & donations'', ''#e11d48''), (''travel'', ''#0ea5e9''), (''other'', ''#64748b''),
     (''uncategorized'', ''#94a3b8'')]"

definition PALETTE :: "jstring list" where
  "PALETTE = [''#0ea5e9'', ''#8b5cf6'', ''#10b981'', ''#f59e0b'', ''#f43f5e'', ''#06b6d4'',
     ''#6366f1'', ''#84cc16'', ''#ec4899'', ''#d946ef'', ''#3b82f6'']"

definition getCategoryColor :: "jstring \<Rightarrow> nat \<Rightarrow> jstring" where
  "getCategoryColor categoryName index =
     (let nrm = toLowerCase (trim categoryName) in
      case map_get CATEGORY_COLORS nrm of Some color \<Rightarrow> color
      | None \<Rightarrow> (case List.find (\<lambda>p. str_includes nrm (fst p)) CATEGORY_COLORS of
          Some p \<Rightarrow> snd p
        | None \<Rightarrow> PALETTE ! (index mod length PALETTE)))"

definition is_minor :: "rat \<Rightarrow> rat \<Rightarrow> rat \<Rightarrow> jstring \<times> rat \<Rightarrow> bool" where
  "is_minor categoryTotal thresholdAmount thresholdPct sub \<longleftrightarrow> snd sub < thresholdAmount \<and>
     (if 0 < categoryTotal then snd sub / categoryTotal < thresholdPct else True)"

fun split_minor :: "(jstring \<times> rat \<Rightarrow> bool) \<Rightarrow> (jstring \<times> rat) list \<times> rat \<times> nat
    \<Rightarrow> jstring \<times> rat \<Rightarrow> (jstring \<times> rat) list \<times> rat \<times> nat" where
  "split_minor minor (primary, otherTotal, minorCount) sub =
     (if minor sub then (primary, otherTotal + snd sub, minorCount + 1)
      else (primary @ [sub], otherTotal, minorCount))"

definition groupMinorSubcategories :: "(jstring \<times> rat) list \<Rightarrow> rat \<Rightarrow> (jstring \<times> rat) list" where
  "groupMinorSubcategories subs categoryTotal =
     (if length subs \<le> 3 then subs
      else let (primary, otherTotal, minorCount) =
             foldl (split_minor (is_minor categoryTotal 30 (5 / 100))) ([], 0, 0) subs
        in if 2 \<le> minorCount \<and> 0 < otherTotal
           then js_sort (down_by snd) (primary @ [(''Other'', round2 otherTotal)])
           else subs)"

section \<open>Accumulating the transactions\<close>

record CategoryFlow =
  cf_total :: rat
  cf_subcategories :: "(jstring, rat) js_map"

record SankeyAcc =
  sa_inflowBySource :: "(jstring, rat) js_map"
  sa_outflowByCategory :: "(jstring, CategoryFlow) js_map"
  sa_totalInflow :: rat
  sa_totalOutflow :: rat
  sa_inflowCount :: nat
  sa_outflowCount :: nat

definition raw_category :: "Transaction \<Rightarrow> jstring" where
  "raw_category t = default_to (coalesce (tx_custom_category t)
     (coalesce (tx_rule_category t) (category_primary t))) []"

definition is_transfer :: "Transaction \<Rightarrow> bool" where
  "is_transfer t \<longleftrightarrow>
     toLowerCase (resolveMajorCategory (Some (raw_category t)) []) = ''transfer'' \<or>
     (truthy (category_detailed t) \<and>
      (str_includes (toLowerCase (the (category_detailed t))) ''credit card payment'' \<or>
       str_includes (toLowerCase (the (category_detailed t))) ''cash spending transfer''))"

definition is_income_category :: "Transaction \<Rightarrow> bool" where
  "is_income_category t \<longleftrightarrow>
     (let major = toLowerCase (resolveMajorCategory (Some (raw_category t)) []);
          raw = toLowerCase (raw_category t)
      in major = ''earned income'' \<or> major = ''tax refund'' \<or> str_includes raw ''income'' \<or>
         str_includes raw ''paycheck'' \<or> str_includes raw ''salary'' \<or> str_includes raw ''bonus'')"

definition is_depository_inflow :: "Transaction \<Rightarrow> bool" where
  "is_depository_inflow t \<longleftrightarrow>
     toLowerCase (tx_account_type t) \<in> set [''depository'', ''checking'', ''savings''] \<and>
     0 < getDisplayAmount t \<and> \<not> isSpendingTransaction t"

definition inflow_amount :: "Transaction \<Rightarrow> rat" where
  "inflow_amount t = \<bar>if 0 < getDisplayAmount t then getDisplayAmount t
     else fin_or_zero (js_Number (tx_amount t))\<bar>"

definition inflow_source :: "Transaction \<Rightarrow> jstring" where
  "inflow_source t =
     (let rawDetailed = coalesce (tx_custom_subcategory t)
            (coalesce (tx_rule_subcategory t) (category_detailed t))
      in formatCategoryName (Some
           (if truthy rawDetailed \<and> toLowerCase (the rawDetailed) \<noteq> ''other'' then the rawDetailed
            else str_or (Some (raw_category t)) ''Paycheck'')))"

definition is_generic_sub :: "jstring \<Rightarrow> jstring \<Rightarrow> bool" where
  "is_generic_sub catKey subRaw \<longleftrightarrow>
     (let s = toLowerCase (trim subRaw) in
      subRaw = [] \<or> s = ''other'' \<or> s = ''general'' \<or> s = ''uncategorized'' \<or>
      s = toLowerCase (trim catKey) \<or> startsWith s ''other '' \<or> startsWith s ''general '')"

definition outflow_sub :: "Transaction \<Rightarrow> jstring" where
  "outflow_sub t =
     (let catKey = resolveMajorCategory (Some (raw_category t)) [];
          subRaw = default_to (coalesce (tx_custom_subcategory t)
            (coalesce (tx_rule_subcategory t) (category_detailed t))) (raw_category t)
      in formatCategoryName (Some (if is_generic_sub catKey subRaw then catKey else subRaw)))"

definition add_flow :: "jstring \<Rightarrow> jstring \<Rightarrow> rat \<Rightarrow> (jstring, CategoryFlow) js_map
    \<Rightarrow> (jstring, CategoryFlow) js_map" where
  "add_flow catKey subName netSpend m =
     (let m' = (if map_get m catKey = None
            then map_set catKey \<lparr>cf_total = 0, cf_subcategories = []\<rparr> m else m);
          catEntry = default_to (map_get m' catKey) \<lparr>cf_total = 0, cf_subcategories = []\<rparr>
      in map_set catKey \<lparr>cf_total = cf_total catEntry + netSpend,
           cf_subcategories = map_add subName netSpend (cf_subcategories catEntry)\<rparr> m')"

definition sankey_step :: "SankeyAcc \<Rightarrow> Transaction \<Rightarrow> SankeyAcc" where
  "sankey_step a t =
     (if tx_pending t = Some True then a
      else if is_transfer t then a
      else if (is_income_category t \<or> is_depository_inflow t) \<and> 0 < inflow_amount t then
        a\<lparr>sa_inflowBySource := map_add (inflow_source t) (inflow_amount t) (sa_inflowBySource a),
          sa_totalInflow := sa_totalInflow a + inflow_amount t,
          sa_inflowCount := sa_inflowCount a + 1\<rparr>
      else if isSpendingTransaction t \<and> 0 < getNetSpendingAmount t then
        a\<lparr>sa_outflowByCategory := add_flow (resolveMajorCategory (Some (raw_category t)) [])
            (outflow_sub t) (getNetSpendingAmount t) (sa_outflowByCategory a),
          sa_totalOutflow := sa_totalOutflow a + getNetSpendingAmount t,
          sa_outflowCount := sa_outflowCount a + 1\<rparr>
      else a)"

definition sankey_accumulate :: "Transaction list \<Rightarrow> SankeyAcc" where
  "sankey_accumulate transactions = foldl sankey_step
     \<lparr>sa_inflowBySource = [], sa_outflowByCategory = [], sa_totalInflow = 0, sa_totalOutflow = 0,
      sa_inflowCount = 0, sa_outflowCount = 0\<rparr> transactions"

section \<open>Statistics\<close>

record TopExpense =
  te_name :: jstring
  te_amount :: rat
  te_percentage :: int

record SankeyStats =
  ss_totalInflow :: rat
  ss_totalOutflow :: rat
  ss_netSavings :: rat
  ss_savingsRate :: rat
  ss_topExpenseCategory :: "TopExpense option"
  ss_inflowCount :: nat
  ss_outflowCount :: nat

definition share :: "rat \<Rightarrow> rat \<Rightarrow> int" where
  "share part whole = (if 0 < whole then js_round (part / whole * 100) else 0)"

definition top_step :: "rat \<Rightarrow> rat \<times> TopExpense option \<Rightarrow> jstring \<times> CategoryFlow
    \<Rightarrow> rat \<times> TopExpense option" where
  "top_step totalOutflow best entry =
     (if fst best < cf_total (snd entry)
      then (cf_total (snd entry), Some \<lparr>te_name = fst entry,
        te_amount = round2 (cf_total (snd entry)),
        te_percentage = share (cf_total (snd entry)) totalOutflow\<rparr>)
      else best)"

definition sankey_stats :: "SankeyAcc \<Rightarrow> SankeyStats" where
  "sankey_stats a =
     (let totalInflow = round2 (sa_totalInflow a); totalOutflow = round2 (sa_totalOutflow a)
      in \<lparr>ss_totalInflow = totalInflow, ss_totalOutflow = totalOutflow,
          ss_netSavings = round2 (totalInflow - totalOutflow),
          ss_savingsRate = (if 0 < totalInflow
            then of_int (js_round ((totalInflow - totalOutflow) / totalInflow * 1000)) / 10 else 0),
          ss_topExpenseCategory =
            snd (foldl (top_step totalOutflow) (0, None) (sa_outflowByCategory a)),
          ss_inflowCount = sa_inflowCount a, ss_outflowCount = sa_outflowCount a\<rparr>)"

section \<open>The diagram\<close>

datatype NodeKind = Inflow | Outflow | Hub | Savings_node | Deficit | Subcategory_node

record SankeyNode =
  sn_id :: jstring
  sn_name :: jstring
  sn_formattedName :: jstring
  sn_amount :: rat
  sn_color :: jstring
  sn_categoryType :: NodeKind
  sn_percentage :: "rat option"

record SankeyLink =
  sl_source :: nat
  sl_target :: nat
  sl_value :: rat
  sl_sourceId :: jstring
  sl_targetId :: jstring
  sl_sourceName :: jstring
  sl_targetName :: jstring
  sl_color :: jstring

record Diagram =
  dg_nodes :: "SankeyNode list"
  dg_links :: "SankeyLink list"
  dg_index :: "(jstring, nat) js_map"

definition addNode :: "jstring \<Rightarrow> jstring \<Rightarrow> rat \<Rightarrow> jstring \<Rightarrow> NodeKind \<Rightarrow> rat option
    \<Rightarrow> Diagram \<Rightarrow> Diagram \<times> nat" where
  "addNode i name amount color kind percentage g =
     (case map_get (dg_index g) i of Some k \<Rightarrow> (g, k)
      | None \<Rightarrow>
        let index = length (dg_nodes g) in
        (g\<lparr>dg_index := map_set i index (dg_index g),
           dg_nodes := dg_nodes g @ [\<lparr>sn_id = i, sn_name = name,
             sn_formattedName = formatCategoryName (Some name), sn_amount = round2 amount,
             sn_color = color, sn_categoryType = kind, sn_percentage = percentage\<rparr>]\<rparr>, index))"

definition addLink :: "nat \<Rightarrow> nat \<Rightarrow> rat \<Rightarrow> jstring \<Rightarrow> Diagram \<Rightarrow> Diagram" where
  "addLink sourceIdx targetIdx value color g =
     (let roundedVal = round2 value in
      if roundedVal \<le> 0 then g
      else let sourceNode = dg_nodes g ! sourceIdx; targetNode = dg_nodes g ! targetIdx in
        g\<lparr>dg_links := dg_links g @ [\<lparr>sl_source = sourceIdx, sl_target = targetIdx,
           sl_value = roundedVal, sl_sourceId = sn_id sourceNode, sl_targetId = sn_id targetNode,
           sl_sourceName = sn_name sourceNode, sl_targetName = sn_name targetNode,
           sl_color = (if color = [] then sn_color sourceNode else color)\<rparr>]\<rparr>)"

definition node_color :: "Diagram \<Rightarrow> nat \<Rightarrow> jstring" where
  "node_color g k = sn_color (dg_nodes g ! k)"

definition add_source :: "nat \<Rightarrow> rat \<Rightarrow> Diagram \<Rightarrow> jstring \<times> rat \<Rightarrow> Diagram" where
  "add_source hubIdx totalInflow g src =
     (let (g', srcIdx) = addNode (''inflow_'' @ fst src) (fst src) (snd src)
            (getCategoryColor (fst src) 0) Inflow (Some (of_int (share (snd src) totalInflow))) g
      in addLink srcIdx hubIdx (snd src) (node_color g' srcIdx) g')"

definition add_subcategory :: "jstring \<Rightarrow> rat \<Rightarrow> nat \<Rightarrow> Diagram \<Rightarrow> jstring \<times> rat \<Rightarrow> Diagram" where
  "add_subcategory catName catTotal catIdx g sub =
     (let (g', subIdx) = addNode (''sub_'' @ catName @ ''_'' @ fst sub) (fst sub) (snd sub)
            (node_color g catIdx) Subcategory_node (Some (of_int (share (snd sub) catTotal))) g
      in addLink catIdx subIdx (snd sub) (node_color g' catIdx) g')"

definition add_category :: "bool \<Rightarrow> nat \<Rightarrow> rat \<Rightarrow> Diagram \<Rightarrow> jstring \<times> CategoryFlow \<Rightarrow> Diagram" where
  "add_category includeSub hubIdx totalOutflow g entry =
     (let catName = fst entry; catData = snd entry;
          (g1, catIdx) = addNode (''cat_'' @ catName) catName (cf_total catData)
            (getCategoryColor catName 0) Outflow
            (Some (of_int (share (cf_total catData) totalOutflow))) g;
          g2 = addLink hubIdx catIdx (cf_total catData) (node_color g1 catIdx) g1
      in if includeSub \<and> cf_subcategories catData \<noteq> [] then
           let rawSubs = js_sort (down_by snd) (cf_subcategories catData);
               sortedSubs = groupMinorSubcategories rawSubs (cf_total catData)
           in foldl (add_subcategory catName (cf_total catData) catIdx) g2 sortedSubs
         else g2)"

definition empty_diagram :: Diagram where
  "empty_diagram = \<lparr>dg_nodes = [], dg_links = [], dg_index = []\<rparr>"

definition sorted_categories :: "SankeyAcc \<Rightarrow> (jstring \<times> CategoryFlow) list" where
  "sorted_categories a = js_sort (down_by (\<lambda>c. cf_total (snd c))) (sa_outflowByCategory a)"

definition income_diagram :: "bool \<Rightarrow> SankeyAcc \<Rightarrow> SankeyStats \<Rightarrow> Diagram" where
  "income_diagram includeSub a s =
     (let (g0, hubIdx) = addNode ''hub_total_income'' ''Total Income''
            (max (ss_totalInflow s) (ss_totalOutflow s)) ''#0d9488'' Hub None empty_diagram;
          g1 = foldl (add_source hubIdx (ss_totalInflow s)) g0 (sa_inflowBySource a);
          g2 = (if ss_netSavings s < 0 then
                  let deficitAmt = \<bar>ss_netSavings s\<bar>;
                      (g, defIdx) = addNode ''inflow_from_savings'' ''From Savings'' deficitAmt
                        ''#f59e0b'' Deficit None g1
                  in addLink defIdx hubIdx deficitAmt ''#f59e0b'' g
                else g1);
          g3 = foldl (add_category includeSub hubIdx (ss_totalOutflow s)) g2 (sorted_categories a)
      in if 0 < ss_netSavings s then
           let (g, savIdx) = addNode ''savings_net'' ''Net Savings'' (ss_netSavings s) ''#10b981''
                 Savings_node (Some (ss_savingsRate s)) g3
           in addLink hubIdx savIdx (ss_netSavings s) ''#10b981'' g
         else g3)"

definition spending_diagram :: "bool \<Rightarrow> SankeyAcc \<Rightarrow> SankeyStats \<Rightarrow> Diagram" where
  "spending_diagram includeSub a s =
     (let (g0, hubIdx) = addNode ''hub_total_spending'' ''Total Spending'' (ss_totalOutflow s)
            ''#64748b'' Hub None empty_diagram
      in foldl (add_category includeSub hubIdx (ss_totalOutflow s)) g0 (sorted_categories a))"

record SankeyResult =
  sr_nodes :: "SankeyNode list"
  sr_links :: "SankeyLink list"
  sr_stats :: SankeyStats
  sr_hasData :: bool
  sr_hasIncome :: bool

definition computeSankeyData :: "Transaction list \<Rightarrow> bool \<Rightarrow> SankeyResult" where
  "computeSankeyData transactions includeSub =
     (let a = sankey_accumulate transactions; s = sankey_stats a;
          hasIncome = (0 < ss_totalInflow s)
      in if \<not> (0 < ss_totalInflow s \<or> 0 < ss_totalOutflow s)
         then \<lparr>sr_nodes = [], sr_links = [], sr_stats = s, sr_hasData = False, sr_hasIncome = False\<rparr>
         else let g = (if hasIncome then income_diagram includeSub a s
                       else spending_diagram includeSub a s)
           in \<lparr>sr_nodes = dg_nodes g, sr_links = dg_links g, sr_stats = s, sr_hasData = True,
               sr_hasIncome = hasIncome\<rparr>)"

section \<open>Invariant of the accumulators\<close>

lemma sum_map_set:
  "sum_list (map (\<lambda>p. f (snd p)) (map_set k v m)) =
   sum_list (map (\<lambda>p. f (snd p)) m) + f v - (case map_get m k of None \<Rightarrow> (0 :: rat) | Some w \<Rightarrow> f w)"
  by (induction k v m rule: map_set.induct) (auto simp: map_get_def)

lemma map_set_twice: "map_set k v (map_set k w m) = map_set k v m"
  by (induction k w m rule: map_set.induct) auto

lemma add_flow_eq:
  "add_flow k s x m = map_set k (case map_get m k of
      None \<Rightarrow> \<lparr>cf_total = x, cf_subcategories = map_add s x []\<rparr>
    | Some f \<Rightarrow> \<lparr>cf_total = cf_total f + x, cf_subcategories = map_add s x (cf_subcategories f)\<rparr>) m"
  by (simp add: add_flow_def Let_def map_get_map_set map_set_twice split: option.split)

definition flow_ok :: "CategoryFlow \<Rightarrow> bool" where
  "flow_ok f \<longleftrightarrow> 0 < cf_total f \<and> map_ok (cf_subcategories f) \<and>
     map_total (cf_subcategories f) = cf_total f \<and> (\<forall>v\<in>set (map snd (cf_subcategories f)). 0 < v)"

definition acc_ok :: "SankeyAcc \<Rightarrow> bool" where
  "acc_ok a \<longleftrightarrow> map_ok (sa_inflowBySource a) \<and> (\<forall>v\<in>set (map snd (sa_inflowBySource a)). 0 < v) \<and>
     map_total (sa_inflowBySource a) = sa_totalInflow a \<and>
     map_ok (sa_outflowByCategory a) \<and> (\<forall>f\<in>set (map snd (sa_outflowByCategory a)). flow_ok f) \<and>
     sum_list (map (\<lambda>p. cf_total (snd p)) (sa_outflowByCategory a)) = sa_totalOutflow a"

lemma add_flow_ok:
  assumes "\<forall>f\<in>set (map snd m). flow_ok f" "0 < x"
  shows "\<forall>f\<in>set (map snd (add_flow k s x m)). flow_ok f"
proof
  fix f assume "f \<in> set (map snd (add_flow k s x m))"
  then consider "f \<in> set (map snd m)" | "map_get m k = None"
      "f = \<lparr>cf_total = x, cf_subcategories = map_add s x []\<rparr>"
    | g where "map_get m k = Some g"
      "f = \<lparr>cf_total = cf_total g + x, cf_subcategories = map_add s x (cf_subcategories g)\<rparr>"
    unfolding add_flow_eq by (cases "map_get m k") (auto simp del: set_map dest!: vals_map_set)
  then show "flow_ok f"
  proof cases
    case 1
    then show ?thesis using assms(1) by blast
  next
    case 2
    then show ?thesis using assms(2) map_total_add [of s x "[]"]
      by (simp add: flow_ok_def map_add_def map_total_def map_ok_def map_get_def)
  next
    case (3 g)
    then have "flow_ok g" using map_get_in [OF 3(1)] assms(1) by blast
    then have "\<forall>v\<in>set (map snd (map_add s x (cf_subcategories g))). 0 < v"
      using assms(2) by (intro map_add_pos) (auto simp: flow_ok_def)
    then show ?thesis
      using 3(2) \<open>flow_ok g\<close> assms(2) map_total_add [of s x "cf_subcategories g"]
        map_ok_add [of "cf_subcategories g" s x]
      by (simp add: flow_ok_def del: set_map)
  qed
qed

lemma add_flow_total:
  "sum_list (map (\<lambda>p. cf_total (snd p)) (add_flow k s x m)) =
   sum_list (map (\<lambda>p. cf_total (snd p)) m) + x"
  by (cases "map_get m k") (simp_all add: add_flow_eq sum_map_set)

lemma sankey_step_cases:
  obtains "sankey_step a t = a"
    | "0 < inflow_amount t" "sankey_step a t = a\<lparr>
          sa_inflowBySource := map_add (inflow_source t) (inflow_amount t) (sa_inflowBySource a),
          sa_totalInflow := sa_totalInflow a + inflow_amount t, sa_inflowCount := sa_inflowCount a + 1\<rparr>"
    | "0 < getNetSpendingAmount t" "sankey_step a t = a\<lparr>
          sa_outflowByCategory := add_flow (resolveMajorCategory (Some (raw_category t)) [])
            (outflow_sub t) (getNetSpendingAmount t) (sa_outflowByCategory a),
          sa_totalOutflow := sa_totalOutflow a + getNetSpendingAmount t,
          sa_outflowCount := sa_outflowCount a + 1\<rparr>"
  unfolding sankey_step_def by argo

lemma sankey_step_ok:
  assumes a: "acc_ok a"
  shows "acc_ok (sankey_step a t)"
proof (cases rule: sankey_step_cases [of a t])
    case 2
    have "\<forall>v\<in>set (map snd (map_add (inflow_source t) (inflow_amount t) (sa_inflowBySource a))). 0 < v"
      using a 2(1) by (intro map_add_pos) (auto simp: acc_ok_def)
    then show ?thesis
      using a 2(2) map_total_add [of "inflow_source t" "inflow_amount t" "sa_inflowBySource a"]
        map_ok_add [of "sa_inflowBySource a" "inflow_source t" "inflow_amount t"]
      by (simp add: acc_ok_def del: set_map)
  next
    case 3
    let ?m = "add_flow (resolveMajorCategory (Some (raw_category t)) []) (outflow_sub t)
      (getNetSpendingAmount t) (sa_outflowByCategory a)"
    have "\<forall>f\<in>set (map snd ?m). flow_ok f"
      using a 3(1) by (intro add_flow_ok) (auto simp: acc_ok_def)
    moreover have "map_ok ?m" using a by (simp add: add_flow_eq map_ok_map_set acc_ok_def)
    ultimately show ?thesis using a 3(2) add_flow_total by (simp add: acc_ok_def del: set_map)
qed (use a in simp)

lemma sankey_accumulate_ok: "acc_ok (sankey_accumulate ts)"
proof -
  have fold: "acc_ok a \<Longrightarrow> acc_ok (foldl sankey_step a ts)" for a
  proof (induction ts arbitrary: a)
    case (Cons t ts)
    show ?case unfolding foldl.simps by (intro Cons.IH sankey_step_ok Cons.prems)
  qed simp
  show ?thesis unfolding sankey_accumulate_def
    by (rule fold) (simp add: acc_ok_def map_ok_def map_total_def)
qed

definition flow_count :: "SankeyAcc \<Rightarrow> nat" where
  "flow_count a = sa_inflowCount a + sa_outflowCount a"

lemma sankey_step_count: "flow_count (sankey_step a t) \<le> flow_count a + 1"
  by (cases rule: sankey_step_cases [of a t]) (simp_all only: flow_count_def, simp_all)

lemma foldl_step_count: "flow_count (foldl sankey_step a ts) \<le> flow_count a + length ts"
proof (induction ts arbitrary: a)
  case (Cons t ts)
  have "flow_count (foldl sankey_step a (t # ts)) \<le> flow_count (sankey_step a t) + length ts"
    unfolding foldl.simps by (rule Cons.IH)
  also have "\<dots> \<le> flow_count a + 1 + length ts"
    by (rule add_right_mono) (rule sankey_step_count)
  finally show ?case by simp
qed simp

lemma sankey_counts:
  "sa_inflowCount (sankey_accumulate ts) + sa_outflowCount (sankey_accumulate ts) \<le> length ts"
  using foldl_step_count [of "\<lparr>sa_inflowBySource = [], sa_outflowByCategory = [],
      sa_totalInflow = 0, sa_totalOutflow = 0, sa_inflowCount = 0, sa_outflowCount = 0\<rparr>" ts]
  by (simp add: sankey_accumulate_def flow_count_def)

section \<open>The largest category\<close>

lemma top_step_max:
  assumes "\<forall>f\<in>set (map snd xs). 0 < cf_total f"
  shows "case foldl (top_step w) (0, None) xs of
      (mx, None) \<Rightarrow> mx = 0 \<and> xs = []
    | (mx, Some te) \<Rightarrow> \<exists>f. (te_name te, f) \<in> set xs \<and> cf_total f = mx \<and>
        te_amount te = round2 mx \<and> te_percentage te = share mx w \<and>
        (\<forall>g\<in>set (map snd xs). cf_total g \<le> mx)"
  using assms
proof (induction xs rule: rev_induct)
  case (snoc x xs)
  obtain mx o' where fo: "foldl (top_step w) (0, None) xs = (mx, o')" by (meson surj_pair)
  have IH: "case (mx, o') of (mx, None) \<Rightarrow> mx = 0 \<and> xs = []
    | (mx, Some te) \<Rightarrow> \<exists>f. (te_name te, f) \<in> set xs \<and> cf_total f = mx \<and>
        te_amount te = round2 mx \<and> te_percentage te = share mx w \<and>
        (\<forall>g\<in>set (map snd xs). cf_total g \<le> mx)"
    using snoc fo by simp
  have x: "0 < cf_total (snd x)" using snoc.prems by simp
  have last: "foldl (top_step w) (0, None) (xs @ [x]) = top_step w (mx, o') x" by (simp add: fo)
  show ?case unfolding last
  proof (cases "mx < cf_total (snd x)", goal_cases)
    case 1
    then have "\<forall>g\<in>set (map snd xs). cf_total g \<le> cf_total (snd x)"
      using IH by (cases o') fastforce+
    then show ?case using 1
      by (auto simp: top_step_def intro!: exI [of _ "snd x"])
  next
    case 2
    then show ?case using IH x by (cases o') (auto simp: top_step_def)
  qed
qed simp

section \<open>Well-formed diagrams\<close>

definition has_node :: "Diagram \<Rightarrow> nat \<Rightarrow> jstring \<Rightarrow> bool" where
  "has_node g k i \<longleftrightarrow> k < length (dg_nodes g) \<and> sn_id (dg_nodes g ! k) = i"

definition link_ok :: "SankeyNode list \<Rightarrow> SankeyLink \<Rightarrow> bool" where
  "link_ok nodes l \<longleftrightarrow> sl_source l < length nodes \<and> sl_target l < length nodes \<and>
     sl_source l \<noteq> sl_target l \<and> 0 < sl_value l \<and>
     sl_sourceId l = sn_id (nodes ! sl_source l) \<and> sl_targetId l = sn_id (nodes ! sl_target l)"

definition diagram_ok :: "Diagram \<Rightarrow> bool" where
  "diagram_ok g \<longleftrightarrow> distinct (map sn_id (dg_nodes g)) \<and> map_ok (dg_index g) \<and>
     (\<forall>i k. map_get (dg_index g) i = Some k \<longleftrightarrow> has_node g k i) \<and>
     (\<forall>l\<in>set (dg_links g). link_ok (dg_nodes g) l)"

definition extends :: "Diagram \<Rightarrow> Diagram \<Rightarrow> bool" where
  "extends g g' \<longleftrightarrow> prefix (dg_nodes g) (dg_nodes g')"

lemma extends_has_node: "extends g g' \<Longrightarrow> has_node g k i \<Longrightarrow> has_node g' k i"
  by (auto simp: extends_def has_node_def prefix_def nth_append)

lemma extends_refl [simp]: "extends g g"
  by (simp add: extends_def)

lemma extends_trans: "extends g g' \<Longrightarrow> extends g' g'' \<Longrightarrow> extends g g''"
  unfolding extends_def by (rule prefix_order.trans)

lemma link_ok_append: "link_ok nodes l \<Longrightarrow> link_ok (nodes @ ns) l"
  by (auto simp: link_ok_def nth_append)

lemma empty_diagram_ok: "diagram_ok empty_diagram"
  by (simp add: diagram_ok_def empty_diagram_def map_ok_def map_get_def has_node_def)

lemma addNode_ok:
  assumes "diagram_ok g" "addNode i n a c k p g = (g', j)"
  shows "diagram_ok g' \<and> extends g g' \<and> has_node g' j i"
proof (cases "map_get (dg_index g) i")
  case (Some m)
  then show ?thesis using assms by (auto simp: addNode_def diagram_ok_def)
next
  case None
  have fresh: "\<not> has_node g m i" for m
    using assms(1) None unfolding diagram_ok_def by (metis option.distinct(1))
  then have "i \<notin> set (map sn_id (dg_nodes g))"
    unfolding has_node_def in_set_conv_nth by (metis length_map nth_map)
  then show ?thesis
    using assms None fresh
    by (auto simp: addNode_def Let_def diagram_ok_def extends_def has_node_def map_get_map_set
        nth_append less_Suc_eq map_ok_map_set link_ok_append split: if_splits)
qed

lemma addLink_ok:
  assumes "diagram_ok g" "has_node g s a" "has_node g t b" "a \<noteq> b"
  shows "diagram_ok (addLink s t v c g) \<and> extends g (addLink s t v c g)"
  using assms by (auto simp: addLink_def Let_def diagram_ok_def extends_def has_node_def link_ok_def)

definition hub_id :: "jstring \<Rightarrow> bool" where
  "hub_id i \<longleftrightarrow> i = ''hub_total_income'' \<or> i = ''hub_total_spending''"

definition hub_ok :: "nat \<Rightarrow> jstring \<Rightarrow> Diagram \<Rightarrow> bool" where
  "hub_ok k i g \<longleftrightarrow> diagram_ok g \<and> has_node g k i \<and> hub_id i"

lemma foldl_keeps: "P a \<Longrightarrow> (\<And>a x. P a \<Longrightarrow> P (f a x)) \<Longrightarrow> P (foldl f a xs)"
  by (induction xs arbitrary: a) auto

lemma add_linked_node:
  assumes "diagram_ok g" "has_node g k i" "addNode j n a c kd p g = (g', m)" "i \<noteq> j"
  shows "diagram_ok (addLink k m v c' g')" "has_node (addLink k m v c' g') k i"
    "has_node (addLink k m v c' g') m j"
    "diagram_ok (addLink m k v c' g')" "has_node (addLink m k v c' g') k i"
proof -
  note A = addNode_ok [OF assms(1,3)]
  then have k: "has_node g' k i" using assms(2) extends_has_node by blast
  note L = addLink_ok [OF conjunct1 [OF A] k _ assms(4), of m v c']
  note M = addLink_ok [OF conjunct1 [OF A] _ k assms(4) [symmetric], of m v c']
  show "diagram_ok (addLink k m v c' g')" "has_node (addLink k m v c' g') k i"
    "has_node (addLink k m v c' g') m j" "diagram_ok (addLink m k v c' g')"
    "has_node (addLink m k v c' g') k i"
    using A L M k extends_has_node by blast+
qed

lemma add_source_ok: "hub_ok k i g \<Longrightarrow> hub_ok k i (add_source k w g src)"
proof -
  assume h: "hub_ok k i g"
  obtain g' m where n: "addNode (''inflow_'' @ fst src) (fst src) (snd src)
      (getCategoryColor (fst src) 0) Inflow (Some (of_int (share (snd src) w))) g = (g', m)"
    by (meson surj_pair)
  have "i \<noteq> ''inflow_'' @ fst src" using h by (auto simp: hub_ok_def hub_id_def)
  then show ?thesis
    using h add_linked_node(4,5) [OF _ _ n] unfolding hub_ok_def add_source_def Let_def n prod.case
    by blast
qed

definition cat_ok :: "nat \<Rightarrow> jstring \<Rightarrow> nat \<Rightarrow> jstring \<Rightarrow> Diagram \<Rightarrow> bool" where
  "cat_ok k i c name g \<longleftrightarrow> hub_ok k i g \<and> has_node g c (''cat_'' @ name)"

lemma add_subcategory_ok: "cat_ok k i c name g \<Longrightarrow> cat_ok k i c name (add_subcategory name w c g sub)"
proof -
  assume h: "cat_ok k i c name g"
  let ?j = "''sub_'' @ name @ ''_'' @ fst sub"
  obtain g' m where n: "addNode ?j (fst sub) (snd sub) (node_color g c) Subcategory_node
      (Some (of_int (share (snd sub) w))) g = (g', m)" by (meson surj_pair)
  have d: "diagram_ok g" "has_node g c (''cat_'' @ name)" "has_node g k i" "hub_id i"
    using h by (auto simp: cat_ok_def hub_ok_def)
  have ne: "''cat_'' @ name \<noteq> ?j" by simp
  note A = addNode_ok [OF d(1) n]
  note L = add_linked_node(1,2) [OF d(1,2) n ne, of "snd sub" "node_color g' c"]
  have "extends g (addLink c m (snd sub) (node_color g' c) g')"
    using A addLink_ok [of g' c "''cat_'' @ name" m ?j] d(2) ne extends_has_node extends_trans by blast
  then have "has_node (addLink c m (snd sub) (node_color g' c) g') k i"
    using d(3) by (rule extends_has_node)
  then show ?thesis
    using L d(4) unfolding cat_ok_def hub_ok_def add_subcategory_def Let_def n prod.case by blast
qed

lemma add_category_ok: "hub_ok k i g \<Longrightarrow> hub_ok k i (add_category b k w g entry)"
proof -
  assume h: "hub_ok k i g"
  let ?j = "''cat_'' @ fst entry"
  obtain g' m where n: "addNode ?j (fst entry) (cf_total (snd entry)) (getCategoryColor (fst entry) 0)
      Outflow (Some (of_int (share (cf_total (snd entry)) w))) g = (g', m)" by (meson surj_pair)
  have ne: "i \<noteq> ?j" using h by (auto simp: hub_ok_def hub_id_def)
  let ?g2 = "addLink k m (cf_total (snd entry)) (node_color g' m) g'"
  have c: "cat_ok k i m (fst entry) ?g2"
    using h add_linked_node(1-3) [OF _ _ n ne] unfolding cat_ok_def hub_ok_def by blast
  then have "cat_ok k i m (fst entry) (foldl (add_subcategory (fst entry) (cf_total (snd entry)) m) ?g2 xs)"
    for xs by (rule foldl_keeps) (rule add_subcategory_ok)
  then show ?thesis
    using c unfolding add_category_def Let_def n prod.case cat_ok_def by presburger
qed

lemma start_hub_ok:
  "hub_id i \<Longrightarrow> addNode i n a c Hub None empty_diagram = (g, k) \<Longrightarrow> hub_ok k i g"
  using addNode_ok [OF empty_diagram_ok] by (auto simp: hub_ok_def)

lemma spending_diagram_ok: "diagram_ok (spending_diagram b a s)"
proof -
  obtain g k where n: "addNode ''hub_total_spending'' ''Total Spending'' (ss_totalOutflow s)
      ''#64748b'' Hub None empty_diagram = (g, k)" by (meson surj_pair)
  have "hub_ok k ''hub_total_spending'' g" by (rule start_hub_ok [OF _ n]) (simp add: hub_id_def)
  then have "hub_ok k ''hub_total_spending''
      (foldl (add_category b k (ss_totalOutflow s)) g (sorted_categories a))"
    by (rule foldl_keeps) (rule add_category_ok)
  then show ?thesis by (simp add: spending_diagram_def n hub_ok_def)
qed

lemma income_diagram_ok: "diagram_ok (income_diagram b a s)"
proof -
  let ?i = "''hub_total_income''"
  obtain g0 k where n: "addNode ?i ''Total Income'' (max (ss_totalInflow s) (ss_totalOutflow s))
      ''#0d9488'' Hub None empty_diagram = (g0, k)" by (meson surj_pair)
  have h0: "hub_ok k ?i g0" by (rule start_hub_ok [OF _ n]) (simp add: hub_id_def)
  define g1 where "g1 = foldl (add_source k (ss_totalInflow s)) g0 (sa_inflowBySource a)"
  have h1: "hub_ok k ?i g1" unfolding g1_def using h0 by (rule foldl_keeps) (rule add_source_ok)
  define g2 where "g2 = (if ss_netSavings s < 0 then
      (case addNode ''inflow_from_savings'' ''From Savings'' \<bar>ss_netSavings s\<bar> ''#f59e0b'' Deficit None g1
       of (g, d) \<Rightarrow> addLink d k \<bar>ss_netSavings s\<bar> ''#f59e0b'' g) else g1)"
  have h2: "hub_ok k ?i g2"
    using h1 add_linked_node(4,5) [of g1 k ?i "''inflow_from_savings''"]
    by (auto simp: g2_def hub_ok_def split: prod.split)
  define g3 where "g3 = foldl (add_category b k (ss_totalOutflow s)) g2 (sorted_categories a)"
  have h3: "hub_ok k ?i g3" unfolding g3_def using h2 by (rule foldl_keeps) (rule add_category_ok)
  have "diagram_ok (if 0 < ss_netSavings s then
      (case addNode ''savings_net'' ''Net Savings'' (ss_netSavings s) ''#10b981'' Savings_node
         (Some (ss_savingsRate s)) g3
       of (g, v) \<Rightarrow> addLink k v (ss_netSavings s) ''#10b981'' g) else g3)"
    using h3 add_linked_node(1) [of g3 k ?i "''savings_net''"]
    by (auto simp: hub_ok_def split: prod.split)
  then show ?thesis
    by (simp only: income_diagram_def n Let_def prod.case g1_def g2_def g3_def)
qed

section \<open>Grouping minor subcategories\<close>

lemma split_minor_eq:
  "foldl (split_minor q) (ps, w, n) subs =
   (ps @ filter (\<lambda>s. \<not> q s) subs, w + sum_list (map snd (filter q subs)), n + length (filter q subs))"
  by (induction subs arbitrary: ps w n) auto

lemma groupMinor_sum:
  "\<bar>sum_list (map snd (groupMinorSubcategories subs w)) - sum_list (map snd subs)\<bar> \<le> 1 / 200"
proof -
  define q where "q = is_minor w 30 (5 / 100)"
  define A where "A = sum_list (map snd (filter q subs))"
  define B where "B = sum_list (map snd (filter (\<lambda>x. \<not> q x) subs))"
  have s: "A + B = sum_list (map snd subs)"
    using reduce_sum_partition [of snd q subs] by (simp add: reduce_sum_eq A_def B_def)
  have "groupMinorSubcategories subs w = subs \<or> groupMinorSubcategories subs w =
      js_sort (down_by snd) (filter (\<lambda>x. \<not> q x) subs @ [(''Other'', round2 A)])"
    unfolding groupMinorSubcategories_def split_minor_eq Let_def q_def [symmetric] A_def
    by simp
  then consider "sum_list (map snd (groupMinorSubcategories subs w)) = sum_list (map snd subs)"
    | "sum_list (map snd (groupMinorSubcategories subs w)) = B + round2 A"
    by (auto simp: sum_list_js_sort B_def)
  then show ?thesis
  proof cases
    case 2
    then have "sum_list (map snd (groupMinorSubcategories subs w)) - sum_list (map snd subs) =
        round2 A - A" using s by simp
    then show ?thesis using round2_close [of A] by simp
  qed simp
qed

section \<open>Properties\<close>

text \<open>
  C2. The totals of the cash flow are the sums of its parts: total income is the sum over the income
  sources, total spending the sum over the categories, and the total of every category the sum over
  its subcategories; every amount is positive, and no transaction is counted twice.
\<close>

theorem sankey_totals:
  "sa_totalInflow (sankey_accumulate ts) = sum_list (map snd (sa_inflowBySource (sankey_accumulate ts))) \<and>
   sa_totalOutflow (sankey_accumulate ts) =
     sum_list (map (\<lambda>c. cf_total (snd c)) (sa_outflowByCategory (sankey_accumulate ts))) \<and>
   (\<forall>v\<in>set (map snd (sa_inflowBySource (sankey_accumulate ts))). 0 < v) \<and>
   (\<forall>f\<in>set (map snd (sa_outflowByCategory (sankey_accumulate ts))). 0 < cf_total f \<and>
      cf_total f = sum_list (map snd (cf_subcategories f))) \<and>
   sa_inflowCount (sankey_accumulate ts) + sa_outflowCount (sankey_accumulate ts) \<le> length ts"
  using sankey_accumulate_ok [of ts] sankey_counts [of ts]
  by (auto simp: acc_ok_def flow_ok_def map_total_def simp del: set_map)

definition sample_flow :: "Transaction list" where
  "sample_flow = [bare_transaction ''pay'' ''2024-02-01'' (- 900) ''Paycheck'',
     bare_transaction ''hotel'' ''2024-02-02'' 120 ''Travel'']"

theorem sankey_totals_witness:
  "sa_totalInflow (sankey_accumulate sample_flow) =
     sum_list (map snd (sa_inflowBySource (sankey_accumulate sample_flow))) \<and>
   sa_inflowCount (sankey_accumulate sample_flow) + sa_outflowCount (sankey_accumulate sample_flow) \<le> 2"
  using sankey_totals [of sample_flow] by (simp add: sample_flow_def)

text \<open>
  C3. Every diagram is well formed: node ids are distinct, and every link joins two different
  existing nodes, carries their ids and has a positive value.
\<close>

theorem sankey_diagram_valid:
  "distinct (map sn_id (sr_nodes (computeSankeyData ts b))) \<and>
   (\<forall>l\<in>set (sr_links (computeSankeyData ts b)).
      sl_source l < length (sr_nodes (computeSankeyData ts b)) \<and>
      sl_target l < length (sr_nodes (computeSankeyData ts b)) \<and>
      sl_source l \<noteq> sl_target l \<and> 0 < sl_value l \<and>
      sl_sourceId l = sn_id (sr_nodes (computeSankeyData ts b) ! sl_source l) \<and>
      sl_targetId l = sn_id (sr_nodes (computeSankeyData ts b) ! sl_target l))"
proof -
  define r where "r = computeSankeyData ts b"
  define st where "st = sankey_stats (sankey_accumulate ts)"
  define g where "g = (if 0 < ss_totalInflow st then income_diagram b (sankey_accumulate ts) st
    else spending_diagram b (sankey_accumulate ts) st)"
  have ok: "diagram_ok g" unfolding g_def by (simp add: income_diagram_ok spending_diagram_ok)
  have "sr_nodes r = [] \<and> sr_links r = [] \<or> sr_nodes r = dg_nodes g \<and> sr_links r = dg_links g"
    unfolding r_def computeSankeyData_def Let_def st_def [symmetric] g_def [symmetric] by simp
  then have "distinct (map sn_id (sr_nodes r)) \<and> (\<forall>l\<in>set (sr_links r). link_ok (sr_nodes r) l)"
    using ok unfolding diagram_ok_def by auto
  then show ?thesis unfolding r_def [symmetric] link_ok_def .
qed

theorem sankey_diagram_valid_witness:
  "distinct (map sn_id (sr_nodes (computeSankeyData sample_flow True)))"
  using sankey_diagram_valid [of sample_flow True] by blast

text \<open>
  The top expense of the statistics is a category with the largest total, with its rounded
  amount and its share of the rounded total; it is missing exactly when nothing was spent.
\<close>

theorem sankey_top_expense:
  "case ss_topExpenseCategory (sankey_stats (sankey_accumulate ts)) of
     None \<Rightarrow> sa_outflowByCategory (sankey_accumulate ts) = []
   | Some te \<Rightarrow> \<exists>f. (te_name te, f) \<in> set (sa_outflowByCategory (sankey_accumulate ts)) \<and>
       te_amount te = round2 (cf_total f) \<and>
       te_percentage te = share (cf_total f) (ss_totalOutflow (sankey_stats (sankey_accumulate ts))) \<and>
       (\<forall>g\<in>set (map snd (sa_outflowByCategory (sankey_accumulate ts))). cf_total g \<le> cf_total f)"
proof -
  let ?a = "sankey_accumulate ts"
  have "\<forall>f\<in>set (map snd (sa_outflowByCategory ?a)). 0 < cf_total f"
    using sankey_accumulate_ok [of ts] by (simp add: acc_ok_def flow_ok_def del: set_map)
  from top_step_max [OF this, of "round2 (sa_totalOutflow ?a)"] show ?thesis
    unfolding sankey_stats_def Let_def by (auto split: prod.splits option.splits)
qed

theorem sankey_top_expense_witness:
  "case ss_topExpenseCategory (sankey_stats (sankey_accumulate sample_flow)) of
     None \<Rightarrow> sa_outflowByCategory (sankey_accumulate sample_flow) = []
   | Some te \<Rightarrow> \<exists>f. (te_name te, f) \<in> set (sa_outflowByCategory (sankey_accumulate sample_flow))"
  using sankey_top_expense [of sample_flow] by (auto split: option.splits)

text \<open>
  C23. Folding the minor subcategories of a category into one entry keeps the sum of the category to
  within half a cent, and never shows fewer than the subcategories that are not minor.
\<close>

theorem groupMinorSubcategories_sum:
  "\<bar>sum_list (map snd (groupMinorSubcategories subs w)) - sum_list (map snd subs)\<bar> \<le> 1 / 200 \<and>
   {s \<in> set subs. \<not> is_minor w 30 (5 / 100) s} \<subseteq> set (groupMinorSubcategories subs w)"
  using groupMinor_sum [of subs w]
  by (auto simp: groupMinorSubcategories_def split_minor_eq Let_def)

end
