(* ===== verification/Js_Json.thy ===== *)
theory Js_Json
  imports Js_Collections Js_Date Js_Chars
begin

text \<open>
  JSON values, \<^verbatim>\<open>String(x)\<close> of a finite number, and the serialisation of
  \<^verbatim>\<open>URLSearchParams\<close>. A number is printed with the least number of decimals that gives it
  exactly; a number that needs more than 20 decimals is cut there, and the exponent notation of
  magnitudes from \<open>10^21\<close> or below \<open>10^-6\<close> is not modelled.
\<close>

section \<open>JSON\<close>

datatype json = JsNull | JsBool bool | JsNumber rat | JsString jstring
  | JsArray "json list" | JsObject "(jstring \<times> json) list"

text \<open>\<^verbatim>\<open>v.k\<close>: \<open>Inl\<close> where it throws, \<open>None\<close> for \<^verbatim>\<open>undefined\<close>.\<close>

definition get_field :: "json \<Rightarrow> jstring \<Rightarrow> json option result" where
  "get_field v k = (case v of JsNull \<Rightarrow> Inl TypeError
     | JsObject fs \<Rightarrow> Inr (map_get (rev fs) k) | _ \<Rightarrow> Inr None)"

definition json_truthy :: "json option \<Rightarrow> bool" where
  "json_truthy v = (case v of None \<Rightarrow> False | Some JsNull \<Rightarrow> False | Some (JsBool b) \<Rightarrow> b
     | Some (JsNumber q) \<Rightarrow> q \<noteq> 0 | Some (JsString s) \<Rightarrow> s \<noteq> [] | Some _ \<Rightarrow> True)"

section \<open>Printing numbers\<close>

fun places :: "nat \<Rightarrow> rat \<Rightarrow> nat" where
  "places 0 x = 0"
| "places (Suc n) x = (if x = of_int \<lfloor>x\<rfloor> then 0 else Suc (places n (10 * x)))"

definition unsigned_str :: "rat \<Rightarrow> jstring" where
  "unsigned_str x = (let k = places 20 x; n = nat \<lfloor>x * 10 ^ k\<rfloor> in
     dec (n div 10 ^ k) @ (if k = 0 then [] else CHR ''.'' # fixed k (n mod 10 ^ k)))"

definition num_str :: "rat \<Rightarrow> jstring" where
  "num_str x = (if x < 0 then CHR ''-'' # unsigned_str (- x) else unsigned_str x)"

definition decimal :: "rat \<Rightarrow> bool" where
  "decimal x \<longleftrightarrow> x * 10 ^ 20 = of_int \<lfloor>x * 10 ^ 20\<rfloor>"

lemma places_exact:
  "x * 10 ^ n = of_int \<lfloor>x * 10 ^ n\<rfloor> \<Longrightarrow> x * 10 ^ places n x = of_int \<lfloor>x * 10 ^ places n x\<rfloor>"
proof (induction n arbitrary: x)
  case (Suc n)
  have e: "x * 10 ^ Suc m = 10 * x * 10 ^ m" for m by simp
  show ?case
  proof (cases "x = of_int \<lfloor>x\<rfloor>")
    case True
    then show ?thesis by simp
  next
    case False
    have "places (Suc n) x = Suc (places n (10 * x))" using False by simp
    then show ?thesis using Suc.IH [of "10 * x"] Suc.prems by (simp only: e)
  qed
qed simp

lemma foldl_digits:
  fixes d :: "'a \<Rightarrow> nat"
  shows "foldl (\<lambda>a c. 10 * a + d c) a t = a * 10 ^ length t + foldl (\<lambda>a c. 10 * a + d c) 0 t"
proof (induction t arbitrary: a)
  case (Cons c t)
  show ?case
    using Cons [of "10 * a + d c"] Cons [of "d c"] by (simp add: add_mult_distrib)
qed simp

lemma digits_value_append:
  "digits_value (s @ t) = digits_value s * 10 ^ length t + digits_value t"
  unfolding digits_value_def foldl_append by (rule foldl_digits)

lemma digits_value_dec [simp]: "digits_value (dec n) = n"
proof (induction n rule: dec.induct)
  case (1 n)
  show ?case
  proof (cases "n < 10")
    case True
    then show ?thesis by (simp add: dec_small digits_value_def)
  next
    case False
    then have "digits_value (dec n) = 10 * (n div 10) + n mod 10"
      using 1 by (simp add: dec_step digits_value_append) (simp add: digits_value_def)
    then show ?thesis by simp
  qed
qed

lemma list_all_digit_dec [simp]: "list_all is_digit (dec n)"
proof (induction n rule: dec.induct)
  case (1 n)
  then show ?case by (cases "n < 10") (simp_all add: dec_small dec_step)
qed

lemma dec_not_Nil [simp]: "dec n \<noteq> []"
  by (simp add: dec.simps [of n])

lemma takeWhile_run:
  "list_all is_digit s \<Longrightarrow> \<not> is_digit c \<Longrightarrow> takeWhile is_digit (s @ c # t) = s \<and>
   dropWhile is_digit (s @ c # t) = c # t"
  by (induction s) auto

lemma all_digits: "list_all is_digit s \<Longrightarrow> takeWhile is_digit s = s \<and> dropWhile is_digit s = []"
  by (induction s) auto

lemma parse_unsigned_str:
  assumes "0 \<le> x" "decimal x"
  shows "parse_unsigned (unsigned_str x) = Some x"
proof -
  define k where "k = places 20 x"
  define n where "n = nat \<lfloor>x * 10 ^ k\<rfloor>"
  have "x * 10 ^ k = of_int \<lfloor>x * 10 ^ k\<rfloor>"
    using places_exact assms(2) by (simp add: decimal_def k_def)
  moreover have "0 \<le> \<lfloor>x * 10 ^ k\<rfloor>" using assms(1) by simp
  ultimately have "x * 10 ^ k = of_nat n" by (simp add: n_def)
  then have x: "x = of_nat n / 10 ^ k" by (simp add: field_simps)
  have s: "unsigned_str x = dec (n div 10 ^ k) @
      (if k = 0 then [] else CHR ''.'' # fixed k (n mod 10 ^ k))"
    by (simp add: unsigned_str_def k_def n_def Let_def)
  have dot: "\<not> is_digit (CHR ''.'')" by (simp add: is_digit_eval)
  show ?thesis
  proof (cases "k = 0")
    case True
    then have "unsigned_str x = dec n" by (simp add: s)
    then show ?thesis
      using x True unfolding parse_unsigned_def \<open>unsigned_str x = dec n\<close> Let_def
        conjunct1 [OF all_digits [OF list_all_digit_dec]]
        conjunct2 [OF all_digits [OF list_all_digit_dec]]
      by (simp add: parse_exponent_def pow10_def startsWith_def)
  next
    case False
    have m: "n mod 10 ^ k < 10 ^ k" by simp
    have v: "digits_value (dec (n div 10 ^ k) @ fixed k (n mod 10 ^ k)) = n"
      using digits_value_fixed [OF m] div_mult_mod_eq [of n "10 ^ k"]
      by (simp only: digits_value_append digits_value_dec length_fixed)
    have "unsigned_str x = dec (n div 10 ^ k) @ CHR ''.'' # fixed k (n mod 10 ^ k)"
      using False by (simp add: s)
    then show ?thesis
      using x by (simp add: takeWhile_run [OF list_all_digit_dec dot] all_digits all_digits_fixed v
          parse_unsigned_def parse_exponent_def pow10_def startsWith_def)
  qed
qed

lemma unsigned_hd_digit:
  "\<exists>c r. unsigned_str x = c # r \<and> is_digit c \<and> (r = [] \<or> is_digit (hd r) \<or> hd r = CHR ''.'')"
proof -
  obtain c r where c: "dec (nat \<lfloor>x * 10 ^ places 20 x\<rfloor> div 10 ^ places 20 x) = c # r"
    using dec_not_Nil by (metis list.exhaust)
  then have "is_digit c" "list_all is_digit r"
    using list_all_digit_dec [of "nat \<lfloor>x * 10 ^ places 20 x\<rfloor> div 10 ^ places 20 x"] by simp_all
  then show ?thesis using c by (cases r) (auto simp: unsigned_str_def Let_def)
qed

lemma unsigned_last_digit: "is_digit (last (unsigned_str x))"
proof -
  have *: "list_all is_digit s \<Longrightarrow> s \<noteq> [] \<Longrightarrow> is_digit (last s)" for s
    by (simp add: list_all_iff)
  have "fixed k n \<noteq> []" if "k \<noteq> 0" for k n using that by (cases k) auto
  then show ?thesis by (simp add: unsigned_str_def Let_def * all_digits_fixed)
qed

lemma digit_facts:
  assumes "is_digit c"
  shows "\<not> is_space c" "c \<noteq> CHR ''-''" "c \<noteq> CHR ''+''" "c \<noteq> CHR ''I''"
    "lower_char c = c" "c \<noteq> CHR ''x''" "c \<noteq> CHR ''o''" "c \<noteq> CHR ''b''"
proof -
  have r: "48 \<le> code_at c" "code_at c \<le> 57" using assms by (simp_all add: is_digit_def)
  then show "\<not> is_space c" "lower_char c = c"
    by (auto simp: is_space_def lower_char_def is_upper_def)
  show "c \<noteq> CHR ''-''" "c \<noteq> CHR ''+''" "c \<noteq> CHR ''I''" "c \<noteq> CHR ''x''" "c \<noteq> CHR ''o''"
    "c \<noteq> CHR ''b''"
    using r by (auto simp: code_at_def)
qed

lemma number_of_unsigned:
  assumes "0 \<le> x" "decimal x"
  shows "number_of_string (unsigned_str x) = Fin x"
    "number_of_string (CHR ''-'' # unsigned_str x) = Fin (- x)"
proof -
  obtain c r where u: "unsigned_str x = c # r" "is_digit c"
    "r = [] \<or> is_digit (hd r) \<or> hd r = CHR ''.''"
    using unsigned_hd_digit by blast
  have lastd: "\<not> is_space (last (unsigned_str x))"
    using digit_facts(1) unsigned_last_digit by blast
  note d = digit_facts [OF u(2)]
  have ne: "unsigned_str x \<noteq> []" using u(1) by simp
  have t1: "trim (unsigned_str x) = unsigned_str x"
    using u(1) d(1) lastd by (intro trim_id disjI2 conjI) simp_all
  have t2: "trim (CHR ''-'' # unsigned_str x) = CHR ''-'' # unsigned_str x"
    using lastd ne by (intro trim_id disjI2 conjI) (simp_all add: is_space_eval)
  have p: "parse_decimal (unsigned_str x) = Fin x"
    using parse_unsigned_str [OF assms] u(1) d(4) by (simp add: parse_decimal_def)
  have dotl: "lower_char (CHR ''.'') = CHR ''.''" by (simp add: lower_char_eval)
  have pre: "toLowerCase (take 2 (unsigned_str x)) \<notin> {''0x'', ''0o'', ''0b''}"
  proof (cases r)
    case Nil
    then show ?thesis using u(1) by simp
  next
    case (Cons e r')
    then have "lower_char e \<notin> {CHR ''x'', CHR ''o'', CHR ''b''}"
      using u(3) dotl digit_facts [of e] by auto
    then show ?thesis using u(1) Cons by (simp add: numeral_2_eq_2)
  qed
  show "number_of_string (unsigned_str x) = Fin x"
    using pre p u(1) d(2,3) unfolding number_of_string_def t1 Let_def
    by (auto simp: startsWith_def)
  have "toLowerCase (take 2 (CHR ''-'' # unsigned_str x)) \<notin> {''0x'', ''0o'', ''0b''}"
    by (simp add: lower_char_eval)
  then show "number_of_string (CHR ''-'' # unsigned_str x) = Fin (- x)"
    using p unfolding number_of_string_def t2 Let_def by (auto simp: startsWith_def neg_num_def)
qed

lemma number_of_num_str: "decimal x \<Longrightarrow> number_of_string (num_str x) = Fin x"
proof (cases "x < 0")
  case True
  assume "decimal x"
  then have "(- x) * 10 ^ 20 = of_int (- \<lfloor>x * 10 ^ 20\<rfloor>)" by (simp add: decimal_def)
  then have "decimal (- x)" unfolding decimal_def by (metis floor_of_int)
  then show ?thesis using True number_of_unsigned(2) [of "- x"] by (simp add: num_str_def)
next
  case False
  assume "decimal x"
  then show ?thesis using False number_of_unsigned(1) [of x] by (simp add: num_str_def)
qed

text \<open>\<^verbatim>\<open>String(v)\<close> of a JSON value that is not an object or array.\<close>

definition scalar_text :: "json option \<Rightarrow> jstring" where
  "scalar_text v = (case v of None \<Rightarrow> ''undefined'' | Some JsNull \<Rightarrow> ''null''
     | Some (JsBool b) \<Rightarrow> (if b then ''true'' else ''false'') | Some (JsNumber q) \<Rightarrow> num_str q
     | Some (JsString s) \<Rightarrow> s | Some _ \<Rightarrow> ''[object Object]'')"

text \<open>\<^verbatim>\<open>x.toFixed(2)\<close>, below the magnitude \<open>10^21\<close>.\<close>

definition to_fixed2 :: "jsnum \<Rightarrow> jstring" where
  "to_fixed2 n = (case n of PosInf \<Rightarrow> ''Infinity'' | NegInf \<Rightarrow> ''-Infinity'' | NaN \<Rightarrow> ''NaN''
     | Fin q \<Rightarrow> let k = nat (js_round (\<bar>q\<bar> * 100)) in
         (if q < 0 then ''-'' else []) @ dec (k div 100) @ ''.'' @ fixed 2 (k mod 100))"

section \<open>Query strings\<close>

text \<open>The UTF-8 bytes of the characters up to code 255, and percent encoding.\<close>

definition utf8 :: "char \<Rightarrow> nat list" where
  "utf8 c = (if code_at c < 128 then [code_at c]
     else [192 + code_at c div 64, 128 + code_at c mod 64])"

definition hex_char :: "nat \<Rightarrow> char" where
  "hex_char n = (if n < 10 then digit_char n else char_of (55 + n))"

definition percent_byte :: "nat \<Rightarrow> jstring" where
  "percent_byte b = [CHR ''%'', hex_char (b div 16), hex_char (b mod 16)]"

definition form_safe :: "char \<Rightarrow> bool" where
  "form_safe c \<longleftrightarrow> is_digit c \<or> is_lower c \<or> is_upper c \<or> c \<in> set ''*-._''"

definition form_char :: "char \<Rightarrow> jstring" where
  "form_char c = (if form_safe c then [c] else if c = CHR '' '' then ''+''
     else concat (map percent_byte (utf8 c)))"

definition form_encode :: "jstring \<Rightarrow> jstring" where
  "form_encode s = concat (map form_char s)"

type_synonym search_params = "(jstring \<times> jstring) list"

definition append_param :: "jstring \<Rightarrow> jstring \<Rightarrow> search_params \<Rightarrow> search_params" where
  "append_param k v ps = ps @ [(k, v)]"

definition params_string :: "search_params \<Rightarrow> jstring" where
  "params_string ps = join ''&'' (map (\<lambda>(k, v). form_encode k @ ''='' @ form_encode v) ps)"

text \<open>\<^verbatim>\<open>encodeURIComponent\<close>.\<close>

definition encodeURIComponent :: "jstring \<Rightarrow> jstring" where
  "encodeURIComponent s = concat (map (\<lambda>c.
     if is_digit c \<or> is_lower c \<or> is_upper c \<or> c \<in> set (''-_.!~*()'' @ [char_of (39 :: nat)]) then [c]
     else concat (map percent_byte (utf8 c))) s)"

text \<open>What a server reads from a query string: the pairs, as bytes.\<close>

definition hex_value :: "char \<Rightarrow> nat" where
  "hex_value c = (if is_digit c then code_at c - 48 else code_at c - 55)"

fun form_bytes :: "jstring \<Rightarrow> nat list" where
  "form_bytes [] = []"
| "form_bytes (c # s) =
     (if c = CHR ''+'' then 32 # form_bytes s
      else if c = CHR ''%'' then
        (case s of h # l # r \<Rightarrow> (16 * hex_value h + hex_value l) # form_bytes (drop 2 s)
         | _ \<Rightarrow> code_at c # form_bytes s)
      else code_at c # form_bytes s)"

definition parse_pair :: "jstring \<Rightarrow> nat list \<times> nat list" where
  "parse_pair s = (form_bytes (takeWhile (\<lambda>c. c \<noteq> CHR ''='') s),
     form_bytes (drop 1 (dropWhile (\<lambda>c. c \<noteq> CHR ''='') s)))"

definition parse_query :: "jstring \<Rightarrow> (nat list \<times> nat list) list" where
  "parse_query s = map parse_pair (split_runs (\<lambda>c. c = CHR ''&'') [] s)"

lemma form_bytes_append_safe:
  "form_bytes (form_char c @ s) = utf8 c @ form_bytes s"
proof -
  consider (safe) "form_safe c" | (space) "\<not> form_safe c" "c = CHR '' ''"
    | (other) "\<not> form_safe c" "c \<noteq> CHR '' ''" by blast
  then show ?thesis
  proof cases
    case safe
    have "c \<noteq> CHR ''+''" "c \<noteq> CHR ''%''" "code_at c < 128"
      using safe by (auto simp: form_safe_def is_digit_def is_lower_def is_upper_def code_at_def)
    then show ?thesis using safe by (simp add: form_char_def utf8_def)
  next
    case space
    then show ?thesis by (simp add: form_char_def utf8_def code_at_def)
  next
    case other
    have h: "hex_value (hex_char n) = n" if "n < 16" for n
    proof (cases "n < 10")
      case True
      then show ?thesis by (simp add: hex_char_def hex_value_def)
    next
      case False
      then show ?thesis using that by (simp add: hex_char_def hex_value_def is_digit_def)
    qed
    have p: "form_bytes (percent_byte b @ r) = b # form_bytes r" if "b < 256" for b r
      using that h [of "b div 16"] h [of "b mod 16"] by (simp add: percent_byte_def)
    have "code_at c div 64 < 4" using code_at_less [of c] by (simp add: less_mult_imp_div_less)
    then have "\<forall>b\<in>set (utf8 c). b < 256" by (auto simp: utf8_def)
    then have "form_bytes (concat (map percent_byte (utf8 c)) @ s) = utf8 c @ form_bytes s"
      by (induction "utf8 c" arbitrary: c) (auto simp: utf8_def p)
    then show ?thesis using other by (simp add: form_char_def)
  qed
qed

lemma form_bytes_encode: "form_bytes (form_encode s) = concat (map utf8 s)"
proof (induction s)
  case (Cons c s)
  then show ?case using form_bytes_append_safe [of c "form_encode s"] by (simp add: form_encode_def)
qed (simp add: form_encode_def)

lemma form_char_clean: "d \<in> set (form_char c) \<Longrightarrow> d \<noteq> CHR ''='' \<and> d \<noteq> CHR ''&''"
proof -
  assume d: "d \<in> set (form_char c)"
  have hex: "hex_char n \<noteq> CHR ''='' \<and> hex_char n \<noteq> CHR ''&''" if "n < 16" for n
  proof -
    have "code_at (hex_char n) = (if n < 10 then 48 + n else 55 + n)" using that by (simp add: hex_char_def)
    then show ?thesis by (auto simp: code_at_def split: if_splits)
  qed
  have p: "x \<noteq> CHR ''='' \<and> x \<noteq> CHR ''&''" if "x \<in> set (percent_byte b)" "b < 256" for x b
  proof -
    have "b div 16 < 16" using that(2) by (simp add: less_mult_imp_div_less)
    then show ?thesis
      using that(1) hex [of "b div 16"] hex [of "b mod 16"] by (auto simp: percent_byte_def)
  qed
  have "code_at c div 64 < 4" using code_at_less [of c] by (simp add: less_mult_imp_div_less)
  then have u: "\<forall>b\<in>set (utf8 c). b < 256" by (auto simp: utf8_def)
  have s: "form_safe c \<Longrightarrow> c \<noteq> CHR ''='' \<and> c \<noteq> CHR ''&''"
    by (auto simp: form_safe_def is_digit_def is_lower_def is_upper_def code_at_def)
  show ?thesis using d s u p by (auto simp: form_char_def split: if_splits)
qed

lemma form_encode_clean: "d \<in> set (form_encode s) \<Longrightarrow> d \<noteq> CHR ''='' \<and> d \<noteq> CHR ''&''"
  using form_char_clean by (auto simp: form_encode_def)

text \<open>Parsing what \<open>params_string\<close> wrote gives back the pairs.\<close>

lemma parse_params_string:
  "parse_query (params_string ps) = map (\<lambda>(k, v). (concat (map utf8 k), concat (map utf8 v))) ps"
proof -
  let ?w = "\<lambda>(k, v). form_encode k @ ''='' @ form_encode v"
  have "split_runs (\<lambda>c. c = CHR ''&'') [] (join ''&'' (map ?w ps)) = map ?w ps"
  proof (rule split_runs_join [where d = "CHR ''&''"])
    show "\<forall>w\<in>set (map ?w ps). w \<noteq> [] \<and> (\<forall>c\<in>set w. c \<noteq> CHR ''&'')"
      using form_encode_clean by auto
  qed simp
  moreover have "parse_pair (form_encode k @ ''='' @ form_encode v) =
      (concat (map utf8 k), concat (map utf8 v))" for k v
  proof -
    have "\<forall>c\<in>set (form_encode k). c \<noteq> CHR ''=''" using form_encode_clean by blast
    then have "takeWhile (\<lambda>c. c \<noteq> CHR ''='') (form_encode k @ CHR ''='' # form_encode v) = form_encode k"
      "dropWhile (\<lambda>c. c \<noteq> CHR ''='') (form_encode k @ CHR ''='' # form_encode v) =
        CHR ''='' # form_encode v"
      by (simp_all add: takeWhile_append2 dropWhile_append2)
    then show ?thesis by (simp add: parse_pair_def form_bytes_encode)
  qed
  ultimately show ?thesis
    by (auto simp: parse_query_def params_string_def split_beta)
qed

end
