(* ===== verification/Http_Boundary.thy ===== *)
theory Http_Boundary
  imports Js_Json
begin

text \<open>
  The HTTP boundary (\<^verbatim>\<open>services/boundaries\<close>): the error classes, the mapping of a
  response to a value or an error, and the requests the fetch client sends. The network is a
  parameter: a function from a request and the state of the world to a reply and the next state.
  \<open>ne_random\<close> is the sequence of \<^verbatim>\<open>Math.random()\<close> and \<open>ne_base\<close> the base
  URL the client was built with. A message of an error body that is not a string is kept as its
  text.
\<close>

section \<open>Errors\<close>

datatype error_class = Api | Authentication | Validation | Network | Server | Conflict
  | Not_found | Forbidden

record api_error =
  ae_class :: error_class
  ae_status :: int
  ae_message :: jstring
  ae_code :: "jstring option"

text \<open>A thrown value: an \<^verbatim>\<open>ApiError\<close>, or another \<^verbatim>\<open>Error\<close> with its message.\<close>

datatype exn = ApiExn api_error | JsExn jstring

definition exn_message :: "exn \<Rightarrow> jstring" where
  "exn_message x = (case x of ApiExn a \<Rightarrow> ae_message a | JsExn m \<Rightarrow> m)"

definition ApiError :: "int \<Rightarrow> jstring \<Rightarrow> api_error" where
  "ApiError status message =
     \<lparr>ae_class = Api, ae_status = status, ae_message = message, ae_code = None\<rparr>"

definition AuthenticationError :: "jstring \<Rightarrow> api_error" where
  "AuthenticationError message = \<lparr>ae_class = Authentication, ae_status = 401,
     ae_message = message, ae_code = Some ''AUTH_REQUIRED''\<rparr>"

definition ValidationError :: "jstring \<Rightarrow> api_error" where
  "ValidationError message = \<lparr>ae_class = Validation, ae_status = 400,
     ae_message = message, ae_code = Some ''VALIDATION_ERROR''\<rparr>"

definition NetworkError :: "jstring \<Rightarrow> api_error" where
  "NetworkError message = \<lparr>ae_class = Network, ae_status = 0,
     ae_message = message, ae_code = Some ''NETWORK_ERROR''\<rparr>"

definition ServerError :: "int \<Rightarrow> jstring \<Rightarrow> api_error" where
  "ServerError status message = \<lparr>ae_class = Server, ae_status = status,
     ae_message = message, ae_code = Some ''SERVER_ERROR''\<rparr>"

definition ConflictError :: "jstring \<Rightarrow> api_error" where
  "ConflictError message = \<lparr>ae_class = Conflict, ae_status = 409,
     ae_message = message, ae_code = Some ''CONFLICT''\<rparr>"

definition NotFoundError :: "jstring \<Rightarrow> api_error" where
  "NotFoundError message = \<lparr>ae_class = Not_found, ae_status = 404,
     ae_message = message, ae_code = Some ''NOT_FOUND''\<rparr>"

definition ForbiddenError :: "jstring \<Rightarrow> api_error" where
  "ForbiddenError message = \<lparr>ae_class = Forbidden, ae_status = 403,
     ae_message = message, ae_code = Some ''FORBIDDEN''\<rparr>"

section \<open>Requests and replies\<close>

record http_request =
  hr_method :: jstring
  hr_url :: jstring
  hr_headers :: "(jstring, jstring) js_map"
  hr_body :: "json option"

datatype body = Json json | Bad_json jstring

datatype reply = Reply int jstring body | Fetch_failed jstring

record 's net_env =
  ne_send :: "http_request \<Rightarrow> 's \<Rightarrow> reply \<times> 's"
  ne_random :: "nat \<Rightarrow> rat"
  ne_base :: jstring

section \<open>FetchHttpClient\<close>

definition normalizeBaseUrl :: "jstring option \<Rightarrow> jstring" where
  "normalizeBaseUrl baseUrl =
     (if \<not> truthy baseUrl then ''/api''
      else let trimmed = rev (dropWhile (\<lambda>c. c = CHR ''/'') (rev (the baseUrl)))
        in if 0 < length trimmed then trimmed else ''/api'')"

definition buildUrl :: "jstring \<Rightarrow> jstring \<Rightarrow> jstring" where
  "buildUrl baseUrl endpoint =
     baseUrl @ (if startsWith endpoint ''/'' then endpoint else ''/'' @ endpoint)"

definition error_message :: "int \<Rightarrow> jstring \<Rightarrow> body \<Rightarrow> jstring" where
  "error_message status statusText b =
     (let fallback = int_str status @ '' '' @ str_or (Some statusText) ''Error'' in
      case b of Bad_json _ \<Rightarrow> fallback
      | Json v \<Rightarrow> (case (get_field v ''message'', get_field v ''error'', get_field v ''detail'') of
            (Inr m, Inr e, Inr d) \<Rightarrow>
              if json_truthy m then scalar_text m
              else if json_truthy e then scalar_text e
              else if json_truthy d then scalar_text d
              else ''Request failed''
          | _ \<Rightarrow> fallback))"

definition error_for_status :: "int \<Rightarrow> jstring \<Rightarrow> api_error" where
  "error_for_status status errorMessage =
     (if status = 400 then ValidationError errorMessage
      else if status = 401 then AuthenticationError errorMessage
      else if status = 403 then ForbiddenError errorMessage
      else if status = 404 then NotFoundError errorMessage
      else if status = 409 then ConflictError errorMessage
      else if status \<in> set [500, 502, 503, 504] then ServerError status errorMessage
      else ApiError status errorMessage)"

definition createApiError :: "int \<Rightarrow> jstring \<Rightarrow> body \<Rightarrow> api_error" where
  "createApiError status statusText b =
     error_for_status status (error_message status statusText b)"

text \<open>\<^verbatim>\<open>response.ok\<close> is a status from 200 to 299.\<close>

definition handleResponse :: "reply \<Rightarrow> exn + json" where
  "handleResponse r = (case r of
     Fetch_failed m \<Rightarrow> Inl (JsExn m)
   | Reply status statusText b \<Rightarrow>
       if 200 \<le> status \<and> status \<le> 299 then
         (if status = 204 then Inr (JsObject [])
          else case b of Json v \<Rightarrow> Inr v | Bad_json m \<Rightarrow> Inl (JsExn m))
       else Inl (ApiExn (createApiError status statusText b)))"

definition merge_headers ::
    "(jstring, jstring) js_map \<Rightarrow> (jstring, jstring) js_map \<Rightarrow> (jstring, jstring) js_map" where
  "merge_headers base hs = foldl (\<lambda>m h. map_set (fst h) (snd h) m) base hs"

definition json_headers :: "(jstring, jstring) js_map" where
  "json_headers = [(''Content-Type'', ''application/json'')]"

definition client_get :: "jstring \<Rightarrow> jstring \<Rightarrow> (jstring, jstring) js_map \<Rightarrow> http_request" where
  "client_get base endpoint headers = \<lparr>hr_method = ''GET'', hr_url = buildUrl base endpoint,
     hr_headers = merge_headers json_headers headers, hr_body = None\<rparr>"

definition client_post ::
    "jstring \<Rightarrow> jstring \<Rightarrow> json option \<Rightarrow> (jstring, jstring) js_map \<Rightarrow> http_request" where
  "client_post base endpoint data headers = \<lparr>hr_method = ''POST'', hr_url = buildUrl base endpoint,
     hr_headers = merge_headers json_headers headers, hr_body = (if json_truthy data then data else None)\<rparr>"

definition client_put ::
    "jstring \<Rightarrow> jstring \<Rightarrow> json option \<Rightarrow> (jstring, jstring) js_map \<Rightarrow> http_request" where
  "client_put base endpoint data headers = \<lparr>hr_method = ''PUT'', hr_url = buildUrl base endpoint,
     hr_headers = merge_headers json_headers headers, hr_body = (if json_truthy data then data else None)\<rparr>"

definition client_delete :: "jstring \<Rightarrow> jstring \<Rightarrow> (jstring, jstring) js_map \<Rightarrow> http_request" where
  "client_delete base endpoint headers = \<lparr>hr_method = ''DELETE'', hr_url = buildUrl base endpoint,
     hr_headers = merge_headers json_headers headers, hr_body = None\<rparr>"

definition healthCheck_fetch :: "jstring \<Rightarrow> reply \<Rightarrow> exn + unit" where
  "healthCheck_fetch base r = (case r of
     Fetch_failed m \<Rightarrow> Inl (JsExn m)
   | Reply status _ _ \<Rightarrow> if 200 \<le> status \<and> status \<le> 299 then Inr ()
       else Inl (JsExn ''Health check failed''))"

lemma error_for_status_status [simp]: "ae_status (error_for_status s m) = s"
  by (simp add: error_for_status_def ValidationError_def AuthenticationError_def ForbiddenError_def
      NotFoundError_def ConflictError_def ServerError_def ApiError_def)

lemma error_for_status_auth [simp]: "ae_class (error_for_status s m) = Authentication \<longleftrightarrow> s = 401"
  by (simp add: error_for_status_def ValidationError_def AuthenticationError_def ForbiddenError_def
      NotFoundError_def ConflictError_def ServerError_def ApiError_def)

lemma error_for_status_message [simp]: "ae_message (error_for_status s m) = m"
  by (simp add: error_for_status_def ValidationError_def AuthenticationError_def ForbiddenError_def
      NotFoundError_def ConflictError_def ServerError_def ApiError_def)

lemma map_get_rev: "map_ok m \<Longrightarrow> map_get (rev m) k = map_get m k"
proof -
  assume "map_ok m"
  then have "distinct (map fst m)" "distinct (map fst (rev m))"
    by (simp_all add: map_ok_def rev_map [symmetric])
  then have "map_get (rev m) k = Some v \<longleftrightarrow> map_get m k = Some v" for v
    using map_of_eq_Some_iff [of m k v] map_of_eq_Some_iff [of "rev m" k v]
    by (simp add: map_get_def)
  then show ?thesis by (metis option.exhaust)
qed

lemma merge_headers_get:
  "map_get (merge_headers base hs) k =
   (case map_get (rev hs) k of Some v \<Rightarrow> Some v | None \<Rightarrow> map_get base k)"
proof (induction hs rule: rev_induct)
  case Nil
  then show ?case by (simp add: merge_headers_def map_get_def)
next
  case (snoc h hs)
  then show ?case
    by (cases h) (auto simp: merge_headers_def map_get_def map_get_map_set [unfolded map_get_def]
        split: option.split)
qed

text \<open>
  A response is a value exactly when its status is in the 200s (and, unless it is empty, its
  body parses); every other answer of the server becomes an error that carries that status, of the
  authentication class exactly for 401.
\<close>

theorem handleResponse_classified:
  "(case handleResponse (Reply status txt b) of
      Inr v \<Rightarrow> 200 \<le> status \<and> status \<le> 299 \<and> (status = 204 \<or> b = Json v)
    | Inl (JsExn m) \<Rightarrow> 200 \<le> status \<and> status \<le> 299 \<and> status \<noteq> 204 \<and> b = Bad_json m
    | Inl (ApiExn e) \<Rightarrow> \<not> (200 \<le> status \<and> status \<le> 299) \<and> ae_status e = status \<and>
        (ae_class e = Authentication \<longleftrightarrow> status = 401))"
  by (auto simp: handleResponse_def createApiError_def split: body.split)

end
