(* ===== verification/Auth_Session.thy ===== *)
theory Auth_Session
  imports Js_Collections Js_Chars
begin

text \<open>
  The session kept by \<^verbatim>\<open>services/authService.ts\<close>: the tokens in the session storage, the
  flag of a refresh in flight, and the hash of the token, which the browser computes
  asynchronously: \<open>as_computing\<close> lists the tokens whose hash is being computed, each of which
  may finish at any later time and then overwrites the stored hash.
\<close>

record auth_state =
  as_storage :: "(jstring, jstring) js_map"
  as_local :: "(jstring, jstring) js_map"
  as_refreshing :: bool
  as_hash :: "jstring option"
  as_hash_promise :: "jstring option"
  as_hash_source :: "jstring option"
  as_computing :: "jstring list"

definition getToken :: "auth_state \<Rightarrow> jstring option" where
  "getToken s = map_get (as_storage s) ''auth_token''"

definition scheduleEncryptedTokenHash :: "jstring \<Rightarrow> auth_state \<Rightarrow> auth_state" where
  "scheduleEncryptedTokenHash token s =
     (if token = [] then s
      else if as_hash_source s = Some token \<and> truthy (as_hash s) then s
      else s\<lparr>as_hash_source := Some token, as_hash_promise := Some token,
             as_computing := as_computing s @ [token]\<rparr>)"

definition storeToken :: "jstring \<Rightarrow> jstring option \<Rightarrow> auth_state \<Rightarrow> auth_state" where
  "storeToken token refreshToken s =
     (let s1 = s\<lparr>as_storage := map_set ''auth_token'' token (as_storage s)\<rparr>;
          s2 = (if truthy refreshToken
            then s1\<lparr>as_storage := map_set ''refresh_token'' (the refreshToken) (as_storage s1)\<rparr>
            else s1)
      in scheduleEncryptedTokenHash token s2)"

definition clearToken :: "auth_state \<Rightarrow> auth_state" where
  "clearToken s = s\<lparr>
     as_storage := map_delete ''refresh_token'' (map_delete ''auth_token'' (as_storage s)),
     as_local := map_delete ''plaid_user_id'' (as_local s),
     as_refreshing := False, as_hash := None, as_hash_promise := None, as_hash_source := None\<rparr>"

definition getEncryptedTokenHashSync :: "auth_state \<Rightarrow> jstring option \<times> auth_state" where
  "getEncryptedTokenHashSync s =
     (if truthy (as_hash s) then (as_hash s, s)
      else if \<not> truthy (getToken s) then (None, s)
      else let token = the (getToken s);
               s' = (if as_hash_promise s = None \<or> as_hash_source s \<noteq> Some token
                     then scheduleEncryptedTokenHash token s else s)
        in (as_hash s', s'))"

text \<open>
  \<^verbatim>\<open>ensureEncryptedTokenHash\<close> returns the stored hash or awaits the promise of a
  computation, given as the token it hashes.
\<close>

datatype hash_answer = Hash_value "jstring option" | Await_hash jstring

definition ensureEncryptedTokenHash :: "auth_state \<Rightarrow> hash_answer \<times> auth_state" where
  "ensureEncryptedTokenHash s =
     (if \<not> truthy (getToken s) then (Hash_value None, s)
      else let token = the (getToken s) in
        if truthy (as_hash s) \<and> as_hash_source s = Some token then (Hash_value (as_hash s), s)
        else let s' = (if as_hash_promise s = None \<or> as_hash_source s \<noteq> Some token
                       then scheduleEncryptedTokenHash token s else s)
          in (case as_hash_promise s' of None \<Rightarrow> Hash_value None | Some t \<Rightarrow> Await_hash t, s'))"

text \<open>The completion of a hash: \<open>H\<close> is the digest of the Web Crypto API, \<open>None\<close> on failure.\<close>

definition hash_done :: "(jstring \<Rightarrow> jstring option) \<Rightarrow> jstring \<Rightarrow> auth_state \<Rightarrow> auth_state" where
  "hash_done H token s = (if token \<in> set (as_computing s)
     then s\<lparr>as_computing := remove1 token (as_computing s), as_hash := H token\<rparr> else s)"

definition fresh_session :: auth_state where
  "fresh_session = \<lparr>as_storage = [], as_local = [], as_refreshing = False, as_hash = None,
     as_hash_promise = None, as_hash_source = None, as_computing = []\<rparr>"

section \<open>Runs of a session\<close>

datatype session_event = Store jstring "jstring option" | Clear | Read_hash | Ensure_hash
  | Hash_done jstring

fun session_step :: "(jstring \<Rightarrow> jstring option) \<Rightarrow> auth_state \<Rightarrow> session_event \<Rightarrow> auth_state" where
  "session_step H s (Store t r) = storeToken t r s"
| "session_step H s Clear = clearToken s"
| "session_step H s Read_hash = snd (getEncryptedTokenHashSync s)"
| "session_step H s Ensure_hash = snd (ensureEncryptedTokenHash s)"
| "session_step H s (Hash_done t) = hash_done H t s"

definition session_run :: "(jstring \<Rightarrow> jstring option) \<Rightarrow> session_event list \<Rightarrow> auth_state" where
  "session_run H es = foldl (session_step H) fresh_session es"

fun stored_tokens :: "session_event list \<Rightarrow> jstring list" where
  "stored_tokens [] = []"
| "stored_tokens (Store t r # es) = t # stored_tokens es"
| "stored_tokens (_ # es) = stored_tokens es"

lemma storage_schedule [simp]: "as_storage (scheduleEncryptedTokenHash t s) = as_storage s"
  by (simp add: scheduleEncryptedTokenHash_def)

lemma as_hash_schedule [simp]: "as_hash (scheduleEncryptedTokenHash t s) = as_hash s"
  by (simp add: scheduleEncryptedTokenHash_def)

lemma as_hash_storeToken [simp]: "as_hash (storeToken t r s) = as_hash s"
  by (simp add: storeToken_def Let_def)

lemma getToken_storeToken:
  "map_ok (as_storage s) \<Longrightarrow> getToken (storeToken t r s) = Some t"
  by (simp add: getToken_def storeToken_def Let_def jsmap.get_put jsmap.invar_put)

lemma getToken_clearToken: "map_ok (as_storage s) \<Longrightarrow> getToken (clearToken s) = None"
  by (simp add: getToken_def clearToken_def jsmap.get_remove jsmap.invar_remove)

lemma computing_schedule:
  "set (as_computing (scheduleEncryptedTokenHash t s)) \<subseteq> insert t (set (as_computing s))"
  by (auto simp: scheduleEncryptedTokenHash_def)

definition session_ok :: "(jstring \<Rightarrow> jstring option) \<Rightarrow> jstring set \<Rightarrow> auth_state \<Rightarrow> bool" where
  "session_ok H T s \<longleftrightarrow> map_ok (as_storage s) \<and>
     (\<forall>t. getToken s = Some t \<longrightarrow> t \<in> T) \<and> set (as_computing s) \<subseteq> T \<and>
     (\<forall>h. as_hash s = Some h \<longrightarrow> (\<exists>t\<in>T. H t = Some h))"

lemma session_ok_mono: "session_ok H T s \<Longrightarrow> T \<subseteq> T' \<Longrightarrow> session_ok H T' s"
  unfolding session_ok_def by blast

lemma session_ok_schedule:
  "session_ok H T s \<Longrightarrow> t \<in> T \<Longrightarrow> session_ok H T (scheduleEncryptedTokenHash t s)"
  using computing_schedule [of t s] by (auto simp: session_ok_def getToken_def)

lemma session_step_ok:
  assumes "session_ok H T s"
  shows "session_ok H (T \<union> set (stored_tokens [e])) (session_step H s e)"
proof (cases e)
  case (Store t r)
  have "map_ok (as_storage (storeToken t r s))"
    using assms by (simp add: storeToken_def Let_def session_ok_def jsmap.invar_put)
  moreover have "set (as_computing (storeToken t r s)) \<subseteq> insert t (set (as_computing s))"
    unfolding storeToken_def Let_def by (rule order_trans [OF computing_schedule]) auto
  ultimately show ?thesis
    using assms Store getToken_storeToken [of s t r] by (auto simp: session_ok_def)
next
  case Clear
  then show ?thesis
    using assms getToken_clearToken [of s]
    by (auto simp: session_ok_def clearToken_def jsmap.invar_remove)
next
  case Read_hash
  then show ?thesis
    using assms session_ok_schedule [OF assms, of "the (getToken s)"]
    by (auto simp: getEncryptedTokenHashSync_def Let_def truthy_def session_ok_def
        split: option.splits)
next
  case Ensure_hash
  then show ?thesis
    using assms session_ok_schedule [OF assms, of "the (getToken s)"]
    by (auto simp: ensureEncryptedTokenHash_def Let_def truthy_def session_ok_def
        split: option.splits)
next
  case (Hash_done t)
  then show ?thesis
    using assms set_remove1_subset [of t "as_computing s"]
    by (auto simp: hash_done_def session_ok_def getToken_def)
qed

lemma session_run_ok: "session_ok H (set (stored_tokens es)) (session_run H es)"
proof (induction es rule: rev_induct)
  case Nil
  then show ?case
    by (simp add: session_run_def fresh_session_def session_ok_def map_ok_def getToken_def map_get_def)
next
  case (snoc e es)
  have "set (stored_tokens (es @ [e])) = set (stored_tokens es) \<union> set (stored_tokens [e])"
    by (induction es rule: stored_tokens.induct) auto
  then show ?case using session_step_ok [OF snoc] by (simp add: session_run_def)
qed

text \<open>
  In every run of a session the stored hash is the digest of a token that was stored in that
  run, and the current token is one of them; clearing the session leaves no token and no hash.
\<close>

theorem session_hash_origin:
  "(\<forall>h. as_hash (session_run H es) = Some h \<longrightarrow> (\<exists>t\<in>set (stored_tokens es). H t = Some h)) \<and>
   (\<forall>t. getToken (session_run H es) = Some t \<longrightarrow> t \<in> set (stored_tokens es)) \<and>
   getToken (session_run H (es @ [Clear])) = None \<and> as_hash (session_run H (es @ [Clear])) = None"
proof -
  have "map_ok (as_storage (session_run H es))"
    using session_run_ok [of H es] by (simp add: session_ok_def)
  then have "getToken (session_run H (es @ [Clear])) = None \<and> as_hash (session_run H (es @ [Clear])) = None"
    using getToken_clearToken by (simp add: session_run_def) (simp add: clearToken_def)
  then show ?thesis using session_run_ok [of H es] unfolding session_ok_def by blast
qed

theorem session_hash_origin_witness:
  "as_hash (session_run (\<lambda>t. Some (''#'' @ t)) [Store ''a'' None, Hash_done ''a'']) = Some ''#a'' \<and>
   (\<exists>t\<in>set (stored_tokens [Store ''a'' None, Hash_done ''a'']). Some (''#'' @ t) = Some ''#a'')"
proof -
  have "as_hash (session_run (\<lambda>t. Some (''#'' @ t)) [Store ''a'' None, Hash_done ''a'']) = Some ''#a''"
    by (simp add: session_run_def fresh_session_def storeToken_def scheduleEncryptedTokenHash_def
        hash_done_def truthy_def)
  then show ?thesis
    using session_hash_origin [of "\<lambda>t. Some (''#'' @ t)" "[Store ''a'' None, Hash_done ''a'']"] by blast
qed

text \<open>
  A hash that is still being computed when the session is cleared is stored when it finishes:
  the session then reports a hash although it holds no token. Likewise a new token does not
  invalidate the stored hash, which is reported for it until its own hash is ready.
\<close>

theorem stale_hash_after_clear:
  assumes "t \<in> set (as_computing s)" and "map_ok (as_storage s)" and "H t = Some h" and "h \<noteq> []"
  shows "getToken (hash_done H t (clearToken s)) = None \<and>
    fst (getEncryptedTokenHashSync (hash_done H t (clearToken s))) = Some h \<and>
    (as_hash s' = Some h \<longrightarrow> fst (getEncryptedTokenHashSync (storeToken t' r s')) = Some h)"
proof -
  have "as_computing (clearToken s) = as_computing s" by (simp add: clearToken_def)
  then have "getToken (hash_done H t (clearToken s)) = None"
    "as_hash (hash_done H t (clearToken s)) = Some h"
    using assms getToken_clearToken [of s] by (simp_all add: hash_done_def getToken_def)
  then show ?thesis
    using assms(4) by (simp add: getEncryptedTokenHashSync_def truthy_def)
qed

theorem stale_hash_after_clear_witness:
  "fst (getEncryptedTokenHashSync (hash_done Some ''a'' (clearToken (storeToken ''a'' None fresh_session)))) =
   Some ''a''"
  using stale_hash_after_clear [of "''a''" "storeToken ''a'' None fresh_session" Some "''a''"]
  by (simp add: fresh_session_def storeToken_def scheduleEncryptedTokenHash_def truthy_def map_ok_def)

end
