(* ===== verification/Api_Client.thy ===== *)
theory Api_Client
  imports Http_Boundary Auth_Session
begin

text \<open>
  The API client (\<^verbatim>\<open>services/ApiClient.ts\<close>): one request with its retries and its
  refresh of the session after a 401. The client's state is the session, the state of the network
  and two traces: the requests sent and the delays slept. Requests run one at a time, so no other
  refresh is in flight when one starts.
\<close>

record 's client =
  cl_auth :: auth_state
  cl_net :: 's
  cl_sent :: "http_request list"
  cl_slept :: "int list"

record RetryConfig =
  rc_maxRetries :: nat
  rc_baseDelay :: rat
  rc_maxDelay :: rat
  rc_retryableStatuses :: "int list"
  rc_retryableErrors :: "jstring list"

definition retryConfig :: RetryConfig where
  "retryConfig = \<lparr>rc_maxRetries = 3, rc_baseDelay = 1000, rc_maxDelay = 5000,
     rc_retryableStatuses = [502, 503, 504, 429],
     rc_retryableErrors = [''Failed to fetch'', ''Request timeout'', ''The operation was aborted'',
       ''DNS resolution failed'', ''Network error'', ''Connection reset'', ''Request aborted'']\<rparr>"

definition setTestMaxRetries :: "jstring \<Rightarrow> rat \<Rightarrow> RetryConfig \<Rightarrow> RetryConfig" where
  "setTestMaxRetries node_env maxRetries C =
     (if node_env = ''test'' then C\<lparr>rc_maxRetries := nat (max 0 \<lfloor>maxRetries\<rfloor>)\<rparr> else C)"

definition isRetryableError :: "RetryConfig \<Rightarrow> exn \<Rightarrow> bool" where
  "isRetryableError C e \<longleftrightarrow> list_ex
     (\<lambda>m. str_includes (toLowerCase (exn_message e)) (toLowerCase m)) (rc_retryableErrors C)"

definition isRetryableStatus :: "RetryConfig \<Rightarrow> int \<Rightarrow> bool" where
  "isRetryableStatus C status \<longleftrightarrow> status \<in> set (rc_retryableStatuses C)"

definition calculateBackoffDelay :: "RetryConfig \<Rightarrow> rat \<Rightarrow> nat \<Rightarrow> int" where
  "calculateBackoffDelay C random attempt =
     (let exponentialDelay = min (rc_baseDelay C * 2 ^ attempt) (rc_maxDelay C);
          jitter = random * (3 / 10) * exponentialDelay
      in \<lfloor>exponentialDelay + jitter\<rfloor>)"

record request_options =
  ro_method :: "jstring option"
  ro_headers :: "(jstring, jstring) js_map"
  ro_body :: "json option"

definition dispatch ::
    "jstring \<Rightarrow> jstring \<Rightarrow> request_options \<Rightarrow> exn + http_request" where
  "dispatch base endpoint op =
     (let method = toUpperCase (str_or (ro_method op) ''GET'') in
      if method = ''GET'' then Inr (client_get base endpoint (ro_headers op))
      else if method = ''POST'' then Inr (client_post base endpoint (ro_body op) (ro_headers op))
      else if method = ''PUT'' then Inr (client_put base endpoint (ro_body op) (ro_headers op))
      else if method = ''DELETE'' then Inr (client_delete base endpoint (ro_headers op))
      else Inl (JsExn (''Unsupported HTTP method: '' @ method)))"

definition makeRawRequest ::
    "'s net_env \<Rightarrow> jstring \<Rightarrow> request_options \<Rightarrow> 's client \<Rightarrow> (exn + json) \<times> 's client" where
  "makeRawRequest N endpoint op st = (case dispatch (ne_base N) endpoint op of
     Inl e \<Rightarrow> (Inl e, st)
   | Inr rq \<Rightarrow> (case ne_send N rq (cl_net st) of (r, w) \<Rightarrow>
       (handleResponse r, st\<lparr>cl_net := w, cl_sent := cl_sent st @ [rq]\<rparr>)))"

definition bearer :: "jstring \<Rightarrow> jstring" where
  "bearer token = ''Bearer '' @ token"

definition request_headers ::
    "jstring option \<Rightarrow> (jstring, jstring) js_map \<Rightarrow> (jstring, jstring) js_map" where
  "request_headers token hs =
     (let h = merge_headers json_headers hs in
      if truthy token then map_set ''Authorization'' (bearer (the token)) h else h)"

definition send_request ::
    "'s net_env \<Rightarrow> jstring \<Rightarrow> request_options \<Rightarrow> 's client \<Rightarrow> (exn + json) \<times> 's client" where
  "send_request N endpoint op st = makeRawRequest N endpoint
     (op\<lparr>ro_headers := request_headers (getToken (cl_auth st)) (ro_headers op)\<rparr>) st"

definition is_auth_error :: "exn \<Rightarrow> bool" where
  "is_auth_error e \<longleftrightarrow> (case e of ApiExn a \<Rightarrow> ae_class a = Authentication | JsExn _ \<Rightarrow> False)"

definition retryable :: "RetryConfig \<Rightarrow> exn \<Rightarrow> bool" where
  "retryable C e \<longleftrightarrow>
     (case e of ApiExn a \<Rightarrow> isRetryableStatus C (ae_status a) | JsExn _ \<Rightarrow> False) \<or>
     isRetryableError C e"

definition rethrown :: "RetryConfig \<Rightarrow> exn \<Rightarrow> exn" where
  "rethrown C e = (case e of ApiExn _ \<Rightarrow> e
     | JsExn m \<Rightarrow> if isRetryableError C e then ApiExn (NetworkError m) else e)"

definition sleep :: "RetryConfig \<Rightarrow> 's net_env \<Rightarrow> nat \<Rightarrow> 's client \<Rightarrow> 's client" where
  "sleep C N attempt st = st\<lparr>cl_slept := cl_slept st @
     [calculateBackoffDelay C (ne_random N (length (cl_slept st))) attempt]\<rparr>"

definition auth_required :: exn where
  "auth_required = ApiExn (AuthenticationError ''Authentication required'')"

definition clear_session :: "'s client \<Rightarrow> 's client" where
  "clear_session st = st\<lparr>cl_auth := clearToken (cl_auth st)\<rparr>"

definition post_options :: "json option \<Rightarrow> request_options" where
  "post_options data = \<lparr>ro_method = Some ''POST'', ro_headers = [], ro_body = data\<rparr>"

definition set_refreshing :: "bool \<Rightarrow> 's client \<Rightarrow> 's client" where
  "set_refreshing b st = st\<lparr>cl_auth := (cl_auth st)\<lparr>as_refreshing := b\<rparr>\<rparr>"

text \<open>\<^verbatim>\<open>refreshResult.token\<close>; reading it throws on a \<^verbatim>\<open>null\<close> body.\<close>

definition refreshed_token :: "json \<Rightarrow> jstring option" where
  "refreshed_token v = (case get_field v ''token'' of Inl _ \<Rightarrow> None | Inr t \<Rightarrow> Some (scalar_text t))"

text \<open>The end of a refresh that returned \<open>token\<close>, up to the retry of the request.\<close>

definition store_refreshed :: "jstring \<Rightarrow> 's client \<Rightarrow> 's client" where
  "store_refreshed token st = st\<lparr>cl_auth := storeToken token None
     ((scheduleEncryptedTokenHash token (cl_auth st))\<lparr>as_refreshing := False\<rparr>)\<rparr>"

text \<open>
  A request, its retries with backoff and the refresh after a 401 at the first attempt. The
  retried request starts again at attempt 0, so nothing bounds the refreshes: \<open>None\<close> is a
  request that never settles. The retry is returned without \<^verbatim>\<open>await\<close>, so its errors pass
  the handler that clears the session.
\<close>

partial_function (option) makeRequestWithRetry ::
    "RetryConfig \<Rightarrow> 's net_env \<Rightarrow> jstring \<Rightarrow> request_options \<Rightarrow> nat \<Rightarrow> 's client \<Rightarrow>
     ((exn + json) \<times> 's client) option" where
  "makeRequestWithRetry C N endpoint op attempt st =
     (case send_request N endpoint op st of
        (Inr v, st1) \<Rightarrow> Some (Inr v, st1)
      | (Inl e, st1) \<Rightarrow>
          if is_auth_error e \<and> attempt = 0 then
            (if endpoint = ''/auth/refresh'' \<or> \<not> truthy (getToken (cl_auth st1))
             then Some (Inl auth_required, clear_session st1)
             else Option.bind
               (makeRequestWithRetry C N ''/auth/refresh'' (post_options None) 0
                  (set_refreshing True st1))
               (\<lambda>(r, st2). case (case r of Inl _ \<Rightarrow> None | Inr v \<Rightarrow> refreshed_token v) of
                  None \<Rightarrow> Some (Inl auth_required, clear_session (set_refreshing False st2))
                | Some token \<Rightarrow> makeRequestWithRetry C N endpoint
                    (op\<lparr>ro_headers := map_set ''Authorization'' (bearer token) (ro_headers op)\<rparr>)
                    0 (store_refreshed token st2)))
          else if retryable C e \<and> attempt < rc_maxRetries C
          then makeRequestWithRetry C N endpoint op (Suc attempt) (sleep C N attempt st1)
          else Some (Inl (rethrown C e), st1))"

definition makeRequest ::
    "RetryConfig \<Rightarrow> 's net_env \<Rightarrow> jstring \<Rightarrow> request_options \<Rightarrow> 's client \<Rightarrow>
     ((exn + json) \<times> 's client) option" where
  "makeRequest C N endpoint op st = makeRequestWithRetry C N endpoint op 0 st"

definition api_get where
  "api_get C N endpoint st = makeRequest C N endpoint
     \<lparr>ro_method = Some ''GET'', ro_headers = [], ro_body = None\<rparr> st"

definition api_post where
  "api_post C N endpoint data st = makeRequest C N endpoint (post_options data) st"

definition api_put where
  "api_put C N endpoint data st = makeRequest C N endpoint
     \<lparr>ro_method = Some ''PUT'', ro_headers = [], ro_body = data\<rparr> st"

definition api_delete where
  "api_delete C N endpoint st = makeRequest C N endpoint
     \<lparr>ro_method = Some ''DELETE'', ro_headers = [], ro_body = None\<rparr> st"

definition api_healthCheck :: "'s net_env \<Rightarrow> 's client \<Rightarrow> (exn + jstring) \<times> 's client" where
  "api_healthCheck N st =
     (case makeRawRequest N ''/health'' \<lparr>ro_method = None, ro_headers = [], ro_body = None\<rparr> st of
        (Inr (JsString s), st1) \<Rightarrow> (Inr s, st1)
      | (Inr _, st1) \<Rightarrow> (Inr ''OK'', st1)
      | (Inl (ApiExn a), st1) \<Rightarrow> (Inl (ApiExn a), st1)
      | (Inl (JsExn _), st1) \<Rightarrow> (Inl (ApiExn (ApiError 0 ''Health check failed'')), st1))"

section \<open>AuthService over the client\<close>

definition map_error :: "(exn \<Rightarrow> exn) \<Rightarrow> ((exn + 'a) \<times> 'b) option \<Rightarrow> ((exn + 'a) \<times> 'b) option" where
  "map_error f r = map_option (\<lambda>(x, st). (case x of Inl e \<Rightarrow> Inl (f e) | Inr v \<Rightarrow> Inr v, st)) r"

definition credentials :: "jstring \<Rightarrow> jstring \<Rightarrow> json" where
  "credentials email password =
     JsObject [(''email'', JsString email), (''password'', JsString password)]"

definition login_error :: "exn \<Rightarrow> exn" where
  "login_error e = (if is_auth_error e then JsExn ''Invalid email or password''
     else if str_includes (exn_message e) ''500'' then JsExn ''Server error. Please try again later.''
     else e)"

definition login where
  "login C N email password st =
     map_error login_error (api_post C N ''/auth/login'' (Some (credentials email password)) st)"

definition register_error :: "exn \<Rightarrow> exn" where
  "register_error e =
     (if str_includes (exn_message e) ''409'' then JsExn ''Email already exists''
      else if str_includes (exn_message e) ''400'' then JsExn ''Invalid registration data''
      else e)"

definition register where
  "register C N email password st =
     map_error register_error (api_post C N ''/auth/register'' (Some (credentials email password)) st)"

definition logout where
  "logout C N st =
     map_option (\<lambda>(r, st1). (r, clear_session st1)) (api_post C N ''/auth/logout'' None st)"

definition validateSession ::
    "RetryConfig \<Rightarrow> 's net_env \<Rightarrow> 's client \<Rightarrow> (bool \<times> 's client) option" where
  "validateSession C N st =
     (if \<not> truthy (getToken (cl_auth st)) then Some (False, st)
      else map_option (\<lambda>(r, st1). case r of
          Inr _ \<Rightarrow> (True, st1)
        | Inl e \<Rightarrow> (False, if str_includes (exn_message e) ''401'' then clear_session st1 else st1))
        (api_get C N ''/providers/status'' st))"

definition completeOnboarding where
  "completeOnboarding C N st = api_put C N ''/auth/onboarding/complete'' None st"

declare makeRequestWithRetry.simps [code]

section \<open>Settling\<close>

lemma handleResponse_auth:
  "handleResponse r = Inl e \<Longrightarrow> is_auth_error e \<Longrightarrow> \<exists>m b. r = Reply 401 m b"
  by (cases r) (auto simp: handleResponse_def is_auth_error_def createApiError_def
      split: body.splits if_splits)

lemma send_request_cases:
  obtains (refused) e where "dispatch (ne_base N) endpoint
      (op\<lparr>ro_headers := request_headers (getToken (cl_auth st)) (ro_headers op)\<rparr>) = Inl (JsExn e)"
    "send_request N endpoint op st = (Inl (JsExn e), st)"
  | (sent) rq r w where "dispatch (ne_base N) endpoint
      (op\<lparr>ro_headers := request_headers (getToken (cl_auth st)) (ro_headers op)\<rparr>) = Inr rq"
    "ne_send N rq (cl_net st) = (r, w)"
    "send_request N endpoint op st =
       (handleResponse r, st\<lparr>cl_net := w, cl_sent := cl_sent st @ [rq]\<rparr>)"
  by (cases "dispatch (ne_base N) endpoint
      (op\<lparr>ro_headers := request_headers (getToken (cl_auth st)) (ro_headers op)\<rparr>)";
      cases "ne_send N (projr (dispatch (ne_base N) endpoint
      (op\<lparr>ro_headers := request_headers (getToken (cl_auth st)) (ro_headers op)\<rparr>))) (cl_net st)")
    (auto simp: send_request_def makeRawRequest_def dispatch_def Let_def split: if_splits)

lemma dispatch_url: "dispatch base ep op = Inr rq \<Longrightarrow> hr_url rq = buildUrl base ep"
  by (auto simp: dispatch_def Let_def client_get_def client_post_def client_put_def
      client_delete_def split: if_splits)

lemma send_request_value:
  assumes "send_request N endpoint op st = (Inr v, st1)"
  shows "\<exists>rq w. hr_url rq = buildUrl (ne_base N) endpoint \<and> handleResponse (fst (ne_send N rq w)) = Inr v"
proof (rule send_request_cases [where N = N and endpoint = endpoint and op = op and st = st])
  fix m assume "send_request N endpoint op st = (Inl (JsExn m), st)"
  then show ?thesis using assms by simp
next
  fix rq r w
  assume "dispatch (ne_base N) endpoint
      (op\<lparr>ro_headers := request_headers (getToken (cl_auth st)) (ro_headers op)\<rparr>) = Inr rq"
    "ne_send N rq (cl_net st) = (r, w)"
    "send_request N endpoint op st = (handleResponse r, st\<lparr>cl_net := w, cl_sent := cl_sent st @ [rq]\<rparr>)"
  then have "hr_url rq = buildUrl (ne_base N) endpoint \<and>
      handleResponse (fst (ne_send N rq (cl_net st))) = Inr v"
    using assms dispatch_url by simp
  then show ?thesis by blast
qed

lemma send_request_state:
  assumes "send_request N endpoint op st = (r, st1)"
  shows "cl_auth st1 = cl_auth st \<and> cl_slept st1 = cl_slept st \<and>
    length (cl_sent st1) \<le> Suc (length (cl_sent st))"
  by (rule send_request_cases [where N = N and endpoint = endpoint and op = op and st = st])
    (use assms in auto)

definition sends_to :: "'s net_env \<Rightarrow> jstring \<Rightarrow> nat \<Rightarrow> 's client \<Rightarrow> http_request list \<Rightarrow> 's client \<Rightarrow> bool" where
  "sends_to N endpoint k st sent st' \<longleftrightarrow> cl_sent st' = cl_sent st @ sent \<and> length sent \<le> k \<and>
     (\<forall>rq \<in> set sent. hr_url rq = buildUrl (ne_base N) endpoint)"

lemma send_request_sends:
  assumes "send_request N endpoint op st = (r, st1)"
  shows "\<exists>sent. sends_to N endpoint 1 st sent st1"
proof (rule send_request_cases [where N = N and endpoint = endpoint and op = op and st = st])
  fix m assume "send_request N endpoint op st = (Inl (JsExn m), st)"
  then have "sends_to N endpoint 1 st [] st1" using assms by (simp add: sends_to_def)
  then show ?thesis by blast
next
  fix rq a w
  assume "dispatch (ne_base N) endpoint
      (op\<lparr>ro_headers := request_headers (getToken (cl_auth st)) (ro_headers op)\<rparr>) = Inr rq"
    "send_request N endpoint op st = (handleResponse a, st\<lparr>cl_net := w, cl_sent := cl_sent st @ [rq]\<rparr>)"
  then have "sends_to N endpoint 1 st [rq] st1" using assms by (auto simp: sends_to_def dest: dispatch_url)
  then show ?thesis by blast
qed

text \<open>The steps of a request, one per branch.\<close>

lemma request_done:
  "send_request N ep op st = (Inr v, st1) \<Longrightarrow>
   makeRequestWithRetry C N ep op a st = Some (Inr v, st1)"
  by (subst makeRequestWithRetry.simps) simp

lemma request_retry:
  "send_request N ep op st = (Inl e, st1) \<Longrightarrow> \<not> (is_auth_error e \<and> a = 0) \<Longrightarrow>
   retryable C e \<Longrightarrow> a < rc_maxRetries C \<Longrightarrow>
   makeRequestWithRetry C N ep op a st =
   makeRequestWithRetry C N ep op (Suc a) (sleep C N a st1)"
  by (subst makeRequestWithRetry.simps) (simp only: prod.case sum.case if_False if_True simp_thms)

lemma request_fail:
  "send_request N ep op st = (Inl e, st1) \<Longrightarrow> \<not> (is_auth_error e \<and> a = 0) \<Longrightarrow>
   \<not> (retryable C e \<and> a < rc_maxRetries C) \<Longrightarrow>
   makeRequestWithRetry C N ep op a st = Some (Inl (rethrown C e), st1)"
  by (subst makeRequestWithRetry.simps) (simp only: prod.case sum.case if_False)

lemma request_no_refresh:
  "send_request N ep op st = (Inl e, st1) \<Longrightarrow> is_auth_error e \<Longrightarrow>
   ep = ''/auth/refresh'' \<or> \<not> truthy (getToken (cl_auth st1)) \<Longrightarrow>
   makeRequestWithRetry C N ep op 0 st = Some (Inl auth_required, clear_session st1)"
  by (subst makeRequestWithRetry.simps) simp

definition after_refresh ::
    "RetryConfig \<Rightarrow> 's net_env \<Rightarrow> jstring \<Rightarrow> request_options \<Rightarrow> (exn + json) \<times> 's client \<Rightarrow>
     ((exn + json) \<times> 's client) option" where
  "after_refresh C N endpoint op = (\<lambda>(r, st2).
     case (case r of Inl _ \<Rightarrow> None | Inr v \<Rightarrow> refreshed_token v) of
       None \<Rightarrow> Some (Inl auth_required, clear_session (set_refreshing False st2))
     | Some token \<Rightarrow> makeRequestWithRetry C N endpoint
         (op\<lparr>ro_headers := map_set ''Authorization'' (bearer token) (ro_headers op)\<rparr>)
         0 (store_refreshed token st2))"

lemma request_refresh:
  "send_request N ep op st = (Inl e, st1) \<Longrightarrow> is_auth_error e \<Longrightarrow> ep \<noteq> ''/auth/refresh'' \<Longrightarrow>
   truthy (getToken (cl_auth st1)) \<Longrightarrow>
   makeRequestWithRetry C N ep op 0 st =
   Option.bind (makeRequestWithRetry C N ''/auth/refresh'' (post_options None) 0 (set_refreshing True st1))
     (after_refresh C N ep op)"
  unfolding after_refresh_def by (subst makeRequestWithRetry.simps) simp

text \<open>An attempt that meets no 401, or may not refresh, settles within the retries left.\<close>

lemma settles:
  assumes "0 < a \<or> endpoint = ''/auth/refresh'' \<or>
    (\<forall>e st1. send_request N endpoint op st = (Inl e, st1) \<longrightarrow> \<not> is_auth_error e)"
  shows "\<exists>r st' sent. makeRequestWithRetry C N endpoint op a st = Some (r, st') \<and>
    sends_to N endpoint (rc_maxRetries C - a + 1) st sent st' \<and>
    length (cl_slept st') \<le> length (cl_slept st) + (rc_maxRetries C - a) \<and>
    (\<forall>v. r = Inr v \<longrightarrow> (\<exists>rq w. hr_url rq = buildUrl (ne_base N) endpoint \<and>
       handleResponse (fst (ne_send N rq w)) = Inr v))"
  using assms
proof (induction "rc_maxRetries C - a" arbitrary: a st rule: less_induct)
  case less
  obtain x st1 where s: "send_request N endpoint op st = (x, st1)" by force
  note c = send_request_state [OF s]
  obtain sent1 where t: "sends_to N endpoint 1 st sent1 st1" using send_request_sends [OF s] by blast
  have t1: "sends_to N endpoint (rc_maxRetries C - a + 1) st sent1 st1" using t by (simp add: sends_to_def)
  show ?case
  proof (cases x)
    case (Inr v)
    then show ?thesis
      using request_done [of N endpoint op st v st1 C a] s c t1 send_request_value by fastforce
  next
    case (Inl e)
    consider (refresh) "is_auth_error e" "a = 0"
      | (retry) "\<not> (is_auth_error e \<and> a = 0)" "retryable C e" "a < rc_maxRetries C"
      | (fail) "\<not> (is_auth_error e \<and> a = 0)" "\<not> (retryable C e \<and> a < rc_maxRetries C)" by blast
    then show ?thesis
    proof cases
      case refresh
      then have "endpoint = ''/auth/refresh''" using less.prems s Inl by blast
      moreover have "sends_to N endpoint (rc_maxRetries C - a + 1) st sent1 (clear_session st1)"
        using t1 by (simp add: sends_to_def clear_session_def)
      ultimately show ?thesis
        using request_no_refresh [of N endpoint op st e st1 C] s Inl c refresh
        by (auto simp: clear_session_def)
    next
      case retry
      have "rc_maxRetries C - Suc a < rc_maxRetries C - a" using retry(3) by simp
      from less.hyps [OF this, of "sleep C N a st1"]
      obtain r st' sent where i: "makeRequestWithRetry C N endpoint op (Suc a) (sleep C N a st1) = Some (r, st')"
        "sends_to N endpoint (rc_maxRetries C - Suc a + 1) (sleep C N a st1) sent st'"
        "length (cl_slept st') \<le> length (cl_slept (sleep C N a st1)) + (rc_maxRetries C - Suc a)"
        "\<forall>v. r = Inr v \<longrightarrow> (\<exists>rq w. hr_url rq = buildUrl (ne_base N) endpoint \<and>
           handleResponse (fst (ne_send N rq w)) = Inr v)"
        by blast
      have "makeRequestWithRetry C N endpoint op a st = Some (r, st')"
        using request_retry [OF s [unfolded Inl] retry] i(1) by (rule trans)
      moreover have "sends_to N endpoint (rc_maxRetries C - a + 1) st (sent1 @ sent) st'"
        using i(2) t retry(3) by (auto simp: sends_to_def sleep_def)
      moreover have "length (cl_slept st') \<le> length (cl_slept st) + (rc_maxRetries C - a)"
        using i(3) c retry(3) unfolding sleep_def by simp
      ultimately show ?thesis using i(4) by blast
    next
      case fail
      show ?thesis using request_fail [OF s [unfolded Inl] fail] c t1 by auto
    qed
  qed
qed

text \<open>
  C4. The requests of one call are bounded: when its first answer is not a 401 (or it is the
  refresh itself) it settles after at most \<open>maxRetries\<close> repetitions, each after one delay, and
  a refresh never triggers another refresh. A value it returns is the body of an answer to that
  endpoint.
\<close>

theorem request_settles:
  assumes "endpoint = ''/auth/refresh'' \<or>
    (\<forall>m b. fst (send_request N endpoint op st) \<noteq> handleResponse (Reply 401 m b))"
  shows "\<exists>r st'. makeRequest C N endpoint op st = Some (r, st') \<and>
    length (cl_sent st') \<le> length (cl_sent st) + rc_maxRetries C + 1 \<and>
    length (cl_slept st') \<le> length (cl_slept st) + rc_maxRetries C \<and>
    (\<forall>v. r = Inr v \<longrightarrow> (\<exists>rq w. hr_url rq = buildUrl (ne_base N) endpoint \<and>
       handleResponse (fst (ne_send N rq w)) = Inr v))"
proof -
  have "\<not> is_auth_error e" if "send_request N endpoint op st = (Inl e, st1)"
    "endpoint \<noteq> ''/auth/refresh''" for e st1
  proof (rule send_request_cases [where N = N and endpoint = endpoint and op = op and st = st])
    fix m assume "send_request N endpoint op st = (Inl (JsExn m), st)"
    then show ?thesis using that by (simp add: is_auth_error_def)
  next
    fix rq r w
    assume "send_request N endpoint op st =
      (handleResponse r, st\<lparr>cl_net := w, cl_sent := cl_sent st @ [rq]\<rparr>)"
    then have "handleResponse r = Inl e" "\<forall>m b. handleResponse r \<noteq> handleResponse (Reply 401 m b)"
      using that assms by auto
    then show ?thesis using handleResponse_auth by blast
  qed
  then have "0 < (0 :: nat) \<or> endpoint = ''/auth/refresh'' \<or>
      (\<forall>e st1. send_request N endpoint op st = (Inl e, st1) \<longrightarrow> \<not> is_auth_error e)" by blast
  from settles [OF this, of C] show ?thesis
    unfolding makeRequest_def diff_zero sends_to_def by fastforce
qed


definition quiet_net :: "reply \<Rightarrow> unit net_env" where
  "quiet_net r = \<lparr>ne_send = (\<lambda>_ w. (r, w)), ne_random = (\<lambda>_. 0), ne_base = ''/api''\<rparr>"

definition new_client :: "'s \<Rightarrow> 's client" where
  "new_client w = \<lparr>cl_auth = fresh_session, cl_net = w, cl_sent = [], cl_slept = []\<rparr>"

theorem request_settles_witness:
  "\<exists>r st'. makeRequest retryConfig (quiet_net (Fetch_failed ''Failed to fetch'')) ''/auth/refresh''
     (post_options None) (new_client ()) = Some (r, st') \<and> length (cl_sent st') \<le> 4"
proof -
  let ?N = "quiet_net (Fetch_failed ''Failed to fetch'')"
  obtain r st' where "makeRequest retryConfig ?N ''/auth/refresh'' (post_options None)
      (new_client ()) = Some (r, st')"
    "length (cl_sent st') \<le> length (cl_sent (new_client ())) + rc_maxRetries retryConfig + 1"
    using request_settles [of "''/auth/refresh''" ?N "post_options None" "new_client ()" retryConfig]
    by blast
  then show ?thesis by (simp add: new_client_def retryConfig_def)
qed

text \<open>
  The delay before repetition \<open>a\<close> is at least \<open>min (1000 * 2 ^ a) 5000\<close> milliseconds and
  less than 30 percent above it.
\<close>

theorem backoff_bounds:
  assumes "0 \<le> r" "r < 1"
  shows "min (1000 * 2 ^ a) 5000 \<le> calculateBackoffDelay retryConfig r a \<and>
    10 * calculateBackoffDelay retryConfig r a < 13 * min (1000 * 2 ^ a) 5000"
proof -
  define e :: int where "e = min (1000 * 2 ^ a) 5000"
  have "(1000 * 2 ^ a \<le> (5000 :: rat)) = (1000 * 2 ^ a \<le> (5000 :: int))"
    using of_int_le_iff [of "1000 * 2 ^ a" 5000, where ?'a = rat] by simp
  then have e: "min (1000 * 2 ^ a) 5000 = (of_int e :: rat)"
    unfolding e_def min_def by (cases "1000 * 2 ^ a \<le> (5000 :: int)") simp_all
  have pos: "0 < e" by (simp add: e_def)
  have j: "0 \<le> r * (3 / 10) * of_int e" "10 * (r * (3 / 10) * of_int e) < 3 * (of_int e :: rat)"
    using assms pos by (simp_all add: mult_less_cancel_right)
  have d: "calculateBackoffDelay retryConfig r a = \<lfloor>of_int e + r * (3 / 10) * of_int e\<rfloor>"
    by (simp add: calculateBackoffDelay_def retryConfig_def Let_def e)
  have "of_int (10 * \<lfloor>of_int e + r * (3 / 10) * of_int e\<rfloor>) < (of_int (13 * e) :: rat)"
    using j(2) of_int_floor_le [of "of_int e + r * (3 / 10) * of_int e"] by simp
  then show ?thesis using j(1) unfolding d e_def [symmetric] of_int_less_iff
    by (simp add: le_floor_iff)
qed

theorem backoff_bounds_witness: "1000 \<le> calculateBackoffDelay retryConfig (1 / 2) 0"
  using backoff_bounds [of "1 / 2" 0] by simp

lemma bearer_sent:
  assumes "getToken (cl_auth st) = Some t" "t \<noteq> []"
  shows "\<exists>r w. fst (send_request N endpoint op st) = Inl (JsExn r) \<or>
    (\<exists>rq. map_get (hr_headers rq) ''Authorization'' = Some (bearer t) \<and>
       fst (send_request N endpoint op st) = handleResponse (fst (ne_send N rq w)))"
proof (rule send_request_cases [where N = N and endpoint = endpoint and op = op and st = st])
  fix m assume "send_request N endpoint op st = (Inl (JsExn m), st)"
  then show ?thesis by simp
next
  let ?h = "request_headers (getToken (cl_auth st)) (ro_headers op)"
  fix rq r w
  assume d: "dispatch (ne_base N) endpoint (op\<lparr>ro_headers := ?h\<rparr>) = Inr rq"
    and s: "ne_send N rq (cl_net st) = (r, w)"
    "send_request N endpoint op st = (handleResponse r, st\<lparr>cl_net := w, cl_sent := cl_sent st @ [rq]\<rparr>)"
  have ok: "map_ok ?h"
  proof -
    have "map_ok (merge_headers json_headers hs)" for hs
      by (induction hs rule: rev_induct)
        (simp_all add: merge_headers_def map_ok_map_set json_headers_def map_ok_def [of "[_]"])
    then show ?thesis by (simp add: request_headers_def Let_def map_ok_map_set)
  qed
  have "hr_headers rq = merge_headers json_headers ?h"
    using d by (auto simp: dispatch_def Let_def client_get_def client_post_def client_put_def
        client_delete_def split: if_splits)
  moreover have "map_get ?h ''Authorization'' = Some (bearer t)"
    using assms by (simp add: request_headers_def Let_def truthy_def map_get_map_set)
  ultimately have "map_get (hr_headers rq) ''Authorization'' = Some (bearer t)"
    using map_get_rev [OF ok] by (simp add: merge_headers_get)
  then show ?thesis using s by (metis fst_conv)
qed


lemma getToken_store [simp]: "getToken (storeToken t r s) = Some t"
  by (simp add: getToken_def storeToken_def Let_def map_get_map_set)

lemma getToken_store_refreshed [simp]: "getToken (cl_auth (store_refreshed t st)) = Some t"
  by (simp add: store_refreshed_def)

lemma traces_after [simp]:
  "cl_sent (store_refreshed t st) = cl_sent st" "cl_sent (clear_session st) = cl_sent st"
  "cl_sent (set_refreshing b st) = cl_sent st"
  by (simp_all add: store_refreshed_def clear_session_def set_refreshing_def)

lemma settles_sent:
  assumes "\<And>e. fst (send_request N endpoint op st) = Inl e \<Longrightarrow> \<not> is_auth_error e"
  shows "\<exists>r st' sent. makeRequestWithRetry C N endpoint op 0 st = Some (r, st') \<and>
    sends_to N endpoint (rc_maxRetries C + 1) st sent st'"
proof -
  have "\<forall>e st1. send_request N endpoint op st = (Inl e, st1) \<longrightarrow> \<not> is_auth_error e"
    using assms by simp
  then show ?thesis using settles [of 0 endpoint N op st C] unfolding diff_zero by blast
qed

lemma refresh_settles:
  "\<exists>r st' sent. makeRequestWithRetry C N ''/auth/refresh'' op 0 st = Some (r, st') \<and>
    sends_to N ''/auth/refresh'' (rc_maxRetries C + 1) st sent st' \<and>
    (\<forall>v. r = Inr v \<longrightarrow> (\<exists>rq w. hr_url rq = buildUrl (ne_base N) ''/auth/refresh'' \<and>
       handleResponse (fst (ne_send N rq w)) = Inr v))"
  using settles [of 0 "''/auth/refresh''" N op st C] unfolding diff_zero by blast

text \<open>A token that is not refused does not bring up the class of a 401 again.\<close>

lemma fresh_token_accepted:
  assumes refused: "\<And>rq w m b. fst (ne_send N rq w) = Reply 401 m b \<Longrightarrow>
      map_get (hr_headers rq) ''Authorization'' \<notin> Some ` bearer ` fresh"
    and t: "t \<in> fresh" "t \<noteq> []"
    and d: "fst (send_request N endpoint (op\<lparr>ro_headers := map_set ''Authorization'' (bearer t) (ro_headers op)\<rparr>)
      (store_refreshed t st)) = Inl d"
  shows "\<not> is_auth_error d"
proof -
  let ?op = "op\<lparr>ro_headers := map_set ''Authorization'' (bearer t) (ro_headers op)\<rparr>"
  let ?st = "store_refreshed t st"
  have "getToken (cl_auth ?st) = Some t" using t(2) by auto
  from bearer_sent [OF this t(2), of N endpoint ?op] obtain m w where
    "fst (send_request N endpoint ?op ?st) = Inl (JsExn m) \<or>
     (\<exists>rq. map_get (hr_headers rq) ''Authorization'' = Some (bearer t) \<and>
        fst (send_request N endpoint ?op ?st) = handleResponse (fst (ne_send N rq w)))"
    by blast
  then show ?thesis
  proof
    assume "fst (send_request N endpoint ?op ?st) = Inl (JsExn m)"
    then show ?thesis using d by (simp add: is_auth_error_def)
  next
    assume "\<exists>rq. map_get (hr_headers rq) ''Authorization'' = Some (bearer t) \<and>
        fst (send_request N endpoint ?op ?st) = handleResponse (fst (ne_send N rq w))"
    then show ?thesis using d t(1) refused handleResponse_auth by fastforce
  qed
qed

lemma after_refresh_settles:
  assumes refused: "\<And>rq w m b. fst (ne_send N rq w) = Reply 401 m b \<Longrightarrow>
      map_get (hr_headers rq) ''Authorization'' \<notin> Some ` bearer ` fresh"
    and "[] \<notin> fresh" and r: "\<And>v. r = Inr v \<Longrightarrow> \<exists>t\<in>fresh. refreshed_token v = Some t"
  shows "\<exists>r' st' sent. after_refresh C N endpoint op (r, st2) = Some (r', st') \<and>
    sends_to N endpoint (rc_maxRetries C + 1) st2 sent st'"
proof (cases r)
  case (Inl d)
  have "sends_to N endpoint (rc_maxRetries C + 1) st2 [] (clear_session (set_refreshing False st2))"
    by (simp add: sends_to_def)
  then show ?thesis using Inl by (auto simp: after_refresh_def)
next
  case (Inr v)
  then obtain t where t: "t \<in> fresh" "refreshed_token v = Some t" using r by blast
  let ?op = "op\<lparr>ro_headers := map_set ''Authorization'' (bearer t) (ro_headers op)\<rparr>"
  let ?st = "store_refreshed t st2"
  have t0: "t \<noteq> []" using t(1) assms(2) by auto
  have "\<not> is_auth_error d" if "fst (send_request N endpoint ?op ?st) = Inl d" for d
    by (rule fresh_token_accepted [OF refused t(1) t0 that])
  from settles_sent [OF this] obtain r' st' sent where "makeRequestWithRetry C N endpoint ?op 0 ?st = Some (r', st')"
    "sends_to N endpoint (rc_maxRetries C + 1) ?st sent st'"
    by blast
  then show ?thesis using Inr t(2) by (auto simp: after_refresh_def sends_to_def)
qed

text \<open>
  What a call sends when it refreshes the session at most once: the request, then nothing or the requests
  of one single call of the refresh, then the request again.
\<close>

definition refreshed_once ::
    "RetryConfig \<Rightarrow> 's net_env \<Rightarrow> jstring \<Rightarrow> 's client \<Rightarrow> http_request list \<Rightarrow> bool" where
  "refreshed_once C N endpoint st sent \<longleftrightarrow> (\<exists>first refresh again. sent = first @ refresh @ again \<and>
     length first \<le> 1 \<and> length refresh \<le> rc_maxRetries C + 1 \<and> length again \<le> rc_maxRetries C + 1 \<and>
     (\<forall>rq \<in> set (first @ again). hr_url rq = buildUrl (ne_base N) endpoint) \<and>
     (refresh = [] \<or> (\<exists>st1 q st2.
       makeRequestWithRetry C N ''/auth/refresh'' (post_options None) 0 st1 = Some (q, st2) \<and>
       cl_sent st1 = cl_sent st @ first \<and> cl_sent st2 = cl_sent st1 @ refresh)))"

lemma refreshed_once_length: "refreshed_once C N endpoint st sent \<Longrightarrow> length sent \<le> 2 * rc_maxRetries C + 3"
  by (auto simp: refreshed_once_def)

lemma refreshed_once_none:
  "sends_to N endpoint (rc_maxRetries C + 1) st sent st' \<Longrightarrow> refreshed_once C N endpoint st sent"
  unfolding refreshed_once_def sends_to_def
  by (rule exI [of _ "[]"], rule exI [of _ "[]"], rule exI [of _ sent]) simp

lemma refreshed_once_refused:
  assumes "sends_to N endpoint 1 st first st1"
  shows "refreshed_once C N endpoint st first"
  using assms unfolding refreshed_once_def sends_to_def
  by (intro exI [of _ first] exI [of _ "[]"]) simp

lemma refreshed_once_again:
  assumes "sends_to N endpoint 1 st first st1"
    and "makeRequestWithRetry C N ''/auth/refresh'' (post_options None) 0 (set_refreshing True st1) = Some (q, st2)"
    and "sends_to N ''/auth/refresh'' (rc_maxRetries C + 1) (set_refreshing True st1) refresh st2"
    and "sends_to N endpoint (rc_maxRetries C + 1) st2 again st'"
  shows "cl_sent st' = cl_sent st @ first @ refresh @ again \<and>
    refreshed_once C N endpoint st (first @ refresh @ again)"
proof
  show "cl_sent st' = cl_sent st @ first @ refresh @ again"
    using assms(1,3,4) by (simp add: sends_to_def)
  have "cl_sent (set_refreshing True st1) = cl_sent st @ first" "cl_sent st2 = cl_sent (set_refreshing True st1) @ refresh"
    using assms(1,3) by (simp_all add: sends_to_def)
  then have "\<exists>st1 q st2. makeRequestWithRetry C N ''/auth/refresh'' (post_options None) 0 st1 = Some (q, st2) \<and>
      cl_sent st1 = cl_sent st @ first \<and> cl_sent st2 = cl_sent st1 @ refresh"
    using assms(2) by blast
  moreover have "\<forall>rq \<in> set (first @ again). hr_url rq = buildUrl (ne_base N) endpoint"
    using assms(1,4) by (auto simp: sends_to_def)
  moreover have "length first \<le> 1" "length refresh \<le> rc_maxRetries C + 1" "length again \<le> rc_maxRetries C + 1"
    using assms(1,3,4) by (simp_all add: sends_to_def)
  ultimately show "refreshed_once C N endpoint st (first @ refresh @ again)"
    unfolding refreshed_once_def by blast
qed

text \<open>
  C5. A request whose session expired is repaired: when the server refuses (with 401) only
  requests that do not carry a token it has just handed out, and a refresh it accepts returns such
  a token, then every call settles, after at most one refresh: what it sends is the request, then
  nothing or the requests of a single call of the refresh, then the request again, the last two with
  their retries, \<open>2 * maxRetries + 3\<close> requests in all.
\<close>

theorem expired_session_recovers:
  assumes "\<And>rq w m b. fst (ne_send N rq w) = Reply 401 m b \<Longrightarrow>
      map_get (hr_headers rq) ''Authorization'' \<notin> Some ` bearer ` fresh"
    and "\<And>rq w v. hr_url rq = buildUrl (ne_base N) ''/auth/refresh'' \<Longrightarrow>
      handleResponse (fst (ne_send N rq w)) = Inr v \<Longrightarrow> \<exists>t\<in>fresh. refreshed_token v = Some t"
    and "[] \<notin> fresh"
  shows "\<exists>r st' sent. makeRequest C N endpoint op st = Some (r, st') \<and> cl_sent st' = cl_sent st @ sent \<and>
    refreshed_once C N endpoint st sent \<and> length sent \<le> 2 * rc_maxRetries C + 3"
proof -
  have "\<exists>r st' sent. makeRequest C N endpoint op st = Some (r, st') \<and> cl_sent st' = cl_sent st @ sent \<and>
      refreshed_once C N endpoint st sent"
  proof -
    obtain x st1 where s: "send_request N endpoint op st = (x, st1)" by force
    obtain first where first: "sends_to N endpoint 1 st first st1" using send_request_sends [OF s] by blast
    consider (ok) "\<And>e. fst (send_request N endpoint op st) = Inl e \<Longrightarrow> \<not> is_auth_error e"
      | (expired) e where "send_request N endpoint op st = (Inl e, st1)" "is_auth_error e"
      using s by (cases x) auto
    then show ?thesis
    proof cases
      case ok
      from settles_sent [OF this, where C = C] obtain r st' sent where
        "makeRequest C N endpoint op st = Some (r, st')" "sends_to N endpoint (rc_maxRetries C + 1) st sent st'"
        unfolding makeRequest_def by blast
      then show ?thesis using refreshed_once_none sends_to_def by metis
    next
      case expired
      show ?thesis
      proof (cases "endpoint = ''/auth/refresh'' \<or> \<not> truthy (getToken (cl_auth st1))")
        case True
        from request_no_refresh [OF expired True, of C] have
          "makeRequest C N endpoint op st = Some (Inl auth_required, clear_session st1)"
          by (simp add: makeRequest_def)
        moreover have "cl_sent (clear_session st1) = cl_sent st @ first"
          using first by (simp add: sends_to_def)
        ultimately show ?thesis using refreshed_once_refused [OF first] by blast
      next
        case False
        let ?s1 = "set_refreshing True st1"
        obtain r st2 refresh where r: "makeRequestWithRetry C N ''/auth/refresh'' (post_options None) 0 ?s1 = Some (r, st2)"
          "sends_to N ''/auth/refresh'' (rc_maxRetries C + 1) ?s1 refresh st2"
          "\<And>v. r = Inr v \<Longrightarrow> \<exists>t\<in>fresh. refreshed_token v = Some t"
          using refresh_settles [of C N "post_options None" ?s1] assms(2) by blast
        have "makeRequest C N endpoint op st = after_refresh C N endpoint op (r, st2)"
          using request_refresh [OF expired] False r(1) by (simp add: makeRequest_def)
        moreover have "\<exists>r' st' again. after_refresh C N endpoint op (r, st2) = Some (r', st') \<and>
            sends_to N endpoint (rc_maxRetries C + 1) st2 again st'"
          by (rule after_refresh_settles [where fresh = fresh]) (fact assms(1), fact assms(3), fact r(3))
        ultimately show ?thesis using refreshed_once_again [OF first r(1,2)] by metis
      qed
    qed
  qed
  then show ?thesis using refreshed_once_length by blast
qed

definition renewing_net :: "unit net_env" where
  "renewing_net = \<lparr>ne_send = (\<lambda>rq w.
       (if hr_url rq = ''/api/auth/refresh''
        then Reply 200 ''OK'' (Json (JsObject [(''token'', JsString ''n'')]))
        else if map_get (hr_headers rq) ''Authorization'' = Some (bearer ''n'')
        then Reply 200 ''OK'' (Json (JsArray []))
        else Reply 401 ''Unauthorized'' (Json JsNull), w)),
     ne_random = (\<lambda>_. 0), ne_base = ''/api''\<rparr>"

theorem expired_session_recovers_witness:
  "\<exists>r st'. makeRequest retryConfig renewing_net ''/budgets''
     \<lparr>ro_method = Some ''GET'', ro_headers = [], ro_body = None\<rparr>
     (new_client ()\<lparr>cl_auth := storeToken ''o'' None fresh_session\<rparr>) = Some (r, st') \<and>
     length (cl_sent st') \<le> 9"
proof -
  let ?c = "new_client ()\<lparr>cl_auth := storeToken ''o'' None fresh_session\<rparr>"
  have "\<exists>r st' sent. makeRequest retryConfig renewing_net ''/budgets''
     \<lparr>ro_method = Some ''GET'', ro_headers = [], ro_body = None\<rparr> ?c = Some (r, st') \<and>
     cl_sent st' = cl_sent ?c @ sent \<and>
     refreshed_once retryConfig renewing_net ''/budgets'' ?c sent \<and> length sent \<le> 2 * rc_maxRetries retryConfig + 3"
  proof (rule expired_session_recovers [where fresh = "{''n''}"])
    fix rq w m b
    assume "fst (ne_send renewing_net rq w) = Reply 401 m b"
    then show "map_get (hr_headers rq) ''Authorization'' \<notin> Some ` bearer ` {''n''}"
      by (auto simp: renewing_net_def split: if_splits)
  next
    fix rq :: http_request and w v
    assume "hr_url rq = buildUrl (ne_base renewing_net) ''/auth/refresh''"
      "handleResponse (fst (ne_send renewing_net rq w)) = Inr v"
    then have "v = JsObject [(''token'', JsString ''n'')]"
      by (simp add: renewing_net_def buildUrl_def startsWith_def handleResponse_def)
    then show "\<exists>t\<in>{''n''}. refreshed_token v = Some t"
      by (simp add: refreshed_token_def get_field_def map_get_def scalar_text_def)
  qed simp
  then show ?thesis by (auto simp: new_client_def retryConfig_def)
qed

text \<open>
  When the refresh fails or returns no token, the request ends with the error of a missing
  session, and the session is cleared: no token is left to send.
\<close>

theorem failed_refresh_clears_session:
  assumes "send_request N endpoint op st = (Inl e, st1)" and "is_auth_error e"
    and "truthy (getToken (cl_auth st1)) \<longrightarrow> (\<exists>r st2. makeRequest C N ''/auth/refresh''
      (post_options None) (set_refreshing True st1) = Some (r, st2) \<and>
      (\<forall>v. r = Inr v \<longrightarrow> refreshed_token v = None))"
  shows "\<exists>st'. makeRequest C N endpoint op st = Some (Inl auth_required, st') \<and>
    getToken (cl_auth st') = None \<and> \<not> as_refreshing (cl_auth st')"
proof -
  have g: "getToken (clearToken a) = None" for a
    by (simp add: getToken_def clearToken_def map_get_map_delete)
  show ?thesis
  proof (cases "endpoint = ''/auth/refresh'' \<or> \<not> truthy (getToken (cl_auth st1))")
    case True
    then show ?thesis
      using request_no_refresh [OF assms(1,2)] g
      by (simp add: makeRequest_def clear_session_def) (simp add: clearToken_def)
  next
    case False
    then obtain r st2 where r: "makeRequestWithRetry C N ''/auth/refresh'' (post_options None) 0
        (set_refreshing True st1) = Some (r, st2)" "\<forall>v. r = Inr v \<longrightarrow> refreshed_token v = None"
      using assms(3) unfolding makeRequest_def by blast
    have "(case r of Inl _ \<Rightarrow> None | Inr v \<Rightarrow> refreshed_token v) = None"
      using r(2) by (cases r) simp_all
    then have "makeRequest C N endpoint op st =
        Some (Inl auth_required, clear_session (set_refreshing False st2))"
      using request_refresh [OF assms(1,2), of C] False r(1)
      by (simp add: makeRequest_def after_refresh_def)
    then show ?thesis using g by (simp add: clear_session_def) (simp add: clearToken_def)
  qed
qed

theorem failed_refresh_clears_session_witness:
  "\<exists>st'. makeRequest retryConfig (quiet_net (Reply 401 '''' (Json JsNull))) ''/budgets'' (post_options None)
     (new_client ()\<lparr>cl_auth := storeToken ''o'' None fresh_session\<rparr>) = Some (Inl auth_required, st') \<and>
   getToken (cl_auth st') = None"
proof -
  let ?N = "quiet_net (Reply 401 '''' (Json JsNull))"
  have e: "\<exists>e st1. send_request ?N ep (post_options None) st = (Inl e, st1) \<and> is_auth_error e" for ep st
    by (simp add: send_request_def makeRawRequest_def dispatch_def post_options_def toUpperCase_def
        upper_char_eval Let_def str_or_def truthy_def quiet_net_def handleResponse_def
        createApiError_def is_auth_error_def)
  obtain x st1 where s: "send_request ?N ''/budgets'' (post_options None)
      (new_client ()\<lparr>cl_auth := storeToken ''o'' None fresh_session\<rparr>) = (Inl x, st1)"
    "is_auth_error x"
    using e by blast
  have r: "\<exists>st2. makeRequest retryConfig ?N ''/auth/refresh'' (post_options None) st =
      Some (Inl auth_required, st2)" for st
  proof -
    obtain y st2 where "send_request ?N ''/auth/refresh'' (post_options None) st = (Inl y, st2)"
      "is_auth_error y" using e by blast
    from request_no_refresh [OF this] show ?thesis by (simp add: makeRequest_def)
  qed
  show ?thesis using failed_refresh_clears_session [OF s, of retryConfig] r by blast
qed

definition refusing :: "'s net_env \<Rightarrow> json \<Rightarrow> bool" where
  "refusing N v \<longleftrightarrow> (\<forall>rq w. handleResponse (fst (ne_send N rq w)) =
     (if hr_url rq = buildUrl (ne_base N) ''/auth/refresh'' then Inr v
      else Inl (ApiExn (AuthenticationError ''Invalid credentials''))))"

lemma post_sends:
  assumes "ro_method op = Some ''POST''" and "refusing N v"
  shows "\<exists>st1. cl_auth st1 = cl_auth st \<and> send_request N ep op st =
    (if buildUrl (ne_base N) ep = buildUrl (ne_base N) ''/auth/refresh'' then Inr v
     else Inl (ApiExn (AuthenticationError ''Invalid credentials'')), st1)"
proof (rule send_request_cases [where N = N and endpoint = ep and op = op and st = st])
  fix e
  assume "dispatch (ne_base N) ep
      (op\<lparr>ro_headers := request_headers (getToken (cl_auth st)) (ro_headers op)\<rparr>) = Inl (JsExn e)"
  then show ?thesis
    using assms(1) by (simp add: dispatch_def toUpperCase_def upper_char_eval Let_def str_or_def truthy_def)
next
  fix rq r w
  assume "dispatch (ne_base N) ep
      (op\<lparr>ro_headers := request_headers (getToken (cl_auth st)) (ro_headers op)\<rparr>) = Inr rq"
    and s: "ne_send N rq (cl_net st) = (r, w)" "send_request N ep op st =
      (handleResponse r, st\<lparr>cl_net := w, cl_sent := cl_sent st @ [rq]\<rparr>)"
  then have "hr_url rq = buildUrl (ne_base N) ep" by (simp add: dispatch_url)
  moreover have "handleResponse (fst (ne_send N rq (cl_net st))) =
     (if hr_url rq = buildUrl (ne_base N) ''/auth/refresh'' then Inr v
      else Inl (ApiExn (AuthenticationError ''Invalid credentials'')))"
    using assms(2) unfolding refusing_def by blast
  ultimately show ?thesis
    using s by (intro exI [of _ "st\<lparr>cl_net := w, cl_sent := cl_sent st @ [rq]\<rparr>"]) simp
qed

lemma refusing_result:
  assumes ret: "makeRequestWithRetry C N ep op a st = Some r"
  shows "refusing N v \<longrightarrow> refreshed_token v = Some t \<longrightarrow> t \<noteq> [] \<longrightarrow> ro_method op = Some ''POST'' \<longrightarrow>
    a = 0 \<longrightarrow> truthy (getToken (cl_auth st)) \<longrightarrow>
    buildUrl (ne_base N) ep = buildUrl (ne_base N) ''/auth/refresh'' \<and> fst r = Inr v"
proof (rule makeRequestWithRetry.raw_induct [where P = "\<lambda>C N ep op a st r.
    refusing N v \<longrightarrow> refreshed_token v = Some t \<longrightarrow> t \<noteq> [] \<longrightarrow> ro_method op = Some ''POST'' \<longrightarrow>
    a = 0 \<longrightarrow> truthy (getToken (cl_auth st)) \<longrightarrow>
    buildUrl (ne_base N) ep = buildUrl (ne_base N) ''/auth/refresh'' \<and> fst r = Inr v", OF _ ret],
    intro impI)
  fix f :: "RetryConfig \<Rightarrow> 'a net_env \<Rightarrow> jstring \<Rightarrow> request_options \<Rightarrow> nat \<Rightarrow> 'a client \<Rightarrow>
    ((exn + json) \<times> 'a client) option"
    and C N ep op a st r
  assume IH: "\<And>C N ep op a st r. f C N ep op a st = Some r \<Longrightarrow>
      refusing N v \<longrightarrow> refreshed_token v = Some t \<longrightarrow> t \<noteq> [] \<longrightarrow> ro_method op = Some ''POST'' \<longrightarrow>
      a = 0 \<longrightarrow> truthy (getToken (cl_auth st)) \<longrightarrow>
      buildUrl (ne_base N) ep = buildUrl (ne_base N) ''/auth/refresh'' \<and> fst r = Inr v"
    and h: "refusing N v" "refreshed_token v = Some t" "t \<noteq> []" "ro_method op = Some ''POST''" "a = 0"
      "truthy (getToken (cl_auth st))"
    and eq: "(case send_request N ep op st of
        (Inr v, st1) \<Rightarrow> Some (Inr v, st1)
      | (Inl e, st1) \<Rightarrow>
          if is_auth_error e \<and> a = 0 then
            (if ep = ''/auth/refresh'' \<or> \<not> truthy (getToken (cl_auth st1))
             then Some (Inl auth_required, clear_session st1)
             else Option.bind
               (f C N ''/auth/refresh'' (post_options None) 0 (set_refreshing True st1))
               (\<lambda>(r, st2). case (case r of Inl _ \<Rightarrow> None | Inr v \<Rightarrow> refreshed_token v) of
                  None \<Rightarrow> Some (Inl auth_required, clear_session (set_refreshing False st2))
                | Some token \<Rightarrow> f C N ep
                    (op\<lparr>ro_headers := map_set ''Authorization'' (bearer token) (ro_headers op)\<rparr>)
                    0 (store_refreshed token st2)))
          else if retryable C e \<and> a < rc_maxRetries C
          then f C N ep op (Suc a) (sleep C N a st1)
          else Some (Inl (rethrown C e), st1)) = Some r"
  obtain st1 where s: "cl_auth st1 = cl_auth st" "send_request N ep op st =
      (if buildUrl (ne_base N) ep = buildUrl (ne_base N) ''/auth/refresh'' then Inr v
       else Inl (ApiExn (AuthenticationError ''Invalid credentials'')), st1)"
    using post_sends [OF h(4,1), of st ep] by blast
  have au: "is_auth_error (ApiExn (AuthenticationError ''Invalid credentials''))"
    by (simp add: is_auth_error_def AuthenticationError_def)
  show "buildUrl (ne_base N) ep = buildUrl (ne_base N) ''/auth/refresh'' \<and> fst r = Inr v"
  proof (cases "buildUrl (ne_base N) ep = buildUrl (ne_base N) ''/auth/refresh''")
    case True
    then show ?thesis using eq s(2) by auto
  next
    case False
    then have "ep \<noteq> ''/auth/refresh''" by auto
    then obtain q st2 where q: "f C N ''/auth/refresh'' (post_options None) 0 (set_refreshing True st1) = Some (q, st2)"
      "(case (case q of Inl _ \<Rightarrow> None | Inr v \<Rightarrow> refreshed_token v) of
         None \<Rightarrow> Some (Inl auth_required, clear_session (set_refreshing False st2))
       | Some token \<Rightarrow> f C N ep
           (op\<lparr>ro_headers := map_set ''Authorization'' (bearer token) (ro_headers op)\<rparr>)
           0 (store_refreshed token st2)) = Some r"
      using eq s h(5,6) False au by (auto simp: bind_eq_Some_conv)
    have "q = Inr v"
      using IH [OF q(1)] h(1,2,3,6) s(1) by (simp add: post_options_def set_refreshing_def getToken_def)
    then have "f C N ep (op\<lparr>ro_headers := map_set ''Authorization'' (bearer t) (ro_headers op)\<rparr>)
        0 (store_refreshed t st2) = Some r"
      using q(2) h(2) by simp
    from IH [OF this] show ?thesis using h(1,2,3,4) by (simp add: truthy_def)
  qed
qed

text \<open>
  C10. The retry after a refresh starts again at attempt 0 and may refresh again, so a server that
  keeps accepting the session but refuses the request itself is asked for ever: a login with a
  wrong password while an older session is still valid never settles.
\<close>

theorem refused_login_never_settles:
  assumes "refusing N v" and "refreshed_token v = Some t" and "t \<noteq> []"
    and "truthy (getToken (cl_auth st))"
    and "buildUrl (ne_base N) ''/auth/login'' \<noteq> buildUrl (ne_base N) ''/auth/refresh''"
  shows "login C N email password st = None"
proof -
  have "ro_method (post_options (Some (credentials email password))) = Some ''POST''"
    by (simp add: post_options_def)
  then have "makeRequestWithRetry C N ''/auth/login'' (post_options (Some (credentials email password)))
      0 st = None"
    using refusing_result [of C N "''/auth/login''" _ 0 st _ v t] assms by (metis not_Some_eq)
  then show ?thesis by (simp add: login_def api_post_def makeRequest_def map_error_def)
qed

definition refusing_net :: "unit net_env" where
  "refusing_net = \<lparr>ne_send = (\<lambda>rq w.
       (if hr_url rq = ''/api/auth/refresh''
        then Reply 200 ''OK'' (Json (JsObject [(''token'', JsString ''n'')]))
        else Reply 401 ''Unauthorized''
          (Json (JsObject [(''message'', JsString ''Invalid credentials'')])), w)),
     ne_random = (\<lambda>_. 0), ne_base = ''/api''\<rparr>"

theorem refused_login_never_settles_witness:
  "login retryConfig refusing_net ''a@b.c'' ''wrong''
     (new_client ()\<lparr>cl_auth := storeToken ''o'' None fresh_session\<rparr>) = None"
proof (rule refused_login_never_settles [where v = "JsObject [(''token'', JsString ''n'')]" and t = "''n''"])
  show "refusing refusing_net (JsObject [(''token'', JsString ''n'')])"
    by (simp add: refusing_def refusing_net_def buildUrl_def startsWith_def handleResponse_def
        createApiError_def error_for_status_def error_message_def get_field_def map_get_def
        json_truthy_def scalar_text_def Let_def)
qed (simp_all add: refreshed_token_def get_field_def map_get_def scalar_text_def truthy_def
    refusing_net_def buildUrl_def startsWith_def)

end
