(* ===== verification/Data_Services.thy ===== *)
theory Data_Services
  imports Api_Client Transaction_Filter
begin

text \<open>
  The services over the API client (\<^verbatim>\<open>services/*Service.ts\<close>, \<^verbatim>\<open>utils/queryParams.ts\<close>):
  the endpoint, query and body of each call, and what is made of the answer. A cast of the
  source (\<^verbatim>\<open>ApiClient.get<T>\<close>) is a function from JSON to the type it declares, a parameter.
\<close>

section \<open>Calls and their results\<close>

type_synonym ('r, 's) call = "((exn + 'r) \<times> 's client) option"

definition on_value :: "(json \<Rightarrow> exn + 'r) \<Rightarrow> (json, 's) call \<Rightarrow> ('r, 's) call" where
  "on_value f c = map_option (\<lambda>(r, st). (case r of Inl e \<Rightarrow> Inl e | Inr v \<Rightarrow> f v, st)) c"

definition map_value :: "(json \<Rightarrow> 'r) \<Rightarrow> (json, 's) call \<Rightarrow> ('r, 's) call" where
  "map_value f c = on_value (\<lambda>v. Inr (f v)) c"

definition array_of :: "json \<Rightarrow> json list option" where
  "array_of v = (case v of JsArray xs \<Rightarrow> Some xs | _ \<Rightarrow> None)"

definition array_or_empty :: "(json \<Rightarrow> 'r) \<Rightarrow> json \<Rightarrow> 'r list" where
  "array_or_empty row v = (case array_of v of Some xs \<Rightarrow> map row xs | None \<Rightarrow> [])"

definition opt_field :: "jstring \<Rightarrow> jstring option \<Rightarrow> (jstring \<times> json) list" where
  "opt_field k v = (if truthy v then [(k, JsString (the v))] else [])"

section \<open>Query parameters\<close>

definition appendAccountQueryParams :: "search_params \<Rightarrow> jstring list option \<Rightarrow> search_params" where
  "appendAccountQueryParams params accountIds = (case accountIds of None \<Rightarrow> params
     | Some ids \<Rightarrow> foldl (\<lambda>ps i. append_param ''account_ids[]'' i ps) params ids)"

definition buildAccountQueryParams :: "jstring list option \<Rightarrow> search_params" where
  "buildAccountQueryParams accountIds = (case accountIds of None \<Rightarrow> []
     | Some ids \<Rightarrow> foldl (\<lambda>ps i. append_param ''account_ids[]'' i ps) [] ids)"

definition append_truthy :: "jstring \<Rightarrow> jstring option \<Rightarrow> search_params \<Rightarrow> search_params" where
  "append_truthy k v ps = (if truthy v then append_param k (the v) ps else ps)"

definition with_query :: "jstring \<Rightarrow> search_params \<Rightarrow> jstring" where
  "with_query endpoint ps = (let qs = params_string ps in
     if qs = [] then endpoint else endpoint @ ''?'' @ qs)"

section \<open>TransactionService\<close>

record TransactionFilters =
  tf_startDate :: "jstring option"
  tf_endDate :: "jstring option"
  tf_categoryId :: "jstring option"
  tf_searchTerm :: "jstring option"
  tf_search :: "jstring option"
  tf_dateRange :: "jstring option"
  tf_accountIds :: "jstring list option"

definition transaction_params :: "TransactionFilters \<Rightarrow> search_params" where
  "transaction_params filters =
     (let p0 = append_truthy ''start_date'' (tf_startDate filters) [];
          p1 = append_truthy ''end_date'' (tf_endDate filters) p0;
          p2 = append_truthy ''categoryId'' (tf_categoryId filters) p1;
          p3 = append_truthy ''searchTerm'' (tf_searchTerm filters) p2;
          p4 = append_truthy ''search'' (tf_search filters) p3;
          p5 = append_truthy ''dateRange'' (tf_dateRange filters) p4
      in appendAccountQueryParams p5 (tf_accountIds filters))"

definition transactions_endpoint :: "TransactionFilters option \<Rightarrow> jstring" where
  "transactions_endpoint filters = (case filters of None \<Rightarrow> ''/transactions''
     | Some f \<Rightarrow> with_query ''/transactions'' (transaction_params f))"

definition getTransactions ::
    "(json \<Rightarrow> BackendTransaction) \<Rightarrow> RetryConfig \<Rightarrow> 's net_env \<Rightarrow> TransactionFilters option \<Rightarrow>
     's client \<Rightarrow> (Transaction list, 's) call" where
  "getTransactions row C N filters st =
     map_value (array_or_empty (\<lambda>v. backendToFrontend (row v)))
       (api_get C N (transactions_endpoint filters) st)"

definition markDuplicate where
  "markDuplicate C N transactionId st =
     map_value (\<lambda>_. ()) (api_put C N (''/transactions/'' @ transactionId @ ''/duplicate'') None st)"

section \<open>AnalyticsService\<close>

definition range_params :: "jstring option \<Rightarrow> jstring option \<Rightarrow> jstring list option \<Rightarrow> search_params" where
  "range_params startDate endDate accountIds = appendAccountQueryParams
     (append_truthy ''end_date'' endDate (append_truthy ''start_date'' startDate [])) accountIds"

definition getCurrentMonthSpending where
  "getCurrentMonthSpending cast C N st =
     map_value cast (api_get C N ''/analytics/spending/current-month'' st)"

text \<open>\<^verbatim>\<open>Number(v)\<close> of a JSON scalar.\<close>

definition json_number :: "json \<Rightarrow> jsnum" where
  "json_number v = (case v of JsNull \<Rightarrow> Fin 0 | JsBool b \<Rightarrow> Fin (if b then 1 else 0)
     | JsNumber q \<Rightarrow> Fin q | JsString s \<Rightarrow> number_of_string s | JsArray [] \<Rightarrow> Fin 0 | _ \<Rightarrow> NaN)"

definition getSpendingTotal where
  "getSpendingTotal C N startDate endDate accountIds st = map_value json_number
     (api_get C N (with_query ''/analytics/spending'' (range_params startDate endDate accountIds)) st)"

definition getCategorySpendingByDateRange where
  "getCategorySpendingByDateRange cast C N startDate endDate accountIds st = map_value cast
     (api_get C N (with_query ''/analytics/categories'' (range_params startDate endDate accountIds)) st)"

definition getMonthlyTotals where
  "getMonthlyTotals cast C N months accountIds st = map_value cast
     (api_get C N (let qs = params_string (appendAccountQueryParams [(''months'', int_str months)] accountIds)
        in if qs \<noteq> [] then ''/analytics/monthly-totals?'' @ qs
           else ''/analytics/monthly-totals?months='' @ int_str months) st)"

definition getCategoryTrends where
  "getCategoryTrends cast C N startDate endDate accountIds st = map_value cast
     (api_get C N (with_query ''/analytics/category-trends'' (range_params startDate endDate accountIds)) st)"

definition getTopMerchantsByDateRange where
  "getTopMerchantsByDateRange cast C N startDate endDate accountIds st = map_value cast
     (api_get C N (with_query ''/analytics/top-merchants'' (range_params startDate endDate accountIds)) st)"

definition getBalancesOverview where
  "getBalancesOverview cast C N accountIds st = map_value cast
     (api_get C N (with_query ''/analytics/balances/overview'' (appendAccountQueryParams [] accountIds)) st)"

definition getNetWorthOverTime where
  "getNetWorthOverTime cast C N startDate endDate accountIds st = on_value
     (\<lambda>v. case get_field v ''series'' of Inl _ \<Rightarrow> Inl (JsExn ''Cannot read properties of null'')
        | Inr s \<Rightarrow> Inr (if json_truthy s then cast (the s) else []))
     (api_get C N (''/analytics/net-worth-over-time?'' @ params_string (appendAccountQueryParams
        (append_param ''end_date'' endDate (append_param ''start_date'' startDate [])) accountIds)) st)"

definition computeRatio :: "rat \<Rightarrow> rat \<Rightarrow> rat option" where
  "computeRatio positivesTotal negativesTotal =
     (if negativesTotal = 0 then None
      else let denom = max 1 \<bar>negativesTotal\<bar>; ratio = positivesTotal / denom
        in Some (of_int (js_round (ratio * 100)) / 100))"

text \<open>The infinity sign is \<open>None\<close>.\<close>

definition formatRatio :: "jsval \<Rightarrow> jstring option" where
  "formatRatio ratio =
     (if ratio = JNull \<or> ratio = JUndefined then None
      else let n = js_Number ratio in if \<not> isFinite n then None else Some (to_fixed2 n))"

section \<open>BudgetService\<close>

record BudgetRecord =
  br_id :: jstring
  br_category :: jstring
  br_amount :: jsval
  br_frequency :: "BudgetFrequency option"
  br_rollover :: "bool option"
  br_rollover_start_month :: "jstring option"
  br_created_at :: "jstring option"

text \<open>
  Budgets whose amount is a number; \<open>num_of\<close> is \<^verbatim>\<open>Number(...)\<close> of the field, zero where
  the code would carry \<^verbatim>\<open>NaN\<close> on.
\<close>

definition budget_of_record :: "BudgetRecord \<Rightarrow> Budget" where
  "budget_of_record b = \<lparr>bd_id = br_id b, bd_category = br_category b,
     bd_amount = fin_or_zero (js_Number (br_amount b)), bd_frequency = br_frequency b,
     bd_rollover = br_rollover b, bd_rollover_start_month = br_rollover_start_month b,
     bd_created_at = br_created_at b\<rparr>"

definition getBudgets ::
    "(json \<Rightarrow> BudgetRecord) \<Rightarrow> RetryConfig \<Rightarrow> 's net_env \<Rightarrow> 's client \<Rightarrow> (Budget list, 's) call" where
  "getBudgets row C N st = on_value (\<lambda>v. case array_of v of
       Some xs \<Rightarrow> Inr (map (\<lambda>x. budget_of_record (row x)) xs)
     | None \<Rightarrow> Inl (JsExn ''budgets.map is not a function'')) (api_get C N ''/budgets'' st)"

definition frequency_text :: "BudgetFrequency \<Rightarrow> jstring" where
  "frequency_text f = (case f of Monthly \<Rightarrow> ''monthly'' | Quarterly \<Rightarrow> ''quarterly''
     | Semi_annual \<Rightarrow> ''semi_annual'' | Annual \<Rightarrow> ''annual'')"

definition defined_field :: "jstring \<Rightarrow> json option \<Rightarrow> (jstring \<times> json) list" where
  "defined_field k v = (case v of None \<Rightarrow> [] | Some j \<Rightarrow> [(k, j)])"

record budget_data =
  da_category :: "jstring option"
  da_amount :: "rat option"
  da_frequency :: "BudgetFrequency option"
  da_rollover :: "bool option"
  da_rollover_start_month :: "jstring option"

definition shared_fields :: "budget_data \<Rightarrow> (jstring \<times> json) list" where
  "shared_fields d =
     defined_field ''frequency'' (map_option (\<lambda>f. JsString (frequency_text f)) (da_frequency d)) @
     defined_field ''rollover'' (map_option JsBool (da_rollover d)) @
     defined_field ''rollover_start_month'' (map_option JsString (da_rollover_start_month d))"

definition create_payload :: "jstring \<Rightarrow> rat \<Rightarrow> budget_data \<Rightarrow> json" where
  "create_payload category amount d = JsObject ([(''category'', JsString category),
     (''amount'', JsString (num_str amount))] @ shared_fields d)"

definition merged_budget :: "rat \<Rightarrow> BudgetRecord \<Rightarrow> budget_data \<Rightarrow> Budget" where
  "merged_budget amount r d = \<lparr>bd_id = br_id r, bd_category = br_category r, bd_amount = amount,
     bd_frequency = coalesce (br_frequency r) (da_frequency d),
     bd_rollover = coalesce (br_rollover r) (da_rollover d),
     bd_rollover_start_month = coalesce (br_rollover_start_month r) (da_rollover_start_month d),
     bd_created_at = br_created_at r\<rparr>"

text \<open>\<^verbatim>\<open>Number(x ?? y)\<close> for the amount of an answer and the amount sent.\<close>

definition answered_amount :: "jsval \<Rightarrow> rat \<Rightarrow> rat" where
  "answered_amount x y = (if x = JUndefined \<or> x = JNull then y else fin_or_zero (js_Number x))"

definition createBudget ::
    "(json \<Rightarrow> BudgetRecord) \<Rightarrow> RetryConfig \<Rightarrow> 's net_env \<Rightarrow> jstring \<Rightarrow> rat \<Rightarrow> budget_data \<Rightarrow>
     's client \<Rightarrow> (Budget, 's) call" where
  "createBudget row C N category amount d st =
     map_value (\<lambda>v. merged_budget (answered_amount (br_amount (row v)) amount) (row v) d)
       (api_post C N ''/budgets'' (Some (create_payload category amount d)) st)"

definition update_payload :: "budget_data \<Rightarrow> json" where
  "update_payload d = JsObject (opt_field ''category'' (da_category d) @
     defined_field ''amount'' (map_option (\<lambda>a. JsString (num_str a)) (da_amount d)) @ shared_fields d)"

definition updateBudget ::
    "(json \<Rightarrow> BudgetRecord) \<Rightarrow> RetryConfig \<Rightarrow> 's net_env \<Rightarrow> jstring \<Rightarrow> budget_data \<Rightarrow>
     's client \<Rightarrow> (Budget, 's) call" where
  "updateBudget row C N budgetId d st =
     map_value (\<lambda>v. merged_budget
         (answered_amount (br_amount (row v)) (default_to (da_amount d) 0)) (row v) d)
       (api_put C N (''/budgets/'' @ budgetId) (Some (update_payload d)) st)"

definition deleteBudget where
  "deleteBudget C N budgetId st = map_value (\<lambda>_. ()) (api_delete C N (''/budgets/'' @ budgetId) st)"

section \<open>CategoryService\<close>

definition getCategories :: "(json \<Rightarrow> UserCategory) \<Rightarrow> RetryConfig \<Rightarrow> 's net_env \<Rightarrow> 's client \<Rightarrow>
    (UserCategory list, 's) call" where
  "getCategories row C N st = map_value (array_or_empty row) (api_get C N ''/categories'' st)"

definition createCategory :: "(json \<Rightarrow> UserCategory) \<Rightarrow> RetryConfig \<Rightarrow> 's net_env \<Rightarrow> jstring \<Rightarrow>
    jstring option \<Rightarrow> 's client \<Rightarrow> (UserCategory, 's) call" where
  "createCategory row C N name parentCategory st = map_value row (api_post C N ''/categories''
     (Some (JsObject ([(''name'', JsString name)] @ opt_field ''parent_category'' parentCategory))) st)"

definition deleteCategory where
  "deleteCategory C N categoryId st = map_value (\<lambda>_. ()) (api_delete C N (''/categories/'' @ categoryId) st)"

definition setTransactionCategory where
  "setTransactionCategory C N transactionId categoryName subcategoryName st =
     map_value (\<lambda>_. ()) (api_put C N (''/transactions/'' @ transactionId @ ''/category'')
       (Some (JsObject ([(''category_name'', JsString categoryName)] @
          opt_field ''subcategory_name'' subcategoryName))) st)"

definition removeTransactionCategory where
  "removeTransactionCategory C N transactionId st =
     map_value (\<lambda>_. ()) (api_delete C N (''/transactions/'' @ transactionId @ ''/category'') st)"

definition getRules :: "(json \<Rightarrow> CategoryRule) \<Rightarrow> RetryConfig \<Rightarrow> 's net_env \<Rightarrow> 's client \<Rightarrow>
    (CategoryRule list, 's) call" where
  "getRules row C N st = map_value (array_or_empty row) (api_get C N ''/category-rules'' st)"

definition createRule where
  "createRule row C N pattern categoryName subcategoryName st =
     map_value row (api_post C N ''/category-rules''
       (Some (JsObject ([(''pattern'', JsString pattern), (''category_name'', JsString categoryName)] @
          opt_field ''subcategory_name'' subcategoryName))) st)"

definition updateRule where
  "updateRule row C N ruleId patch st =
     map_value row (api_put C N (''/category-rules/'' @ ruleId) (Some patch) st)"

definition deleteRule where
  "deleteRule C N ruleId st = map_value (\<lambda>_. ()) (api_delete C N (''/category-rules/'' @ ruleId) st)"

section \<open>What the server reads\<close>

definition bytes :: "jstring \<Rightarrow> nat list" where
  "bytes s = concat (map utf8 s)"

lemma append_truthy_eq: "append_truthy k v ps = ps @ (if truthy v then [(k, the v)] else [])"
  by (simp add: append_truthy_def append_param_def)

lemma append_accounts_eq:
  "appendAccountQueryParams ps ids = ps @ map (\<lambda>i. (''account_ids[]'', i)) (default_to ids [])"
proof -
  have "foldl (\<lambda>ps i. append_param ''account_ids[]'' i ps) ps xs =
      ps @ map (\<lambda>i. (''account_ids[]'', i)) xs" for xs ps
    by (induction xs arbitrary: ps) (simp_all add: append_param_def)
  then show ?thesis by (cases ids) (simp_all add: appendAccountQueryParams_def)
qed

lemma with_query_eq:
  "with_query endpoint ps = (if ps = [] then endpoint else endpoint @ ''?'' @ params_string ps)"
proof -
  have "params_string ps = [] \<longleftrightarrow> ps = []"
    by (cases ps; cases "tl ps") (auto simp: params_string_def)
  then show ?thesis by (simp add: with_query_def Let_def)
qed

text \<open>
  C13. The query of a transactions request carries exactly the filters that are set and every
  account id, whatever characters they contain: a server that decodes it reads them back in order.
\<close>

theorem transactions_query_roundtrip:
  "\<exists>q. transactions_endpoint (Some f) =
      (if q = [] then ''/transactions'' else ''/transactions?'' @ q) \<and>
    parse_query q = map (\<lambda>(k, v). (bytes k, bytes v))
      (concat (map (\<lambda>(k, v). if truthy v then [(k, the v)] else [])
         [(''start_date'', tf_startDate f), (''end_date'', tf_endDate f),
          (''categoryId'', tf_categoryId f), (''searchTerm'', tf_searchTerm f),
          (''search'', tf_search f), (''dateRange'', tf_dateRange f)]) @
       map (\<lambda>i. (''account_ids[]'', i)) (default_to (tf_accountIds f) []))"
proof -
  let ?ps = "transaction_params f"
  have ps: "?ps = concat (map (\<lambda>(k, v). if truthy v then [(k, the v)] else [])
         [(''start_date'', tf_startDate f), (''end_date'', tf_endDate f),
          (''categoryId'', tf_categoryId f), (''searchTerm'', tf_searchTerm f),
          (''search'', tf_search f), (''dateRange'', tf_dateRange f)]) @
       map (\<lambda>i. (''account_ids[]'', i)) (default_to (tf_accountIds f) [])"
    unfolding transaction_params_def Let_def append_truthy_eq append_accounts_eq by simp
  have "params_string ps = [] \<longleftrightarrow> ps = []" for ps
    by (cases ps; cases "tl ps") (auto simp: params_string_def)
  then have "transactions_endpoint (Some f) = (if params_string ?ps = [] then ''/transactions''
      else ''/transactions?'' @ params_string ?ps)"
    by (simp add: transactions_endpoint_def with_query_eq)
  moreover have "parse_query (params_string ?ps) = map (\<lambda>(k, v). (bytes k, bytes v)) ?ps"
    by (simp add: parse_params_string bytes_def)
  ultimately show ?thesis unfolding ps by blast
qed

text \<open>
  The amount of a budget survives the trip: it is sent as a string that denotes it exactly, and
  an answer that echoes the string, or leaves the amount out, gives the same budget back.
\<close>

theorem budget_amount_roundtrip:
  assumes "decimal a"
  shows "get_field (create_payload category a d) ''amount'' = Inr (Some (JsString (num_str a))) \<and>
    number_of_string (num_str a) = Fin a \<and>
    answered_amount (JStr (num_str a)) y = a \<and> answered_amount JUndefined a = a \<and>
    bd_amount (budget_of_record (r\<lparr>br_amount := JStr (num_str a)\<rparr>)) = a"
proof -
  have "get_field (create_payload category a d) ''amount'' = Inr (Some (JsString (num_str a)))"
    by (auto simp: get_field_def create_payload_def shared_fields_def defined_field_def map_get_def
        map_of_append map_add_def split: option.split)
  then show ?thesis
    using number_of_num_str [OF assms]
    by (simp add: answered_amount_def budget_of_record_def fin_or_zero_def)
qed

theorem budget_amount_roundtrip_witness: "number_of_string (num_str (1999 / 100)) = Fin (1999 / 100)"
proof -
  have "(1999 / 100 :: rat) * 10 ^ 20 = of_int (1999 * 10 ^ 18)" by simp
  then have "decimal (1999 / 100)" unfolding decimal_def by (metis floor_of_int)
  from budget_amount_roundtrip [OF this] show ?thesis by blast
qed

end
