(* ===== verification/Transition_Systems.thy ===== *)
theory Transition_Systems
  imports Main
begin

text \<open>
  The interface of the state machines of the hooks: an initial state, a step relation whose steps
  are the events a component may see (user actions, answers of the server), and an invariant that
  every step keeps.
\<close>

locale transition_system =
  fixes step :: "'s \<Rightarrow> 's \<Rightarrow> bool"
    and init :: "'s \<Rightarrow> bool"
    and invar :: "'s \<Rightarrow> bool"
  assumes invar_init: "init s \<Longrightarrow> invar s"
    and invar_step: "step s s' \<Longrightarrow> invar s \<Longrightarrow> invar s'"
begin

lemma invar_steps: "step\<^sup>*\<^sup>* s s' \<Longrightarrow> invar s \<Longrightarrow> invar s'"
  by (induction rule: rtranclp_induct) (auto intro: invar_step)

lemma invar_reachable: "step\<^sup>*\<^sup>* s s' \<Longrightarrow> init s \<Longrightarrow> invar s'"
  by (rule invar_steps [OF _ invar_init])

end

text \<open>A transition system whose steps are the events of a list, handled one after the other.\<close>

locale event_machine =
  fixes handle :: "'e \<Rightarrow> 's \<Rightarrow> 's"
    and allowed :: "'s \<Rightarrow> 'e \<Rightarrow> bool"
    and init :: "'s \<Rightarrow> bool"
    and invar :: "'s \<Rightarrow> bool"
  assumes init_ok: "init s \<Longrightarrow> invar s"
    and handle_ok: "allowed s e \<Longrightarrow> invar s \<Longrightarrow> invar (handle e s)"
begin

definition event_step :: "'s \<Rightarrow> 's \<Rightarrow> bool" where
  "event_step s s' \<longleftrightarrow> (\<exists>e. allowed s e \<and> s' = handle e s)"

lemma invar_events: "event_step\<^sup>*\<^sup>* s s' \<Longrightarrow> init s \<Longrightarrow> invar s'"
proof (induction rule: rtranclp_induct)
  case base
  then show ?case by (rule init_ok)
next
  case (step s' s'')
  then show ?case unfolding event_step_def by (auto intro: handle_ok)
qed

lemma invar_fold:
  assumes "\<And>s e. allowed s e" "init s"
  shows "invar (fold handle es s)"
proof -
  have "invar s \<Longrightarrow> invar (fold handle es s)" for s
    using assms(1) by (induction es arbitrary: s) (auto intro: handle_ok)
  then show ?thesis using assms(2) init_ok by blast
qed

end

sublocale event_machine \<subseteq> ts: transition_system event_step init invar
  by unfold_locales (auto simp: event_step_def init_ok handle_ok)

end
