(* ===== verification/Account_Selection.thy ===== *)
theory Account_Selection
  imports Account_Normalizer Http_Boundary Transition_Systems
begin

text \<open>
  The account filter (\<^verbatim>\<open>hooks/useAccountFilter.tsx\<close>): the accounts loaded from the
  providers, grouped by bank, and the selection the rest of the application filters by. A fetch
  is two steps: it starts, and later its answer arrives.
\<close>

section \<open>Reading the accounts\<close>

record Account =
  acct_id :: jstring
  acct_name :: jstring
  acct_provider :: "FinancialProvider option"
  acct_account_type :: jstring
  acct_balance_ledger :: jsval
  acct_balance_available :: jsval
  acct_balance_current :: jsval
  acct_mask :: "jstring option"
  acct_institution_name :: "jstring option"
  acct_connection_id :: "jstring option"
  acct_provider_connection_id :: "jstring option"
  acct_plaid_connection_id :: "jstring option"
  acct_provider_account_id :: "jstring option"
  acct_ledger :: jsval
  acct_available :: jsval
  acct_institutionName :: "jstring option"

record ProviderAccount =
  pa_id :: jstring
  pa_name :: jstring
  pa_account_type :: jstring
  pa_balance_ledger :: "rat option"
  pa_balance_available :: "rat option"
  pa_mask :: "jstring option"
  pa_provider :: FinancialProvider
  pa_institution_name :: jstring
  pa_provider_account_id :: "jstring option"
  pa_provider_connection_id :: "jstring option"

definition money_of_string :: "jstring \<Rightarrow> rat option" where
  "money_of_string value =
     (let trimmed = trim value;
          isNegativeParenthetical = (startsWith trimmed ''('' \<and> endsWith trimmed '')'');
          normalized = filter (\<lambda>c. is_digit c \<or> c = CHR ''.'' \<or> c = CHR ''-'') trimmed
      in if normalized = [] then None
         else case number_of_string normalized of
           Fin parsed \<Rightarrow> Some (if isNegativeParenthetical then - parsed else parsed)
         | _ \<Rightarrow> None)"

definition parseBalance :: "jsval \<Rightarrow> rat option" where
  "parseBalance value = (case value of
     JNum n \<Rightarrow> (case n of Fin q \<Rightarrow> Some q | _ \<Rightarrow> None)
   | JStr s \<Rightarrow> money_of_string s | _ \<Rightarrow> None)"

definition map_account :: "Account \<Rightarrow> ProviderAccount" where
  "map_account account = \<lparr>
     pa_id = acct_id account, pa_name = acct_name account,
     pa_account_type = acct_account_type account,
     pa_balance_ledger = coalesce (parseBalance (acct_balance_ledger account))
       (coalesce (parseBalance (acct_balance_current account)) (parseBalance (acct_ledger account))),
     pa_balance_available = coalesce (parseBalance (acct_balance_available account))
       (coalesce (parseBalance (acct_balance_current account)) (parseBalance (acct_available account))),
     pa_mask = acct_mask account,
     pa_provider = default_to (acct_provider account) Plaid,
     pa_institution_name = default_to (coalesce (acct_institution_name account)
       (acct_institutionName account)) ''Unknown Bank'',
     pa_provider_account_id = acct_provider_account_id account,
     pa_provider_connection_id = coalesce (acct_provider_connection_id account)
       (coalesce (acct_plaid_connection_id account) (acct_connection_id account))\<rparr>"

definition groupAccountsByBank :: "ProviderAccount list \<Rightarrow> (jstring, ProviderAccount list) js_map" where
  "groupAccountsByBank items = foldl (\<lambda>acc account.
     let bankName = str_or (Some (pa_institution_name account)) ''Unknown Bank'' in
     map_set bankName (default_to (map_get acc bankName) [] @ [account]) acc) [] items"

section \<open>The selection\<close>

record account_filter =
  af_accounts :: "ProviderAccount list"
  af_selected :: "jstring list"
  af_loading :: bool
  af_previous :: "jstring list"
  af_warned :: bool

definition allAccountIds :: "account_filter \<Rightarrow> jstring list" where
  "allAccountIds s = map pa_id (af_accounts s)"

definition accountsByBank :: "account_filter \<Rightarrow> (jstring, ProviderAccount list) js_map" where
  "accountsByBank s = groupAccountsByBank (af_accounts s)"

definition isAllAccountsSelected :: "account_filter \<Rightarrow> bool" where
  "isAllAccountsSelected s \<longleftrightarrow>
     0 < length (allAccountIds s) \<and> length (af_selected s) = length (allAccountIds s)"

definition add_missing :: "jstring list \<Rightarrow> jstring list \<Rightarrow> jstring list" where
  "add_missing base ids = foldl (\<lambda>acc i. if i \<in> set acc then acc else acc @ [i]) base ids"

definition arraysEqual :: "jstring list \<Rightarrow> jstring list \<Rightarrow> bool" where
  "arraysEqual a b \<longleftrightarrow> length a = length b \<and> list_all (\<lambda>i. a ! i = b ! i) [0..<length a]"

definition next_selection :: "jstring list \<Rightarrow> jstring list \<Rightarrow> jstring list \<Rightarrow> jstring list" where
  "next_selection previousAllAccountIds newAccountIds prev =
     (if prev = [] then newAccountIds
      else let filteredSelection = filter (\<lambda>i. i \<in> set newAccountIds) prev;
               previouslyHadAllSelected = (0 < length previousAllAccountIds \<and>
                 length prev = length previousAllAccountIds \<and>
                 list_all (\<lambda>i. i \<in> set prev) previousAllAccountIds)
        in if previouslyHadAllSelected then newAccountIds
           else let newlyAddedIds = filter (\<lambda>i. i \<notin> set previousAllAccountIds) newAccountIds;
                    nextSelection = add_missing filteredSelection newlyAddedIds
             in if arraysEqual prev nextSelection then prev else nextSelection)"

definition begin_fetch :: "account_filter \<Rightarrow> account_filter" where
  "begin_fetch s = s\<lparr>af_loading := True\<rparr>"

text \<open>The answer: an error, or the accounts, \<open>None\<close> for a body that is not an array.\<close>

definition end_fetch :: "exn + Account list option \<Rightarrow> account_filter \<Rightarrow> account_filter" where
  "end_fetch answer s = (case answer of
     Inl _ \<Rightarrow> s\<lparr>af_accounts := [], af_selected := [], af_previous := [], af_loading := False\<rparr>
   | Inr response \<Rightarrow>
       let mappedAccounts = map map_account (default_to response []);
           newAccountIds = map pa_id mappedAccounts
       in s\<lparr>af_accounts := mappedAccounts,
            af_selected := next_selection (af_previous s) newAccountIds (af_selected s),
            af_previous := newAccountIds,
            af_warned := (af_warned s \<or> response = None),
            af_loading := False\<rparr>)"

definition toggleBank :: "jstring \<Rightarrow> account_filter \<Rightarrow> account_filter" where
  "toggleBank bankName s =
     (let bankAccountIds = map pa_id (default_to (map_get (accountsByBank s) bankName) []);
          prev = af_selected s
      in s\<lparr>af_selected :=
           (if list_all (\<lambda>i. i \<in> set prev) bankAccountIds
            then filter (\<lambda>i. i \<notin> set bankAccountIds) prev
            else add_missing prev bankAccountIds)\<rparr>)"

definition toggleAccount :: "jstring \<Rightarrow> account_filter \<Rightarrow> account_filter" where
  "toggleAccount accountId s = s\<lparr>af_selected :=
     (if accountId \<in> set (af_selected s) then filter (\<lambda>i. i \<noteq> accountId) (af_selected s)
      else af_selected s @ [accountId])\<rparr>"

definition setSelectedAccountIds :: "jstring list \<Rightarrow> account_filter \<Rightarrow> account_filter" where
  "setSelectedAccountIds ids s = s\<lparr>af_selected := ids\<rparr>"

definition initial_filter :: account_filter where
  "initial_filter = \<lparr>af_accounts = [], af_selected = [], af_loading = False, af_previous = [],
     af_warned = False\<rparr>"

section \<open>Grouping\<close>

lemma group_get:
  "default_to (map_get (groupAccountsByBank items) bank) [] =
     filter (\<lambda>a. str_or (Some (pa_institution_name a)) ''Unknown Bank'' = bank) items"
proof (induction items rule: rev_induct)
  case Nil
  then show ?case by (simp add: groupAccountsByBank_def map_get_def)
next
  case (snoc a items)
  then show ?case by (auto simp: groupAccountsByBank_def Let_def map_get_map_set)
qed

section \<open>Invariant\<close>

lemma set_add_missing [simp]: "set (add_missing base ids) = set base \<union> set ids"
  unfolding add_missing_def by (induction ids arbitrary: base) auto

lemma distinct_add_missing [simp]: "distinct (add_missing base ids) \<longleftrightarrow> distinct base"
  unfolding add_missing_def by (induction ids arbitrary: base) auto

lemma arraysEqual_iff [simp]: "arraysEqual a b \<longleftrightarrow> a = b"
  by (auto simp: arraysEqual_def list_all_iff intro: nth_equalityI)

definition filter_ok :: "account_filter \<Rightarrow> bool" where
  "filter_ok s \<longleftrightarrow> distinct (allAccountIds s) \<and> distinct (af_selected s) \<and>
     set (af_selected s) \<subseteq> set (allAccountIds s) \<and> af_previous s = allAccountIds s"

datatype filter_event = Fetch | Fetched "exn + Account list option" | Toggle_bank jstring
  | Toggle_account jstring | Select "jstring list"

fun filter_handle :: "filter_event \<Rightarrow> account_filter \<Rightarrow> account_filter" where
  "filter_handle Fetch s = begin_fetch s"
| "filter_handle (Fetched answer) s = end_fetch answer s"
| "filter_handle (Toggle_bank bank) s = toggleBank bank s"
| "filter_handle (Toggle_account i) s = toggleAccount i s"
| "filter_handle (Select ids) s = setSelectedAccountIds ids s"

text \<open>
  What the environment does: the server's accounts have distinct ids, and the user acts on the
  accounts shown.
\<close>

fun filter_allowed :: "account_filter \<Rightarrow> filter_event \<Rightarrow> bool" where
  "filter_allowed s (Fetched (Inr (Some accounts))) \<longleftrightarrow> distinct (map acct_id accounts)"
| "filter_allowed s (Toggle_account i) \<longleftrightarrow> i \<in> set (allAccountIds s)"
| "filter_allowed s (Select ids) \<longleftrightarrow> distinct ids \<and> set ids \<subseteq> set (allAccountIds s)"
| "filter_allowed s _ \<longleftrightarrow> True"

lemma ids_map_account [simp]: "map pa_id (map map_account accts) = map acct_id accts"
  by (simp add: map_account_def)

lemma next_selection_eq:
  "next_selection old new prev =
     (if prev = [] \<or> (old \<noteq> [] \<and> length prev = length old \<and> set old \<subseteq> set prev) then new
      else add_missing (filter (\<lambda>i. i \<in> set new) prev) (filter (\<lambda>i. i \<notin> set old) new))"
  by (auto simp: next_selection_def Let_def list_all_iff subset_iff)

lemma next_selection_ok:
  "distinct prev \<Longrightarrow> distinct new \<Longrightarrow>
   distinct (next_selection old new prev) \<and> set (next_selection old new prev) \<subseteq> set new"
  by (auto simp: next_selection_eq)

lemma bank_ids_subset:
  "set (map pa_id (default_to (map_get (accountsByBank s) bank) [])) \<subseteq> set (allAccountIds s)"
  by (auto simp: accountsByBank_def allAccountIds_def group_get)

lemma filter_handle_ok:
  assumes "filter_allowed s e" "filter_ok s"
  shows "filter_ok (filter_handle e s)"
proof (cases e)
  case Fetch
  then show ?thesis using assms(2) by (simp add: begin_fetch_def filter_ok_def allAccountIds_def)
next
  case (Fetched answer)
  have acc: "distinct (map acct_id accts) \<Longrightarrow> filter_ok (s\<lparr>af_accounts := map map_account accts,
      af_selected := next_selection (af_previous s) (map acct_id accts) (af_selected s),
      af_previous := map acct_id accts, af_warned := w, af_loading := False\<rparr>)" for accts w
    using next_selection_ok [of "af_selected s" "map acct_id accts" "af_previous s"] assms(2)
    by (simp add: filter_ok_def allAccountIds_def map_account_def comp_def)
  show ?thesis
  proof (cases answer)
    case (Inl x)
    then show ?thesis
      using Fetched by (simp add: end_fetch_def filter_ok_def allAccountIds_def)
  next
    case (Inr response)
    then show ?thesis
      using Fetched assms(1) acc [of "default_to response []" "af_warned s \<or> response = None"]
      by (cases response) (simp_all add: end_fetch_def Let_def map_account_def comp_def)
  qed
next
  case (Toggle_bank bank)
  then show ?thesis
    using assms(2) bank_ids_subset [of s bank]
    by (auto simp: toggleBank_def Let_def filter_ok_def allAccountIds_def accountsByBank_def)
next
  case (Toggle_account i)
  then show ?thesis
    using assms by (auto simp: toggleAccount_def filter_ok_def allAccountIds_def)
next
  case (Select ids)
  then show ?thesis
    using assms by (simp add: setSelectedAccountIds_def filter_ok_def allAccountIds_def)
qed

interpretation account_filter: event_machine filter_handle filter_allowed "\<lambda>s. s = initial_filter" filter_ok
proof
  show "filter_ok s" if "s = initial_filter" for s
    using that by (simp add: filter_ok_def initial_filter_def allAccountIds_def)
qed (rule filter_handle_ok)

text \<open>
  C7. In every run the selection names accounts that are loaded, each once; so comparing lengths
  is enough to tell that every account is selected.
\<close>

theorem selection_invariant:
  assumes "account_filter.event_step\<^sup>*\<^sup>* initial_filter s"
  shows "distinct (af_selected s) \<and> set (af_selected s) \<subseteq> set (allAccountIds s) \<and>
    (isAllAccountsSelected s \<longleftrightarrow>
       allAccountIds s \<noteq> [] \<and> set (af_selected s) = set (allAccountIds s))"
proof -
  have ok: "distinct (allAccountIds s)" "distinct (af_selected s)"
    "set (af_selected s) \<subseteq> set (allAccountIds s)"
    using account_filter.invar_events [OF assms] by (simp_all add: filter_ok_def)
  then have "length (af_selected s) = length (allAccountIds s) \<longleftrightarrow>
      set (af_selected s) = set (allAccountIds s)"
    by (metis card_subset_eq distinct_card finite_set)
  then show ?thesis using ok by (simp add: isAllAccountsSelected_def)
qed

definition plain_account :: "jstring \<Rightarrow> jstring \<Rightarrow> Account" where
  "plain_account i bank = \<lparr>acct_id = i, acct_name = i, acct_provider = None,
     acct_account_type = ''depository'', acct_balance_ledger = JNull, acct_balance_available = JNull,
     acct_balance_current = JStr ''(1,234.50)'', acct_mask = None, acct_institution_name = Some bank,
     acct_connection_id = None, acct_provider_connection_id = None, acct_plaid_connection_id = None,
     acct_provider_account_id = None, acct_ledger = JUndefined, acct_available = JUndefined,
     acct_institutionName = None\<rparr>"

definition loaded_filter :: account_filter where
  "loaded_filter = filter_handle (Fetched (Inr (Some [plain_account ''a'' ''X'', plain_account ''b'' ''Y''])))
     initial_filter"

theorem selection_invariant_witness:
  "isAllAccountsSelected loaded_filter \<longleftrightarrow>
     allAccountIds loaded_filter \<noteq> [] \<and> set (af_selected loaded_filter) = set (allAccountIds loaded_filter)"
proof -
  have "filter_allowed initial_filter (Fetched (Inr (Some [plain_account ''a'' ''X'', plain_account ''b'' ''Y''])))"
    by (simp add: plain_account_def)
  then have "account_filter.event_step\<^sup>*\<^sup>* initial_filter loaded_filter"
    unfolding loaded_filter_def account_filter.event_step_def by (intro r_into_rtranclp) blast
  from selection_invariant [OF this] show ?thesis by blast
qed

text \<open>
  A refresh keeps what the user chose: an account that was known keeps its state, a new account
  is selected, one that is gone is dropped. The exceptions are a selection of everything, which
  stays a selection of everything, and an empty selection, which the refresh turns into a selection
  of everything.
\<close>

theorem refresh_keeps_choice:
  assumes "filter_ok s" and "distinct (map acct_id accts)"
  shows "set (af_selected (end_fetch (Inr (Some accts)) s)) =
    (if af_selected s = [] \<or> isAllAccountsSelected s then set (map acct_id accts)
     else {i \<in> set (map acct_id accts). i \<in> set (af_selected s) \<or> i \<notin> set (allAccountIds s)})"
proof -
  have ok: "distinct (allAccountIds s)" "distinct (af_selected s)"
    "set (af_selected s) \<subseteq> set (allAccountIds s)" "af_previous s = allAccountIds s"
    using assms(1) by (simp_all add: filter_ok_def)
  have same: "isAllAccountsSelected s \<longleftrightarrow> allAccountIds s \<noteq> [] \<and>
      length (af_selected s) = length (allAccountIds s) \<and> set (allAccountIds s) \<subseteq> set (af_selected s)"
    using ok(1-3) unfolding isAllAccountsSelected_def
    by (metis card_subset_eq distinct_card finite_set length_greater_0_conv order_refl)
  have "af_selected (end_fetch (Inr (Some accts)) s) =
      next_selection (allAccountIds s) (map acct_id accts) (af_selected s)"
    using ok(4) by (simp add: end_fetch_def Let_def map_account_def comp_def)
  then show ?thesis unfolding same next_selection_eq by auto
qed

theorem refresh_keeps_choice_witness:
  "set (af_selected (end_fetch (Inr (Some [plain_account ''a'' ''X'', plain_account ''b'' ''Y'',
      plain_account ''c'' ''Y''])) (toggleAccount ''a'' loaded_filter))) = {''b'', ''c''}"
proof -
  have l: "loaded_filter = \<lparr>af_accounts = map map_account [plain_account ''a'' ''X'', plain_account ''b'' ''Y''],
      af_selected = [''a'', ''b''], af_loading = False, af_previous = [''a'', ''b''], af_warned = False\<rparr>"
    by (simp add: loaded_filter_def end_fetch_def initial_filter_def Let_def next_selection_eq
        map_account_def plain_account_def)
  have "filter_ok (toggleAccount ''a'' loaded_filter)"
    by (simp add: l toggleAccount_def filter_ok_def allAccountIds_def map_account_def plain_account_def)
  from refresh_keeps_choice [OF this, of "[plain_account ''a'' ''X'', plain_account ''b'' ''Y'',
      plain_account ''c'' ''Y'']"]
  show ?thesis
    by (auto simp: l toggleAccount_def allAccountIds_def isAllAccountsSelected_def map_account_def
        plain_account_def)
qed

end
