(* ===== verification/Transaction_List.thy ===== *)
theory Transaction_List
  imports Transaction_Filter Account_Selection
begin

text \<open>
  The transactions page (\<^verbatim>\<open>features/transactions/hooks/useTransactions.ts\<close>): the derived
  lists (filtered, categories, subcategories, duplicates, pages), the helpers at the end of the
  file, and the state with its operations. The server is a record of answers; string order in the
  user's locale (\<^verbatim>\<open>localeCompare\<close>) is a parameter \<open>lc\<close>.
\<close>

section \<open>Patterns\<close>

text \<open>
  The regular expression \<^verbatim>\<open>matchGlob\<close> builds: the source string, after the three
  replacements, and the atoms it is read as. The flag \<^verbatim>\<open>i\<close> compares upper-case forms; a dot
  matches any character except a line terminator.
\<close>

definition regex_specials :: "char list" where
  "regex_specials = ''.+^${}()|[]'' @ [char_of (92 :: nat)]"

definition glob_source :: "jstring \<Rightarrow> jstring" where
  "glob_source pattern =
     (let p1 = concat (map (\<lambda>c. if c \<in> set regex_specials then [char_of (92 :: nat), c] else [c]) pattern);
          p2 = concat (map (\<lambda>c. if c = CHR ''*'' then ''.*'' else [c]) p1)
      in concat (map (\<lambda>c. if c = CHR ''?'' then ''.'' else [c]) p2))"

datatype atom = Literal char | Any_char | Any_run

fun read_atoms :: "jstring \<Rightarrow> atom list" where
  "read_atoms [] = []"
| "read_atoms [c] = [if c = CHR ''.'' then Any_char else Literal c]"
| "read_atoms (c # d # s) =
     (if c = char_of (92 :: nat) then Literal d # read_atoms s
      else if c = CHR ''.'' \<and> d = CHR ''*'' then Any_run # read_atoms s
      else if c = CHR ''.'' then Any_char # read_atoms (d # s)
      else Literal c # read_atoms (d # s))"

definition line_end :: "char \<Rightarrow> bool" where
  "line_end c \<longleftrightarrow> code_at c \<in> set [10, 13]"

fun atoms_match :: "atom list \<Rightarrow> jstring \<Rightarrow> bool" where
  "atoms_match [] s \<longleftrightarrow> s = []"
| "atoms_match (Literal c # as) s \<longleftrightarrow>
     (case s of [] \<Rightarrow> False | d # s' \<Rightarrow> upper_char c = upper_char d \<and> atoms_match as s')"
| "atoms_match (Any_char # as) s \<longleftrightarrow>
     (case s of [] \<Rightarrow> False | d # s' \<Rightarrow> \<not> line_end d \<and> atoms_match as s')"
| "atoms_match (Any_run # as) [] \<longleftrightarrow> atoms_match as []"
| "atoms_match (Any_run # as) (d # s) \<longleftrightarrow>
     atoms_match as (d # s) \<or> (\<not> line_end d \<and> atoms_match (Any_run # as) s)"

definition matchGlob :: "jstring \<Rightarrow> jstring \<Rightarrow> bool" where
  "matchGlob pattern text \<longleftrightarrow>
     pattern \<noteq> [] \<and> text \<noteq> [] \<and> atoms_match (read_atoms (glob_source pattern)) text"

section \<open>Duplicates\<close>

definition utc_midnight :: "date_env \<Rightarrow> jstring \<Rightarrow> int option" where
  "utc_midnight e a =
     (let y = two_digits (take 4 a); m = two_digits (take 2 (drop 5 a)) - 1;
          d = two_digits (take 2 (drop 8 a))
      in if date_only_prefix a \<and> length a = 10 \<and> valid_date y m d
         then Some (ms_per_day * make_day y m d) else de_parse e (a @ ''T00:00:00Z''))"

definition daysBetween_txn :: "date_env \<Rightarrow> jstring \<Rightarrow> jstring \<Rightarrow> rat option" where
  "daysBetween_txn e a b = (case (utc_midnight e a, utc_midnight e b) of
     (Some dateA, Some dateB) \<Rightarrow> Some (of_int \<bar>dateA - dateB\<bar> / of_int ms_per_day)
   | _ \<Rightarrow> None)"

definition stopWords :: "jstring list" where
  "stopWords = [''purchase'', ''payment'', ''payments'', ''authorized'', ''recurring'', ''card'',
     ''draft'', ''entry'', ''descr'', ''pmts'', ''mktplace'', ''mktpl'']"

definition tokenizeMerchant :: "jstring \<Rightarrow> jstring list" where
  "tokenizeMerchant value = set_of_list (filter (\<lambda>m. m \<notin> set stopWords)
     (filter (\<lambda>m. 3 \<le> length m)
       (split_runs (\<lambda>c. \<not> (is_lower c \<or> is_digit c)) [] (toLowerCase value))))"

definition normalizeMerchant_txn :: "jstring \<Rightarrow> jstring" where
  "normalizeMerchant_txn value = filter (\<lambda>c. is_lower c \<or> is_digit c) (toLowerCase value)"

definition merchantsLookRelated :: "jstring \<Rightarrow> jstring \<Rightarrow> bool" where
  "merchantsLookRelated a b \<longleftrightarrow>
     (let merchantA = normalizeMerchant_txn a; merchantB = normalizeMerchant_txn b in
      if merchantA = [] \<or> merchantB = [] then False
      else if merchantA = merchantB \<or> str_includes merchantA merchantB \<or> str_includes merchantB merchantA
        then True
      else if 6 \<le> length merchantA \<and> str_includes merchantB (take 6 merchantA) then True
      else if 6 \<le> length merchantB \<and> str_includes merchantA (take 6 merchantB) then True
      else list_ex (\<lambda>token. token \<in> set (tokenizeMerchant b)) (tokenizeMerchant a))"

definition merchant_label :: "Transaction \<Rightarrow> jstring" where
  "merchant_label t = str_or (tx_merchant t) (tx_name t)"

definition areDuplicateCandidates :: "date_env \<Rightarrow> Transaction \<Rightarrow> Transaction \<Rightarrow> bool" where
  "areDuplicateCandidates e a b \<longleftrightarrow>
     truthy (tx_account_id a) \<and> tx_account_id a = tx_account_id b \<and>
     js_Number (tx_amount a) \<noteq> Fin 0 \<and>
     to_fixed2 (js_Number (tx_amount a)) = to_fixed2 (js_Number (tx_amount b)) \<and>
     (case daysBetween_txn e (tx_date a) (tx_date b) of None \<Rightarrow> False | Some n \<Rightarrow> n \<le> 7) \<and>
     merchantsLookRelated (merchant_label a) (merchant_label b)"

definition is_pending :: "Transaction \<Rightarrow> bool" where
  "is_pending t \<longleftrightarrow> tx_pending t = Some True"

definition has_posted_match :: "date_env \<Rightarrow> Transaction list \<Rightarrow> Transaction \<Rightarrow> bool" where
  "has_posted_match e filtered t \<longleftrightarrow> list_ex (\<lambda>candidate.
     \<not> (tx_id candidate = tx_id t \<or> is_pending candidate) \<and> areDuplicateCandidates e t candidate) filtered"

definition duplicateCandidateIds :: "date_env \<Rightarrow> Transaction list \<Rightarrow> jstring list" where
  "duplicateCandidateIds e filtered = foldl (\<lambda>candidateIds t.
     if \<not> truthy (tx_account_id t) \<or> js_Number (tx_amount t) = Fin 0 then candidateIds
     else if is_pending t \<and> has_posted_match e filtered t then set_add (tx_id t) candidateIds
     else candidateIds) [] filtered"

definition activeTransactions :: "date_env \<Rightarrow> Transaction list \<Rightarrow> Transaction list" where
  "activeTransactions e filtered =
     filter (\<lambda>t. tx_id t \<notin> set (duplicateCandidateIds e filtered)) filtered"

section \<open>Categories of the list\<close>

definition resolveCategoryLabel :: "Transaction \<Rightarrow> jstring" where
  "resolveCategoryLabel t = (if \<not> truthy (category_primary t) then ''Shopping''
     else resolveMajorCategory (category_primary t) [])"

definition resolveSubcategoryLabel :: "Transaction \<Rightarrow> jstring" where
  "resolveSubcategoryLabel t = str_or (category_detailed t)
     (str_or (tx_custom_subcategory t) (str_or (tx_rule_subcategory t) []))"

definition categoryOptionItems ::
    "date_env \<Rightarrow> Transaction list \<Rightarrow> jstring \<Rightarrow> jstring \<times> jstring \<Rightarrow> Transaction list" where
  "categoryOptionItems e all search rng = filter (\<lambda>t. getNetSpendingAmount t \<noteq> 0)
     (filter_transactions e all \<lparr>fc_search = Some (trim search), fc_category = None,
        fc_subcategory = None, fc_dateRange = Some rng\<rparr>)"

definition filtered_list :: "date_env \<Rightarrow> Transaction list \<Rightarrow> jstring \<Rightarrow> jstring option \<Rightarrow>
    jstring option \<Rightarrow> jstring \<times> jstring \<Rightarrow> Transaction list" where
  "filtered_list e all search category subcategory rng =
     (let result = filter_transactions e all \<lparr>fc_search = Some (trim search),
            fc_category = category, fc_subcategory = subcategory, fc_dateRange = Some rng\<rparr>
      in if \<not> truthy category \<and> \<not> truthy subcategory then result
         else filter (\<lambda>t. getNetSpendingAmount t \<noteq> 0) result)"

definition availableCategories ::
    "(jstring \<Rightarrow> jstring \<Rightarrow> bool) \<Rightarrow> Transaction list \<Rightarrow> jstring list" where
  "availableCategories lc items =
     js_sort lc (set_of_list (map (\<lambda>t. str_or (Some (resolveCategoryLabel t)) ''Shopping'') items))"

definition selected_subcategories ::
    "UserCategory list \<Rightarrow> Transaction list \<Rightarrow> jstring \<Rightarrow> jstring list" where
  "selected_subcategories userCategories items selectedCategory =
     (let allSubs = getSubcategoriesForCategory selectedCategory userCategories;
          validSubMap = foldl (\<lambda>m s. map_set (toLowerCase s) s m) [] allSubs;
          selectedCatLower = toLowerCase (trim selectedCategory);
          txnSubs = foldl (\<lambda>acc t.
            let sub = resolveSubcategoryLabel t in
            if toLowerCase (resolveCategoryLabel t) = selectedCatLower \<and> sub \<noteq> [] then
              (case map_get validSubMap (toLowerCase sub) of
                 Some canonical \<Rightarrow> if canonical \<noteq> [] then set_add canonical acc else acc
               | None \<Rightarrow> acc)
            else acc) [] items
      in foldl (\<lambda>result sub. if sub \<in> set result then result else result @ [sub]) txnSubs allSubs)"

definition free_subcategory :: "jstring \<Rightarrow> jstring \<Rightarrow> bool" where
  "free_subcategory cat sub \<longleftrightarrow> sub \<noteq> [] \<and> toLowerCase sub \<noteq> ''other'' \<and>
     \<not> startsWith (toLowerCase sub) ''other '' \<and>
     (if cat \<noteq> [] then toLowerCase cat = ''groceries'' \<or> toLowerCase sub \<noteq> toLowerCase cat else True)"

definition unselected_subcategories ::
    "(jstring \<Rightarrow> jstring \<Rightarrow> bool) \<Rightarrow> Transaction list \<Rightarrow> jstring list" where
  "unselected_subcategories lc items = js_sort lc (set_of_list (map resolveSubcategoryLabel
     (filter (\<lambda>t. free_subcategory (resolveCategoryLabel t) (resolveSubcategoryLabel t)) items)))"

definition subcategories where
  "subcategories lc userCategories items selectedCategory =
     (if truthy selectedCategory then selected_subcategories userCategories items (the selectedCategory)
      else unselected_subcategories lc items)"

section \<open>Pages\<close>

definition totalPages :: "nat \<Rightarrow> nat \<Rightarrow> nat" where
  "totalPages totalItems pageSize = max 1 ((totalItems + pageSize - 1) div pageSize)"

definition pageItems :: "'a list \<Rightarrow> nat \<Rightarrow> nat \<Rightarrow> 'a list" where
  "pageItems items pageSize currentPage =
     take pageSize (drop ((currentPage - 1) * pageSize) items)"

definition clamp_page :: "nat \<Rightarrow> nat \<Rightarrow> nat" where
  "clamp_page currentPage pages = (if pages < currentPage then pages else currentPage)"

section \<open>Patterns: the language of a glob\<close>

definition glob_piece :: "char \<Rightarrow> jstring \<Rightarrow> bool" where
  "glob_piece c w \<longleftrightarrow>
     (if c = CHR ''*'' then list_all (\<lambda>d. \<not> line_end d) w
      else if c = CHR ''?'' then (\<exists>d. w = [d] \<and> \<not> line_end d)
      else (\<exists>d. w = [d] \<and> upper_char c = upper_char d))"

definition atom_of :: "char \<Rightarrow> atom" where
  "atom_of c = (if c = CHR ''*'' then Any_run else if c = CHR ''?'' then Any_char else Literal c)"

definition source_of :: "char \<Rightarrow> jstring" where
  "source_of c = (if c = CHR ''*'' then ''.*'' else if c = CHR ''?'' then ''.''
     else if c \<in> set regex_specials then [char_of (92 :: nat), c] else [c])"

lemma specials: "CHR ''*'' \<notin> set regex_specials" "CHR ''?'' \<notin> set regex_specials"
  "CHR ''.'' \<in> set regex_specials" "char_of (92 :: nat) \<in> set regex_specials"
  "char_of (92 :: nat) \<noteq> CHR ''*''" "char_of (92 :: nat) \<noteq> CHR ''?''"
  "char_of (92 :: nat) \<noteq> CHR ''.''"
  by (simp_all add: regex_specials_def char_of_def)

lemma glob_source_Cons: "glob_source (c # p) = source_of c @ glob_source p"
  using specials by (auto simp: glob_source_def source_of_def)

lemma glob_source_Nil: "glob_source [] = []"
  by (simp add: glob_source_def)

lemma glob_source_hd: "glob_source p = CHR ''*'' # s \<Longrightarrow> False"
  using specials by (cases p) (auto simp: glob_source_Cons glob_source_Nil source_of_def split: if_splits)

lemma read_atoms_glob: "read_atoms (glob_source p) = map atom_of p"
proof (induction p)
  case Nil
  then show ?case by (simp add: glob_source_Nil)
next
  case (Cons c p)
  show ?case
  proof (cases "glob_source p")
    case Nil
    then show ?thesis using Cons specials by (auto simp: glob_source_Cons source_of_def atom_of_def)
  next
    case (Cons d s)
    then have "d \<noteq> CHR ''*''" using glob_source_hd by auto
    then show ?thesis
      using Cons Cons.IH specials by (auto simp: glob_source_Cons source_of_def atom_of_def)
  qed
qed

lemma any_run_match:
  "atoms_match (Any_run # as) s \<longleftrightarrow>
   (\<exists>u v. s = u @ v \<and> list_all (\<lambda>d. \<not> line_end d) u \<and> atoms_match as v)"
proof (induction s)
  case Nil
  then show ?case by simp
next
  case (Cons d s)
  show ?case
  proof
    assume "atoms_match (Any_run # as) (d # s)"
    then consider "atoms_match as (d # s)" | "\<not> line_end d" "atoms_match (Any_run # as) s" by auto
    then show "\<exists>u v. d # s = u @ v \<and> list_all (\<lambda>d. \<not> line_end d) u \<and> atoms_match as v"
    proof cases
      case 1
      then show ?thesis by (intro exI [of _ "[]"] exI [of _ "d # s"]) simp
    next
      case 2
      then obtain u v where "s = u @ v" "list_all (\<lambda>d. \<not> line_end d) u" "atoms_match as v"
        using Cons by blast
      then show ?thesis using 2 by (intro exI [of _ "d # u"] exI [of _ v]) simp
    qed
  next
    assume "\<exists>u v. d # s = u @ v \<and> list_all (\<lambda>d. \<not> line_end d) u \<and> atoms_match as v"
    then obtain u v where u: "d # s = u @ v" "list_all (\<lambda>d. \<not> line_end d) u" "atoms_match as v" by blast
    then show "atoms_match (Any_run # as) (d # s)" using Cons by (cases u) auto
  qed
qed

lemma one_char_piece:
  "(\<exists>u v. s = u @ v \<and> (\<exists>d. u = [d] \<and> P d) \<and> Q v) \<longleftrightarrow> (\<exists>d v. s = d # v \<and> P d \<and> Q v)"
  by (metis append_Cons append_Nil)

lemma glob_language:
  "atoms_match (map atom_of p) s \<longleftrightarrow> (\<exists>ws. s = concat ws \<and> list_all2 glob_piece p ws)"
proof (induction p arbitrary: s)
  case Nil
  then show ?case by simp
next
  case (Cons c p)
  have "atoms_match (map atom_of (c # p)) s \<longleftrightarrow>
      (\<exists>u v. s = u @ v \<and> glob_piece c u \<and> atoms_match (map atom_of p) v)"
  proof -
    consider "c = CHR ''*''" | "c = CHR ''?''" | "c \<noteq> CHR ''*''" "c \<noteq> CHR ''?''" by blast
    then show ?thesis
    proof cases
      case 1
      then show ?thesis by (simp add: atom_of_def glob_piece_def any_run_match)
    next
      case 2
      then show ?thesis by (cases s) (simp_all add: atom_of_def glob_piece_def one_char_piece)
    next
      case 3
      then show ?thesis by (cases s) (simp_all add: atom_of_def glob_piece_def one_char_piece)
    qed
  qed
  also have "\<dots> \<longleftrightarrow> (\<exists>ws. s = concat ws \<and> list_all2 glob_piece (c # p) ws)"
    unfolding Cons list_all2_Cons1 by (metis concat.simps(2))
  finally show ?case .
qed

text \<open>
  C15. A category rule's pattern matches a merchant exactly when the merchant splits into one piece
  per character of the pattern: any run for \<^verbatim>\<open>*\<close>, any character for \<^verbatim>\<open>?\<close>, and the same
  character up to case for every other one, the characters special to regular expressions included.
\<close>

theorem matchGlob_language:
  "matchGlob p s \<longleftrightarrow> p \<noteq> [] \<and> s \<noteq> [] \<and> (\<exists>ws. s = concat ws \<and> list_all2 glob_piece p ws)"
  by (simp add: matchGlob_def read_atoms_glob glob_language)

section \<open>Duplicates\<close>

lemma set_duplicates:
  "set (duplicateCandidateIds e ts) = {tx_id t |t. t \<in> set ts \<and> truthy (tx_account_id t) \<and>
     js_Number (tx_amount t) \<noteq> Fin 0 \<and> is_pending t \<and> has_posted_match e ts t}"
proof -
  have "set (foldl (\<lambda>candidateIds t.
      if \<not> truthy (tx_account_id t) \<or> js_Number (tx_amount t) = Fin 0 then candidateIds
      else if is_pending t \<and> has_posted_match e ts t then set_add (tx_id t) candidateIds
      else candidateIds) acc xs) = set acc \<union> {tx_id t |t. t \<in> set xs \<and> truthy (tx_account_id t) \<and>
     js_Number (tx_amount t) \<noteq> Fin 0 \<and> is_pending t \<and> has_posted_match e ts t}" for acc xs
    by (induction xs arbitrary: acc) auto
  then show ?thesis by (simp add: duplicateCandidateIds_def)
qed

text \<open>
  C8. Nothing disappears without its posted twin: when the ids are distinct, every transaction left
  out of the list is a pending one for which the list keeps a posted transaction of the same
  account, the same amount to the cent, at most seven days away and of a related merchant; every
  posted transaction stays, in its place.
\<close>

theorem duplicates_have_twins:
  assumes "distinct (map tx_id filtered)"
  shows "(\<forall>t\<in>set filtered. t \<in> set (activeTransactions e filtered) \<or> (is_pending t \<and>
      (\<exists>c\<in>set (activeTransactions e filtered). \<not> is_pending c \<and> areDuplicateCandidates e t c))) \<and>
    filter (\<lambda>t. \<not> is_pending t) (activeTransactions e filtered) =
      filter (\<lambda>t. \<not> is_pending t) filtered"
proof -
  have same: "t = u" if "t \<in> set filtered" "u \<in> set filtered" "tx_id t = tx_id u" for t u
    using assms that by (simp add: distinct_map inj_on_def)
  have posted: "tx_id c \<notin> set (duplicateCandidateIds e filtered)"
    if "c \<in> set filtered" "\<not> is_pending c" for c
    using that same unfolding set_duplicates by blast
  have twin: "is_pending t \<and> (\<exists>c\<in>set (activeTransactions e filtered). \<not> is_pending c \<and>
      areDuplicateCandidates e t c)"
    if t: "t \<in> set filtered" "tx_id t \<in> set (duplicateCandidateIds e filtered)" for t
  proof -
    obtain u where "tx_id t = tx_id u" "u \<in> set filtered" "is_pending u" "has_posted_match e filtered u"
      using t(2) unfolding set_duplicates by blast
    then have "is_pending t" "has_posted_match e filtered t" using same [OF t(1)] by simp_all
    then obtain c where c: "c \<in> set filtered" "\<not> is_pending c" "areDuplicateCandidates e t c"
      by (auto simp: has_posted_match_def list_ex_iff)
    then have "c \<in> set (activeTransactions e filtered)"
      using posted [OF c(1,2)] by (simp add: activeTransactions_def)
    then show ?thesis using c \<open>is_pending t\<close> by blast
  qed
  have "filter (\<lambda>t. \<not> is_pending t) (activeTransactions e filtered) =
      filter (\<lambda>t. tx_id t \<notin> set (duplicateCandidateIds e filtered) \<and> \<not> is_pending t) filtered"
    unfolding activeTransactions_def filter_filter by (rule filter_cong) auto
  also have "\<dots> = filter (\<lambda>t. \<not> is_pending t) filtered"
    by (rule filter_cong [OF refl]) (use posted in blast)
  finally show ?thesis using twin unfolding activeTransactions_def set_filter by blast
qed

definition duplicate_pair :: "Transaction list" where
  "duplicate_pair =
     [(bare_transaction ''Shop 1'' ''2024-03-02'' 12 ''FOOD'')\<lparr>tx_account_id := Some ''a'', tx_pending := Some True\<rparr>,
      (bare_transaction ''SHOP'' ''2024-03-04'' 12 ''FOOD'')\<lparr>tx_account_id := Some ''a''\<rparr>]"

theorem duplicates_have_twins_witness:
  "filter (\<lambda>t. \<not> is_pending t) (activeTransactions utc_env duplicate_pair) =
     [(bare_transaction ''SHOP'' ''2024-03-04'' 12 ''FOOD'')\<lparr>tx_account_id := Some ''a''\<rparr>]"
proof -
  have "distinct (map tx_id duplicate_pair)" by (simp add: duplicate_pair_def bare_transaction_def)
  from duplicates_have_twins [OF this, of utc_env]
  show ?thesis by (simp add: duplicate_pair_def bare_transaction_def is_pending_def)
qed

section \<open>Subcategories\<close>

lemma valid_sub_map:
  "map_get (foldl (\<lambda>m s. map_set (toLowerCase s) s m) m0 subs) k = Some v \<Longrightarrow>
   v \<in> set subs \<or> map_get m0 k = Some v"
  by (induction subs rule: rev_induct) (auto simp: map_get_map_set split: if_splits)

lemma append_missing:
  "set (foldl (\<lambda>result sub. if sub \<in> set result then result else result @ [sub]) acc subs) =
     set acc \<union> set subs"
  "distinct (foldl (\<lambda>result sub. if sub \<in> set result then result else result @ [sub]) acc subs) \<longleftrightarrow>
     distinct acc"
  by (induction subs arbitrary: acc) auto

lemma txn_subs:
  assumes "\<forall>k v. map_get M k = Some v \<longrightarrow> v \<in> S"
  shows "set (foldl (\<lambda>acc t.
      let sub = resolveSubcategoryLabel t in
      if toLowerCase (resolveCategoryLabel t) = k \<and> sub \<noteq> [] then
        (case map_get M (toLowerCase sub) of
           Some canonical \<Rightarrow> if canonical \<noteq> [] then set_add canonical acc else acc
         | None \<Rightarrow> acc)
      else acc) acc items) \<subseteq> set acc \<union> S \<and>
    (distinct acc \<longrightarrow> distinct (foldl (\<lambda>acc t.
      let sub = resolveSubcategoryLabel t in
      if toLowerCase (resolveCategoryLabel t) = k \<and> sub \<noteq> [] then
        (case map_get M (toLowerCase sub) of
           Some canonical \<Rightarrow> if canonical \<noteq> [] then set_add canonical acc else acc
         | None \<Rightarrow> acc)
      else acc) acc items))"
proof (induction items rule: rev_induct)
  case (snoc t items)
  then show ?case using assms by (auto simp: Let_def split: option.split)
qed simp

text \<open>
  With a category selected, the subcategory filter offers exactly the subcategories of that
  category, each once, whatever the transactions hold.
\<close>

theorem subcategories_offered:
  "distinct (selected_subcategories ucs items category) \<and>
   set (selected_subcategories ucs items category) = set (getSubcategoriesForCategory category ucs)"
proof -
  let ?subs = "getSubcategoriesForCategory category ucs"
  let ?M = "foldl (\<lambda>m s. map_set (toLowerCase s) s m) [] ?subs"
  have M: "\<forall>k v. map_get ?M k = Some v \<longrightarrow> v \<in> set ?subs"
    using valid_sub_map [of "[]" ?subs] by (auto simp: map_get_def)
  show ?thesis
    using txn_subs [OF M, where k = "toLowerCase (trim category)" and acc = "[]" and items = items]
    unfolding selected_subcategories_def Let_def append_missing by (simp add: Un_absorb1)
qed

section \<open>Pages\<close>

lemma pages_cover:
  "0 < n \<Longrightarrow> length xs \<le> k * n \<Longrightarrow> concat (map (\<lambda>p. take n (drop (p * n) xs)) [0..<k]) = xs"
proof (induction k arbitrary: xs)
  case (Suc k)
  have "[0..<Suc k] = 0 # map Suc [0..<k]"
    by (metis upt_conv_Cons map_Suc_upt zero_less_Suc)
  then have "concat (map (\<lambda>p. take n (drop (p * n) xs)) [0..<Suc k]) =
      take n xs @ concat (map (\<lambda>p. take n (drop (p * n) (drop n xs))) [0..<k])"
    by (simp add: comp_def add.commute)
  also have "\<dots> = xs" using Suc.IH [of "drop n xs"] Suc.prems by simp
  finally show ?case .
qed simp

text \<open>
  The pages are the list cut into consecutive pieces: put one after the other they give back
  every transaction once and in order, no page is longer than the page size, every page up to the
  last one shown is filled except possibly the last, and clamping leaves a page that exists.
\<close>

theorem pages_partition:
  assumes "0 < pageSize"
  shows "concat (map (pageItems items pageSize) [1..<Suc (totalPages (length items) pageSize)]) = items \<and>
    length (pageItems items pageSize p) \<le> pageSize \<and>
    (1 \<le> p \<and> p < totalPages (length items) pageSize \<longrightarrow> length (pageItems items pageSize p) = pageSize) \<and>
    clamp_page p (totalPages (length items) pageSize) \<le> totalPages (length items) pageSize"
proof (intro conjI impI)
  let ?k = "totalPages (length items) pageSize"
  have k: "length items \<le> ?k * pageSize"
  proof -
    have "length items \<le> (length items + pageSize - 1) div pageSize * pageSize"
      using assms div_mult_mod_eq [of "length items + pageSize - 1" pageSize]
        mod_less_divisor [OF assms, of "length items + pageSize - 1"] by linarith
    also have "\<dots> \<le> ?k * pageSize" unfolding totalPages_def by (rule mult_le_mono1) simp
    finally show ?thesis .
  qed
  have "[1..<Suc ?k] = map Suc [0..<?k]" by (simp add: map_Suc_upt)
  then show "concat (map (pageItems items pageSize) [1..<Suc ?k]) = items"
    using pages_cover [OF assms k] by (simp add: pageItems_def comp_def)
  show "length (pageItems items pageSize p) \<le> pageSize" by (simp add: pageItems_def)
  show "clamp_page p ?k \<le> ?k" by (simp add: clamp_page_def)
  assume p: "1 \<le> p \<and> p < ?k"
  then have "p < (length items + pageSize - 1) div pageSize"
    by (auto simp: totalPages_def max_def split: if_splits)
  then have "Suc p * pageSize \<le> length items + pageSize - 1"
    by (metis Suc_leI assms less_eq_div_iff_mult_less_eq)
  then have "p * pageSize \<le> length items" using assms by simp
  then show "length (pageItems items pageSize p) = pageSize"
    using p by (cases p) (simp_all add: pageItems_def)
qed

theorem pages_partition_witness:
  "concat (map (pageItems [1, 2, 3, 4, 5 :: nat] 2) [1..<4]) = [1, 2, 3, 4, 5]"
proof -
  have "totalPages (length [1, 2, 3, 4, 5 :: nat]) 2 = 3" by (simp add: totalPages_def)
  then show ?thesis using pages_partition [of 2 "[1, 2, 3, 4, 5 :: nat]" 1] by simp
qed

end
