(* ===== verification/Transaction_Page.thy ===== *)
theory Transaction_Page
  imports Transaction_List Data_Services
begin

text \<open>
  The state of the transactions page (\<^verbatim>\<open>useTransactions\<close>): loading, the edits of a
  transaction's category and their optimistic updates, and the effects React runs after a change.
  \<open>tx_server\<close> gives the server's answer to each call of an operation. A load is two steps, since
  other loads may start before its answer arrives. The removal of an override after a new rule is
  left out: its answer is ignored and it changes nothing on the page.
\<close>

record page_state =
  tp_isLoading :: bool
  tp_error :: "jstring option"
  tp_all :: "Transaction list"
  tp_search :: jstring
  tp_debounced :: jstring
  tp_category :: "jstring option"
  tp_subcategory :: "jstring option"
  tp_period :: MonthYearSelection
  tp_account :: "jstring option"
  tp_page :: nat
  tp_userCategories :: "UserCategory list"

record page_env =
  pe_date :: date_env
  pe_lc :: "jstring \<Rightarrow> jstring \<Rightarrow> bool"
  pe_pageSize :: nat

record tx_server =
  sv_fetch :: "TransactionFilters \<Rightarrow> exn + Transaction list"
  sv_setCategory :: "jstring \<Rightarrow> jstring \<Rightarrow> jstring option \<Rightarrow> exn + unit"
  sv_removeCategory :: "jstring \<Rightarrow> exn + unit"
  sv_createCategory :: "jstring \<Rightarrow> jstring option \<Rightarrow> exn + UserCategory"
  sv_createRule :: "jstring \<Rightarrow> jstring \<Rightarrow> jstring option \<Rightarrow> exn + unit"
  sv_deleteCategory :: "jstring \<Rightarrow> exn + unit"
  sv_markDuplicate :: "jstring \<Rightarrow> exn + unit"

definition initial_page ::
    "int \<Rightarrow> jstring \<Rightarrow> jstring option \<Rightarrow> jstring option \<Rightarrow> jstring option \<Rightarrow> page_state" where
  "initial_page today search category subcategory account = \<lparr>tp_isLoading = False, tp_error = None,
     tp_all = [], tp_search = search, tp_debounced = search, tp_category = category,
     tp_subcategory = subcategory, tp_period = getCurrentMonthSelection today,
     tp_account = account, tp_page = 1, tp_userCategories = []\<rparr>"

section \<open>Loading\<close>

datatype load_action = Load_skip | Load_empty | Load_fetch TransactionFilters

definition load_action :: "account_filter \<Rightarrow> page_state \<Rightarrow> load_action" where
  "load_action af s =
     (if af_loading af then Load_skip
      else if 0 < length (allAccountIds af) \<and> af_selected af = [] then Load_empty
      else Load_fetch \<lparr>tf_startDate = Some (fst (computeMonthRange (tp_period s))),
        tf_endDate = Some (snd (computeMonthRange (tp_period s))), tf_categoryId = None,
        tf_searchTerm = None, tf_search = None, tf_dateRange = None,
        tf_accountIds = (if truthy (tp_account s) then Some [the (tp_account s)]
          else if \<not> isAllAccountsSelected af \<and> af_selected af \<noteq> [] then Some (af_selected af)
          else None)\<rparr>)"

definition begin_load :: "bool \<Rightarrow> page_state \<Rightarrow> page_state" where
  "begin_load isSilent s = s\<lparr>tp_isLoading := (if isSilent then tp_isLoading s else True), tp_error := None\<rparr>"

definition error_status :: "exn \<Rightarrow> int option" where
  "error_status x = (case x of ApiExn a \<Rightarrow> Some (ae_status a) | JsExn _ \<Rightarrow> None)"

definition load_error :: "exn \<Rightarrow> jstring" where
  "load_error x = (if error_status x = Some 401 then ''You are not authenticated. Please log in again.''
     else ''Failed to load transactions.'')"

definition end_load :: "bool \<Rightarrow> exn + Transaction list \<Rightarrow> page_state \<Rightarrow> page_state" where
  "end_load isSilent answer s =
     (let s1 = (case answer of Inr txns \<Rightarrow> s\<lparr>tp_all := txns\<rparr>
        | Inl x \<Rightarrow> s\<lparr>tp_error := Some (load_error x), tp_all := []\<rparr>)
      in s1\<lparr>tp_isLoading := (if isSilent then tp_isLoading s1 else False)\<rparr>)"

definition load :: "tx_server \<Rightarrow> account_filter \<Rightarrow> bool \<Rightarrow> page_state \<Rightarrow> page_state" where
  "load S af isSilent s = (case load_action af s of
     Load_skip \<Rightarrow> s
   | Load_empty \<Rightarrow> end_load isSilent (Inr []) (begin_load isSilent s)
   | Load_fetch filters \<Rightarrow> end_load isSilent (sv_fetch S filters) (begin_load isSilent s))"

section \<open>Editing\<close>

definition recategorised :: "jstring \<Rightarrow> jstring option \<Rightarrow> Transaction \<Rightarrow> TransactionCategory" where
  "recategorised primary detailed t =
     \<lparr>tc_primary = primary,
      tc_detailed = (if truthy detailed then detailed else category_detailed t),
      tc_confidence_level = Option.bind (tx_category t) tc_confidence_level\<rparr>"

definition map_transaction :: "jstring \<Rightarrow> (Transaction \<Rightarrow> Transaction) \<Rightarrow> page_state \<Rightarrow> page_state" where
  "map_transaction transactionId f s =
     s\<lparr>tp_all := map (\<lambda>t. if tx_id t = transactionId then f t else t) (tp_all s)\<rparr>"

definition set_custom :: "jstring \<Rightarrow> jstring option \<Rightarrow> Transaction \<Rightarrow> Transaction" where
  "set_custom categoryName subcategoryName t = t\<lparr>tx_custom_category := Some categoryName,
     tx_custom_subcategory := subcategoryName,
     tx_category := Some (recategorised categoryName subcategoryName t)\<rparr>"

definition updateTransactionCategory :: "tx_server \<Rightarrow> jstring \<Rightarrow> jstring \<Rightarrow> jstring option \<Rightarrow>
    page_state \<Rightarrow> (exn + unit) \<times> page_state" where
  "updateTransactionCategory S transactionId categoryName subcategoryName s =
     (case sv_setCategory S transactionId categoryName subcategoryName of
        Inl x \<Rightarrow> (Inl x, s)
      | Inr _ \<Rightarrow> (Inr (), map_transaction transactionId (set_custom categoryName subcategoryName) s))"

definition resetTransactionCategory ::
    "tx_server \<Rightarrow> account_filter \<Rightarrow> jstring \<Rightarrow> page_state \<Rightarrow> (exn + unit) \<times> page_state" where
  "resetTransactionCategory S af transactionId s = (case sv_removeCategory S transactionId of
     Inl x \<Rightarrow> (Inl x, s) | Inr _ \<Rightarrow> (Inr (), load S af True s))"

definition createCategoryAndAssign :: "(jstring \<Rightarrow> jstring \<Rightarrow> bool) \<Rightarrow> tx_server \<Rightarrow> jstring \<Rightarrow> jstring \<Rightarrow>
    jstring option \<Rightarrow> page_state \<Rightarrow> (exn + unit) \<times> page_state" where
  "createCategoryAndAssign lc S transactionId name parentCategory s =
     (case sv_createCategory S name parentCategory of
        Inl x \<Rightarrow> (Inl x, s)
      | Inr created \<Rightarrow>
          let s1 = s\<lparr>tp_userCategories :=
                js_sort (\<lambda>a b. lc (uc_name a) (uc_name b)) (tp_userCategories s @ [created])\<rparr>;
              majorCat = str_or parentCategory ''Shopping''
          in case sv_setCategory S transactionId majorCat (Some name) of
            Inl x \<Rightarrow> (Inl x, s1)
          | Inr _ \<Rightarrow> (Inr (), map_transaction transactionId (\<lambda>t. t\<lparr>
                tx_custom_category := Some majorCat, tx_custom_subcategory := Some name,
                tx_category := Some ((recategorised majorCat (Some name) t)\<lparr>tc_detailed := Some name\<rparr>)\<rparr>) s1))"

definition rule_applies :: "jstring \<Rightarrow> jstring \<Rightarrow> Transaction \<Rightarrow> bool" where
  "rule_applies transactionId pattern t \<longleftrightarrow> tx_id t = transactionId \<or>
     (\<not> truthy (tx_custom_category t) \<and>
      matchGlob pattern (str_or (tx_merchant t) (str_or (Some (tx_name t)) [])))"

definition apply_rule :: "jstring \<Rightarrow> jstring option \<Rightarrow> Transaction \<Rightarrow> Transaction" where
  "apply_rule categoryName subcategoryName t = t\<lparr>tx_custom_category := None,
     tx_custom_subcategory := None, tx_rule_category := Some categoryName,
     tx_rule_subcategory := subcategoryName,
     tx_category := Some (recategorised categoryName subcategoryName t)\<rparr>"

definition createCategoryRule :: "tx_server \<Rightarrow> account_filter \<Rightarrow> jstring \<Rightarrow> jstring \<Rightarrow> jstring \<Rightarrow>
    jstring option \<Rightarrow> page_state \<Rightarrow> (exn + unit) \<times> page_state" where
  "createCategoryRule S af transactionId pattern categoryName subcategoryName s =
     (let s1 = s\<lparr>tp_all := map (\<lambda>t. if rule_applies transactionId pattern t
            then apply_rule categoryName subcategoryName t else t) (tp_all s)\<rparr>
      in case sv_createRule S pattern categoryName subcategoryName of
           Inl x \<Rightarrow> (Inl x, s1)
         | Inr _ \<Rightarrow> (Inr (), load S af True s1))"

definition deleteUserCategory ::
    "tx_server \<Rightarrow> account_filter \<Rightarrow> jstring \<Rightarrow> page_state \<Rightarrow> (exn + unit) \<times> page_state" where
  "deleteUserCategory S af categoryId s = (case sv_deleteCategory S categoryId of
     Inl x \<Rightarrow> (Inl x, s)
   | Inr _ \<Rightarrow> (Inr (), load S af False
       (s\<lparr>tp_userCategories := filter (\<lambda>c. uc_id c \<noteq> categoryId) (tp_userCategories s)\<rparr>)))"

definition markTransactionDuplicate ::
    "tx_server \<Rightarrow> jstring \<Rightarrow> page_state \<Rightarrow> (exn + unit) \<times> page_state" where
  "markTransactionDuplicate S transactionId s = (case sv_markDuplicate S transactionId of
     Inl x \<Rightarrow> (Inl x, s)
   | Inr _ \<Rightarrow> (Inr (), s\<lparr>tp_all := filter (\<lambda>t. tx_id t \<noteq> transactionId) (tp_all s)\<rparr>))"

section \<open>Selections, derived values and effects\<close>

definition setSelectedCategory :: "jstring option \<Rightarrow> page_state \<Rightarrow> page_state" where
  "setSelectedCategory c s = s\<lparr>tp_category := c, tp_subcategory := None\<rparr>"

definition accountOptions :: "(jstring \<Rightarrow> jstring \<Rightarrow> bool) \<Rightarrow> account_filter \<Rightarrow> ProviderAccount list" where
  "accountOptions lc af =
     (let before = (\<lambda>a b. lc a b \<and> \<not> lc b a);
          le = (\<lambda>a b. if before (pa_institution_name a) (pa_institution_name b) then True
            else if before (pa_institution_name b) (pa_institution_name a) then False
            else lc (pa_name a) (pa_name b))
      in js_sort le (filter (\<lambda>a. truthy (pa_provider_account_id a) \<or> truthy (pa_provider_connection_id a))
           (concat (map snd (accountsByBank af)))))"

definition page_filtered :: "page_env \<Rightarrow> page_state \<Rightarrow> Transaction list" where
  "page_filtered E s = filtered_list (pe_date E) (tp_all s) (tp_debounced s) (tp_category s)
     (tp_subcategory s) (computeMonthRange (tp_period s))"

definition page_categories :: "page_env \<Rightarrow> page_state \<Rightarrow> jstring list" where
  "page_categories E s = availableCategories (pe_lc E)
     (categoryOptionItems (pe_date E) (tp_all s) (tp_debounced s) (computeMonthRange (tp_period s)))"

definition page_total :: "page_env \<Rightarrow> page_state \<Rightarrow> nat" where
  "page_total E s =
     totalPages (length (activeTransactions (pe_date E) (page_filtered E s))) (pe_pageSize E)"

definition effect_category :: "page_env \<Rightarrow> page_state \<Rightarrow> page_state" where
  "effect_category E s =
     (if truthy (tp_category s) \<and> \<not> tp_isLoading s \<and> 0 < length (page_categories E s) \<and>
         \<not> list_ex (\<lambda>c. toLowerCase c = toLowerCase (the (tp_category s))) (page_categories E s)
      then setSelectedCategory None s else s)"

definition effect_account :: "page_env \<Rightarrow> account_filter \<Rightarrow> page_state \<Rightarrow> page_state" where
  "effect_account E af s =
     (if truthy (tp_account s) \<and> 0 < length (accountOptions (pe_lc E) af) \<and>
         \<not> list_ex (\<lambda>a. Some (pa_id a) = tp_account s) (accountOptions (pe_lc E) af)
      then s\<lparr>tp_account := None\<rparr> else s)"

definition effect_reset_page ::
    "account_filter \<Rightarrow> page_state \<Rightarrow> account_filter \<Rightarrow> page_state \<Rightarrow> page_state" where
  "effect_reset_page af_before before af s =
     (if af_selected af \<noteq> af_selected af_before \<or> tp_category s \<noteq> tp_category before \<or> tp_subcategory s \<noteq> tp_subcategory before \<or>
         tp_debounced s \<noteq> tp_debounced before \<or> tp_period s \<noteq> tp_period before \<or>
         tp_account s \<noteq> tp_account before
      then s\<lparr>tp_page := 1\<rparr> else s)"

definition effect_clamp :: "page_env \<Rightarrow> page_state \<Rightarrow> page_state" where
  "effect_clamp E s = s\<lparr>tp_page := clamp_page (tp_page s) (page_total E s)\<rparr>"

definition effects :: "page_env \<Rightarrow> account_filter \<Rightarrow> page_state \<Rightarrow> account_filter \<Rightarrow> page_state \<Rightarrow>
    page_state" where
  "effects E af_before before af s =
     effect_clamp E (effect_reset_page af_before before af (effect_account E af (effect_category E s)))"

section \<open>Properties\<close>

lemma page_views [simp]:
  "page_filtered E (s\<lparr>tp_page := p\<rparr>) = page_filtered E s"
  "page_total E (s\<lparr>tp_page := p\<rparr>) = page_total E s"
  "page_categories E (s\<lparr>tp_page := p\<rparr>) = page_categories E s"
  by (simp_all add: page_filtered_def page_total_def page_categories_def)

lemma page_categories_selection [simp]:
  "page_categories E (setSelectedCategory c s) = page_categories E s"
  "page_categories E (s\<lparr>tp_account := a\<rparr>) = page_categories E s"
  by (simp_all add: page_categories_def setSelectedCategory_def)

text \<open>
  C36. After the effects of any change the page shown exists, and once the transactions are loaded and
  the list offers any category, a selected category is one the list offers, up to case.
\<close>

theorem effects_settle:
  assumes "1 \<le> tp_page s"
  shows "1 \<le> tp_page (effects E af0 before af s) \<and>
    tp_page (effects E af0 before af s) \<le> page_total E (effects E af0 before af s) \<and>
    (truthy (tp_category (effects E af0 before af s)) \<and> \<not> tp_isLoading s \<and> page_categories E s \<noteq> [] \<longrightarrow>
      (\<exists>c\<in>set (page_categories E s). toLowerCase c = toLowerCase (the (tp_category (effects E af0 before af s)))))"
proof -
  have t: "1 \<le> page_total E r" for r by (simp add: page_total_def totalPages_def)
  let ?c = "effect_category E s"
  let ?r = "effect_reset_page af0 before af (effect_account E af ?c)"
  have p: "1 \<le> tp_page ?r"
    using assms by (simp add: effect_reset_page_def effect_account_def effect_category_def
        setSelectedCategory_def)
  have cat: "tp_category ?r = tp_category ?c"
    by (simp add: effect_reset_page_def effect_account_def)
  have "truthy (tp_category ?c) \<and> \<not> tp_isLoading s \<and> page_categories E s \<noteq> [] \<longrightarrow>
      (\<exists>c\<in>set (page_categories E s). toLowerCase c = toLowerCase (the (tp_category ?c)))"
    by (auto simp: effect_category_def setSelectedCategory_def truthy_def list_ex_iff)
  then show ?thesis
    using p t [of ?r] cat by (simp add: effects_def effect_clamp_def clamp_page_def)
qed

definition plain_page :: page_state where
  "plain_page = \<lparr>tp_isLoading = False, tp_error = None, tp_all = [], tp_search = [],
     tp_debounced = [], tp_category = None, tp_subcategory = None,
     tp_period = \<lparr>sel_year = 2024, sel_month = Some 2\<rparr>, tp_account = None, tp_page = 3,
     tp_userCategories = []\<rparr>"

theorem effects_settle_witness:
  "tp_page (effects \<lparr>pe_date = utc_env, pe_lc = (\<le>), pe_pageSize = 10\<rparr> initial_filter plain_page initial_filter plain_page) \<le>
   page_total \<lparr>pe_date = utc_env, pe_lc = (\<le>), pe_pageSize = 10\<rparr>
     (effects \<lparr>pe_date = utc_env, pe_lc = (\<le>), pe_pageSize = 10\<rparr> initial_filter plain_page initial_filter plain_page)"
  using effects_settle [of plain_page "\<lparr>pe_date = utc_env, pe_lc = (\<le>), pe_pageSize = 10\<rparr>"
      initial_filter plain_page] by (simp add: plain_page_def)

text \<open>
  A new rule changes exactly the transactions it applies to, and of those only the category: the
  order, ids, dates and amounts stay. When the server refuses the rule the changed list stays on
  screen: nothing restores it.
\<close>

theorem rule_update_exact:
  assumes "createCategoryRule S af transactionId pattern cat sub s = (r, s')"
    and "sv_createRule S pattern cat sub = Inl x"
  shows "r = Inl x \<and> length (tp_all s') = length (tp_all s) \<and>
    (\<forall>i < length (tp_all s).
       (if rule_applies transactionId pattern (tp_all s ! i)
        then category_primary (tp_all s' ! i) = Some cat \<and> tx_rule_category (tp_all s' ! i) = Some cat \<and>
          tx_custom_category (tp_all s' ! i) = None
        else tp_all s' ! i = tp_all s ! i) \<and>
       tx_id (tp_all s' ! i) = tx_id (tp_all s ! i) \<and> tx_date (tp_all s' ! i) = tx_date (tp_all s ! i) \<and>
       tx_amount (tp_all s' ! i) = tx_amount (tp_all s ! i))"
  using assms
  by (auto simp: createCategoryRule_def Let_def apply_rule_def recategorised_def category_primary_def)

definition refusing_server :: tx_server where
  "refusing_server = \<lparr>sv_fetch = (\<lambda>_. Inr []), sv_setCategory = (\<lambda>_ _ _. Inr ()),
     sv_removeCategory = (\<lambda>_. Inr ()), sv_createCategory = (\<lambda>_ _. Inl (JsExn [])),
     sv_createRule = (\<lambda>_ _ _. Inl (JsExn ''no'')), sv_deleteCategory = (\<lambda>_. Inr ()),
     sv_markDuplicate = (\<lambda>_. Inr ())\<rparr>"

theorem rule_update_exact_witness:
  "category_primary (tp_all (snd (createCategoryRule refusing_server initial_filter ''a'' ''x*'' ''Travel'' None
     (plain_page\<lparr>tp_all := [bare_transaction ''a'' ''2024-03-02'' 5 ''FOOD'']\<rparr>))) ! 0) = Some ''Travel''"
proof -
  let ?s = "plain_page\<lparr>tp_all := [bare_transaction ''a'' ''2024-03-02'' 5 ''FOOD'']\<rparr>"
  obtain r s' where c: "createCategoryRule refusing_server initial_filter ''a'' ''x*'' ''Travel'' None ?s = (r, s')"
    by force
  from rule_update_exact [OF this, of "JsExn ''no''"] show ?thesis
    using c by (simp add: refusing_server_def rule_applies_def bare_transaction_def)
qed

text \<open>
  Loads are not ordered: an answer that arrives last is shown, whatever it was asked for. If the
  user has moved to another month in between and every transaction of the late answer lies outside
  it, the list is shown as loaded, without an error, and empty.
\<close>

theorem late_answer_empties_list:
  assumes "\<forall>t\<in>set old. \<not> in_date_range (pe_date E) (fst (computeMonthRange (tp_period s)))
      (snd (computeMonthRange (tp_period s))) t"
    and "tp_error s = None"
  shows "page_filtered E (end_load False (Inr old) (end_load False (Inr new) s)) = [] \<and>
    tp_error (end_load False (Inr old) (end_load False (Inr new) s)) = None \<and>
    \<not> tp_isLoading (end_load False (Inr old) (end_load False (Inr new) s))"
proof -
  have "filter_transactions e old \<lparr>fc_search = q, fc_category = c, fc_subcategory = u,
      fc_dateRange = Some (computeMonthRange (tp_period s))\<rparr> = []" if "e = pe_date E" for e q c u
  proof -
    have "filter (matches e \<lparr>fc_search = q, fc_category = c, fc_subcategory = u,
        fc_dateRange = Some (computeMonthRange (tp_period s))\<rparr>) old = []"
      using assms(1) that by (auto simp: filter_empty_conv matches_def split_beta)
    then show ?thesis by (simp add: filter_transactions_eq sortByDate_def)
  qed
  then show ?thesis
    using assms(2) by (simp add: page_filtered_def filtered_list_def end_load_def Let_def)
qed

theorem late_answer_empties_list_witness:
  "page_filtered \<lparr>pe_date = utc_env, pe_lc = (\<le>), pe_pageSize = 10\<rparr>
     (end_load False (Inr []) (end_load False (Inr [bare_transaction ''a'' ''2024-03-02'' 5 ''FOOD'']) plain_page)) = []"
  using late_answer_empties_list [of "[]" "\<lparr>pe_date = utc_env, pe_lc = (\<le>), pe_pageSize = 10\<rparr>" plain_page]
  by (simp add: plain_page_def)

end
