(* ===== verification/Provider_Services.thy ===== *)
theory Provider_Services
  imports Data_Services Account_Selection
begin

text \<open>
  The services of the bank connections (\<^verbatim>\<open>PlaidService\<close>, \<^verbatim>\<open>TellerService\<close>,
  \<^verbatim>\<open>ProviderCatalog\<close>, \<^verbatim>\<open>ManualAssetService\<close>, \<^verbatim>\<open>ManualInvestmentService\<close>), the
  settings, the currency rate, and the currency the amounts are shown in
  (\<^verbatim>\<open>hooks/useCurrency.tsx\<close>).
\<close>

section \<open>PlaidService\<close>

record ProviderStatusResponse =
  ps_provider :: FinancialProvider
  ps_connections :: "ProviderConnectionStatus list option"

definition connection_body :: "jstring option \<Rightarrow> json" where
  "connection_body connectionId = JsObject (opt_field ''connection_id'' connectionId)"

definition getLinkToken where
  "getLinkToken C N st = api_post C N ''/plaid/link-token'' (Some (JsObject [])) st"

definition exchangeToken where
  "exchangeToken C N publicToken st = api_post C N ''/plaid/exchange-token''
     (Some (JsObject [(''public_token'', JsString publicToken)])) st"

definition plaid_getAccounts :: "(json \<Rightarrow> Account) \<Rightarrow> RetryConfig \<Rightarrow> 's net_env \<Rightarrow> 's client \<Rightarrow>
    (Account list option, 's) call" where
  "plaid_getAccounts row C N st =
     map_value (\<lambda>v. map_option (map row) (array_of v)) (api_get C N ''/plaid/accounts'' st)"

definition plaid_syncTransactions where
  "plaid_syncTransactions C N connectionId st =
     api_post C N ''/providers/sync-transactions'' (Some (connection_body connectionId)) st"

definition plaid_getStatus where
  "plaid_getStatus cast C N st = map_value cast (api_get C N ''/providers/status'' st)"

definition plaid_disconnect where
  "plaid_disconnect C N connectionId st = api_post C N ''/providers/disconnect''
     (Some (JsObject [(''connection_id'', JsString connectionId)])) st"

definition clearSyncedData where
  "clearSyncedData C N st = api_post C N ''/plaid/clear-synced-data'' None st"

section \<open>TellerService\<close>

record TellerConnectionStatus =
  tcs_connection_id :: jstring
  tcs_institution_name :: jstring
  tcs_last_sync_at :: "jstring option"
  tcs_transaction_count :: int
  tcs_account_count :: int
  tcs_is_connected :: bool
  tcs_sync_in_progress :: bool

definition teller_status :: "ProviderConnectionStatus \<Rightarrow> TellerConnectionStatus" where
  "teller_status connection = \<lparr>
     tcs_connection_id = default_to (pc_connection_id connection) ''unknown'',
     tcs_institution_name = default_to (pc_institution_name connection) ''Connected Bank'',
     tcs_last_sync_at = pc_last_sync_at connection,
     tcs_transaction_count = pc_transaction_count connection,
     tcs_account_count = pc_account_count connection,
     tcs_is_connected = pc_is_connected connection,
     tcs_sync_in_progress = pc_sync_in_progress connection\<rparr>"

definition teller_statuses :: "ProviderStatusResponse \<Rightarrow> exn + TellerConnectionStatus list" where
  "teller_statuses status =
     (if ps_provider status \<noteq> Teller then Inr []
      else case ps_connections status of None \<Rightarrow> Inl (JsExn ''status.connections.map is not a function'')
        | Some cs \<Rightarrow> Inr (map teller_status cs))"

definition teller_getStatus :: "(json \<Rightarrow> ProviderStatusResponse) \<Rightarrow> RetryConfig \<Rightarrow> 's net_env \<Rightarrow>
    's client \<Rightarrow> (TellerConnectionStatus list, 's) call" where
  "teller_getStatus cast C N st =
     on_value (\<lambda>v. teller_statuses (cast v)) (api_get C N ''/providers/status'' st)"

definition teller_syncTransactions where
  "teller_syncTransactions C N connectionId st = map_value (\<lambda>_. ())
     (api_post C N ''/providers/sync-transactions'' (Some (connection_body connectionId)) st)"

text \<open>The answer to a disconnect: whether it succeeded, and its message.\<close>

definition teller_disconnect ::
    "(json \<Rightarrow> bool \<times> jstring option) \<Rightarrow> RetryConfig \<Rightarrow> 's net_env \<Rightarrow> jstring \<Rightarrow> 's client \<Rightarrow> (unit, 's) call" where
  "teller_disconnect cast C N connectionId st = on_value
     (\<lambda>v. case cast v of (success, message) \<Rightarrow>
        if \<not> success then Inl (JsExn (str_or message ''Connection was not disconnected'')) else Inr ())
     (plaid_disconnect C N connectionId st)"

section \<open>ProviderCatalog\<close>

definition handle_error :: "('r, 's) call \<Rightarrow> (exn \<Rightarrow> 's client \<Rightarrow> ('r, 's) call) \<Rightarrow> ('r, 's) call" where
  "handle_error c h = Option.bind c (\<lambda>(r, st). case r of Inr v \<Rightarrow> Some (Inr v, st) | Inl e \<Rightarrow> h e st)"

definition is_not_found :: "exn \<Rightarrow> bool" where
  "is_not_found e \<longleftrightarrow> (case e of ApiExn a \<Rightarrow> ae_status a = 404 | JsExn _ \<Rightarrow> False)"

definition with_provider :: "Account \<Rightarrow> Account" where
  "with_provider account = account\<lparr>acct_provider := Some (default_to (acct_provider account) Plaid)\<rparr>"

definition catalog_getAccounts :: "(json \<Rightarrow> Account) \<Rightarrow> RetryConfig \<Rightarrow> 's net_env \<Rightarrow> 's client \<Rightarrow>
    (Account list option, 's) call" where
  "catalog_getAccounts row C N st = handle_error
     (map_value (\<lambda>v. map_option (map row) (array_of v)) (api_get C N ''/providers/accounts'' st))
     (\<lambda>e st1. if is_not_found e then plaid_getAccounts row C N st1
        else Option.bind (plaid_getAccounts row C N st1) (\<lambda>(r, st2). Some (case r of
            Inr (Some fallback) \<Rightarrow> (Inr (Some (map with_provider fallback)), st2)
          | _ \<Rightarrow> (Inl e, st2))))"

section \<open>Manual accounts and settings\<close>

record ManualRequest =
  mr_institution_name :: jstring
  mr_name :: jstring
  mr_account_type :: "jstring option"
  mr_balance_current :: rat
  mr_mask :: "jstring option"

definition manual_body :: "ManualRequest \<Rightarrow> json" where
  "manual_body input = JsObject ([(''institution_name'', JsString (mr_institution_name input)),
     (''name'', JsString (mr_name input))] @
     defined_field ''account_type'' (map_option JsString (mr_account_type input)) @
     [(''balance_current'', JsNumber (mr_balance_current input))] @
     defined_field ''mask'' (map_option JsString (mr_mask input)))"

definition asset_create where
  "asset_create row C N input st = map_value row (api_post C N ''/manual-assets'' (Some (manual_body input)) st)"

definition asset_update where
  "asset_update row C N assetId input st =
     map_value row (api_put C N (''/manual-assets/'' @ assetId) (Some (manual_body input)) st)"

definition asset_delete where
  "asset_delete C N assetId st = map_value (\<lambda>_. ()) (api_delete C N (''/manual-assets/'' @ assetId) st)"

definition investment_create where
  "investment_create row C N input st =
     map_value row (api_post C N ''/manual-investments'' (Some (manual_body input)) st)"

definition investment_update where
  "investment_update row C N invId input st =
     map_value row (api_put C N (''/manual-investments/'' @ invId) (Some (manual_body input)) st)"

definition investment_delete where
  "investment_delete C N invId st =
     map_value (\<lambda>_. ()) (api_delete C N (''/manual-investments/'' @ invId) st)"

definition changePassword where
  "changePassword C N currentPassword newPassword st = api_put C N ''/auth/change-password''
     (Some (JsObject [(''current_password'', JsString currentPassword),
        (''new_password'', JsString newPassword)])) st"

definition deleteAccount where
  "deleteAccount C N st = api_delete C N ''/auth/account'' st"

section \<open>Currency\<close>

datatype DisplayCurrency = USD | EUR | GBP | CAD | AUD | JPY | INR

definition SUPPORTED_DISPLAY_CURRENCIES :: "DisplayCurrency list" where
  "SUPPORTED_DISPLAY_CURRENCIES = [USD, EUR, GBP, CAD, AUD, JPY, INR]"

definition currency_code :: "DisplayCurrency \<Rightarrow> jstring" where
  "currency_code c = (case c of USD \<Rightarrow> ''USD'' | EUR \<Rightarrow> ''EUR'' | GBP \<Rightarrow> ''GBP'' | CAD \<Rightarrow> ''CAD''
     | AUD \<Rightarrow> ''AUD'' | JPY \<Rightarrow> ''JPY'' | INR \<Rightarrow> ''INR'')"

definition isDisplayCurrency :: "jstring option \<Rightarrow> DisplayCurrency option" where
  "isDisplayCurrency value =
     List.find (\<lambda>c. value = Some (currency_code c)) SUPPORTED_DISPLAY_CURRENCIES"

definition rate_of_answer :: "DisplayCurrency \<Rightarrow> json \<Rightarrow> exn + rat \<times> jstring option" where
  "rate_of_answer currency data = (case (get_field data ''rate'', get_field data ''date'') of
     (Inr r, Inr d) \<Rightarrow> (case r of
        Some (JsNumber q) \<Rightarrow> if q \<le> 0 then Inl (JsExn (''Rate unavailable for '' @ currency_code currency))
          else Inr (q, case d of Some (JsString s) \<Rightarrow> Some s | _ \<Rightarrow> None)
      | _ \<Rightarrow> Inl (JsExn (''Rate unavailable for '' @ currency_code currency)))
   | _ \<Rightarrow> Inl (JsExn ''Cannot read properties of null''))"

definition getUsdRate :: "int \<Rightarrow> RetryConfig \<Rightarrow> 's net_env \<Rightarrow> DisplayCurrency \<Rightarrow> 's client \<Rightarrow>
    (rat \<times> jstring option, 's) call" where
  "getUsdRate now C N currency st =
     (if currency = USD then Some (Inr (1, Some (iso_slice10 now)), st)
      else on_value (rate_of_answer currency)
        (api_get C N (''/currency/rate?currency='' @ encodeURIComponent (currency_code currency)) st))"

record currency_state =
  cu_currency :: DisplayCurrency
  cu_rate :: rat
  cu_rateDate :: "jstring option"
  cu_loading :: bool
  cu_error :: "jstring option"
  cu_stored :: "jstring option"

definition initial_currency :: "jstring option \<Rightarrow> currency_state" where
  "initial_currency stored = \<lparr>cu_currency = default_to (isDisplayCurrency stored) USD, cu_rate = 1,
     cu_rateDate = None, cu_loading = False, cu_error = None, cu_stored = stored\<rparr>"

text \<open>
  \<^verbatim>\<open>refreshRate\<close> starts for the currency of its render; its answer arrives later, for that
  currency, whatever the currency is by then.
\<close>

definition begin_rate :: "currency_state \<Rightarrow> currency_state" where
  "begin_rate s = s\<lparr>cu_loading := True, cu_error := None\<rparr>"

definition end_rate ::
    "DisplayCurrency \<Rightarrow> exn + rat \<times> jstring option \<Rightarrow> currency_state \<Rightarrow> currency_state" where
  "end_rate asked answer s = (case answer of
     Inr (r, d) \<Rightarrow> s\<lparr>cu_rate := r, cu_rateDate := d, cu_loading := False\<rparr>
   | Inl _ \<Rightarrow> s\<lparr>cu_error := Some ''Could not refresh currency rate'',
       cu_rate := (if asked = USD then 1 else cu_rate s), cu_loading := False\<rparr>)"

text \<open>Changing the currency stores it and starts a refresh for it.\<close>

definition setCurrency :: "DisplayCurrency \<Rightarrow> currency_state \<Rightarrow> currency_state" where
  "setCurrency next s = (if next = cu_currency s then s
     else begin_rate (s\<lparr>cu_currency := next, cu_stored := Some (currency_code next)\<rparr>))"

definition currency_convert :: "currency_state \<Rightarrow> jsval \<Rightarrow> rat" where
  "currency_convert s value = (case js_Number value of Fin q \<Rightarrow> q * cu_rate s | _ \<Rightarrow> 0)"

definition formatConverted ::
    "(DisplayCurrency \<Rightarrow> rat \<Rightarrow> jstring) \<Rightarrow> currency_state \<Rightarrow> jsval \<Rightarrow> jstring" where
  "formatConverted intl s value = intl (cu_currency s) (fin_or_zero (js_Number value))"

definition currency_format :: "(DisplayCurrency \<Rightarrow> rat \<Rightarrow> jstring) \<Rightarrow> currency_state \<Rightarrow> jsval \<Rightarrow> jstring" where
  "currency_format intl s value = formatConverted intl s (JNum (Fin (currency_convert s value)))"

definition fmtUSD :: "(DisplayCurrency \<Rightarrow> rat \<Rightarrow> jstring) \<Rightarrow> jsval \<Rightarrow> jstring" where
  "fmtUSD intl n = (case js_Number n of Fin q \<Rightarrow> intl USD q | _ \<Rightarrow> ''$0.00'')"

section \<open>The fallback of the provider catalogue\<close>

text \<open>
  A failing account list never hides its cause: when both endpoints fail, the error reported is
  the one of the provider endpoint, except after a 404, where it is the one of the Plaid endpoint
  (which is asked in both cases); and every account taken from the fallback names its provider.
\<close>

theorem accounts_fallback:
  assumes "map_value (\<lambda>v. map_option (map row) (array_of v)) (api_get C N ''/providers/accounts'' st) =
      Some (Inl e, st1)"
    and "plaid_getAccounts row C N st1 = Some (r, st2)"
  shows "catalog_getAccounts row C N st = Some (case r of
      Inl e' \<Rightarrow> if is_not_found e then Inl e' else Inl e
    | Inr None \<Rightarrow> if is_not_found e then Inr None else Inl e
    | Inr (Some accts) \<Rightarrow>
        Inr (Some (if is_not_found e then accts else map with_provider accts)), st2) \<and>
    (\<forall>accts. \<forall>a\<in>set (map with_provider accts). acct_provider a \<noteq> None)"
  using assms
  by (auto simp: catalog_getAccounts_def handle_error_def with_provider_def
      split: sum.split option.split)

theorem accounts_fallback_witness:
  "\<exists>st2. catalog_getAccounts row retryConfig (quiet_net (Reply 418 '''' (Json JsNull))) (new_client ()) =
     Some (Inl (ApiExn (ApiError 418 ''418 Error'')), st2)"
proof -
  let ?N = "quiet_net (Reply 418 '''' (Json JsNull))"
  let ?e = "ApiExn (ApiError 418 ''418 Error'')"
  have d: "int_str 418 = ''418''"
    by (simp add: int_str_def dec_step dec_small digit_char_def char_ofI)
  have s: "\<exists>st1. send_request ?N ep \<lparr>ro_method = Some ''GET'', ro_headers = [], ro_body = None\<rparr> st =
      (Inl ?e, st1)" for ep st
    by (simp add: send_request_def makeRawRequest_def dispatch_def toUpperCase_def upper_char_eval
        Let_def str_or_def truthy_def quiet_net_def handleResponse_def createApiError_def
        error_message_def get_field_def error_for_status_def d)
  have na: "\<not> is_auth_error ?e" by (simp add: is_auth_error_def ApiError_def)
  have nr: "\<not> retryable retryConfig ?e"
    by (simp add: retryable_def isRetryableStatus_def isRetryableError_def retryConfig_def ApiError_def
        exn_message_def str_includes_def sublist_Cons_right lower_char_eval toLowerCase_def)
  have g: "\<exists>st1. api_get retryConfig ?N ep st = Some (Inl ?e, st1)" for ep st
  proof -
    obtain st1 where "send_request ?N ep \<lparr>ro_method = Some ''GET'', ro_headers = [], ro_body = None\<rparr> st =
      (Inl ?e, st1)" using s by blast
    from request_fail [OF this, of 0 retryConfig] na nr show ?thesis
      by (simp add: api_get_def makeRequest_def rethrown_def)
  qed
  obtain st1 where "api_get retryConfig ?N ''/providers/accounts'' (new_client ()) = Some (Inl ?e, st1)"
    using g by blast
  then have a: "map_value (\<lambda>v. map_option (map row) (array_of v))
      (api_get retryConfig ?N ''/providers/accounts'' (new_client ())) = Some (Inl ?e, st1)"
    by (simp add: map_value_def on_value_def)
  obtain st2 where "api_get retryConfig ?N ''/plaid/accounts'' st1 = Some (Inl ?e, st2)" using g by blast
  then have b: "plaid_getAccounts row retryConfig ?N st1 = Some (Inl ?e, st2)"
    by (simp add: plaid_getAccounts_def map_value_def on_value_def)
  show ?thesis using accounts_fallback [OF a b] by simp
qed

section \<open>Runs of the currency\<close>

definition mounted_currency :: "jstring option \<Rightarrow> currency_state" where
  "mounted_currency stored = (let s = initial_currency stored in
     begin_rate (s\<lparr>cu_stored := Some (currency_code (cu_currency s))\<rparr>))"

text \<open>An answer to a refresh for a currency: what \<open>getUsdRate\<close> may return.\<close>

definition rate_answer :: "DisplayCurrency \<Rightarrow> exn + rat \<times> jstring option \<Rightarrow> bool" where
  "rate_answer c a \<longleftrightarrow> (case a of Inl _ \<Rightarrow> c \<noteq> USD
     | Inr (r, d) \<Rightarrow> if c = USD then r = 1 else \<exists>data. rate_of_answer c data = Inr (r, d))"

inductive currency_step ::
    "currency_state \<times> DisplayCurrency list \<Rightarrow> currency_state \<times> DisplayCurrency list \<Rightarrow> bool" where
  change: "c \<noteq> cu_currency s \<Longrightarrow> currency_step (s, p) (setCurrency c s, p @ [c])"
| refresh: "currency_step (s, p) (begin_rate s, p @ [cu_currency s])"
| answer: "c \<in> set p \<Longrightarrow> rate_answer c a \<Longrightarrow> currency_step (s, p) (end_rate c a s, remove1 c p)"

inductive_cases currency_stepE: "currency_step sp sp'"

definition currency_init :: "currency_state \<times> DisplayCurrency list \<Rightarrow> bool" where
  "currency_init sp \<longleftrightarrow> (\<exists>stored. sp = (mounted_currency stored, [cu_currency (mounted_currency stored)]))"

definition currency_ok :: "currency_state \<times> DisplayCurrency list \<Rightarrow> bool" where
  "currency_ok sp \<longleftrightarrow> 0 < cu_rate (fst sp) \<and>
     cu_stored (fst sp) = Some (currency_code (cu_currency (fst sp)))"

lemma isDisplayCurrency_code [simp]: "isDisplayCurrency (Some (currency_code c)) = Some c"
  by (cases c) (simp_all add: isDisplayCurrency_def SUPPORTED_DISPLAY_CURRENCIES_def currency_code_def)

lemma rate_of_answer_pos: "rate_of_answer c data = Inr (r, d) \<Longrightarrow> 0 < r"
  by (auto simp: rate_of_answer_def split: sum.splits option.splits json.splits if_splits)

lemma rate_answer_pos: "rate_answer c (Inr (r, d)) \<Longrightarrow> 0 < r"
  using rate_of_answer_pos by (auto simp: rate_answer_def split: if_splits)

lemma currency_step_ok: "currency_step sp sp' \<Longrightarrow> currency_ok sp \<Longrightarrow> currency_ok sp'"
  by (erule currency_stepE)
    (auto simp: currency_ok_def setCurrency_def begin_rate_def end_rate_def rate_answer_pos
      split: sum.splits)

interpretation currency: transition_system currency_step currency_init currency_ok
proof
  show "currency_init sp \<Longrightarrow> currency_ok sp" for sp
    by (auto simp: currency_init_def currency_ok_def mounted_currency_def initial_currency_def
        begin_rate_def Let_def)
qed (rule currency_step_ok)

text \<open>
  However requests and answers interleave, the exchange rate stays positive, so converting keeps
  the sign of every amount, and the currency in use is the one that is stored: reloading the page
  comes back to it.
\<close>

theorem currency_run:
  assumes "currency_step\<^sup>*\<^sup>* (mounted_currency stored, [cu_currency (mounted_currency stored)]) (s, p)"
  shows "0 < cu_rate s \<and> sgn (currency_convert s (JNum (Fin x))) = sgn x \<and>
    cu_currency (initial_currency (cu_stored s)) = cu_currency s"
proof -
  have "currency_ok (s, p)"
    using currency.invar_reachable [OF assms] by (auto simp: currency_init_def)
  then show ?thesis
    by (simp add: currency_ok_def currency_convert_def sgn_mult initial_currency_def)
qed

theorem currency_run_witness:
  "cu_currency (initial_currency (cu_stored (setCurrency EUR (mounted_currency None)))) = EUR"
proof -
  let ?m = "mounted_currency None"
  have "cu_currency ?m = USD"
    by (simp add: mounted_currency_def initial_currency_def begin_rate_def Let_def
        isDisplayCurrency_def SUPPORTED_DISPLAY_CURRENCIES_def)
  then have "currency_step (?m, [cu_currency ?m]) (setCurrency EUR ?m, [cu_currency ?m] @ [EUR])"
    by (intro currency_step.change) simp
  from currency_run [OF r_into_rtranclp [of currency_step, OF this]] show ?thesis
    using \<open>cu_currency ?m = USD\<close> by (simp add: setCurrency_def begin_rate_def)
qed

text \<open>
  An answer is applied to the currency of the moment it arrives: after choosing euros and then
  pounds, with the answers in the other order, pounds are shown at the rate of the euro and nothing
  is left in flight.
\<close>

theorem stale_rate_reachable:
  assumes "0 < q"
  shows "\<exists>s. currency_step\<^sup>*\<^sup>* (mounted_currency None, [cu_currency (mounted_currency None)]) (s, []) \<and>
    cu_currency s = GBP \<and> cu_rate s = q \<and> cu_error s = None \<and> \<not> cu_loading s"
proof -
  have ans: "rate_answer c (Inr (r, None))" if "0 < r" "c \<noteq> USD" for c r
    unfolding rate_answer_def using that
    by (auto intro!: exI [of _ "JsObject [(''rate'', JsNumber r)]"]
        simp: rate_of_answer_def get_field_def map_get_def)
  let ?m = "mounted_currency None"
  have m: "cu_currency ?m = USD"
    by (simp add: mounted_currency_def initial_currency_def begin_rate_def Let_def
        isDisplayCurrency_def SUPPORTED_DISPLAY_CURRENCIES_def)
  let ?s1 = "setCurrency EUR ?m" and ?s2 = "setCurrency GBP (setCurrency EUR ?m)"
  have c: "cu_currency ?s1 = EUR" "cu_currency ?s2 = GBP"
    using m by (simp_all add: setCurrency_def begin_rate_def)
  let ?s3 = "end_rate USD (Inr (1, None)) ?s2"
  let ?s4 = "end_rate GBP (Inr (2, None)) ?s3"
  let ?s5 = "end_rate EUR (Inr (q, None)) ?s4"
  have a1: "currency_step (?m, [USD]) (?s1, [USD, EUR])"
    using currency_step.change [of EUR ?m "[USD]"] m by simp
  have a2: "currency_step (?s1, [USD, EUR]) (?s2, [USD, EUR, GBP])"
    using currency_step.change [of GBP ?s1 "[USD, EUR]"] c by simp
  have a3: "currency_step (?s2, [USD, EUR, GBP]) (?s3, [EUR, GBP])"
    using currency_step.answer [of USD "[USD, EUR, GBP]" "Inr (1, None)" ?s2] by (simp add: rate_answer_def)
  have a4: "currency_step (?s3, [EUR, GBP]) (?s4, [EUR])"
    using currency_step.answer [of GBP "[EUR, GBP]" "Inr (2, None)" ?s3] ans [of 2 GBP] by simp
  have a5: "currency_step (?s4, [EUR]) (?s5, [])"
    using currency_step.answer [of EUR "[EUR]" "Inr (q, None)" ?s4] ans [OF assms, of EUR] by simp
  have "currency_step\<^sup>*\<^sup>* (?m, [USD]) (?s5, [])"
    by (metis (no_types) a1 a2 a3 a4 a5 converse_rtranclp_into_rtranclp rtranclp.rtrancl_refl)
  then have "currency_step\<^sup>*\<^sup>* (?m, [cu_currency ?m]) (?s5, [])" using m by simp
  moreover have "cu_currency ?s5 = GBP \<and> cu_rate ?s5 = q \<and> cu_error ?s5 = None \<and> \<not> cu_loading ?s5"
    using m by (simp add: end_rate_def setCurrency_def begin_rate_def)
  ultimately show ?thesis by blast
qed

theorem stale_rate_reachable_witness:
  "\<exists>s. currency_step\<^sup>*\<^sup>* (mounted_currency None, [cu_currency (mounted_currency None)]) (s, []) \<and>
    cu_currency s = GBP \<and> cu_rate s = 1 / 2 \<and> cu_error s = None \<and> \<not> cu_loading s"
  by (rule stale_rate_reachable) simp

end
