(* ===== verification/Budget_Book.thy ===== *)
theory Budget_Book
  imports Budget_Calculator Data_Services Account_Selection
begin

text \<open>
  Optimistic list operations (\<^verbatim>\<open>utils/optimistic.ts\<close>) and the budgets page
  (\<^verbatim>\<open>features/budgets/hooks/useBudgets.ts\<close>). An optimistic operation is two steps: the
  local change, with what it remembers for a rollback, and the answer of the server.
\<close>

section \<open>Optimistic operations\<close>

definition create_begin :: "'a \<Rightarrow> 'a list \<Rightarrow> 'a list" where
  "create_begin tempItem prev = prev @ [tempItem]"

definition create_end :: "('a \<Rightarrow> 'k) \<Rightarrow> 'a \<Rightarrow> exn + 'a \<Rightarrow> 'a list \<Rightarrow> 'a list" where
  "create_end ident tempItem answer prev = (case answer of
     Inr created \<Rightarrow> map (\<lambda>item. if ident item = ident tempItem then created else item) prev
   | Inl _ \<Rightarrow> filter (\<lambda>item. ident item \<noteq> ident tempItem) prev)"

definition update_begin :: "('a \<Rightarrow> 'k) \<Rightarrow> 'k \<Rightarrow> ('a \<Rightarrow> 'a) \<Rightarrow> 'a list \<Rightarrow> 'a list" where
  "update_begin ident k applyLocal prev = map (\<lambda>item. if ident item = k then applyLocal item else item) prev"

definition update_end :: "('a \<Rightarrow> 'k) \<Rightarrow> 'k \<Rightarrow> 'a list \<Rightarrow> exn + 'a \<Rightarrow> 'a list \<Rightarrow> 'a list" where
  "update_end ident k snapshot answer prev = (case answer of
     Inr updated \<Rightarrow> map (\<lambda>item. if ident item = k then updated else item) prev
   | Inl _ \<Rightarrow> snapshot)"

definition delete_begin :: "('a \<Rightarrow> 'k) \<Rightarrow> 'k \<Rightarrow> 'a list \<Rightarrow> 'a list" where
  "delete_begin ident k prev = filter (\<lambda>item. ident item \<noteq> k) prev"

definition delete_end :: "'a list \<Rightarrow> exn + unit \<Rightarrow> 'a list \<Rightarrow> 'a list" where
  "delete_end snapshot answer prev = (case answer of Inr _ \<Rightarrow> prev | Inl _ \<Rightarrow> snapshot)"







section \<open>The month\<close>

definition normalizeMonth :: "int \<Rightarrow> int" where
  "normalizeMonth d = new_date (year_of_day d) (month_of_day d) 1"

text \<open>
  \<^verbatim>\<open>getMonthRange\<close> writes local midnights with \<^verbatim>\<open>toISOString\<close>, which is in UTC.
\<close>

definition getMonthRange :: "date_env \<Rightarrow> int \<Rightarrow> jstring \<times> jstring" where
  "getMonthRange e d =
     (let start = new_date (year_of_day d) (month_of_day d) 1;
          finish = new_date (year_of_day d) (month_of_day d + 1) 0
      in (iso_slice10 (de_midnight e start), iso_slice10 (de_midnight e finish)))"

definition previous_month :: "int \<Rightarrow> int" where
  "previous_month d = new_date (year_of_day d) (month_of_day d - 1) 1"

definition next_month :: "int \<Rightarrow> int" where
  "next_month d = new_date (year_of_day d) (month_of_day d + 1) 1"

section \<open>The state\<close>

record budget_book =
  bk_isLoading :: bool
  bk_transactionsLoading :: bool
  bk_error :: "jstring option"
  bk_validationError :: "jstring option"
  bk_budgets :: "Budget list"
  bk_transactions :: "Transaction list"
  bk_month :: int
  bk_ready :: bool
  bk_loaded :: bool
  bk_lastRange :: "jstring option"

definition should_filter :: "account_filter \<Rightarrow> bool" where
  "should_filter af \<longleftrightarrow> 0 < length (af_selected af) \<and> \<not> isAllAccountsSelected af"

definition range_key :: "account_filter \<Rightarrow> jstring \<Rightarrow> jstring \<Rightarrow> jstring" where
  "range_key af start finish = start @ '':'' @ finish @ '':'' @
     (if af_selected af = [] \<and> 0 < length (allAccountIds af) then ''none''
      else if should_filter af then join '','' (af_selected af) else ''all'')"

text \<open>\<open>fetch\<close> is \<^verbatim>\<open>TransactionService.getTransactions\<close> on a range and account ids.\<close>

definition loadTransactions ::
    "(jstring \<Rightarrow> jstring \<Rightarrow> jstring list option \<Rightarrow> exn + Transaction list) \<Rightarrow> account_filter \<Rightarrow>
     jstring \<Rightarrow> jstring \<Rightarrow> budget_book \<Rightarrow> budget_book" where
  "loadTransactions fetch af start finish s =
     (let s1 = s\<lparr>bk_lastRange := Some (range_key af start finish)\<rparr> in
      if af_loading af then s1
      else if 0 < length (allAccountIds af) \<and> af_selected af = [] then s1\<lparr>bk_transactions := []\<rparr>
      else (case fetch start finish (if should_filter af then Some (af_selected af) else None) of
          Inr items \<Rightarrow> s1\<lparr>bk_transactions := items, bk_transactionsLoading := False\<rparr>
        | Inl _ \<Rightarrow> s1\<lparr>bk_transactions := [], bk_transactionsLoading := False\<rparr>))"

definition extractStatus :: "exn \<Rightarrow> int option" where
  "extractStatus x = (case x of ApiExn a \<Rightarrow> Some (ae_status a) | JsExn _ \<Rightarrow> None)"

definition budget_error :: "jstring \<Rightarrow> exn \<Rightarrow> jstring" where
  "budget_error fallback x = (if extractStatus x = Some 401
     then ''You are not authenticated. Please log in again.'' else fallback)"

definition load_budgets ::
    "date_env \<Rightarrow> exn + Budget list \<Rightarrow>
     (jstring \<Rightarrow> jstring \<Rightarrow> jstring list option \<Rightarrow> exn + Transaction list) \<Rightarrow> account_filter \<Rightarrow>
     budget_book \<Rightarrow> budget_book" where
  "load_budgets e answer fetch af s =
     (let s1 = s\<lparr>bk_error := None, bk_validationError := None\<rparr>;
          rng = getMonthRange e (bk_month s)
      in if \<not> bk_loaded s then
           (case answer of
              Inr list \<Rightarrow> loadTransactions fetch af (fst rng) (snd rng)
                (s1\<lparr>bk_budgets := list, bk_loaded := True, bk_ready := True, bk_isLoading := False\<rparr>)
            | Inl x \<Rightarrow> s1\<lparr>bk_budgets := [], bk_loaded := False, bk_isLoading := False,
                bk_error := Some (budget_error ''Failed to load budgets.'' x)\<rparr>)
         else loadTransactions fetch af (fst rng) (snd rng) (s1\<lparr>bk_ready := True\<rparr>))"

text \<open>The effect that loads the transactions of a new range or selection.\<close>

definition range_effect ::
    "date_env \<Rightarrow> (jstring \<Rightarrow> jstring \<Rightarrow> jstring list option \<Rightarrow> exn + Transaction list) \<Rightarrow> account_filter \<Rightarrow>
     budget_book \<Rightarrow> budget_book" where
  "range_effect e fetch af s =
     (let rng = getMonthRange e (bk_month s) in
      if \<not> bk_ready s \<or> Some (range_key af (fst rng) (snd rng)) = bk_lastRange s then s
      else loadTransactions fetch af (fst rng) (snd rng) s)"

definition set_month :: "int \<Rightarrow> budget_book \<Rightarrow> budget_book" where
  "set_month d s = s\<lparr>bk_month := normalizeMonth d\<rparr>"

definition budget_exists :: "jstring \<Rightarrow> Budget list \<Rightarrow> bool" where
  "budget_exists category budgets =
     list_ex (\<lambda>b. toLowerCase (bd_category b) = toLowerCase category) budgets"

definition exists_message :: "jstring \<Rightarrow> jstring" where
  "exists_message category =
     ''A budget for '' @ [char_of (34 :: nat)] @ category @ [char_of (34 :: nat)] @ '' already exists.''"

definition temp_budget ::
    "jstring \<Rightarrow> jstring \<Rightarrow> rat \<Rightarrow> BudgetFrequency option \<Rightarrow> bool option \<Rightarrow> Budget" where
  "temp_budget generated category amount frequency rollover = \<lparr>bd_id = generated,
     bd_category = category, bd_amount = amount, bd_frequency = frequency, bd_rollover = rollover,
     bd_rollover_start_month = None, bd_created_at = None\<rparr>"

definition add_begin :: "Budget \<Rightarrow> budget_book \<Rightarrow> (exn + unit) \<times> budget_book" where
  "add_begin temp s =
     (let s1 = s\<lparr>bk_validationError := None, bk_error := None\<rparr>; msg = exists_message (bd_category temp) in
      if budget_exists (bd_category temp) (bk_budgets s)
      then (Inl (JsExn msg), s1\<lparr>bk_validationError := Some msg\<rparr>)
      else (Inr (), s1\<lparr>bk_budgets := create_begin temp (bk_budgets s)\<rparr>))"

definition add_end :: "Budget \<Rightarrow> exn + Budget \<Rightarrow> budget_book \<Rightarrow> (exn + unit) \<times> budget_book" where
  "add_end temp answer s =
     (let s1 = s\<lparr>bk_budgets := create_end bd_id temp answer (bk_budgets s)\<rparr> in
      case answer of
        Inr _ \<Rightarrow> (Inr (), s1)
      | Inl x \<Rightarrow> (Inl x, s1\<lparr>bk_error := Some (
          if extractStatus x = Some 409 then exists_message (bd_category temp)
          else budget_error ''Failed to create budget.'' x)\<rparr>))"

definition edited ::
    "rat \<Rightarrow> BudgetFrequency option \<Rightarrow> bool option \<Rightarrow> Budget \<Rightarrow> Budget" where
  "edited amount frequency rollover b = b\<lparr>bd_amount := amount,
     bd_frequency := coalesce frequency (bd_frequency b),
     bd_rollover := coalesce rollover (bd_rollover b)\<rparr>"

definition edit_begin ::
    "jstring \<Rightarrow> rat \<Rightarrow> BudgetFrequency option \<Rightarrow> bool option \<Rightarrow> budget_book \<Rightarrow> budget_book" where
  "edit_begin budgetId amount frequency rollover s = s\<lparr>bk_error := None,
     bk_budgets := update_begin bd_id budgetId (edited amount frequency rollover) (bk_budgets s)\<rparr>"

definition edit_end :: "jstring \<Rightarrow> Budget list \<Rightarrow> exn + Budget \<Rightarrow> budget_book \<Rightarrow> budget_book" where
  "edit_end budgetId snapshot answer s =
     (let s1 = s\<lparr>bk_budgets := update_end bd_id budgetId snapshot answer (bk_budgets s)\<rparr> in
      case answer of Inr _ \<Rightarrow> s1
      | Inl x \<Rightarrow> s1\<lparr>bk_error := Some (budget_error ''Failed to update budget.'' x)\<rparr>)"

definition remove_begin :: "jstring \<Rightarrow> budget_book \<Rightarrow> budget_book" where
  "remove_begin budgetId s = s\<lparr>bk_error := None,
     bk_budgets := delete_begin bd_id budgetId (bk_budgets s)\<rparr>"

definition remove_end :: "Budget list \<Rightarrow> exn + unit \<Rightarrow> budget_book \<Rightarrow> budget_book" where
  "remove_end snapshot answer s =
     (let s1 = s\<lparr>bk_budgets := delete_end snapshot answer (bk_budgets s)\<rparr> in
      case answer of Inr _ \<Rightarrow> s1
      | Inl x \<Rightarrow> s1\<lparr>bk_error := Some (budget_error ''Failed to delete budget.'' x)\<rparr>)"

section \<open>Derived values\<close>

definition book_categories :: "budget_book \<Rightarrow> jstring list" where
  "book_categories s = js_sort (\<le>) (map bd_category (bk_budgets s))"

definition usedCategories :: "budget_book \<Rightarrow> jstring list" where
  "usedCategories s = set_of_list (map bd_category (bk_budgets s))"

definition categoryOptions :: "(jstring \<Rightarrow> jstring \<Rightarrow> bool) \<Rightarrow> budget_book \<Rightarrow> jstring list" where
  "categoryOptions lc s =
     (let base = foldl (\<lambda>acc cat. if cat_type cat = Expense then set_add (cat_name cat) acc else acc)
            [] CATEGORIES_TAXONOMY;
          unique = foldl (\<lambda>acc txn.
            let major = resolveMajorCategory (Some (str_or (category_primary txn) ''OTHER'')) [] in
            if major \<noteq> ''Uncategorized'' then set_add major acc else acc) base (bk_transactions s)
      in js_sort lc unique)"

definition budget_progress :: "date_env \<Rightarrow> budget_book \<Rightarrow> Budget \<Rightarrow> (Budget \<times> rat \<times> rat) result" where
  "budget_progress e s b =
     (let rng = getMonthRange e (bk_month s) in
      case calculateSpent e (bk_transactions s) (bd_category b) (fst rng) (snd rng) None of
        Inl err \<Rightarrow> Inl err
      | Inr spent \<Rightarrow> Inr (b, spent, calculatePercentage (bd_amount b) spent))"

definition computedBudgets :: "date_env \<Rightarrow> budget_book \<Rightarrow> (Budget \<times> rat \<times> rat) list result" where
  "computedBudgets e s = traverse (budget_progress e s) (bk_budgets s)"

section \<open>The month's range\<close>

lemma month_days:
  assumes "100 \<le> year_of_day d" "year_of_day d \<le> 9998"
  shows "new_date (year_of_day d) (month_of_day d) 1 = make_day (year_of_day d) (month_of_day d) 1"
    "new_date (year_of_day d) (month_of_day d + 1) 0 = make_day (year_of_day d) (month_of_day d + 1) 0"
    "year_of_day (make_day (year_of_day d) (month_of_day d) 1) = year_of_day d"
    "year_of_day (make_day (year_of_day d) (month_of_day d + 1) 0) = year_of_day d"
  using assms year_of_first [of "year_of_day d" "month_of_day d"]
    year_of_last [of "year_of_day d" "month_of_day d"] month_of_day_range [of d]
  by (simp_all add: new_date_def)

lemma day_before_four_digits:
  assumes "100 \<le> year_of_day n" "year_of_day n \<le> 9998"
  shows "four_digit_day n" "four_digit_day (n - 1)"
proof -
  have "year_of_day (n - 1) \<le> year_of_day n" by (rule year_of_day_mono) simp
  moreover have "year_of_day n - 1 \<le> year_of_day (n - 1)"
  proof -
    have "day_from_year (year_of_day n - 1) < day_from_year (year_of_day n)"
      using day_from_year_le_iff [of "year_of_day n" "year_of_day n - 1"] by linarith
    then have "day_from_year (year_of_day n - 1) \<le> n - 1"
      using year_of_day_bounds(1) [of n] by linarith
    then have "\<not> day_from_year (year_of_day (n - 1) + 1) \<le> day_from_year (year_of_day n - 1)"
      using year_of_day_bounds(2) [of "n - 1"] by linarith
    then show ?thesis
      using day_from_year_le_iff [of "year_of_day (n - 1) + 1" "year_of_day n - 1"] by linarith
  qed
  ultimately show "four_digit_day n" "four_digit_day (n - 1)"
    using assms by (simp_all add: four_digit_day_def)
qed

text \<open>
  C24. The range the budgets page asks for is the selected month, as the transactions page has it,
  exactly when local midnight of the first and of the last day of the month falls on the same day in UTC:
  where the zone, daylight saving included, is not east of UTC on those days. Each end whose midnight
  falls on the day before is one day early. Local midnight is on one of these two days in every zone.
\<close>

theorem getMonthRange_by_zone:
  assumes "100 \<le> year_of_day d" "year_of_day d \<le> 9998"
    and "\<And>n. de_midnight e n div ms_per_day = n \<or> de_midnight e n div ms_per_day = n - 1"
  shows "let first = make_day (year_of_day d) (month_of_day d) 1;
             final = make_day (year_of_day d) (month_of_day d + 1) 0;
             same_day = (\<lambda>n. de_midnight e n div ms_per_day = n)
    in (getMonthRange e d = computeMonthRange \<lparr>sel_year = year_of_day d, sel_month = Some (month_of_day d)\<rparr> \<longleftrightarrow>
          same_day first \<and> same_day final) \<and>
       getMonthRange e d = (day_key (if same_day first then first else first - 1),
          day_key (if same_day final then final else final - 1))"
proof -
  let ?f = "make_day (year_of_day d) (month_of_day d) 1"
  let ?l = "make_day (year_of_day d) (month_of_day d + 1) 0"
  let ?at = "\<lambda>n. if de_midnight e n div ms_per_day = n then n else n - 1"
  note m = month_days [OF assms(1,2)]
  have f: "four_digit_day ?f" "four_digit_day (?f - 1)" "four_digit_day ?l" "four_digit_day (?l - 1)"
    using day_before_four_digits [of ?f] day_before_four_digits [of ?l] m(3,4) assms(1,2) by simp_all
  have k: "iso_slice10 (de_midnight e n) = day_key (?at n)" if "four_digit_day n" "four_digit_day (n - 1)" for n
    using iso_slice10_day_key [of "de_midnight e n"] assms(3) [of n] that by auto
  have r: "getMonthRange e d = (day_key (?at ?f), day_key (?at ?l))"
    unfolding getMonthRange_def m(1,2) Let_def by (simp only: k f)
  have c: "computeMonthRange \<lparr>sel_year = year_of_day d, sel_month = Some (month_of_day d)\<rparr> = (day_key ?f, day_key ?l)"
    using f by (simp add: computeMonthRange_def localDate_def fmt_day_key)
  have "day_key (?at n) = day_key n \<longleftrightarrow> de_midnight e n div ms_per_day = n"
    if "four_digit_day n" "four_digit_day (n - 1)" for n
    using day_key_less_iff [of "n - 1" n] that by auto
  then show ?thesis using f unfolding Let_def r c by (simp only: prod.inject simp_thms)
qed

text \<open>A zone one hour east of UTC.\<close>

definition east_env :: date_env where
  "east_env = \<lparr>de_parse = (\<lambda>_. None), de_offset = (\<lambda>_. 3600000),
     de_midnight = (\<lambda>n. n * ms_per_day - 3600000)\<rparr>"

theorem getMonthRange_by_zone_witness:
  "getMonthRange east_env 19797 = (day_key (19783 - 1), day_key (19813 - 1)) \<and>
   computeMonthRange \<lparr>sel_year = 2024, sel_month = Some 2\<rparr> = (day_key 19783, day_key 19813)"
proof -
  have v: "valid_date 2024 2 15" "make_day 2024 2 15 = 19797" "make_day 2024 2 1 = 19783"
    "make_day 2024 3 0 = 19813"
    by (simp_all add: valid_date_def days_in_month_def make_day_def day_from_year_def month_start_def
        is_leap_def Let_def)
  have y: "year_of_day 19797 = 2024" "month_of_day 19797 = 2"
    using fields_make_day [OF v(1)] v(2) by simp_all
  have z: "de_midnight east_env n div ms_per_day = n - 1" for n by (simp add: east_env_def)
  then have "de_midnight east_env n div ms_per_day = n \<or> de_midnight east_env n div ms_per_day = n - 1" for n
    by blast
  from getMonthRange_by_zone [OF _ _ this, of 19797]
  have "getMonthRange east_env 19797 = (day_key (make_day 2024 2 1 - 1), day_key (make_day 2024 (2 + 1) 0 - 1))"
    by (simp add: Let_def z y)
  then show ?thesis using v by (simp add: computeMonthRange_def localDate_def fmt_day_key)
qed

section \<open>Runs of the budgets page\<close>

text \<open>
  Operations overlap: each one waits for its own answer. A pending update or removal carries the
  snapshot it took when it started.
\<close>

datatype pending = Adding Budget | Editing jstring "Budget list" | Removing "Budget list"

definition category_key :: "Budget \<Rightarrow> jstring" where
  "category_key b = toLowerCase (bd_category b)"

definition keeps_category :: "jstring \<Rightarrow> Budget list \<Rightarrow> exn + Budget \<Rightarrow> bool" where
  "keeps_category i budgets a \<longleftrightarrow> (\<forall>r. a = Inr r \<longrightarrow>
     (\<forall>b\<in>set budgets. bd_id b = i \<longrightarrow> category_key b = category_key r))"

inductive book_step :: "budget_book \<times> pending list \<Rightarrow> budget_book \<times> pending list \<Rightarrow> bool" where
  load: "(\<forall>bs. a = Inr bs \<longrightarrow> distinct (map category_key bs)) \<Longrightarrow>
     book_step (s, p) (load_budgets e a fetch af s, p)"
| month: "book_step (s, p) (range_effect e fetch af (set_month d s), p)"
| add: "add_begin temp s = (Inr (), s') \<Longrightarrow> book_step (s, p) (s', p @ [Adding temp])"
| refused: "add_begin temp s = (Inl x, s') \<Longrightarrow> book_step (s, p) (s', p)"
| added: "Adding temp \<in> set p \<Longrightarrow> keeps_category (bd_id temp) (bk_budgets s) a \<Longrightarrow>
     book_step (s, p) (snd (add_end temp a s), remove1 (Adding temp) p)"
| edit: "book_step (s, p) (edit_begin i amount f r s, p @ [Editing i (bk_budgets s)])"
| edited: "Editing i snapshot \<in> set p \<Longrightarrow> keeps_category i (bk_budgets s) a \<Longrightarrow>
     book_step (s, p) (edit_end i snapshot a s, remove1 (Editing i snapshot) p)"
| remove: "book_step (s, p) (remove_begin i s, p @ [Removing (bk_budgets s)])"
| removed: "Removing snapshot \<in> set p \<Longrightarrow>
     book_step (s, p) (remove_end snapshot d s, remove1 (Removing snapshot) p)"

inductive_cases book_stepE: "book_step sp sp'"

definition empty_book :: "int \<Rightarrow> budget_book" where
  "empty_book today = \<lparr>bk_isLoading = False, bk_transactionsLoading = False, bk_error = None,
     bk_validationError = None, bk_budgets = [], bk_transactions = [],
     bk_month = normalizeMonth today, bk_ready = False, bk_loaded = False, bk_lastRange = None\<rparr>"

definition unique_categories :: "Budget list \<Rightarrow> bool" where
  "unique_categories bs \<longleftrightarrow> distinct (map category_key bs)"

definition book_ok :: "budget_book \<times> pending list \<Rightarrow> bool" where
  "book_ok sp \<longleftrightarrow> unique_categories (bk_budgets (fst sp)) \<and>
     (\<forall>i bs. Editing i bs \<in> set (snd sp) \<longrightarrow> unique_categories bs) \<and>
     (\<forall>bs. Removing bs \<in> set (snd sp) \<longrightarrow> unique_categories bs)"

lemma book_okI:
  "unique_categories (bk_budgets s) \<Longrightarrow>
   (\<And>i bs. Editing i bs \<in> set p \<Longrightarrow> unique_categories bs) \<Longrightarrow>
   (\<And>bs. Removing bs \<in> set p \<Longrightarrow> unique_categories bs) \<Longrightarrow> book_ok (s, p)"
  by (simp add: book_ok_def)

lemma book_okD:
  "book_ok (s, p) \<Longrightarrow> unique_categories (bk_budgets s)"
  "book_ok (s, p) \<Longrightarrow> Editing i bs \<in> set p \<Longrightarrow> unique_categories bs"
  "book_ok (s, p) \<Longrightarrow> Removing bs \<in> set p \<Longrightarrow> unique_categories bs"
  by (auto simp: book_ok_def)

lemma budgets_loadTransactions [simp]:
  "bk_budgets (loadTransactions fetch af a b s) = bk_budgets s"
  by (simp add: loadTransactions_def Let_def split: sum.split)

lemma budgets_effect [simp]: "bk_budgets (range_effect e fetch af s) = bk_budgets s"
  by (simp add: range_effect_def Let_def)

lemma unique_load:
  "unique_categories (bk_budgets s) \<Longrightarrow> (\<forall>bs. a = Inr bs \<longrightarrow> distinct (map category_key bs)) \<Longrightarrow>
   unique_categories (bk_budgets (load_budgets e a fetch af s))"
  by (auto simp: load_budgets_def Let_def unique_categories_def split: sum.split)

lemma unique_filter: "unique_categories bs \<Longrightarrow> unique_categories (filter P bs)"
  by (simp add: unique_categories_def distinct_map_filter)

lemma unique_map:
  "unique_categories bs \<Longrightarrow> (\<forall>b\<in>set bs. category_key (f b) = category_key b) \<Longrightarrow>
   unique_categories (map f bs)"
proof -
  assume u: "unique_categories bs" and "\<forall>b\<in>set bs. category_key (f b) = category_key b"
  then have "map category_key (map f bs) = map category_key bs" by simp
  then show ?thesis using u unfolding unique_categories_def by (simp only:)
qed

lemma unique_add:
  assumes "unique_categories (bk_budgets s)" "add_begin temp s = (Inr (), s')"
  shows "unique_categories (bk_budgets s')"
proof -
  have e: "\<not> budget_exists (bd_category temp) (bk_budgets s)"
    and s': "bk_budgets s' = bk_budgets s @ [temp]"
    using assms(2) by (auto simp: add_begin_def Let_def create_begin_def split: if_splits)
  have "category_key temp \<notin> category_key ` set (bk_budgets s)"
    using e by (auto simp: budget_exists_def category_key_def list_ex_iff)
  then show ?thesis using assms(1) by (simp add: s' unique_categories_def)
qed

lemma unique_answer:
  assumes "unique_categories bs" "keeps_category i bs (Inr r)"
  shows "unique_categories (map (\<lambda>b. if bd_id b = i then r else b) bs)"
  using assms by (intro unique_map) (auto simp: keeps_category_def)

lemma unique_add_end:
  "unique_categories (bk_budgets s) \<Longrightarrow> keeps_category (bd_id temp) (bk_budgets s) a \<Longrightarrow>
   unique_categories (bk_budgets (snd (add_end temp a s)))"
  by (cases a) (simp_all add: add_end_def Let_def create_end_def unique_filter unique_answer)

lemma unique_edit_end:
  "unique_categories (bk_budgets s) \<Longrightarrow> unique_categories snapshot \<Longrightarrow>
   keeps_category i (bk_budgets s) a \<Longrightarrow> unique_categories (bk_budgets (edit_end i snapshot a s))"
  by (cases a) (simp_all add: edit_end_def Let_def update_end_def unique_answer)

lemma unique_edit_begin:
  "unique_categories (bk_budgets s) \<Longrightarrow> unique_categories (bk_budgets (edit_begin i amount f r s))"
  unfolding edit_begin_def update_begin_def
  by (simp, intro unique_map) (simp_all add: category_key_def edited_def)

lemma book_step_ok: "book_step sp sp' \<Longrightarrow> book_ok sp \<Longrightarrow> book_ok sp'"
proof (induction rule: book_step.induct)
  case (load a s p e fetch af)
  then show ?case using unique_load book_okD by (intro book_okI) blast+
next
  case (month s p e fetch af d)
  then show ?case by (auto simp: book_ok_def set_month_def)
next
  case (add temp s s' p)
  have "unique_categories (bk_budgets s')" by (rule unique_add [OF book_okD(1) [OF add(2)] add(1)])
  then show ?case using add(2) book_okD by (intro book_okI) auto
next
  case (refused temp s x s' p)
  then have "bk_budgets s' = bk_budgets s" by (auto simp: add_begin_def Let_def split: if_splits)
  then show ?case using refused by (simp add: book_ok_def)
next
  case (added temp p s a)
  then show ?case
    using unique_add_end book_okD set_remove1_subset [of "Adding temp" p] by (intro book_okI) blast+
next
  case (edit s p i amount f r)
  then show ?case using unique_edit_begin book_okD by (intro book_okI) auto
next
  case (edited i snapshot p s a)
  then show ?case
    using unique_edit_end book_okD set_remove1_subset [of "Editing i snapshot" p]
    by (intro book_okI) blast+
next
  case (remove s p i)
  then show ?case
    using unique_filter book_okD by (intro book_okI) (auto simp: remove_begin_def delete_begin_def)
next
  case (removed snapshot p s d)
  have "unique_categories (bk_budgets (remove_end snapshot d s))"
    using book_okD(1) [OF removed(2)] book_okD(3) [OF removed(2,1)]
    by (cases d) (simp_all add: remove_end_def Let_def delete_end_def)
  then show ?case
    using removed book_okD set_remove1_subset [of "Removing snapshot" p] by (intro book_okI) blast+
qed

interpretation book: transition_system book_step "\<lambda>sp. \<exists>today. sp = (empty_book today, [])" book_ok
proof
  show "book_ok sp" if "\<exists>today. sp = (empty_book today, [])" for sp
    using that by (auto simp: book_ok_def empty_book_def unique_categories_def)
qed (rule book_step_ok)

text \<open>
  C9. However additions, edits, removals and their answers interleave, no two budgets on the page
  are of the same category up to case, provided the server answers an operation with a budget of
  the category it was asked for.
\<close>

theorem budget_categories_unique:
  assumes "book_step\<^sup>*\<^sup>* (empty_book today, []) (s, p)"
  shows "distinct (map (\<lambda>b. toLowerCase (bd_category b)) (bk_budgets s))"
proof -
  have "book_ok (s, p)" using book.invar_reachable [OF assms] by blast
  then show ?thesis by (simp add: book_ok_def unique_categories_def category_key_def [abs_def])
qed

definition demo_budget :: "jstring \<Rightarrow> jstring \<Rightarrow> Budget" where
  "demo_budget i category = temp_budget i category 100 None None"

theorem budget_categories_unique_witness:
  "distinct (map (\<lambda>b. toLowerCase (bd_category b))
     (bk_budgets (snd (add_begin (demo_budget ''t'' ''Food'') (empty_book 0)))))"
proof -
  have "add_begin (demo_budget ''t'' ''Food'') (empty_book 0) =
      (Inr (), snd (add_begin (demo_budget ''t'' ''Food'') (empty_book 0)))"
    by (simp add: add_begin_def Let_def budget_exists_def empty_book_def)
  from book_step.add [OF this, of "[]"] show ?thesis
    using budget_categories_unique [of 0] by (meson r_into_rtranclp)
qed

text \<open>
  A refused removal (or edit) restores the list of the moment it started: a budget that the
  server accepted in the meantime disappears from the page, with nothing left in flight, until the
  page is opened again.
\<close>

theorem refused_removal_drops_addition:
  assumes "category_key b \<noteq> category_key c" and "bd_id b \<noteq> bd_id c" and "category_key c = category_key c'"
    and "bk_budgets s = [b]"
  shows "\<exists>s2 s'. book_step\<^sup>*\<^sup>* (s, []) (s2, [Removing [b]]) \<and> bk_budgets s2 = [c'] \<and>
    book_step\<^sup>*\<^sup>* (s2, [Removing [b]]) (s', []) \<and> bk_budgets s' = [b]"
proof -
  let ?s1 = "remove_begin (bd_id b) s"
  let ?s2 = "snd (add_begin c ?s1)"
  let ?s3 = "snd (add_end c (Inr c') ?s2)"
  let ?s4 = "remove_end [b] (Inl (JsExn [])) ?s3"
  have b1: "bk_budgets ?s1 = []" using assms(4) by (simp add: remove_begin_def delete_begin_def)
  have a: "add_begin c ?s1 = (Inr (), ?s2)"
    using b1 by (simp add: add_begin_def Let_def budget_exists_def)
  have b2: "bk_budgets ?s2 = [c]" using b1 by (simp add: add_begin_def Let_def budget_exists_def create_begin_def)
  have b3: "bk_budgets ?s3 = [c']" using b2 by (simp add: add_end_def Let_def create_end_def)
  have b4: "bk_budgets ?s4 = [b]" by (simp add: remove_end_def Let_def delete_end_def)
  have t1: "book_step (s, []) (?s1, [Removing [b]])"
    using book_step.remove [of s "[]" "bd_id b"] assms(4) by simp
  have t2: "book_step (?s1, [Removing [b]]) (?s2, [Removing [b], Adding c])"
    using book_step.add [OF a, of "[Removing [b]]"] by simp
  have t3: "book_step (?s2, [Removing [b], Adding c]) (?s3, [Removing [b]])"
    using book_step.added [of c "[Removing [b], Adding c]" ?s2 "Inr c'"] b2 assms(3)
    by (simp add: keeps_category_def)
  have t4: "book_step (?s3, [Removing [b]]) (?s4, [])"
    using book_step.removed [of "[b]" "[Removing [b]]" ?s3 "Inl (JsExn [])"] by simp
  have "book_step\<^sup>*\<^sup>* (s, []) (?s3, [Removing [b]])"
    by (metis (no_types) t1 t2 t3 converse_rtranclp_into_rtranclp rtranclp.rtrancl_refl)
  moreover have "book_step\<^sup>*\<^sup>* (?s3, [Removing [b]]) (?s4, [])" using t4 by (rule r_into_rtranclp [of book_step])
  ultimately show ?thesis using b3 b4 by blast
qed

theorem refused_removal_drops_addition_witness:
  "\<exists>s2 s'. book_step\<^sup>*\<^sup>* ((empty_book 0)\<lparr>bk_budgets := [demo_budget ''1'' ''Food'']\<rparr>, [])
       (s2, [Removing [demo_budget ''1'' ''Food'']]) \<and> bk_budgets s2 = [demo_budget ''3'' ''Travel''] \<and>
     book_step\<^sup>*\<^sup>* (s2, [Removing [demo_budget ''1'' ''Food'']]) (s', []) \<and>
     bk_budgets s' = [demo_budget ''1'' ''Food'']"
  using refused_removal_drops_addition [of "demo_budget ''1'' ''Food''" "demo_budget ''2'' ''Travel''"
      "demo_budget ''3'' ''Travel''" "(empty_book 0)\<lparr>bk_budgets := [demo_budget ''1'' ''Food'']\<rparr>"]
  by (simp add: demo_budget_def temp_budget_def category_key_def lower_char_eval)

end
