(* ===== verification/Bank_Connections.thy ===== *)
theory Bank_Connections
  imports Provider_Services
begin

text \<open>
  Bank connections: the list of Plaid connections and its operations
  (\<^verbatim>\<open>hooks/usePlaidConnections.ts\<close>), the single connection of
  \<^verbatim>\<open>hooks/usePlaidConnection.tsx\<close>, the issues of \<^verbatim>\<open>hooks/useAccountIssues.ts\<close>, and the
  link flow (\<^verbatim>\<open>features/plaid/hooks/usePlaidLinkFlow.ts\<close>). The services answer from a world
  of type \<open>'w\<close>, which every call may change; the Plaid Link widget is the environment: it reports
  success or exit.
\<close>

section \<open>The list of connections\<close>

record conn_account =
  ca_id :: jstring
  ca_name :: jstring
  ca_mask :: jstring
  ca_type :: AccountKind
  ca_balance :: "rat option"
  ca_transactions :: "rat option"

record PlaidConnection =
  cn_id :: jstring
  cn_connectionId :: jstring
  cn_institutionName :: jstring
  cn_lastSyncAt :: "jstring option"
  cn_transactionCount :: int
  cn_accountCount :: int
  cn_syncInProgress :: bool
  cn_isConnected :: bool
  cn_accounts :: "conn_account list"

record connections_state =
  cs_connections :: "PlaidConnection list"
  cs_loading :: bool
  cs_error :: "jstring option"

definition without_key :: "NormalizedAccount \<Rightarrow> conn_account" where
  "without_key a = \<lparr>ca_id = na_id a, ca_name = na_name a, ca_mask = na_mask a, ca_type = na_type a,
     ca_balance = na_balance a, ca_transactions = Some (na_transactions a)\<rparr>"

definition matching_accounts :: "NormalizedAccount list \<Rightarrow> jstring option \<Rightarrow> NormalizedAccount list" where
  "matching_accounts allAccounts connectionId =
     (if truthy connectionId then
        (let own = filter (\<lambda>acc. na_connectionKey acc = connectionId) allAccounts in
         if own = [] then filter (\<lambda>acc. na_connectionKey acc = None) allAccounts else own)
      else allAccounts)"

definition connection_of :: "NormalizedAccount list \<Rightarrow> ProviderConnectionStatus \<Rightarrow> PlaidConnection" where
  "connection_of allAccounts connStatus = \<lparr>
     cn_id = str_or (pc_connection_id connStatus) ''unknown'',
     cn_connectionId = str_or (pc_connection_id connStatus) ''unknown'',
     cn_institutionName = str_or (pc_institution_name connStatus) ''Unknown Bank'',
     cn_lastSyncAt = pc_last_sync_at connStatus,
     cn_transactionCount = pc_transaction_count connStatus,
     cn_accountCount = pc_account_count connStatus,
     cn_syncInProgress = pc_sync_in_progress connStatus,
     cn_isConnected = pc_is_connected connStatus,
     cn_accounts = map without_key (matching_accounts allAccounts (pc_connection_id connStatus))\<rparr>"

text \<open>
  The world the services answer from. An answer of \<open>None\<close> in a list position is a body that is not
  an array.
\<close>

record 'w bank_services =
  bs_status :: "'w \<Rightarrow> (exn + ProviderConnectionStatus list option) \<times> 'w"
  bs_accounts :: "'w \<Rightarrow> (exn + BackendAccount list) \<times> 'w"
  bs_exchange :: "jstring \<Rightarrow> 'w \<Rightarrow> (exn + unit) \<times> 'w"
  bs_sync :: "jstring \<Rightarrow> 'w \<Rightarrow> (exn + nat) \<times> 'w"
  bs_disconnect :: "jstring \<Rightarrow> 'w \<Rightarrow> (exn + bool \<times> jstring option) \<times> 'w"
  bs_linkToken :: "'w \<Rightarrow> (exn + jstring) \<times> 'w"

definition accounts_or_none ::
    "(rat \<Rightarrow> jstring) \<Rightarrow> 'w bank_services \<Rightarrow> ProviderConnectionStatus list \<Rightarrow> 'w \<Rightarrow> NormalizedAccount list \<times> 'w"
  where
  "accounts_or_none frac_str B statusArray w =
     (if 0 < length statusArray then
        (case bs_accounts B w of
           (Inr backendAccounts, w1) \<Rightarrow> (normalize frac_str backendAccounts, w1)
         | (Inl _, w1) \<Rightarrow> ([], w1))
      else ([], w))"

definition fetchConnections :: "bool \<Rightarrow> (rat \<Rightarrow> jstring) \<Rightarrow> 'w bank_services \<Rightarrow> 'w \<Rightarrow> connections_state \<Rightarrow>
    PlaidConnection list \<times> 'w \<times> connections_state" where
  "fetchConnections enabled frac_str B w s =
     (if \<not> enabled then ([], w, s\<lparr>cs_connections := [], cs_loading := False, cs_error := None\<rparr>)
      else case bs_status B w of
        (Inl x, w1) \<Rightarrow> ([], w1, s\<lparr>cs_loading := False, cs_error := Some (exn_message x)\<rparr>)
      | (Inr status, w1) \<Rightarrow>
          let statusArray = default_to status [] in
          (case accounts_or_none frac_str B statusArray w1 of (allAccounts, w2) \<Rightarrow>
            let connections = map (connection_of allAccounts) (filter pc_is_connected statusArray)
            in (connections, w2,
                s\<lparr>cs_connections := connections, cs_loading := False, cs_error := None\<rparr>)))"

definition addConnection :: "(rat \<Rightarrow> jstring) \<Rightarrow> 'w bank_services \<Rightarrow> jstring \<Rightarrow> jstring \<Rightarrow> 'w \<Rightarrow>
    connections_state \<Rightarrow> 'w \<times> connections_state" where
  "addConnection frac_str B institutionName connectionId w s =
     (case bs_accounts B w of (answer, w1) \<Rightarrow>
       let accounts = (case answer of Inl _ \<Rightarrow> []
             | Inr backendAccounts \<Rightarrow> map without_key
                 (matching_accounts (normalize frac_str backendAccounts) (Some connectionId)));
           newConnection = \<lparr>cn_id = connectionId, cn_connectionId = connectionId,
             cn_institutionName = institutionName, cn_lastSyncAt = None, cn_transactionCount = 0,
             cn_accountCount = 0, cn_syncInProgress = False, cn_isConnected = True,
             cn_accounts = accounts\<rparr>
       in (w1, s\<lparr>cs_connections := cs_connections s @ [newConnection], cs_error := None\<rparr>))"

definition removeConnection :: "jstring \<Rightarrow> connections_state \<Rightarrow> connections_state" where
  "removeConnection connectionId s =
     s\<lparr>cs_connections := filter (\<lambda>conn. cn_connectionId conn \<noteq> connectionId) (cs_connections s)\<rparr>"

definition updateConnectionSyncInfo ::
    "jstring \<Rightarrow> int \<Rightarrow> int \<Rightarrow> jstring \<Rightarrow> connections_state \<Rightarrow> connections_state" where
  "updateConnectionSyncInfo connectionId transactionCount accountCount lastSyncAt s =
     s\<lparr>cs_connections := map (\<lambda>conn. if cn_connectionId conn = connectionId
         then conn\<lparr>cn_transactionCount := transactionCount, cn_accountCount := accountCount,
                cn_lastSyncAt := Some lastSyncAt, cn_syncInProgress := False\<rparr>
         else conn) (cs_connections s)\<rparr>"

definition setConnectionSyncInProgress ::
    "jstring \<Rightarrow> bool \<Rightarrow> connections_state \<Rightarrow> connections_state" where
  "setConnectionSyncInProgress connectionId inProgress s =
     s\<lparr>cs_connections := map (\<lambda>conn. if cn_connectionId conn = connectionId
         then conn\<lparr>cn_syncInProgress := inProgress\<rparr> else conn) (cs_connections s)\<rparr>"

definition getConnection :: "jstring \<Rightarrow> connections_state \<Rightarrow> PlaidConnection option" where
  "getConnection connectionId s =
     List.find (\<lambda>conn. cn_connectionId conn = connectionId) (cs_connections s)"

section \<open>The single connection\<close>

record single_connection =
  sc_isConnected :: bool
  sc_lastSyncAt :: "jstring option"
  sc_institutionName :: "jstring option"
  sc_connectionId :: "jstring option"
  sc_transactionCount :: int
  sc_accountCount :: int
  sc_syncInProgress :: bool
  sc_loading :: bool
  sc_error :: "jstring option"

definition no_connection :: single_connection where
  "no_connection = \<lparr>sc_isConnected = False, sc_lastSyncAt = None, sc_institutionName = None,
     sc_connectionId = None, sc_transactionCount = 0, sc_accountCount = 0,
     sc_syncInProgress = False, sc_loading = True, sc_error = None\<rparr>"

definition active_connection :: "ProviderConnectionStatus list \<Rightarrow> ProviderConnectionStatus option" where
  "active_connection connections = coalesce (List.find pc_is_connected connections)
     (case connections of [] \<Rightarrow> None | c # _ \<Rightarrow> Some c)"

definition fetchConnectionStatus ::
    "exn + ProviderConnectionStatus list option \<Rightarrow> single_connection \<Rightarrow> single_connection" where
  "fetchConnectionStatus answer s = (case answer of
     Inl x \<Rightarrow> s\<lparr>sc_loading := False, sc_error := Some (exn_message x)\<rparr>
   | Inr status \<Rightarrow> (case active_connection (default_to status []) of
       None \<Rightarrow> s\<lparr>sc_isConnected := False, sc_lastSyncAt := None, sc_institutionName := None,
         sc_connectionId := None, sc_transactionCount := 0, sc_accountCount := 0,
         sc_syncInProgress := False, sc_loading := False, sc_error := None\<rparr>
     | Some active \<Rightarrow> s\<lparr>sc_isConnected := pc_is_connected active,
         sc_lastSyncAt := pc_last_sync_at active, sc_institutionName := pc_institution_name active,
         sc_connectionId := pc_connection_id active,
         sc_transactionCount := pc_transaction_count active,
         sc_accountCount := pc_account_count active,
         sc_syncInProgress := pc_sync_in_progress active, sc_loading := False, sc_error := None\<rparr>))"

definition markConnected :: "jstring \<Rightarrow> jstring \<Rightarrow> single_connection \<Rightarrow> single_connection" where
  "markConnected institutionName connectionId s = s\<lparr>sc_isConnected := True,
     sc_institutionName := Some institutionName, sc_connectionId := Some connectionId, sc_error := None\<rparr>"

definition disconnect_single ::
    "'w bank_services \<Rightarrow> 'w \<Rightarrow> single_connection \<Rightarrow> 'w \<times> single_connection" where
  "disconnect_single B w s =
     (let resolved = (if truthy (sc_connectionId s) then (Inr (sc_connectionId s), w)
            else case bs_status B w of
              (Inl x, w1) \<Rightarrow> (Inl x, w1)
            | (Inr None, w1) \<Rightarrow> (Inl (JsExn ''status.connections.find is not a function''), w1)
            | (Inr (Some cs), w1) \<Rightarrow>
                (Inr (Option.bind (List.find pc_is_connected cs) pc_connection_id), w1))
      in case resolved of
        (Inl x, w1) \<Rightarrow> (w1, s\<lparr>sc_error := Some (exn_message x)\<rparr>)
      | (Inr connectionId, w1) \<Rightarrow>
          if \<not> truthy connectionId
          then (w1, s\<lparr>sc_error := Some ''No active connection to disconnect''\<rparr>)
          else (case bs_disconnect B (the connectionId) w1 of
            (Inl x, w2) \<Rightarrow> (w2, s\<lparr>sc_error := Some (exn_message x)\<rparr>)
          | (Inr _, w2) \<Rightarrow> (w2, no_connection\<lparr>sc_loading := sc_loading s\<rparr>)))"

definition updateSyncInfo :: "int \<Rightarrow> int \<Rightarrow> jstring \<Rightarrow> single_connection \<Rightarrow> single_connection" where
  "updateSyncInfo transactionCount accountCount lastSyncAt s = s\<lparr>
     sc_transactionCount := transactionCount, sc_accountCount := accountCount,
     sc_lastSyncAt := Some lastSyncAt, sc_syncInProgress := False\<rparr>"

definition setSyncInProgress :: "bool \<Rightarrow> single_connection \<Rightarrow> single_connection" where
  "setSyncInProgress inProgress s = s\<lparr>sc_syncInProgress := inProgress\<rparr>"

section \<open>Issues\<close>

definition is_issue :: "ProviderConnectionStatus \<Rightarrow> bool" where
  "is_issue conn \<longleftrightarrow> pc_status conn = Some Error_state \<or> pc_status conn = Some Needs_reauth \<or>
     \<not> pc_is_connected conn \<or> truthy (pc_error_message conn)"

definition issue_of :: "ProviderConnectionStatus \<Rightarrow> AccountIssue" where
  "issue_of conn =
     (let status = (if pc_status conn = Some Needs_reauth then Needs_reauth
            else if pc_status conn = Some Error_state \<or> \<not> pc_is_connected conn then Error_state
            else Error_state)
      in \<lparr>ai_id = str_or (pc_connection_id conn) ''unknown'',
          ai_institutionName = str_or (pc_institution_name conn) ''Bank Connection'',
          ai_status = status,
          ai_errorMessage = Some (str_or (pc_error_message conn)
            (if status = Needs_reauth then ''Requires re-authentication''
             else if \<not> pc_is_connected conn then ''Account disconnected''
             else ''Connection issue'')),
          ai_lastSyncAt = pc_last_sync_at conn\<rparr>)"

definition fetchIssues ::
    "exn + ProviderConnectionStatus list option \<Rightarrow> AccountIssue list \<Rightarrow> AccountIssue list" where
  "fetchIssues answer issues = (case answer of Inl _ \<Rightarrow> issues
     | Inr status \<Rightarrow> foldl (\<lambda>detected conn.
         if is_issue conn then detected @ [issue_of conn] else detected) [] (default_to status []))"

lemma matching_accounts_iff:
  "a \<in> set (matching_accounts accts k) \<longleftrightarrow> a \<in> set accts \<and>
    (truthy k \<longrightarrow> na_connectionKey a = k \<or>
       (na_connectionKey a = None \<and> (\<forall>b\<in>set accts. na_connectionKey b \<noteq> k)))"
  by (auto simp: matching_accounts_def Let_def filter_empty_conv)

text \<open>
  When the status request succeeds the page lists exactly the connected ones in the server's
  order. Under a connection with an id stand exactly the accounts that carry the id, or, when none
  does, the accounts that carry none; without accounts when their request failed.
\<close>

theorem fetchConnections_sound:
  assumes "bs_status B w = (Inr status, w1)" and "fetchConnections True frac_str B w s = (cs, w', s')"
  shows "cs_connections s' = cs \<and> cs_error s' = None \<and> \<not> cs_loading s' \<and>
    map (\<lambda>c. (cn_connectionId c, cn_isConnected c)) cs =
      map (\<lambda>st. (str_or (pc_connection_id st) ''unknown'', True)) (filter pc_is_connected (default_to status [])) \<and>
    (\<exists>accts. (accts = [] \<or> (\<exists>raw. fst (bs_accounts B w1) = Inr raw \<and> accts = normalize frac_str raw)) \<and>
      list_all2 (\<lambda>st c. \<forall>x. x \<in> set (cn_accounts c) \<longleftrightarrow> (\<exists>a\<in>set accts. x = without_key a \<and>
          (truthy (pc_connection_id st) \<longrightarrow> na_connectionKey a = pc_connection_id st \<or>
             (na_connectionKey a = None \<and> (\<forall>b\<in>set accts. na_connectionKey b \<noteq> pc_connection_id st)))))
        (filter pc_is_connected (default_to status [])) cs)"
proof -
  obtain accts w2 where ac: "accounts_or_none frac_str B (default_to status []) w1 = (accts, w2)" by force
  let ?conns = "filter pc_is_connected (default_to status [])"
  have cs: "cs = map (connection_of accts) ?conns" and
    s': "cs_connections s' = cs" "cs_error s' = None" "\<not> cs_loading s'"
    using assms ac by (auto simp: fetchConnections_def Let_def)
  have acc: "accts = [] \<or> (\<exists>raw. fst (bs_accounts B w1) = Inr raw \<and> accts = normalize frac_str raw)"
    using ac by (auto simp: accounts_or_none_def split: if_splits prod.splits sum.splits)
  have x: "x \<in> set (cn_accounts (connection_of accts st)) \<longleftrightarrow> (\<exists>a\<in>set accts. x = without_key a \<and>
      (truthy (pc_connection_id st) \<longrightarrow> na_connectionKey a = pc_connection_id st \<or>
         (na_connectionKey a = None \<and> (\<forall>b\<in>set accts. na_connectionKey b \<noteq> pc_connection_id st))))" for x st
    by (auto simp: connection_of_def matching_accounts_iff)
  have "map (\<lambda>c. (cn_connectionId c, cn_isConnected c)) cs =
      map (\<lambda>st. (str_or (pc_connection_id st) ''unknown'', True)) ?conns"
    unfolding cs by (simp add: connection_of_def)
  then show ?thesis
    using s' acc by (intro conjI exI [of _ accts]) (simp_all only: cs list_all2_map2 list_all2_same x, simp_all)
qed

definition one_status :: ProviderConnectionStatus where
  "one_status = \<lparr>pc_is_connected = True, pc_last_sync_at = None, pc_institution_name = Some ''Bank'',
     pc_connection_id = Some ''c'', pc_transaction_count = 0, pc_account_count = 1,
     pc_sync_in_progress = False, pc_error_message = None, pc_status = None\<rparr>"

definition one_bank :: "unit bank_services" where
  "one_bank = \<lparr>bs_status = (\<lambda>w. (Inr (Some [one_status]), w)),
     bs_accounts = (\<lambda>w. (Inr [], w)), bs_exchange = (\<lambda>_ w. (Inr (), w)),
     bs_sync = (\<lambda>_ w. (Inr 3, w)), bs_disconnect = (\<lambda>_ w. (Inr (True, None), w)),
     bs_linkToken = (\<lambda>w. (Inr ''t'', w))\<rparr>"

definition no_connections :: connections_state where
  "no_connections = \<lparr>cs_connections = [], cs_loading = True, cs_error = None\<rparr>"

theorem fetchConnections_sound_witness:
  "map (\<lambda>c. (cn_connectionId c, cn_isConnected c))
     (fst (fetchConnections True num_str one_bank () no_connections)) = [(''c'', True)]"
proof -
  obtain cs w' s' where f: "fetchConnections True num_str one_bank () no_connections = (cs, w', s')"
    by (metis prod.exhaust)
  have st: "bs_status one_bank () = (Inr (Some [one_status]), ())" by (simp add: one_bank_def)
  from fetchConnections_sound [OF st f]
  have "map (\<lambda>c. (cn_connectionId c, cn_isConnected c)) cs =
      map (\<lambda>st. (str_or (pc_connection_id st) ''unknown'', True))
        (filter pc_is_connected (default_to (Some [one_status]) []))" by blast
  then show ?thesis unfolding f by (simp add: one_status_def str_or_def truthy_def)
qed

text \<open>
  An issue is reported for a connection exactly when it is disconnected, carries an error
  message, or has a status other than connected; each issue has a message, and asks for
  re-authentication exactly when the server does.
\<close>

theorem issues_reported:
  "fetchIssues (Inr (Some conns)) old = map issue_of (filter is_issue conns) \<and>
   (\<forall>conn\<in>set conns. is_issue conn \<longleftrightarrow>
      \<not> (pc_is_connected conn \<and> \<not> truthy (pc_error_message conn) \<and>
         (pc_status conn = None \<or> pc_status conn = Some Connected))) \<and>
   (ai_status (issue_of c) = Needs_reauth \<longleftrightarrow> pc_status c = Some Needs_reauth) \<and>
   truthy (ai_errorMessage (issue_of c)) \<and>
   fetchIssues (Inl x) old = old"
proof -
  have f: "foldl (\<lambda>detected conn. if is_issue conn then detected @ [issue_of conn] else detected) acc cs =
      acc @ map issue_of (filter is_issue cs)" for acc cs
    by (induction cs arbitrary: acc) auto
  have i: "is_issue conn \<longleftrightarrow> \<not> (pc_is_connected conn \<and> \<not> truthy (pc_error_message conn) \<and>
         (pc_status conn = None \<or> pc_status conn = Some Connected))" for conn
    by (cases "pc_status conn"; cases "the (pc_status conn)") (auto simp: is_issue_def)
  have t: "truthy (Some (str_or v d))" if "d \<noteq> []" for v d
    using that by (cases v) (auto simp: str_or_def truthy_def)
  have "fetchIssues (Inr (Some conns)) old = map issue_of (filter is_issue conns)"
    "fetchIssues (Inl x) old = old"
    unfolding fetchIssues_def sum.case default_to_simps f by simp_all
  moreover have "ai_status (issue_of c) = Needs_reauth \<longleftrightarrow> pc_status c = Some Needs_reauth"
    "truthy (ai_errorMessage (issue_of c))"
    by (simp_all add: issue_of_def Let_def t)
  ultimately show ?thesis using i by blast
qed

theorem issues_reported_witness:
  "fetchIssues (Inr (Some [])) old = []"
  using issues_reported [of "[]" old] by simp

end
