(* ===== verification/Plaid_Link.thy ===== *)
theory Plaid_Link
  imports Bank_Connections
begin

text \<open>
  The Plaid link flow (\<^verbatim>\<open>features/plaid/hooks/usePlaidLinkFlow.ts\<close>): connecting a bank,
  synchronising one or all connections, disconnecting. Synchronising is two steps, its start and
  the arrival of the answer; synchronising all starts every one before any answer arrives.
  \<open>lk_opened\<close> counts the times the Plaid Link widget is opened, \<open>lk_changed\<close> the
  accounts-changed events.
\<close>

record 'w link_state =
  lk_list :: connections_state
  lk_linkToken :: "jstring option"
  lk_stored :: "jstring option"
  lk_error :: "jstring option"
  lk_toast :: "jstring option"
  lk_syncingAll :: bool
  lk_opened :: nat
  lk_changed :: nat
  lk_world :: 'w

record 'w link_env =
  le_enabled :: bool
  le_frac :: "rat \<Rightarrow> jstring"
  le_bank :: "'w bank_services"

definition handleError :: "'w link_env \<Rightarrow> jstring \<Rightarrow> 'w link_state \<Rightarrow> 'w link_state" where
  "handleError E message s = (if le_enabled E then s\<lparr>lk_error := Some message\<rparr> else s)"

definition clearError :: "'w link_env \<Rightarrow> 'w link_state \<Rightarrow> 'w link_state" where
  "clearError E s = (if le_enabled E then s\<lparr>lk_error := None\<rparr> else s)"

definition refresh :: "'w link_env \<Rightarrow> 'w link_state \<Rightarrow> PlaidConnection list \<times> 'w link_state" where
  "refresh E s =
     (case fetchConnections (le_enabled E) (le_frac E) (le_bank E) (lk_world s) (lk_list s) of
        (cs, w, l) \<Rightarrow> (cs, s\<lparr>lk_list := l, lk_world := w\<rparr>))"

definition dispatchAccountsChanged :: "'w link_state \<Rightarrow> 'w link_state" where
  "dispatchAccountsChanged s = s\<lparr>lk_changed := Suc (lk_changed s)\<rparr>"

definition sync_call :: "'w link_env \<Rightarrow> jstring \<Rightarrow> 'w link_state \<Rightarrow> (exn + nat) \<times> 'w link_state" where
  "sync_call E connectionId s = (case bs_sync (le_bank E) connectionId (lk_world s) of
     (r, w) \<Rightarrow> (r, s\<lparr>lk_world := w\<rparr>))"

definition handleSuccess :: "'w link_env \<Rightarrow> jstring \<Rightarrow> 'w link_state \<Rightarrow> 'w link_state" where
  "handleSuccess E publicToken s =
     (if \<not> le_enabled E then s
      else let s1 = clearError E (s\<lparr>lk_stored := None\<rparr>) in
        case bs_exchange (le_bank E) publicToken (lk_world s1) of
          (Inl x, w) \<Rightarrow> handleError E (''Failed to exchange token: '' @ exn_message x) (s1\<lparr>lk_world := w\<rparr>)
        | (Inr _, w) \<Rightarrow>
            (case refresh E (s1\<lparr>lk_world := w\<rparr>) of
               ([], s2) \<Rightarrow> dispatchAccountsChanged (s2\<lparr>lk_toast := Some ''Bank connected successfully!''\<rparr>)
             | (latest # _, s2) \<Rightarrow>
                 let s4 = (case sync_call E (cn_connectionId latest) s2 of
                   (Inr n, s3) \<Rightarrow> s3\<lparr>lk_toast := Some
                      (''Bank connected! Synced '' @ int_str (int n) @ '' transactions'')\<rparr>
                 | (Inl _, s3) \<Rightarrow> s3\<lparr>lk_toast := Some (''Bank connected to '' @ cn_institutionName latest)\<rparr>)
                 in dispatchAccountsChanged (snd (refresh E s4))))"

datatype link_error = No_link_error | Link_error "jstring option" | Unknown_link_error

definition handleExit :: "'w link_env \<Rightarrow> link_error \<Rightarrow> jstring option \<Rightarrow> jstring option \<Rightarrow>
    'w link_state \<Rightarrow> 'w link_state" where
  "handleExit E err status institution s =
     (if \<not> le_enabled E then s
      else let s1 = s\<lparr>lk_stored := None, lk_linkToken := None\<rparr> in
        case err of
          Link_error m \<Rightarrow> handleError E (''Plaid Link exited with error: '' @ str_or m ''Unknown error'') s1
        | Unknown_link_error \<Rightarrow> handleError E ''Plaid Link exited with an unknown error'' s1
        | No_link_error \<Rightarrow>
            if truthy status then handleError E (default_to institution ''the institution'' @
              '' was not connected because Plaid Link closed before setup finished. Reopen Plaid Link and continue through the final confirmation ('' @
              the status @ '').'') s1
            else s1)"

definition connect :: "'w link_env \<Rightarrow> bool \<Rightarrow> 'w link_state \<Rightarrow> (exn + unit) \<times> 'w link_state" where
  "connect E ready s =
     (if \<not> le_enabled E then (Inr (), s)
      else let s1 = clearError E s in
        case bs_linkToken (le_bank E) (lk_world s1) of
          (Inr token, w) \<Rightarrow> (Inr (), s1\<lparr>lk_world := w, lk_stored := Some token,
             lk_linkToken := Some token, lk_opened := (if ready then Suc (lk_opened s1) else lk_opened s1)\<rparr>)
        | (Inl x, w) \<Rightarrow> (Inl x, handleError E (''Failed to start bank connection: '' @ exn_message x)
             (s1\<lparr>lk_world := w\<rparr>)))"

text \<open>The effect that opens the widget once its token and the script are there.\<close>

definition open_effect :: "'w link_env \<Rightarrow> bool \<Rightarrow> 'w link_state \<Rightarrow> 'w link_state" where
  "open_effect E ready s = (if le_enabled E \<and> truthy (lk_linkToken s) \<and> ready
     then s\<lparr>lk_opened := Suc (lk_opened s)\<rparr> else s)"

text \<open>\<open>None\<close> when there is nothing to synchronise: disabled, or no such connection.\<close>

definition sync_begin :: "'w link_env \<Rightarrow> jstring \<Rightarrow> 'w link_state \<Rightarrow> PlaidConnection option \<times> 'w link_state" where
  "sync_begin E connectionId s =
     (if \<not> le_enabled E then (None, s)
      else case getConnection connectionId (lk_list s) of
        None \<Rightarrow> (None, s)
      | Some connection \<Rightarrow> (Some connection, (clearError E s)\<lparr>lk_list :=
          setConnectionSyncInProgress connectionId True (lk_list s)\<rparr>))"

definition sync_end :: "'w link_env \<Rightarrow> PlaidConnection \<Rightarrow> 'w link_state \<Rightarrow> 'w link_state" where
  "sync_end E connection s = (case sync_call E (cn_connectionId connection) s of
     (Inr n, s1) \<Rightarrow> snd (refresh E (s1\<lparr>lk_toast := Some (''Synced '' @ int_str (int n) @
        '' new transactions from '' @ cn_institutionName connection)\<rparr>))
   | (Inl x, s1) \<Rightarrow>
       let s2 = handleError E (''Sync failed for '' @ cn_institutionName connection @ '': '' @ exn_message x) s1
       in s2\<lparr>lk_list := setConnectionSyncInProgress (cn_connectionId connection) False (lk_list s2)\<rparr>)"

definition syncOne :: "'w link_env \<Rightarrow> jstring \<Rightarrow> 'w link_state \<Rightarrow> 'w link_state" where
  "syncOne E connectionId s = (case sync_begin E connectionId s of
     (None, s1) \<Rightarrow> s1 | (Some connection, s1) \<Rightarrow> sync_end E connection s1)"



definition disconnect :: "'w link_env \<Rightarrow> jstring \<Rightarrow> 'w link_state \<Rightarrow> (exn + unit) \<times> 'w link_state" where
  "disconnect E connectionId s =
     (if \<not> le_enabled E then (Inr (), s)
      else case getConnection connectionId (lk_list s) of
        None \<Rightarrow> (Inr (), s)
      | Some connection \<Rightarrow>
          let s1 = clearError E s;
              failed = (\<lambda>x st. (Inl x, handleError E (''Failed to disconnect '' @
                cn_institutionName connection @ '': '' @ exn_message x) st))
          in case bs_disconnect (le_bank E) connectionId (lk_world s1) of
            (Inl x, w) \<Rightarrow> failed x (s1\<lparr>lk_world := w\<rparr>)
          | (Inr (success, message), w) \<Rightarrow>
              if \<not> success
              then failed (JsExn (str_or message ''Connection was not disconnected'')) (s1\<lparr>lk_world := w\<rparr>)
              else (Inr (), dispatchAccountsChanged (snd (refresh E (s1\<lparr>lk_world := w, lk_toast :=
                Some (cn_institutionName connection @ '' disconnected successfully'')\<rparr>)))))"

section \<open>Properties\<close>


lemma refresh_keeps [simp]:
  "lk_syncingAll (snd (refresh E s)) = lk_syncingAll s" "lk_error (snd (refresh E s)) = lk_error s"
  by (simp_all add: refresh_def split: prod.split)



text \<open>
  A synchronisation that succeeds releases its own mark only through the refresh after it: when
  the status request of that refresh fails, the connection stays marked as in progress, with the
  success message and no error of the flow.
\<close>

theorem sync_mark_sticks:
  assumes "le_enabled E" and "getConnection i (lk_list s) = Some c"
    and "bs_sync (le_bank E) (cn_connectionId c) (lk_world s) = (Inr n, w)"
    and "bs_status (le_bank E) w = (Inl x, w')"
  shows "(\<exists>c'\<in>set (cs_connections (lk_list (syncOne E i s))). cn_connectionId c' = i \<and> cn_syncInProgress c') \<and>
    lk_error (syncOne E i s) = None"
proof -
  have c: "c \<in> set (cs_connections (lk_list s))" "cn_connectionId c = i"
    using find_SomeD [OF assms(2) [unfolded getConnection_def]] by simp_all
  let ?s1 = "(clearError E s)\<lparr>lk_list := setConnectionSyncInProgress i True (lk_list s)\<rparr>"
  have b: "sync_begin E i s = (Some c, ?s1)" using assms(1,2) by (simp add: sync_begin_def)
  have w1: "lk_world (clearError E s) = lk_world s" by (simp add: clearError_def)
  have "cs_connections (lk_list (syncOne E i s)) =
      cs_connections (setConnectionSyncInProgress i True (lk_list s))"
    using assms(1,3,4) w1
    by (simp add: syncOne_def b sync_end_def sync_call_def refresh_def fetchConnections_def)
  moreover have "c\<lparr>cn_syncInProgress := True\<rparr> \<in>
      set (cs_connections (setConnectionSyncInProgress i True (lk_list s)))"
    using c image_eqI [of "c\<lparr>cn_syncInProgress := True\<rparr>" _ c "set (cs_connections (lk_list s))"]
    by (simp add: setConnectionSyncInProgress_def)
  moreover have "lk_error (syncOne E i s) = None"
    using assms(1,3) w1 by (simp add: syncOne_def b sync_end_def sync_call_def clearError_def)
  ultimately show ?thesis using c(2) by (intro conjI bexI [of _ "c\<lparr>cn_syncInProgress := True\<rparr>"]) simp_all
qed

theorem sync_mark_sticks_witness:
  "\<exists>c'\<in>set (cs_connections (lk_list (syncOne
      \<lparr>le_enabled = True, le_frac = num_str, le_bank = one_bank\<lparr>bs_status := \<lambda>w. (Inl (JsExn ''down''), w)\<rparr>\<rparr> ''c''
      \<lparr>lk_list = snd (snd (fetchConnections True num_str one_bank () no_connections)), lk_linkToken = None,
       lk_stored = None, lk_error = None, lk_toast = None, lk_syncingAll = False, lk_opened = 0,
       lk_changed = 0, lk_world = ()\<rparr>))). cn_connectionId c' = ''c'' \<and> cn_syncInProgress c'"
proof -
  let ?E = "\<lparr>le_enabled = True, le_frac = num_str, le_bank = one_bank\<lparr>bs_status := \<lambda>w. (Inl (JsExn ''down''), w)\<rparr>\<rparr>"
  let ?s = "\<lparr>lk_list = snd (snd (fetchConnections True num_str one_bank () no_connections)), lk_linkToken = None,
       lk_stored = None, lk_error = None, lk_toast = None, lk_syncingAll = False, lk_opened = 0,
       lk_changed = 0, lk_world = ()\<rparr>"
  have "\<exists>c. getConnection ''c'' (lk_list ?s) = Some c"
    by (simp add: fetchConnections_def one_bank_def one_status_def accounts_or_none_def Let_def getConnection_def
        connection_of_def str_or_def truthy_def)
  then obtain c where "getConnection ''c'' (lk_list ?s) = Some c" by blast
  from sync_mark_sticks [of ?E "''c''" ?s c, OF _ this, of 3 "()" "JsExn ''down''" "()"] show ?thesis
    by (simp add: one_bank_def)
qed

end
