(* ===== verification/Teller_Link.thy ===== *)
theory Teller_Link
  imports Bank_Connections Provider_Services
begin

text \<open>
  Teller: the widget (\<^verbatim>\<open>hooks/useTellerConnect.ts\<close>) and the link flow
  (\<^verbatim>\<open>hooks/useTellerLinkFlow.ts\<close>): loading the connections with retries, connecting and
  re-authenticating, synchronising one or all, disconnecting. The services answer from a world.
  The log lists what the flow does outside its state: openings of the widget, accounts-changed
  events and waits.
\<close>

section \<open>The widget\<close>

text \<open>
  \<open>tc_ready\<close> is \<^verbatim>\<open>instance !== null\<close>; \<open>tc_openings\<close> counts the calls of
  \<^verbatim>\<open>instance.open\<close>.
\<close>

record teller_connect =
  tc_ready :: bool
  tc_pendingOpen :: bool
  tc_connectionId :: "jstring option"
  tc_openings :: nat

definition tc_open :: "jstring option \<Rightarrow> teller_connect \<Rightarrow> teller_connect" where
  "tc_open connectionId c =
     (let c1 = c\<lparr>tc_connectionId := connectionId\<rparr> in
      if tc_ready c then c1\<lparr>tc_openings := Suc (tc_openings c)\<rparr> else c1\<lparr>tc_pendingOpen := True\<rparr>)"

text \<open>
  The end of \<^verbatim>\<open>initialize\<close>: the script is there and \<^verbatim>\<open>setup\<close> returned, or one of
  them failed; \<open>active\<close> is false when the application id changed meanwhile, and only the
  check after the script sees it.
\<close>

datatype setup_result = Script_failed | Setup_failed | Setup_done

definition tc_initialize :: "setup_result \<Rightarrow> bool \<Rightarrow> teller_connect \<Rightarrow> teller_connect" where
  "tc_initialize r active c =
     (case r of
        Script_failed \<Rightarrow> if active then c\<lparr>tc_ready := False\<rparr> else c
      | Setup_failed \<Rightarrow> if active then c\<lparr>tc_ready := False\<rparr> else c
      | Setup_done \<Rightarrow>
          if \<not> active then c
          else let c1 = c\<lparr>tc_ready := True\<rparr> in
            if tc_pendingOpen c1
            then c1\<lparr>tc_pendingOpen := False, tc_openings := Suc (tc_openings c1)\<rparr> else c1)"

definition tc_no_application :: "teller_connect \<Rightarrow> teller_connect" where
  "tc_no_application c = c\<lparr>tc_ready := False\<rparr>"

text \<open>The enrollment stored on success, and the end of the widget.\<close>

record TellerEnrollment =
  en_accessToken :: jstring
  en_id :: jstring
  en_institution :: jstring

definition enrollment_body :: "TellerEnrollment \<Rightarrow> teller_connect \<Rightarrow> json" where
  "enrollment_body enrollment c = JsObject ([(''provider'', JsString ''teller''),
     (''access_token'', JsString (en_accessToken enrollment)),
     (''enrollment_id'', JsString (en_id enrollment)),
     (''institution_name'', JsString (en_institution enrollment))] @
     defined_field ''connection_id'' (map_option JsString (tc_connectionId c)))"

definition storeEnrollment where
  "storeEnrollment C N enrollment c st =
     api_post C N ''/providers/connect'' (Some (enrollment_body enrollment c)) st"

definition tc_finish :: "teller_connect \<Rightarrow> teller_connect" where
  "tc_finish c = c\<lparr>tc_connectionId := None\<rparr>"

section \<open>Reading the connections\<close>

definition resolveConnectionId :: "(rat \<Rightarrow> jstring) \<Rightarrow> BackendAccount \<Rightarrow> jstring option" where
  "resolveConnectionId frac_str account =
     (let raw = first_present [ba_provider_connection_id account, ba_connection_id account,
        ba_plaid_connection_id account, ba_providerConnectionId account, ba_connectionId account]
      in if nullish raw then None else Some (js_String frac_str raw))"

definition teller_parseNumeric :: "jsval \<Rightarrow> rat option" where
  "teller_parseNumeric value = (case value of
     JNum n \<Rightarrow> (case n of Fin q \<Rightarrow> Some q | _ \<Rightarrow> None)
   | JStr s \<Rightarrow>
       (let trimmed = trim s;
            isNegativeParenthetical = (startsWith trimmed ''('' \<and> endsWith trimmed '')'');
            stripped = filter (\<lambda>c. is_digit c \<or> c = CHR ''.'' \<or> c = CHR ''-'') trimmed
        in if stripped = [] then None
           else case number_of_string stripped of
             Fin parsed \<Rightarrow> Some (if isNegativeParenthetical then - parsed else parsed)
           | _ \<Rightarrow> None)
   | _ \<Rightarrow> None)"

definition teller_mapAccountType :: "jstring option \<Rightarrow> AccountKind" where
  "teller_mapAccountType value =
     (let normalized = toLowerCase (default_to value []) in
      if str_includes normalized ''savings'' then Savings
      else if str_includes normalized ''credit'' then Credit
      else if str_includes normalized ''loan'' then Loan
      else if str_includes normalized ''investment'' \<or> str_includes normalized ''brokerage'' \<or>
          str_includes normalized ''401k'' \<or> str_includes normalized ''ira'' then Investment
      else if str_includes normalized ''depository'' \<or> str_includes normalized ''checking'' then Checking
      else Other_account)"

definition teller_account :: "(rat \<Rightarrow> jstring) \<Rightarrow> BackendAccount \<Rightarrow> conn_account" where
  "teller_account frac_str account = \<lparr>
     ca_id = js_String frac_str (ba_id account),
     ca_name = default_to (coalesce (ba_name account) (coalesce (ba_account_name account)
       (coalesce (ba_official_name account) (ba_institution_name account)))) ''Account'',
     ca_mask = js_String frac_str (first_present [str_val (ba_mask account), str_val (ba_account_mask account),
       ba_last_four account, ba_lastFour account, JStr ''0000'']),
     ca_type = teller_mapAccountType (coalesce (ba_account_type account)
       (coalesce (ba_type account) (coalesce (ba_accountType account) (ba_subtype account)))),
     ca_balance = coalesce (teller_parseNumeric (ba_balance_ledger account))
       (coalesce (teller_parseNumeric (ba_balance_current account))
          (teller_parseNumeric (ba_current_balance account))),
     ca_transactions = teller_parseNumeric (ba_transaction_count account)\<rparr>"

definition teller_connection ::
    "(rat \<Rightarrow> jstring) \<Rightarrow> BackendAccount list \<Rightarrow> TellerConnectionStatus \<Rightarrow> PlaidConnection" where
  "teller_connection frac_str accounts status =
     (let connectionId = tcs_connection_id status;
          connectionAccounts = map (teller_account frac_str)
            (filter (\<lambda>a. resolveConnectionId frac_str a = Some connectionId) accounts)
      in \<lparr>cn_id = connectionId, cn_connectionId = connectionId,
          cn_institutionName = str_or (Some (tcs_institution_name status)) ''Unknown Bank'',
          cn_lastSyncAt = tcs_last_sync_at status,
          cn_transactionCount = tcs_transaction_count status,
          cn_accountCount = tcs_account_count status,
          cn_syncInProgress = tcs_sync_in_progress status,
          cn_isConnected = tcs_is_connected status,
          cn_accounts = connectionAccounts\<rparr>)"

section \<open>The flow\<close>

datatype teller_effect = Opened "jstring option" | Accounts_changed | Waited int

record 'w teller_flow =
  tr_connections :: "PlaidConnection list"
  tr_loading :: bool
  tr_error :: "jstring option"
  tr_toast :: "jstring option"
  tr_syncingAll :: bool
  tr_timer :: bool
  tr_attempts :: nat
  tr_pendingReauth :: "jstring option"
  tr_log :: "teller_effect list"
  tr_world :: 'w

record 'w teller_services =
  ts_status :: "'w \<Rightarrow> (exn + TellerConnectionStatus list) \<times> 'w"
  ts_accounts :: "'w \<Rightarrow> (exn + BackendAccount list) \<times> 'w"
  ts_sync :: "jstring \<Rightarrow> 'w \<Rightarrow> (exn + unit) \<times> 'w"
  ts_disconnect :: "jstring \<Rightarrow> 'w \<Rightarrow> (exn + unit) \<times> 'w"

record 'w teller_env =
  te_enabled :: bool
  te_applicationId :: "jstring option"
  te_ready :: bool
  te_now :: int
  te_parse :: "jstring \<Rightarrow> int option"
  te_frac :: "rat \<Rightarrow> jstring"
  te_services :: "'w teller_services"

definition tellerSyncCooldownMs :: int where
  "tellerSyncCooldownMs = 15 * 60 * 1000"

definition tellerSyncDelayMs :: int where
  "tellerSyncDelayMs = 4000"

definition isRecentlySynced :: "'w teller_env \<Rightarrow> jstring option \<Rightarrow> bool" where
  "isRecentlySynced E lastSyncAt \<longleftrightarrow> truthy lastSyncAt \<and>
     (case te_parse E (the lastSyncAt) of None \<Rightarrow> False
      | Some lastSyncTime \<Rightarrow> te_now E - lastSyncTime < tellerSyncCooldownMs)"

definition isTellerReauthRequired :: "exn \<Rightarrow> bool" where
  "isTellerReauthRequired x \<longleftrightarrow> str_includes (exn_message x) ''requires MFA re-authentication'' \<or>
     str_includes (exn_message x) ''TELLER_REAUTH_REQUIRED''"

definition teller_handleError :: "'w teller_env \<Rightarrow> jstring \<Rightarrow> 'w teller_flow \<Rightarrow> 'w teller_flow" where
  "teller_handleError E message s = (if te_enabled E then s\<lparr>tr_error := Some message\<rparr> else s)"

definition teller_clearError :: "'w teller_env \<Rightarrow> 'w teller_flow \<Rightarrow> 'w teller_flow" where
  "teller_clearError E s = (if te_enabled E then s\<lparr>tr_error := None\<rparr> else s)"

definition show_toast :: "jstring \<Rightarrow> 'w teller_flow \<Rightarrow> 'w teller_flow" where
  "show_toast message s = s\<lparr>tr_toast := Some message\<rparr>"

definition log_effect :: "teller_effect \<Rightarrow> 'w teller_flow \<Rightarrow> 'w teller_flow" where
  "log_effect x s = s\<lparr>tr_log := tr_log s @ [x]\<rparr>"

text \<open>\<open>loadConnections\<close>, with the ids it returns and whether a balance is there.\<close>

definition loadConnections :: "'w teller_env \<Rightarrow> 'w teller_flow \<Rightarrow> (bool \<times> jstring list) \<times> 'w teller_flow" where
  "loadConnections E s =
     (if \<not> te_enabled E then ((False, []), s)
      else let s1 = teller_clearError E (s\<lparr>tr_loading := True\<rparr>) in
        case ts_status (te_services E) (tr_world s1) of (statuses, w1) \<Rightarrow>
        case ts_accounts (te_services E) w1 of (accounts, w2) \<Rightarrow>
          let s2 = s1\<lparr>tr_world := w2\<rparr> in
          case (statuses, accounts) of
            (Inr statusList, Inr typedAccounts) \<Rightarrow>
              let mapped = map (teller_connection (te_frac E) typedAccounts)
                    (filter tcs_is_connected statusList);
                  hasBalances = list_ex (\<lambda>conn. list_ex (\<lambda>acc. ca_balance acc \<noteq> None) (cn_accounts conn)) mapped
              in ((hasBalances, filter (\<lambda>i. i \<noteq> []) (map cn_connectionId mapped)),
                  (log_effect Accounts_changed (s2\<lparr>tr_connections := mapped\<rparr>))\<lparr>tr_loading := False\<rparr>)
          | _ \<Rightarrow> ((False, []),
              (teller_handleError E ''Failed to load Teller connections'' s2)\<lparr>tr_connections := [],
                 tr_loading := False\<rparr>))"

definition loadConnectionsWithRetry :: "'w teller_env \<Rightarrow> 'w teller_flow \<Rightarrow> 'w teller_flow" where
  "loadConnectionsWithRetry E s =
     (case loadConnections E s of ((hasPopulatedBalances, _), s1) \<Rightarrow>
        if hasPopulatedBalances \<or> 5 \<le> tr_attempts s1
        then s1\<lparr>tr_attempts := 0, tr_timer := False\<rparr>
        else s1\<lparr>tr_attempts := Suc (tr_attempts s1), tr_timer := True\<rparr>)"

text \<open>The timer runs out, 1500 ms after it was set.\<close>

definition retry_timer :: "'w teller_env \<Rightarrow> 'w teller_flow \<Rightarrow> 'w teller_flow" where
  "retry_timer E s = (if tr_timer s
     then loadConnectionsWithRetry E (s\<lparr>tr_timer := False, tr_log := tr_log s @ [Waited 1500]\<rparr>) else s)"

definition handleConnected :: "'w teller_env \<Rightarrow> 'w teller_flow \<Rightarrow> 'w teller_flow" where
  "handleConnected E s =
     (let s1 = s\<lparr>tr_pendingReauth := None\<rparr> in
      if \<not> truthy (tr_pendingReauth s) then loadConnectionsWithRetry E s1
      else let s2 = show_toast ''Teller reconnected. Syncing updated connection...'' s1 in
        case ts_sync (te_services E) (the (tr_pendingReauth s)) (tr_world s2) of
          (Inr _, w) \<Rightarrow> show_toast ''Teller connection reauthenticated and synced''
             (snd (loadConnections E (s2\<lparr>tr_world := w\<rparr>)))
        | (Inl x, w) \<Rightarrow> loadConnectionsWithRetry E
             (teller_handleError E (exn_message x) (s2\<lparr>tr_world := w\<rparr>)))"

text \<open>The effect of mounting, and of a change of the flow's options.\<close>

definition options_effect :: "'w teller_env \<Rightarrow> 'w teller_flow \<Rightarrow> 'w teller_flow" where
  "options_effect E s =
     (if \<not> te_enabled E then teller_clearError E (s\<lparr>tr_connections := []\<rparr>)
      else if \<not> truthy (te_applicationId E) then teller_handleError E ''Missing Teller application ID'' s
      else snd (loadConnections E s))"

definition teller_connect_flow :: "'w teller_env \<Rightarrow> jstring option \<Rightarrow> 'w teller_flow \<Rightarrow> 'w teller_flow" where
  "teller_connect_flow E connectionId s =
     (let s1 = teller_clearError E s in
      if \<not> te_enabled E then s1
      else if \<not> truthy (te_applicationId E) then teller_handleError E ''Missing Teller application ID'' s1
      else log_effect (Opened connectionId)
        (if \<not> te_ready E then show_toast ''Preparing Teller Connect...'' s1 else s1))"

definition teller_syncOne :: "'w teller_env \<Rightarrow> jstring \<Rightarrow> 'w teller_flow \<Rightarrow> 'w teller_flow" where
  "teller_syncOne E connectionId s =
     (if \<not> te_enabled E then s
      else let s1 = teller_clearError E s in
        case ts_sync (te_services E) connectionId (tr_world s1) of
          (Inr _, w) \<Rightarrow> show_toast ''Sync started for Teller connection''
             (snd (loadConnections E (s1\<lparr>tr_world := w\<rparr>)))
        | (Inl x, w) \<Rightarrow>
            let s2 = s1\<lparr>tr_world := w\<rparr> in
            if isTellerReauthRequired x
            then log_effect (Opened (Some connectionId))
              (show_toast ''Teller needs MFA. Opening Teller Connect...''
                (s2\<lparr>tr_pendingReauth := Some connectionId\<rparr>))
            else teller_handleError E (exn_message x) s2)"

text \<open>The synchronisations of a batch, one after the other, up to the first that fails.\<close>

fun syncSequentially :: "'w teller_services \<Rightarrow> nat \<Rightarrow> jstring list \<Rightarrow> 'w \<Rightarrow>
    nat \<times> jstring option \<times> teller_effect list \<times> 'w" where
  "syncSequentially T index [] w = (0, None, [], w)"
| "syncSequentially T index (connectionId # ids) w =
     (let waits = (if 0 < index then [Waited tellerSyncDelayMs] else []) in
      case ts_sync T connectionId w of
        (Inl x, w1) \<Rightarrow> (0, Some (exn_message x), waits, w1)
      | (Inr _, w1) \<Rightarrow> (case syncSequentially T (Suc index) ids w1 of
          (n, e, l, w2) \<Rightarrow> (Suc n, e, waits @ l, w2)))"

definition batch_ids :: "'w teller_env \<Rightarrow> PlaidConnection list \<Rightarrow> jstring list" where
  "batch_ids E connections = filter (\<lambda>i. i \<noteq> []) (map cn_connectionId
     (filter (\<lambda>connection. \<not> isRecentlySynced E (cn_lastSyncAt connection)) connections))"

definition teller_syncAll :: "'w teller_env \<Rightarrow> 'w teller_flow \<Rightarrow> 'w teller_flow" where
  "teller_syncAll E s =
     (if \<not> te_enabled E then s
      else let s1 = (teller_clearError E s)\<lparr>tr_syncingAll := True\<rparr>;
               ids = batch_ids E (tr_connections s)
        in (if ids = [] then show_toast (if 0 < length (tr_connections s)
                then ''Teller connections were synced recently'' else ''No Teller connections to sync'') s1
            else case syncSequentially (te_services E) 0 ids (tr_world s1) of
              (syncedCount, errorMessage, l, w) \<Rightarrow>
                let s2 = snd (loadConnections E (s1\<lparr>tr_world := w, tr_log := tr_log s1 @ l\<rparr>)) in
                if syncedCount = length ids then show_toast ''Sync started for all Teller connections'' s2
                else if 0 < syncedCount then show_toast (default_to errorMessage
                  ''Some Teller connections synced; retry later for the rest'') s2
                else teller_handleError E (default_to errorMessage ''Failed to sync Teller connections'') s2)
           \<lparr>tr_syncingAll := False\<rparr>)"

definition teller_disconnect_flow :: "'w teller_env \<Rightarrow> jstring \<Rightarrow> 'w teller_flow \<Rightarrow>
    (exn + unit) \<times> 'w teller_flow" where
  "teller_disconnect_flow E connectionId s =
     (if \<not> te_enabled E then (Inr (), s)
      else let s1 = teller_clearError E s in
        case ts_disconnect (te_services E) connectionId (tr_world s1) of
          (Inr _, w) \<Rightarrow> (Inr (), show_toast ''Disconnected Teller connection''
             (snd (loadConnections E (s1\<lparr>tr_world := w\<rparr>))))
        | (Inl x, w) \<Rightarrow> (Inl x, teller_handleError E (exn_message x) (s1\<lparr>tr_world := w\<rparr>)))"

section \<open>The widget opens at most once per request\<close>

datatype widget_event = Open_request "jstring option" | Initialized setup_result bool
  | Application_removed | Finished

fun widget_handle :: "widget_event \<Rightarrow> teller_connect \<Rightarrow> teller_connect" where
  "widget_handle (Open_request i) c = tc_open i c"
| "widget_handle (Initialized r active) c = tc_initialize r active c"
| "widget_handle Application_removed c = tc_no_application c"
| "widget_handle Finished c = tc_finish c"

definition initial_widget :: teller_connect where
  "initial_widget = \<lparr>tc_ready = False, tc_pendingOpen = False, tc_connectionId = None, tc_openings = 0\<rparr>"

definition widget_ok :: "teller_connect \<Rightarrow> bool" where
  "widget_ok c \<longleftrightarrow> \<not> (tc_ready c \<and> tc_pendingOpen c)"

interpretation widget: event_machine widget_handle "\<lambda>_ _. True" "\<lambda>c. c = initial_widget" widget_ok
proof
  fix e c assume "widget_ok c"
  then show "widget_ok (widget_handle e c)"
    by (cases e) (auto simp: widget_ok_def tc_open_def tc_initialize_def tc_no_application_def tc_finish_def
        Let_def split: setup_result.splits)
qed (simp add: widget_ok_def initial_widget_def)

definition open_requests :: "widget_event list \<Rightarrow> nat" where
  "open_requests es = length (filter (\<lambda>e. case e of Open_request _ \<Rightarrow> True | _ \<Rightarrow> False) es)"

definition widget_run :: "widget_event list \<Rightarrow> teller_connect" where
  "widget_run es = foldl (\<lambda>c e. widget_handle e c) initial_widget es"

lemma widget_run_reachable: "widget.event_step\<^sup>*\<^sup>* initial_widget (widget_run es)"
proof (induction es rule: rev_induct)
  case (snoc e es)
  have "widget.event_step (widget_run es) (widget_run (es @ [e]))"
    unfolding widget.event_step_def by (intro exI [of _ e]) (simp add: widget_run_def)
  with snoc show ?case by (rule rtranclp.rtrancl_into_rtrancl)
qed (simp add: widget_run_def)

text \<open>
  In every run of the Teller widget a request to open it waits only while there is no widget,
  and every opening answers a request of its own: requests made while it loads open it once.
\<close>

theorem widget_opens_once:
  "\<not> (tc_ready (widget_run es) \<and> tc_pendingOpen (widget_run es)) \<and>
   tc_openings (widget_run es) + (if tc_pendingOpen (widget_run es) then 1 else 0) \<le> open_requests es \<and>
   tc_connectionId (widget_run (es @ [Open_request i])) = i"
proof -
  have "widget_ok (widget_run es)"
    by (rule widget.invar_events [OF widget_run_reachable refl])
  moreover have "tc_openings (widget_run es) + (if tc_pendingOpen (widget_run es) then 1 else 0) \<le> open_requests es"
  proof (induction es rule: rev_induct)
    case (snoc e es)
    then show ?case
      by (cases e) (auto simp: widget_run_def open_requests_def tc_open_def tc_initialize_def
          tc_no_application_def tc_finish_def Let_def split: setup_result.splits if_splits)
  qed (simp add: widget_run_def initial_widget_def)
  moreover have "tc_connectionId (widget_run (es @ [Open_request i])) = i"
    by (simp add: widget_run_def tc_open_def Let_def)
  ultimately show ?thesis by (simp only: widget_ok_def simp_thms)
qed

section \<open>Retries\<close>

lemma loadConnections_keeps [simp]:
  "tr_attempts (snd (loadConnections E s)) = tr_attempts s"
  "tr_timer (snd (loadConnections E s)) = tr_timer s"
  "tr_syncingAll (snd (loadConnections E s)) = tr_syncingAll s"
  by (simp_all add: loadConnections_def Let_def log_effect_def teller_handleError_def teller_clearError_def
      split: prod.split sum.split)

lemma retry_load:
  "tr_attempts (loadConnectionsWithRetry E s) = (if tr_timer (loadConnectionsWithRetry E s)
      then Suc (tr_attempts s) else 0) \<and>
   (tr_timer (loadConnectionsWithRetry E s) \<longrightarrow> tr_attempts s < 5)"
proof -
  obtain b ids s1 where l: "loadConnections E s = ((b, ids), s1)" by (metis prod.exhaust)
  have "tr_attempts s1 = tr_attempts s" using loadConnections_keeps(1) [of E s] by (simp add: l)
  then show ?thesis by (simp add: loadConnectionsWithRetry_def l)
qed

lemma retry_timer_off: "\<not> tr_timer s \<Longrightarrow> (retry_timer E ^^ k) s = s"
  by (induction k) (simp_all add: retry_timer_def)

text \<open>
  Loading with retries ends: however the server answers, after a load at most five more follow,
  the timer is off, and the count of attempts starts again at zero.
\<close>

theorem retries_end:
  assumes "tr_attempts s \<le> 5"
  shows "tr_attempts (loadConnectionsWithRetry E s) \<le> 5 \<and>
    \<not> tr_timer ((retry_timer E ^^ (5 - tr_attempts s)) (loadConnectionsWithRetry E s)) \<and>
    tr_attempts ((retry_timer E ^^ (5 - tr_attempts s)) (loadConnectionsWithRetry E s)) = 0"
proof -
  have "\<not> tr_timer ((retry_timer E ^^ k) (loadConnectionsWithRetry E s)) \<and>
      tr_attempts ((retry_timer E ^^ k) (loadConnectionsWithRetry E s)) = 0"
    if "k = 5 - tr_attempts s" "tr_attempts s \<le> 5" for k s
    using that
  proof (induction k arbitrary: s)
    case 0
    then show ?case using retry_load [of E s] by auto
  next
    case (Suc k)
    let ?s1 = "loadConnectionsWithRetry E s"
    show ?case
    proof (cases "tr_timer ?s1")
      case False
      then show ?thesis using retry_timer_off [OF False, where E = E and k = "Suc k"] retry_load [of E s] by simp
    next
      case True
      let ?s2 = "?s1\<lparr>tr_timer := False, tr_log := tr_log ?s1 @ [Waited 1500]\<rparr>"
      have a: "tr_attempts ?s2 = Suc (tr_attempts s)" "tr_attempts s < 5"
        using retry_load [of E s] True by simp_all
      have k: "k = 5 - tr_attempts ?s2" "tr_attempts ?s2 \<le> 5" using Suc.prems(1) a by arith+
      have "(retry_timer E ^^ Suc k) ?s1 = (retry_timer E ^^ k) (loadConnectionsWithRetry E ?s2)"
        unfolding funpow_Suc_right comp_def by (simp add: retry_timer_def [of E ?s1] True)
      then show ?thesis using Suc.IH [OF k] by (simp only: simp_thms)
    qed
  qed
  from this [OF refl assms] show ?thesis using retry_load [of E s] assms by auto
qed

definition no_flow :: "'w \<Rightarrow> 'w teller_flow" where
  "no_flow w = \<lparr>tr_connections = [], tr_loading = False, tr_error = None, tr_toast = None,
     tr_syncingAll = False, tr_timer = False, tr_attempts = 0, tr_pendingReauth = None, tr_log = [],
     tr_world = w\<rparr>"

definition failing_teller :: "exn \<Rightarrow> unit teller_services" where
  "failing_teller x = \<lparr>ts_status = (\<lambda>w. (Inr [], w)), ts_accounts = (\<lambda>w. (Inr [], w)),
     ts_sync = (\<lambda>_ w. (Inl x, w)), ts_disconnect = (\<lambda>_ w. (Inr (), w))\<rparr>"

definition teller_page :: "bool \<Rightarrow> 'w teller_services \<Rightarrow> 'w teller_env" where
  "teller_page enabled T = \<lparr>te_enabled = enabled, te_applicationId = Some ''app'', te_ready = True,
     te_now = 0, te_parse = (\<lambda>_. Some 0), te_frac = num_str, te_services = T\<rparr>"

theorem retries_end_witness:
  "\<not> tr_timer ((retry_timer (teller_page True (failing_teller (JsExn ''down''))) ^^ 5)
      (loadConnectionsWithRetry (teller_page True (failing_teller (JsExn ''down''))) (no_flow ())))"
  using retries_end [of "no_flow ()" "teller_page True (failing_teller (JsExn ''down''))"]
  by (simp add: no_flow_def)

section \<open>Batches\<close>

text \<open>The world after the synchronisations of a list.\<close>

definition after_syncs :: "'w teller_services \<Rightarrow> jstring list \<Rightarrow> 'w \<Rightarrow> 'w" where
  "after_syncs T ids w = foldl (\<lambda>w i. snd (ts_sync T i w)) w ids"

text \<open>
  A batch synchronises its connections one after the other, in order, and stops at the first
  that fails: \<open>n\<close> succeeded, the one after them failed with the message reported, none follows it,
  and four seconds pass between any two.
\<close>

theorem syncSequentially_prefix:
  assumes "syncSequentially T 0 ids w = (n, e, l, w')"
  shows "n \<le> length ids \<and> w' = after_syncs T (take (Suc n) ids) w \<and>
    (\<forall>k<n. \<exists>u. fst (ts_sync T (ids ! k) (after_syncs T (take k ids) w)) = Inr u) \<and>
    (case e of None \<Rightarrow> n = length ids
     | Some m \<Rightarrow> n < length ids \<and> (\<exists>x. fst (ts_sync T (ids ! n) (after_syncs T (take n ids) w)) = Inl x \<and>
         m = exn_message x)) \<and>
    l = replicate (length (take (Suc n) ids) - 1) (Waited 4000)"
proof -
  have "n \<le> length ids \<and> w' = after_syncs T (take (Suc n) ids) w \<and>
    (\<forall>k<n. \<exists>u. fst (ts_sync T (ids ! k) (after_syncs T (take k ids) w)) = Inr u) \<and>
    (case e of None \<Rightarrow> n = length ids
     | Some m \<Rightarrow> n < length ids \<and> (\<exists>x. fst (ts_sync T (ids ! n) (after_syncs T (take n ids) w)) = Inl x \<and>
         m = exn_message x)) \<and>
    l = replicate (length (take (Suc n) ids) - (if i = 0 then 1 else 0)) (Waited 4000)"
    if "syncSequentially T i ids w = (n, e, l, w')" for i
    using that
  proof (induction T i ids w arbitrary: n e l w' rule: syncSequentially.induct)
    case (1 T index w)
    then show ?case by (auto simp: after_syncs_def)
  next
    case (2 T index connectionId ids w)
    obtain r w1 where r: "ts_sync T connectionId w = (r, w1)" by force
    have a: "after_syncs T (connectionId # is) w = after_syncs T is w1" for "is"
      by (simp add: after_syncs_def r)
    show ?case
    proof (cases r)
      case (Inl x)
      then show ?thesis using 2(2) r
        by (auto simp: after_syncs_def tellerSyncDelayMs_def)
    next
      case (Inr u)
      obtain n1 e1 l1 w2 where n1: "syncSequentially T (Suc index) ids w1 = (n1, e1, l1, w2)"
        by (metis prod.exhaust)
      have eqs: "n = Suc n1" "e = e1" "w' = w2"
        "l = (if 0 < index then [Waited 4000] else []) @ l1"
        using 2(2) r Inr n1 by (auto simp: tellerSyncDelayMs_def)
      note IH = 2(1) [OF refl r [symmetric] Inr n1]
      have k: "\<exists>u. fst (ts_sync T ((connectionId # ids) ! k) (after_syncs T (take k (connectionId # ids)) w)) = Inr u"
        if "k < Suc n1" for k
      proof (cases k)
        case 0
        then show ?thesis by (simp add: after_syncs_def r Inr)
      next
        case (Suc j)
        then show ?thesis using that IH by (simp add: a)
      qed
      have l1: "l1 = replicate (length (take (Suc n1) ids)) (Waited 4000)" using IH by simp
      have "l = replicate (length (take (Suc n) (connectionId # ids)) - (if index = 0 then 1 else 0)) (Waited 4000)"
        unfolding eqs l1 by (simp add: replicate_append_same [symmetric])
      then show ?thesis using IH k unfolding eqs(1-3) take_Suc_Cons a nth_Cons_Suc length_Cons
        by (auto split: option.splits)
    qed
  qed
  from this [OF assms] show ?thesis by simp
qed

theorem syncSequentially_prefix_witness:
  "syncSequentially (failing_teller (JsExn ''down'')) 0 [''a'', ''b''] () = (0, Some ''down'', [], ()) \<and>
   (0 :: nat) < length [''a'', ''b'']"
proof -
  have s: "syncSequentially (failing_teller (JsExn ''down'')) 0 [''a'', ''b''] () = (0, Some ''down'', [], ())"
    by (simp add: failing_teller_def exn_message_def)
  from syncSequentially_prefix [OF s] show ?thesis using s by simp
qed

text \<open>
  Synchronising everything releases its flag on every path, asks only for connections not
  synchronised in the last fifteen minutes, and asks for nothing when there are none.
\<close>

theorem teller_syncAll_cooldown:
  assumes "te_enabled E"
  shows "\<not> tr_syncingAll (teller_syncAll E s) \<and>
    (\<forall>i\<in>set (batch_ids E (tr_connections s)). \<exists>c\<in>set (tr_connections s). cn_connectionId c = i \<and>
       (case cn_lastSyncAt c of None \<Rightarrow> True
        | Some t \<Rightarrow> t = [] \<or> (\<forall>ms. te_parse E t = Some ms \<longrightarrow> 900000 \<le> te_now E - ms))) \<and>
    (batch_ids E (tr_connections s) = [] \<longrightarrow> tr_world (teller_syncAll E s) = tr_world s \<and>
       tr_log (teller_syncAll E s) = tr_log s \<and> tr_error (teller_syncAll E s) = None)"
proof (intro conjI ballI impI)
  show "\<not> tr_syncingAll (teller_syncAll E s)" using assms by (simp add: teller_syncAll_def Let_def)
next
  fix i assume "i \<in> set (batch_ids E (tr_connections s))"
  then obtain c where "c \<in> set (tr_connections s)" "cn_connectionId c = i"
    "\<not> isRecentlySynced E (cn_lastSyncAt c)" by (auto simp: batch_ids_def)
  then show "\<exists>c\<in>set (tr_connections s). cn_connectionId c = i \<and>
       (case cn_lastSyncAt c of None \<Rightarrow> True
        | Some t \<Rightarrow> t = [] \<or> (\<forall>ms. te_parse E t = Some ms \<longrightarrow> 900000 \<le> te_now E - ms))"
    by (intro bexI [of _ c]) (auto simp: isRecentlySynced_def truthy_def tellerSyncCooldownMs_def
        split: option.splits)
next
  assume "batch_ids E (tr_connections s) = []"
  then show "tr_world (teller_syncAll E s) = tr_world s" "tr_log (teller_syncAll E s) = tr_log s"
    "tr_error (teller_syncAll E s) = None"
    using assms by (simp_all add: teller_syncAll_def teller_clearError_def show_toast_def Let_def)
qed

theorem teller_syncAll_cooldown_witness:
  "\<not> tr_syncingAll (teller_syncAll (teller_page True (failing_teller (JsExn ''down''))) (no_flow ()))"
  using teller_syncAll_cooldown [of "teller_page True (failing_teller (JsExn ''down''))" "no_flow ()"]
  by (simp add: teller_page_def)

text \<open>
  Disabling the flow removes its connections but not its error: the clearing is guarded by the
  flag that is already down, so that the message of the provider left behind stays shown.
\<close>

theorem disabled_error_stays:
  assumes "\<not> te_enabled E"
  shows "tr_connections (options_effect E s) = [] \<and> tr_error (options_effect E s) = tr_error s \<and>
    tr_error (teller_connect_flow E i s) = tr_error s"
  using assms by (simp add: options_effect_def teller_clearError_def teller_connect_flow_def Let_def)

theorem disabled_error_stays_witness:
  "tr_error (options_effect (teller_page False (failing_teller (JsExn ''down'')))
     ((no_flow ())\<lparr>tr_error := Some ''old''\<rparr>)) = Some ''old''"
  using disabled_error_stays [of "teller_page False (failing_teller (JsExn ''down''))"
      "(no_flow ())\<lparr>tr_error := Some ''old''\<rparr>"] by (simp add: teller_page_def)

end
