(* ===== verification/Analytics_State.thy ===== *)
theory Analytics_State
  imports Data_Services Account_Selection Date_Ranges Transition_Systems
begin

text \<open>
  The analytics of the dashboard: the loads of \<^verbatim>\<open>features/analytics/hooks/useAnalytics.ts\<close>
  and \<^verbatim>\<open>useNetWorthSeries.ts\<close>, in which a newer load aborts an older one,
  \<^verbatim>\<open>hooks/useBalancesOverview.ts\<close>, in which it does not, and the data of the charts
  (\<^verbatim>\<open>features/analytics/adapters/chartData.ts\<close>). A load is two steps, its start and
  its answer; controllers are numbered in the order of their loads.
\<close>

section \<open>Loads that abort their predecessor\<close>

record 'd loader =
  ld_loading :: bool
  ld_refreshing :: bool
  ld_error :: "jstring option"
  ld_data :: 'd
  ld_hasLoaded :: bool
  ld_controller :: "nat option"
  ld_started :: nat


text \<open>A load in flight: its controller, whether it blocks the page, and the accounts it asks for.\<close>

record load_request =
  lr_controller :: nat
  lr_blocking :: bool
  lr_accountIds :: "jstring list option"

definition asked_accounts :: "account_filter \<Rightarrow> jstring list option" where
  "asked_accounts af = (if \<not> isAllAccountsSelected af \<and> 0 < length (af_selected af)
     then Some (af_selected af) else None)"

definition finish_load :: "nat \<Rightarrow> bool \<Rightarrow> 'd loader \<Rightarrow> 'd loader" where
  "finish_load c blocking s = (if ld_controller s = Some c
     then s\<lparr>ld_loading := (if blocking then False else ld_loading s), ld_refreshing := False\<rparr> else s)"

definition start_load :: "'d \<Rightarrow> account_filter \<Rightarrow> 'd loader \<Rightarrow> load_request option \<times> 'd loader" where
  "start_load nothing af s0 =
     (let s = s0\<lparr>ld_controller := None\<rparr> in
      if af_loading af then (None, s)
      else let c = ld_started s; blocking = (\<not> ld_hasLoaded s);
          s1 = s\<lparr>ld_controller := Some c, ld_started := Suc c,
                 ld_loading := (if blocking then True else ld_loading s),
                 ld_refreshing := (if blocking then False else True), ld_error := None\<rparr>
        in if 0 < length (allAccountIds af) \<and> af_selected af = []
           then (None, finish_load c blocking (s1\<lparr>ld_data := nothing, ld_hasLoaded := True\<rparr>))
           else (Some \<lparr>lr_controller = c, lr_blocking = blocking, lr_accountIds = asked_accounts af\<rparr>, s1))"

text \<open>The answer; \<open>failed\<close> is what an error makes of the data.\<close>

definition end_answer :: "('d \<Rightarrow> 'd) \<Rightarrow> load_request \<Rightarrow> exn + 'd \<Rightarrow> 'd loader \<Rightarrow> 'd loader" where
  "end_answer failed r answer s =
     (let aborted = (ld_controller s \<noteq> Some (lr_controller r));
          s1 = (if aborted then s
                else case answer of
                  Inr d \<Rightarrow> s\<lparr>ld_data := d, ld_hasLoaded := True\<rparr>
                | Inl x \<Rightarrow> s\<lparr>ld_error := Some (exn_message x), ld_data := failed (ld_data s)\<rparr>)
      in finish_load (lr_controller r) (lr_blocking r) s1)"

section \<open>useAnalytics\<close>

record analytics_data =
  ad_spendingTotal :: jsnum
  ad_categories :: "json list"
  ad_topMerchants :: "json list"
  ad_monthlyTotals :: "json list"

definition no_analytics :: analytics_data where
  "no_analytics = \<lparr>ad_spendingTotal = Fin 0, ad_categories = [], ad_topMerchants = [], ad_monthlyTotals = []\<rparr>"

definition analytics_of :: "jsnum \<Rightarrow> json \<Rightarrow> json \<Rightarrow> json \<Rightarrow> analytics_data" where
  "analytics_of spending cats merch monthly = \<lparr>ad_spendingTotal = (if spending = NaN then Fin 0 else spending),
     ad_categories = default_to (array_of cats) [], ad_topMerchants = default_to (array_of merch) [],
     ad_monthlyTotals = default_to (array_of monthly) []\<rparr>"

definition analytics_start :: "account_filter \<Rightarrow> analytics_data loader \<Rightarrow>
    load_request option \<times> analytics_data loader" where
  "analytics_start af s = start_load no_analytics af s"

definition analytics_end :: "load_request \<Rightarrow> exn + jsnum \<times> json \<times> json \<times> json \<Rightarrow> analytics_data loader \<Rightarrow>
    analytics_data loader" where
  "analytics_end r answer s = end_answer (\<lambda>d. d) r (case answer of Inl x \<Rightarrow> Inl x
     | Inr (spending, cats, merch, monthly) \<Rightarrow> Inr (analytics_of spending cats merch monthly)) s"

section \<open>useNetWorthSeries\<close>

definition getHistoricalNetWorthRange :: "int \<Rightarrow> jstring \<times> jstring" where
  "getHistoricalNetWorthRange now =
     (fmt (make_day (year_of_day now - 5) (month_of_day now) (date_of_day now)), fmt now)"

text \<open>A point of the answer: its date and value, each possibly missing.\<close>

definition net_worth_point :: "jstring option \<times> jsval \<Rightarrow> jstring \<times> jsnum" where
  "net_worth_point p = (default_to (fst p) [],
     (let v = js_Number (snd p) in if v = NaN then Fin 0 else v))"

definition net_worth_start :: "account_filter \<Rightarrow> (jstring \<times> jsnum) list loader \<Rightarrow>
    load_request option \<times> (jstring \<times> jsnum) list loader" where
  "net_worth_start af s = start_load [] af s"

definition net_worth_end :: "load_request \<Rightarrow> exn + (jstring option \<times> jsval) list option \<Rightarrow>
    (jstring \<times> jsnum) list loader \<Rightarrow> (jstring \<times> jsnum) list loader" where
  "net_worth_end r answer s = end_answer (\<lambda>_. []) r (case answer of Inl x \<Rightarrow> Inl x
     | Inr raw \<Rightarrow> Inr (map net_worth_point (default_to raw []))) s"

section \<open>useBalancesOverview\<close>

record 'd balances =
  bo_loading :: bool
  bo_refreshing :: bool
  bo_error :: "jstring option"
  bo_data :: "'d option"
  bo_hasLoaded :: bool
  bo_lastTriggeredEnd :: "jstring option"

definition initial_balances :: "jstring option \<Rightarrow> 'd balances" where
  "initial_balances debouncedEnd = \<lparr>bo_loading = True, bo_refreshing = False, bo_error = None,
     bo_data = None, bo_hasLoaded = False, bo_lastTriggeredEnd = debouncedEnd\<rparr>"

definition finish_balances :: "bool \<Rightarrow> 'd balances \<Rightarrow> 'd balances" where
  "finish_balances blocking s =
     s\<lparr>bo_loading := (if blocking then False else bo_loading s), bo_refreshing := False\<rparr>"

text \<open>A load in flight is whether it blocks, and the accounts it asks for.\<close>

definition start_balances :: "account_filter \<Rightarrow> 'd balances \<Rightarrow>
    (bool \<times> jstring list option) option \<times> 'd balances" where
  "start_balances af s =
     (if af_loading af then (None, s)
      else let blocking = (\<not> bo_hasLoaded s);
          s1 = s\<lparr>bo_loading := (if blocking then True else bo_loading s),
                 bo_refreshing := (if blocking then False else True), bo_error := None\<rparr>
        in if 0 < length (allAccountIds af) \<and> af_selected af = []
           then (None, finish_balances blocking (s1\<lparr>bo_data := None, bo_hasLoaded := True\<rparr>))
           else (Some (blocking, asked_accounts af), s1))"

definition end_balances :: "bool \<Rightarrow> exn + 'd \<Rightarrow> 'd balances \<Rightarrow> 'd balances" where
  "end_balances blocking answer s = finish_balances blocking (case answer of
     Inr result \<Rightarrow> s\<lparr>bo_data := Some result, bo_hasLoaded := True\<rparr>
   | Inl x \<Rightarrow> s\<lparr>bo_error := Some (exn_message x)\<rparr>)"

text \<open>The effect of a change of the debounced end date, once mounted: whether it loads.\<close>

definition end_date_effect :: "bool \<Rightarrow> jstring option \<Rightarrow> 'd balances \<Rightarrow> bool \<times> 'd balances" where
  "end_date_effect mounted debouncedEnd s =
     (if mounted \<and> debouncedEnd \<noteq> bo_lastTriggeredEnd s
      then (debouncedEnd \<noteq> None, s\<lparr>bo_lastTriggeredEnd := debouncedEnd\<rparr>) else (False, s))"

section \<open>Charts\<close>

record CategoryDatum =
  cd_category :: "jstring option"
  cd_name :: "jstring option"
  cd_amount :: jsval
  cd_value :: jsval

definition datum_name :: "CategoryDatum \<Rightarrow> jstring" where
  "datum_name c = str_or (Some (default_to (coalesce (cd_category c) (cd_name c)) ''Unknown'')) ''Unknown''"

definition datum_value :: "CategoryDatum \<Rightarrow> jsnum" where
  "datum_value c =
     (let rawAmount = (if \<not> (cd_amount c = JUndefined \<or> cd_amount c = JNull) then cd_amount c
            else if \<not> (cd_value c = JUndefined \<or> cd_value c = JNull) then cd_value c else JNum (Fin 0))
      in case rawAmount of JStr s \<Rightarrow> number_of_string s
         | _ \<Rightarrow> (if rawAmount = JNum NaN then Fin 0 else js_Number rawAmount))"

definition donut_totals :: "CategoryDatum list \<Rightarrow> (jstring, rat) js_map" where
  "donut_totals categories = foldl (\<lambda>categoryTotals c.
     case datum_value c of
       Fin value \<Rightarrow> if value \<le> 0 then categoryTotals
         else map_add (resolveMajorCategory (Some (datum_name c)) []) value categoryTotals
     | _ \<Rightarrow> categoryTotals) [] categories"

definition categoriesToDonut :: "CategoryDatum list \<Rightarrow> (jstring \<times> rat) list" where
  "categoriesToDonut categories = js_sort (down_by snd) (donut_totals categories)"

definition normalizeMerchants :: "('m \<Rightarrow> rat) \<Rightarrow> 'm list \<Rightarrow> 'm list" where
  "normalizeMerchants amount items = js_sort (down_by amount) items"

section \<open>Runs of a load\<close>















text \<open>
  The balances overview has no such guard: of two loads in flight the answer that comes last is
  shown, also when it is the older load's, for accounts that are no longer selected.
\<close>

theorem late_balances_shown:
  assumes "start_balances af1 s = (Some (b1, ids1), s1)" and "start_balances af2 s1 = (Some (b2, ids2), s2)"
  shows "bo_data (end_balances b1 (Inr old) (end_balances b2 (Inr new) s2)) = Some old \<and>
    bo_error (end_balances b1 (Inr old) (end_balances b2 (Inr new) s2)) = None \<and>
    \<not> bo_refreshing (end_balances b2 (Inr new) s2) \<and> ids1 = asked_accounts af1 \<and> ids2 = asked_accounts af2"
  using assms by (auto simp: start_balances_def end_balances_def finish_balances_def Let_def split: if_splits)

section \<open>The donut\<close>

lemma donut_totals_ok:
  "map_ok (donut_totals cs) \<and> (\<forall>v\<in>set (map snd (donut_totals cs)). 0 < v) \<and>
   map_total (donut_totals cs) = sum_list (map (\<lambda>c. max 0 (fin_or_zero (datum_value c))) cs)"
proof (induction cs rule: rev_induct)
  case Nil
  then show ?case by (simp add: donut_totals_def map_ok_def map_total_def)
next
  case (snoc c cs)
  show ?case
  proof (cases "\<exists>v. datum_value c = Fin v \<and> 0 < v")
    case True
    then obtain v where v: "datum_value c = Fin v" "0 < v" by blast
    then have "donut_totals (cs @ [c]) = map_add (resolveMajorCategory (Some (datum_name c)) []) v (donut_totals cs)"
      by (simp add: donut_totals_def)
    moreover have "\<forall>x\<in>set (map snd (map_add (resolveMajorCategory (Some (datum_name c)) []) v (donut_totals cs))). 0 < x"
      using snoc v(2) by (intro map_add_pos) simp_all
    ultimately show ?thesis using snoc v by (simp add: map_ok_add map_total_add fin_or_zero_def)
  next
    case False
    then have "donut_totals (cs @ [c]) = donut_totals cs" "max 0 (fin_or_zero (datum_value c)) = 0"
      by (auto simp: donut_totals_def fin_or_zero_def split: jsnum.split)
    then show ?thesis using snoc by simp
  qed
qed

text \<open>
  The donut shows every positive finite amount exactly once: its slices are distinct major
  categories with positive values, largest first, and their sum is the sum of those amounts.
\<close>

theorem donut_adds_up:
  "distinct (map fst (categoriesToDonut cs)) \<and> (\<forall>e\<in>set (categoriesToDonut cs). 0 < snd e) \<and>
   sorted_wrt (\<lambda>a b. snd b \<le> snd a) (categoriesToDonut cs) \<and>
   sum_list (map snd (categoriesToDonut cs)) =
     sum_list (map (\<lambda>c. max 0 (fin_or_zero (datum_value c))) cs)"
proof (intro conjI)
  have "distinct (map fst (js_sort (down_by snd) m))" if "distinct (map fst m)" for m :: "(jstring, rat) js_map"
    using that by (metis distinct_map distinct_js_sort set_js_sort)
  then show "distinct (map fst (categoriesToDonut cs))"
    using donut_totals_ok [of cs] by (simp add: categoriesToDonut_def map_ok_def)
  show "\<forall>e\<in>set (categoriesToDonut cs). 0 < snd e"
    using donut_totals_ok [of cs] by (auto simp: categoriesToDonut_def)
  show "sorted_wrt (\<lambda>a b. snd b \<le> snd a) (categoriesToDonut cs)"
    using down.sorted_js_sort [of snd] by (simp add: categoriesToDonut_def down_by_def [abs_def])
  show "sum_list (map snd (categoriesToDonut cs)) =
      sum_list (map (\<lambda>c. max 0 (fin_or_zero (datum_value c))) cs)"
    using donut_totals_ok [of cs] by (simp add: categoriesToDonut_def sum_list_js_sort map_total_def)
qed

end
