(* ===== verification/Session_Token.thy ===== *)
theory Session_Token
  imports Data_Services
begin

text \<open>
  The session token as \<^verbatim>\<open>SessionManager.tsx\<close> and \<^verbatim>\<open>App.tsx\<close> read it: the middle
  part of a JWT, decoded with \<^verbatim>\<open>atob\<close>, parsed with \<^verbatim>\<open>JSON.parse\<close>, and its
  \<^verbatim>\<open>exp\<close> compared with the clock. The base64 encoder is the reference the decoder is
  proved against.
\<close>

section \<open>atob\<close>

definition b64_value :: "char \<Rightarrow> nat option" where
  "b64_value c = (if is_upper c then Some (code_at c - 65)
     else if is_lower c then Some (code_at c - 71)
     else if is_digit c then Some (code_at c + 4)
     else if c = CHR ''+'' then Some 62 else if c = CHR ''/'' then Some 63 else None)"

text \<open>Groups of four sextets are three bytes; the bits left over at the end are dropped.\<close>

fun b64_bytes :: "nat list \<Rightarrow> nat list" where
  "b64_bytes (a # b # c # d # r) =
     (a * 4 + b div 16) # (b mod 16 * 16 + c div 4) # (c mod 4 * 64 + d) # b64_bytes r"
| "b64_bytes [a, b, c] = [a * 4 + b div 16, b mod 16 * 16 + c div 4]"
| "b64_bytes [a, b] = [a * 4 + b div 16]"
| "b64_bytes _ = []"

definition ascii_space :: "char \<Rightarrow> bool" where
  "ascii_space c \<longleftrightarrow> code_at c \<in> {9, 10, 12, 13, 32}"

definition drop_padding :: "jstring \<Rightarrow> jstring" where
  "drop_padding s = (if length s mod 4 = 0
     then (if endsWith s ''=='' then butlast (butlast s) else if endsWith s ''='' then butlast s else s)
     else s)"

definition atob :: "jstring \<Rightarrow> jstring option" where
  "atob s = (let stripped = drop_padding (filter (\<lambda>c. \<not> ascii_space c) s) in
     if length stripped mod 4 = 1 \<or> \<not> list_all (\<lambda>c. b64_value c \<noteq> None) stripped then None
     else Some (map (\<lambda>n. char_of n) (b64_bytes (map (\<lambda>c. the (b64_value c)) stripped))))"

section \<open>JSON.parse\<close>

text \<open>
  The grammar of JSON with a bound on the nesting and the number of items, which the length of the
  text always covers; an escape beyond the characters of the model is refused.
\<close>

definition json_space :: "char \<Rightarrow> bool" where
  "json_space c \<longleftrightarrow> code_at c \<in> {9, 10, 13, 32}"

definition skip :: "jstring \<Rightarrow> jstring" where
  "skip s = dropWhile json_space s"

definition json_digits :: "jstring \<Rightarrow> (jstring \<times> jstring) option" where
  "json_digits s = (if takeWhile is_digit s = [] then None
     else Some (takeWhile is_digit s, dropWhile is_digit s))"

definition json_int :: "jstring \<Rightarrow> (jstring \<times> jstring) option" where
  "json_int s = (case s of [] \<Rightarrow> None
     | c # r \<Rightarrow> if c = CHR ''0'' then Some ([c], r) else json_digits s)"

definition json_frac :: "jstring \<Rightarrow> (jstring \<times> jstring) option" where
  "json_frac s = (if startsWith s ''.'' then json_digits (tl s) else Some ([], s))"

definition json_exp :: "jstring \<Rightarrow> (int \<times> jstring) option" where
  "json_exp s = (if startsWith s ''e'' \<or> startsWith s ''E''
     then let r = tl s; neg = startsWith r ''-'';
              r' = (if neg \<or> startsWith r ''+'' then tl r else r)
       in map_option (\<lambda>(ds, rest). ((if neg then -1 else 1) * int (digits_value ds), rest)) (json_digits r')
     else Some (0, s))"

definition json_number_text :: "jstring \<Rightarrow> (json \<times> jstring) option" where
  "json_number_text s = (let neg = startsWith s ''-''; s1 = (if neg then tl s else s) in
     case json_int s1 of None \<Rightarrow> None
     | Some (ip, s2) \<Rightarrow> (case json_frac s2 of None \<Rightarrow> None
     | Some (fp, s3) \<Rightarrow> (case json_exp s3 of None \<Rightarrow> None
     | Some (e, s4) \<Rightarrow>
         let q = of_nat (digits_value (ip @ fp)) / 10 ^ length fp * pow10 e
         in Some (JsNumber (if neg then - q else q), s4))))"

definition json_escape :: "jstring \<Rightarrow> (char \<times> jstring) option" where
  "json_escape s = (case s of [] \<Rightarrow> None
     | c # r \<Rightarrow>
       if c \<in> {char_of (34 :: nat), char_of (92 :: nat), CHR ''/''} then Some (c, r)
       else if c = CHR ''b'' then Some (char_of (8 :: nat), r)
       else if c = CHR ''f'' then Some (char_of (12 :: nat), r)
       else if c = CHR ''n'' then Some (char_of (10 :: nat), r)
       else if c = CHR ''r'' then Some (char_of (13 :: nat), r)
       else if c = CHR ''t'' then Some (char_of (9 :: nat), r)
       else if c = CHR ''u'' \<and> 4 \<le> length r \<and> list_all (\<lambda>d. radix_digit d < 16) (take 4 r)
         \<and> foldl (\<lambda>a d. 16 * a + radix_digit d) 0 (take 4 r) < 256
       then Some (char_of (foldl (\<lambda>a d. 16 * a + radix_digit d) 0 (take 4 r)), drop 4 r)
       else None)"

lemma json_escape_shorter: "json_escape s = Some (c, r) \<Longrightarrow> length r < length s"
  by (cases s) (auto simp: json_escape_def split: if_splits)

text \<open>The characters of a string after its opening quote.\<close>

function json_string :: "jstring \<Rightarrow> (jstring \<times> jstring) option" where
  "json_string s = (case s of [] \<Rightarrow> None
     | c # r \<Rightarrow>
       if code_at c = 34 then Some ([], r)
       else if code_at c < 32 then None
       else if code_at c = 92
       then (case json_escape r of None \<Rightarrow> None
         | Some (d, r') \<Rightarrow> map_option (\<lambda>(t, rest). (d # t, rest)) (json_string r'))
       else map_option (\<lambda>(t, rest). (c # t, rest)) (json_string r))"
  by pat_completeness auto
termination
  by (relation "measure length") (auto dest: json_escape_shorter)

declare json_string.simps [simp del]

fun json_value :: "nat \<Rightarrow> jstring \<Rightarrow> (json \<times> jstring) option"
  and json_items :: "nat \<Rightarrow> jstring \<Rightarrow> (json list \<times> jstring) option"
  and json_members :: "nat \<Rightarrow> jstring \<Rightarrow> ((jstring \<times> json) list \<times> jstring) option" where
  "json_value 0 s = None"
| "json_value (Suc n) s = (case skip s of [] \<Rightarrow> None
     | c # r \<Rightarrow>
       if c = CHR ''{'' then
         (if startsWith (skip r) ''}'' then Some (JsObject [], tl (skip r))
          else map_option (\<lambda>(ms, rest). (JsObject ms, rest)) (json_members n r))
       else if c = CHR ''['' then
         (if startsWith (skip r) '']'' then Some (JsArray [], tl (skip r))
          else map_option (\<lambda>(vs, rest). (JsArray vs, rest)) (json_items n r))
       else if code_at c = 34 then map_option (\<lambda>(t, rest). (JsString t, rest)) (json_string r)
       else if startsWith (c # r) ''true'' then Some (JsBool True, drop 3 r)
       else if startsWith (c # r) ''false'' then Some (JsBool False, drop 4 r)
       else if startsWith (c # r) ''null'' then Some (JsNull, drop 3 r)
       else json_number_text (c # r))"
| "json_items 0 s = None"
| "json_items (Suc n) s = (case json_value n s of None \<Rightarrow> None
     | Some (v, rest) \<Rightarrow>
       if startsWith (skip rest) '','' then map_option (\<lambda>(vs, r). (v # vs, r)) (json_items n (tl (skip rest)))
       else if startsWith (skip rest) '']'' then Some ([v], tl (skip rest)) else None)"
| "json_members 0 s = None"
| "json_members (Suc n) s =
     (if \<not> startsWith (skip s) [char_of (34 :: nat)] then None
      else case json_string (tl (skip s)) of None \<Rightarrow> None
      | Some (k, r1) \<Rightarrow>
        if \<not> startsWith (skip r1) '':'' then None
        else case json_value n (tl (skip r1)) of None \<Rightarrow> None
        | Some (v, rest) \<Rightarrow>
          if startsWith (skip rest) '','' then map_option (\<lambda>(ms, r). ((k, v) # ms, r)) (json_members n (tl (skip rest)))
          else if startsWith (skip rest) ''}'' then Some ([(k, v)], tl (skip rest)) else None)"

definition json_parse :: "jstring \<Rightarrow> json option" where
  "json_parse s = (case json_value (2 * length s + 2) s of
     Some (v, rest) \<Rightarrow> if skip rest = [] then Some v else None
   | None \<Rightarrow> None)"

section \<open>The token\<close>

definition parseJWT :: "jstring \<Rightarrow> json option" where
  "parseJWT token = (case split_on (CHR ''.'') token of
     _ # base64Url # _ \<Rightarrow>
       let base64 = map (\<lambda>c. if c = CHR ''-'' then CHR ''+'' else if c = CHR ''_'' then CHR ''/'' else c) base64Url
       in Option.bind (atob base64) json_parse
   | _ \<Rightarrow> None)"

text \<open>\<^verbatim>\<open>payload?.exp || null\<close>.\<close>

definition getTokenExpiryTime :: "jstring \<Rightarrow> json option" where
  "getTokenExpiryTime token = (case parseJWT token of None \<Rightarrow> None
     | Some payload \<Rightarrow> (case get_field payload ''exp'' of
         Inr v \<Rightarrow> if json_truthy v then v else None
       | Inl _ \<Rightarrow> None))"

text \<open>The comparisons with the clock, in whole seconds; a value that is not a number is never below.\<close>

definition isTokenExpired :: "int \<Rightarrow> jstring \<Rightarrow> bool" where
  "isTokenExpired now token \<longleftrightarrow> (case getTokenExpiryTime token of None \<Rightarrow> True
     | Some v \<Rightarrow> (case json_number v of Fin q \<Rightarrow> q \<le> of_int now | NegInf \<Rightarrow> True | _ \<Rightarrow> False))"

text \<open>\<open>None\<close> stands for a time that is not finite.\<close>

definition getTimeUntilExpiry :: "int \<Rightarrow> jstring \<Rightarrow> rat option" where
  "getTimeUntilExpiry now token = (case getTokenExpiryTime token of None \<Rightarrow> Some 0
     | Some v \<Rightarrow> (case json_number v of Fin q \<Rightarrow> Some (max 0 (q - of_int now))
         | NegInf \<Rightarrow> Some 0 | _ \<Rightarrow> None))"

section \<open>The parser\<close>

lemma skip_shorter: "length (skip s) \<le> length s"
  by (simp add: skip_def length_dropWhile_le)

lemma json_digits_shorter: "json_digits s = Some (d, r) \<Longrightarrow> length r < length s"
proof -
  assume d: "json_digits s = Some (d, r)"
  then have "takeWhile is_digit s \<noteq> []" "r = dropWhile is_digit s" by (auto simp: json_digits_def split: if_splits)
  moreover have "length (takeWhile is_digit s) + length (dropWhile is_digit s) = length s"
    by (metis length_append takeWhile_dropWhile_id)
  ultimately show ?thesis by (metis add_less_cancel_right add_0 length_greater_0_conv)
qed

lemma tl_shorter: "startsWith s [c] \<Longrightarrow> length (tl s) < length s"
  by (cases s) (auto simp: startsWith_def)

lemma json_string_shorter: "json_string s = Some (t, r) \<Longrightarrow> length r < length s"
proof (induction s arbitrary: t r rule: json_string.induct)
  case (1 s)
  show ?case
  proof (cases s)
    case Nil
    then show ?thesis using "1.prems" by (simp add: json_string.simps)
  next
    case (Cons c u)
    have i: "json_string u = Some (t', r') \<Longrightarrow> length r' < length u"
      if "code_at c \<noteq> 34" "\<not> code_at c < 32" "code_at c \<noteq> 92" for t' r'
      using "1.IH"(2) [OF Cons that] by blast
    have e: "json_escape u = Some (d, v) \<Longrightarrow> json_string v = Some (t', r') \<Longrightarrow> length r' < length u"
      if "code_at c \<noteq> 34" "\<not> code_at c < 32" "code_at c = 92" for d v t' r'
      using "1.IH"(1) [OF Cons that] json_escape_shorter [of u d v] by force
    show ?thesis
      using "1.prems" i e unfolding Cons json_string.simps [of "c # u"]
      by (force split: if_splits option.splits)
  qed
qed

lemma json_int_shorter: "json_int s = Some (d, r) \<Longrightarrow> length r < length s"
  by (cases s) (auto simp: json_int_def dest: json_digits_shorter split: if_splits)

lemma json_frac_shorter: "json_frac s = Some (d, r) \<Longrightarrow> length r \<le> length s"
  by (cases s) (auto simp: json_frac_def startsWith_def dest: json_digits_shorter split: if_splits)

lemma json_exp_shorter: "json_exp s = Some (d, r) \<Longrightarrow> length r \<le> length s"
proof -
  assume a: "json_exp s = Some (d, r)"
  have l: "length (tl t) \<le> length t" for t :: jstring by simp
  show ?thesis
    using a json_digits_shorter [of "tl s" _ r] json_digits_shorter [of "tl (tl s)" _ r] l [of s] l [of "tl s"]
    by (fastforce simp: json_exp_def Let_def split: if_splits)
qed

lemma json_number_shorter: "json_number_text s = Some (v, r) \<Longrightarrow> length r < length s"
proof -
  assume a: "json_number_text s = Some (v, r)"
  obtain s1 where s1: "length s1 \<le> length s" "s1 = (if startsWith s ''-'' then tl s else s)" by simp
  then obtain ip s2 fp s3 e where "json_int s1 = Some (ip, s2)" "json_frac s2 = Some (fp, s3)" "json_exp s3 = Some (e, r)"
    using a by (auto simp: json_number_text_def Let_def split: option.splits)
  then show ?thesis
    using s1(1) json_int_shorter json_frac_shorter json_exp_shorter by (meson le_less_trans less_le_trans)
qed

lemma json_value_rest:
  assumes "json_value (Suc n) s = Some (v, r)"
  obtains c u where "skip s = c # u"
    "(\<exists>m. r = drop m u) \<or> r = tl (skip u) \<or> (\<exists>ms. json_members n u = Some (ms, r)) \<or>
     (\<exists>vs. json_items n u = Some (vs, r)) \<or> (\<exists>t. json_string u = Some (t, r)) \<or>
     json_number_text (c # u) = Some (v, r)"
proof (cases "skip s")
  case Nil
  then show ?thesis using assms by simp
next
  case (Cons c u)
  then show ?thesis
    using assms by (intro that [OF Cons]) (auto split: if_splits)
qed

lemma parser_consumes:
  "(\<forall>s v r. json_value n s = Some (v, r) \<longrightarrow> length r < length s) \<and>
   (\<forall>s vs r. json_items n s = Some (vs, r) \<longrightarrow> length r < length s) \<and>
   (\<forall>s ms r. json_members n s = Some (ms, r) \<longrightarrow> length r < length s)"
proof (induction n)
  case (Suc n)
  have v: "length r < length s" if "json_value (Suc n) s = Some (v, r)" for s v r
  proof -
    from that obtain c u where c: "skip s = c # u"
      "(\<exists>m. r = drop m u) \<or> r = tl (skip u) \<or> (\<exists>ms. json_members n u = Some (ms, r)) \<or>
       (\<exists>vs. json_items n u = Some (vs, r)) \<or> (\<exists>t. json_string u = Some (t, r)) \<or>
       json_number_text (c # u) = Some (v, r)" by (rule json_value_rest)
    have "length (tl (skip u)) \<le> length u" using skip_shorter [of u] by simp
    then have "length r < length (c # u)"
      using c(2) Suc json_string_shorter json_number_shorter by fastforce
    then show ?thesis using skip_shorter [of s] unfolding c(1) by simp
  qed
  have t: "length (tl (skip s)) \<le> length s" for s using skip_shorter [of s] by simp
  have "length r < length s" if a: "json_items (Suc n) s = Some (vs, r)" for s vs r
  proof -
    obtain w u where w: "json_value n s = Some (w, u)" using a by (cases "json_value n s") auto
    then have "length u < length s" using Suc by blast
    moreover have "length r \<le> length u"
      using a Suc t [of u] unfolding json_items.simps w
      by (fastforce split: if_splits)
    ultimately show ?thesis by simp
  qed
  moreover have "length r < length s" if a: "json_members (Suc n) s = Some (ms, r)" for s ms r
  proof -
    obtain k r1 where k: "json_string (tl (skip s)) = Some (k, r1)"
      using a by (cases "json_string (tl (skip s))") (auto split: if_splits)
    obtain w u where w: "json_value n (tl (skip r1)) = Some (w, u)"
      using a by (cases "json_value n (tl (skip r1))") (auto simp: k split: if_splits)
    then have "length u < length (tl (skip r1))" using Suc by blast
    then have "length u < length s" using json_string_shorter [OF k] t [of s] t [of r1] by linarith
    moreover have "length r \<le> length u"
      using a Suc t [of u] by (fastforce simp: k w split: if_splits)
    ultimately show ?thesis by simp
  qed
  ultimately show ?case using v by blast
qed simp

lemma parser_bound:
  "(\<forall>s n m. length s \<le> k \<longrightarrow> 2 * length s < n \<longrightarrow> 2 * length s < m \<longrightarrow> json_value n s = json_value m s) \<and>
   (\<forall>s n m. length s \<le> k \<longrightarrow> 2 * length s + 1 < n \<longrightarrow> 2 * length s + 1 < m \<longrightarrow> json_items n s = json_items m s) \<and>
   (\<forall>s n m. length s \<le> k \<longrightarrow> 2 * length s + 1 < n \<longrightarrow> 2 * length s + 1 < m \<longrightarrow> json_members n s = json_members m s)"
  (is "?P k")
proof (induction k rule: less_induct)
  case (less k)
  have IH: "json_value n s = json_value m s" "json_items n s = json_items m s" "json_members n s = json_members m s"
    if "length s < k" "2 * length s + 1 < n" "2 * length s + 1 < m" for s n m
  proof -
    note P = less [OF that(1)]
    have l: "2 * length s < n" "2 * length s < m" using that by simp_all
    show "json_value n s = json_value m s" by (rule P [THEN conjunct1, rule_format, OF le_refl l])
    show "json_items n s = json_items m s"
      by (rule P [THEN conjunct2, THEN conjunct1, rule_format, OF le_refl that(2,3)])
    show "json_members n s = json_members m s"
      by (rule P [THEN conjunct2, THEN conjunct2, rule_format, OF le_refl that(2,3)])
  qed
  have v: "json_value n s = json_value m s"
    if l: "length s \<le> k" "2 * length s < n" "2 * length s < m" for s n m
  proof -
    obtain n' m' where n: "n = Suc n'" "m = Suc m'" using l by (cases n; cases m) auto
    show ?thesis
    proof (cases "skip s")
      case (Cons c u)
      have "length u < length s" using skip_shorter [of s] unfolding Cons by simp
      then have "json_items n' u = json_items m' u" "json_members n' u = json_members m' u"
        using l by (auto simp: n intro!: IH)
      then show ?thesis by (simp only: n json_value.simps Cons list.case)
    qed (simp add: n)
  qed
  have t: "length (tl (skip s)) \<le> length s" for s using skip_shorter [of s] by simp
  have i: "json_items n s = json_items m s"
    if l: "length s \<le> k" "2 * length s + 1 < n" "2 * length s + 1 < m" for s n m
  proof -
    obtain n' m' where n: "n = Suc n'" "m = Suc m'" using l by (cases n; cases m) auto
    have e: "json_value n' s = json_value m' s" using l by (intro v) (simp_all add: n)
    show ?thesis
    proof (cases "json_value m' s")
      case (Some x)
      obtain w u where x: "x = (w, u)" by fastforce
      have "length u < length s" using parser_consumes [of m'] Some x by blast
      then have "json_items n' (tl (skip u)) = json_items m' (tl (skip u))"
        using l t [of u] by (intro IH(2)) (simp_all add: n)
      then show ?thesis by (simp add: n e Some x)
    qed (simp add: n e)
  qed
  moreover have "json_members n s = json_members m s"
    if l: "length s \<le> k" "2 * length s + 1 < n" "2 * length s + 1 < m" for s n m
  proof -
    obtain n' m' where n: "n = Suc n'" "m = Suc m'" using l by (cases n; cases m) auto
    show ?thesis
    proof (cases "json_string (tl (skip s))")
      case (Some y)
      obtain a r1 where y: "y = (a, r1)" by fastforce
      have r1: "length r1 < length s" using json_string_shorter [of "tl (skip s)" a r1] Some y t [of s] by simp
      then have e: "json_value n' (tl (skip r1)) = json_value m' (tl (skip r1))"
        using l t [of r1] by (intro v) (simp_all add: n)
      show ?thesis
      proof (cases "json_value m' (tl (skip r1))")
        case Some': (Some x)
        obtain w u where x: "x = (w, u)" by fastforce
        have "length u < length (tl (skip r1))" using parser_consumes [of m'] Some' x by blast
        then have "json_members n' (tl (skip u)) = json_members m' (tl (skip u))"
          using l t [of u] t [of r1] r1 by (intro IH(3)) (simp_all add: n)
        then show ?thesis by (simp add: n e Some y Some' x)
      qed (simp add: n e Some y)
    qed (simp add: n)
  qed
  ultimately show ?case using v by blast
qed

lemma json_parse_enough:
  "2 * length s < n \<Longrightarrow> json_parse s = (case json_value n s of
     Some (v, rest) \<Rightarrow> if skip rest = [] then Some v else None | None \<Rightarrow> None)"
  unfolding json_parse_def using parser_bound [of "length s"]
  by (metis add_2_eq_Suc' le_refl less_Suc_eq)

section \<open>Encoding and reading back\<close>

text \<open>The reference encoder: bytes as sextets, sextets as the characters of the URL alphabet, unpadded.\<close>

fun b64_sextets :: "nat list \<Rightarrow> nat list" where
  "b64_sextets (x # y # z # r) =
     (x div 4) # (x mod 4 * 16 + y div 16) # (y mod 16 * 4 + z div 64) # (z mod 64) # b64_sextets r"
| "b64_sextets [x, y] = [x div 4, x mod 4 * 16 + y div 16, y mod 16 * 4]"
| "b64_sextets [x] = [x div 4, x mod 4 * 16]"
| "b64_sextets [] = []"

definition b64url_char :: "nat \<Rightarrow> char" where
  "b64url_char n = (if n < 26 then char_of (65 + n) else if n < 52 then char_of (71 + n)
     else if n < 62 then char_of (n - 4) else if n = 62 then CHR ''-'' else CHR ''_'')"

definition b64url :: "jstring \<Rightarrow> jstring" where
  "b64url s = map b64url_char (b64_sextets (map code_at s))"

lemma b64_bytes_sextets: "list_all (\<lambda>x. x < 256) bs \<Longrightarrow> b64_bytes (b64_sextets bs) = bs"
proof (induction bs rule: b64_sextets.induct)
  case (1 x y z r)
  have "x mod 4 * 16 + y div 16 < 64" "y div 16 < 16" "z div 64 < 4" using 1 by auto
  then have "(x mod 4 * 16 + y div 16) div 16 = x mod 4" "(x mod 4 * 16 + y div 16) mod 16 = y div 16"
    "(y mod 16 * 4 + z div 64) div 4 = y mod 16" "(y mod 16 * 4 + z div 64) mod 4 = z div 64"
    by simp_all
  moreover have "x div 4 * 4 + x mod 4 = x" "y div 16 * 16 + y mod 16 = y" "z div 64 * 64 + z mod 64 = z"
    by simp_all
  ultimately show ?case using 1 by (simp del: div_mult_mod_eq)
next
  case (2 x y)
  have "y div 16 < 16" using 2 by auto
  then have "(x mod 4 * 16 + y div 16) div 16 = x mod 4" "(x mod 4 * 16 + y div 16) mod 16 = y div 16"
    by simp_all
  then show ?case by simp
qed simp_all

lemma b64_sextets_range: "list_all (\<lambda>x. x < 256) bs \<Longrightarrow> list_all (\<lambda>x. x < 64) (b64_sextets bs)"
  by (induction bs rule: b64_sextets.induct) (auto simp: div_less_iff_less_mult)

lemma length_b64_sextets: "length (b64_sextets bs) mod 4 \<noteq> 1"
  by (induction bs rule: b64_sextets.induct) auto

definition b64_unescape :: "char \<Rightarrow> char" where
  "b64_unescape c = (if c = CHR ''-'' then CHR ''+'' else if c = CHR ''_'' then CHR ''/'' else c)"

lemma code_at_ne: "code_at c \<noteq> code_at d \<Longrightarrow> c \<noteq> d"
  by blast

lemma b64_codes:
  "code_at (CHR ''-'') = 45" "code_at (CHR ''_'') = 95" "code_at (CHR ''+'') = 43"
  "code_at (CHR ''/'') = 47" "code_at (CHR ''='') = 61" "code_at (CHR ''.'') = 46"
  by (simp_all add: code_at_def)

lemma b64url_char_code:
  "code_at (b64url_char n) = (if n < 26 then 65 + n else if n < 52 then 71 + n
     else if n < 62 then n - 4 else if n = 62 then 45 else 95)"
  by (simp add: b64url_char_def code_at_char_of b64_codes)

lemma b64_unescape_code:
  "code_at (b64_unescape (b64url_char n)) = (if n < 26 then 65 + n else if n < 52 then 71 + n
     else if n < 62 then n - 4 else if n = 62 then 43 else 47)"
  by (simp add: b64_unescape_def b64url_char_code b64_codes flip: code_at_inject) arith

lemma b64url_char_facts:
  assumes "n < 64"
  shows "b64_value (b64_unescape (b64url_char n)) = Some n" "\<not> ascii_space (b64_unescape (b64url_char n))"
    "b64_unescape (b64url_char n) \<noteq> CHR ''=''" "b64url_char n \<noteq> CHR ''.''"
proof -
  show "b64_value (b64_unescape (b64url_char n)) = Some n"
    using assms by (simp add: b64_value_def is_upper_def is_lower_def is_digit_def b64_unescape_code b64_codes
        flip: code_at_inject) arith
  show "\<not> ascii_space (b64_unescape (b64url_char n))"
    using assms by (simp add: ascii_space_def b64_unescape_code) arith
  show "b64_unescape (b64url_char n) \<noteq> CHR ''=''"
    using assms by (intro code_at_ne) (simp add: b64_unescape_code b64_codes, arith)
  show "b64url_char n \<noteq> CHR ''.''"
    using assms by (intro code_at_ne) (simp add: b64url_char_code b64_codes, arith)
qed

lemma endsWith_set: "endsWith s t \<Longrightarrow> set t \<subseteq> set s"
  unfolding endsWith_def by (rule set_mono_suffix)

lemma atob_b64url: "atob (map b64_unescape (b64url s)) = Some s"
proof -
  let ?x = "b64_sextets (map code_at s)"
  let ?t = "map b64_unescape (b64url s)"
  have r: "list_all (\<lambda>x. x < 64) ?x" by (rule b64_sextets_range) (simp add: list_all_iff)
  then have v: "map (\<lambda>c. the (b64_value c)) ?t = ?x" "list_all (\<lambda>c. b64_value c \<noteq> None) ?t"
    "filter (\<lambda>c. \<not> ascii_space c) ?t = ?t"
    using b64url_char_facts(1,2) by (auto simp: b64url_def list_all_iff map_idI filter_id_conv comp_def)
  have "CHR ''='' \<notin> set ?t"
  proof
    assume "CHR ''='' \<in> set ?t"
    then obtain n where "n \<in> set ?x" "b64_unescape (b64url_char n) = CHR ''=''" by (auto simp: b64url_def)
    then show False using b64url_char_facts(3) [of n] r by (simp add: list_all_iff)
  qed
  then have e: "\<not> endsWith ?t ''==''" "\<not> endsWith ?t ''=''"
    using endsWith_set [of ?t "''==''"] endsWith_set [of ?t "''=''"] by auto
  have "length ?t mod 4 \<noteq> 1" using length_b64_sextets by (simp add: b64url_def)
  moreover have "map (\<lambda>n. char_of n) (b64_bytes ?x) = s"
    using b64_bytes_sextets [of "map code_at s"] by (simp add: list_all_iff map_idI comp_def)
  ultimately show ?thesis using e v by (simp add: atob_def drop_padding_def Let_def)
qed

lemma parseJWT_b64url:
  assumes "CHR ''.'' \<notin> set h"
  shows "parseJWT (h @ ''.'' @ b64url s @ ''.'' @ sig) = json_parse s"
proof -
  have "list_all (\<lambda>x. x < 64) (b64_sextets (map code_at s))"
    by (rule b64_sextets_range) (simp add: list_all_iff)
  then have "CHR ''.'' \<notin> set (b64url s)" using b64url_char_facts(4) by (fastforce simp: b64url_def list_all_iff)
  then have "split_on (CHR ''.'') (h @ ''.'' @ b64url s @ ''.'' @ sig) = h # b64url s # split_on (CHR ''.'') sig"
    using assms by (simp add: split_on_piece)
  then show ?thesis
    using atob_b64url [of s] by (simp add: parseJWT_def b64_unescape_def [abs_def] Let_def)
qed

text \<open>
  The claims of a token as the server writes them: texts that need no escape (identifiers) and numbers of
  seconds. \<open>claims_json\<close> is what the serializer makes of them, without white space.
\<close>

datatype claim_value = Claim_text jstring | Claim_number nat

abbreviation quote_char :: char where "quote_char \<equiv> char_of (34 :: nat)"

definition plain_text :: "jstring \<Rightarrow> bool" where
  "plain_text s \<longleftrightarrow> list_all (\<lambda>c. 32 \<le> code_at c \<and> code_at c \<noteq> 34 \<and> code_at c \<noteq> 92) s"

fun claim_text :: "claim_value \<Rightarrow> jstring" where
  "claim_text (Claim_text s) = quote_char # s @ [quote_char]"
| "claim_text (Claim_number n) = dec n"

fun claim_json :: "claim_value \<Rightarrow> json" where
  "claim_json (Claim_text s) = JsString s"
| "claim_json (Claim_number n) = JsNumber (of_nat n)"

definition member_json :: "jstring \<times> claim_value \<Rightarrow> jstring \<times> json" where
  "member_json m = (fst m, claim_json (snd m))"

definition member_text :: "jstring \<times> claim_value \<Rightarrow> jstring" where
  "member_text m = quote_char # fst m @ quote_char # CHR '':'' # claim_text (snd m)"

fun members_text :: "(jstring \<times> claim_value) list \<Rightarrow> jstring" where
  "members_text [] = []"
| "members_text [m] = member_text m"
| "members_text (m # ms) = member_text m @ '','' @ members_text ms"

definition claims_json :: "(jstring \<times> claim_value) list \<Rightarrow> jstring" where
  "claims_json cs = ''{'' @ members_text cs @ ''}''"

definition plain_claim :: "jstring \<times> claim_value \<Rightarrow> bool" where
  "plain_claim m \<longleftrightarrow> plain_text (fst m) \<and> (case snd m of Claim_text t \<Rightarrow> plain_text t | Claim_number _ \<Rightarrow> True)"

text \<open>Claims that expire at second \<open>n\<close>; of several members of one name the last one counts.\<close>

definition expires_at :: "(jstring \<times> claim_value) list \<Rightarrow> nat \<Rightarrow> bool" where
  "expires_at cs n \<longleftrightarrow> list_all plain_claim cs \<and> map_get (rev cs) ''exp'' = Some (Claim_number n) \<and> 0 < n"

text \<open>The claims of the server's tokens (\<^verbatim>\<open>backend/src/models/auth.rs\<close>).\<close>

definition server_claims :: "jstring \<Rightarrow> nat \<Rightarrow> nat \<Rightarrow> jstring \<Rightarrow> (jstring \<times> claim_value) list" where
  "server_claims sub n issued jti = [(''sub'', Claim_text sub), (''exp'', Claim_number n),
     (''iat'', Claim_number issued), (''jti'', Claim_text jti)]"

lemma server_claims_expire:
  "plain_text sub \<Longrightarrow> plain_text jti \<Longrightarrow> 0 < n \<Longrightarrow> expires_at (server_claims sub n issued jti) n"
  by (simp add: expires_at_def server_claims_def plain_claim_def map_get_def) (simp add: plain_text_def code_at_def)

lemma dec_hd: "0 < n \<Longrightarrow> \<exists>c r. dec n = c # r \<and> is_digit c \<and> c \<noteq> CHR ''0''"
proof (induction n rule: dec.induct)
  case (1 n)
  show ?case
  proof (cases "n < 10")
    case True
    then show ?thesis
      using 1(2) digit_char_eq [of n 0] by (simp add: dec_small flip: digit_char_0)
  next
    case False
    then obtain c r where "dec (n div 10) = c # r \<and> is_digit c \<and> c \<noteq> CHR ''0''" using 1 by force
    then show ?thesis using False by (simp add: dec_step)
  qed
qed

text \<open>What follows a value inside an object.\<close>

definition member_end :: "jstring \<Rightarrow> bool" where
  "member_end t \<longleftrightarrow> (\<exists>r. t = CHR '','' # r \<or> t = CHR ''}'' # r)"

lemma json_int_dec: "member_end t \<Longrightarrow> json_int (dec n @ t) = Some (dec n, t)"
proof -
  have ends: "\<not> is_digit (CHR '','')" "\<not> is_digit (CHR ''}'')" by (simp_all add: is_digit_eval)
  assume "member_end t"
  then obtain d r where t: "t = d # r" "\<not> is_digit d" using ends unfolding member_end_def by blast
  show ?thesis
  proof (cases "n = 0")
    case True
    moreover have "dec 0 = ''0''" by (simp add: dec.simps [of 0] digit_char_0)
    ultimately show ?thesis by (simp add: json_int_def)
  next
    case False
    then obtain c u where c: "dec n = c # u" "c \<noteq> CHR ''0''" using dec_hd [of n] by auto
    have "json_digits (dec n @ t) = Some (dec n, t)"
      using takeWhile_run [OF list_all_digit_dec t(2), of n r] c(1) unfolding json_digits_def t(1) by simp
    moreover have "json_int (dec n @ t) = json_digits (dec n @ t)" using c by (simp add: json_int_def)
    ultimately show ?thesis by simp
  qed
qed

lemma json_number_dec:
  assumes "member_end t"
  shows "json_number_text (dec n @ t) = Some (JsNumber (of_nat n), t)"
proof -
  obtain c r where c: "dec n = c # r" using dec_not_Nil by (metis list.exhaust)
  then have "is_digit c" using list_all_digit_dec [of n] by simp
  then have "\<not> startsWith (dec n @ t) ''-''"
    using digit_not_sign [of c] by (auto simp: c startsWith_def)
  moreover have "\<not> startsWith t ''.''" "\<not> startsWith t ''e''" "\<not> startsWith t ''E''"
    using assms by (auto simp: member_end_def startsWith_def)
  moreover have "pow10 0 = 1" by (simp add: pow10_def)
  ultimately show ?thesis
    using json_int_dec [OF assms, of n] by (simp add: json_number_text_def json_frac_def json_exp_def)
qed

lemma skip_char: "\<not> json_space c \<Longrightarrow> skip (c # s) = c # s"
  by (simp add: skip_def)

lemma skip_signs [simp]:
  "skip (quote_char # t) = quote_char # t" "skip (CHR '':'' # t) = CHR '':'' # t"
  "skip (CHR '','' # t) = CHR '','' # t" "skip (CHR ''}'' # t) = CHR ''}'' # t" "skip (CHR ''{'' # t) = CHR ''{'' # t"
  by (simp_all add: skip_def json_space_def code_at_def)

lemma json_string_plain: "plain_text s \<Longrightarrow> json_string (s @ quote_char # t) = Some (s, t)"
proof (induction s)
  case Nil
  then show ?case by (simp add: json_string.simps [of "quote_char # t"] code_at_def)
next
  case (Cons c s)
  then show ?case by (simp add: json_string.simps [of "c # _"] plain_text_def)
qed

lemma json_value_claim:
  assumes "plain_claim (k, v)" "member_end t"
  shows "json_value (Suc m) (claim_text v @ t) = Some (claim_json v, t)"
proof (cases v)
  case (Claim_text s)
  have "quote_char \<noteq> CHR ''{''" "quote_char \<noteq> CHR ''[''"
    by (rule code_at_ne, simp add: code_at_def)+
  moreover have "code_at quote_char = 34" by (simp add: code_at_def)
  ultimately show ?thesis using Claim_text assms json_string_plain [of s t] by (simp add: plain_claim_def)
next
  case (Claim_number n)
  obtain c r where c: "dec n = c # r" using dec_not_Nil by (metis list.exhaust)
  then have d: "is_digit c" using list_all_digit_dec [of n] by simp
  have sp: "\<not> json_space c" using d by (auto simp: json_space_def is_digit_def)
  have "c \<noteq> CHR ''{''" "c \<noteq> CHR ''[''" "code_at c \<noteq> 34" "c \<noteq> CHR ''t''" "c \<noteq> CHR ''f''" "c \<noteq> CHR ''n''"
    using d by (auto simp: is_digit_def code_at_def)
  then show ?thesis
    using json_number_dec [OF assms(2), of n] Claim_number by (simp add: c skip_char [OF sp] startsWith_def)
qed

lemma json_member_claim:
  assumes "plain_claim x" "member_end t"
  shows "json_members (Suc (Suc m)) (member_text x @ t) =
    (if startsWith t '','' then map_option (\<lambda>(ms, r). (member_json x # ms, r)) (json_members (Suc m) (tl t))
     else Some ([member_json x], tl t))"
proof -
  obtain k v where x: "x = (k, v)" by fastforce
  have k: "json_string (k @ quote_char # CHR '':'' # claim_text v @ t) = Some (k, CHR '':'' # claim_text v @ t)"
    using assms(1) by (intro json_string_plain) (simp add: x plain_claim_def)
  have q: "startsWith (quote_char # u) [quote_char]" "startsWith (CHR '':'' # u) '':''" for u
    by (simp_all add: startsWith_def)
  show ?thesis
    using assms(2) json_value_claim [OF assms(1) [unfolded x] assms(2), of m]
    by (auto simp: x member_text_def member_json_def k q member_end_def startsWith_def simp del: json_value.simps)
qed

lemma json_members_claims:
  assumes "list_all plain_claim cs" "cs \<noteq> []" "length cs < m"
  shows "json_members m (members_text cs @ ''}'' @ t) = Some (map (member_json) cs, t)"
  using assms
proof (induction cs arbitrary: m rule: members_text.induct)
  case (2 x)
  then obtain m' where "m = Suc (Suc m')" by (cases m; cases "m - 1") auto
  moreover have "member_end (''}'' @ t)" by (simp add: member_end_def)
  ultimately show ?case using 2 json_member_claim [of x "''}'' @ t" m']
    by (simp add: startsWith_def del: json_members.simps)
next
  case (3 x y cs)
  then obtain m' where m: "m = Suc (Suc m')" by (cases m; cases "m - 1") auto
  have "member_end ('','' @ members_text (y # cs) @ ''}'' @ t)" by (simp add: member_end_def)
  from json_member_claim [OF _ this, of x m'] show ?case
    using 3 by (simp add: m startsWith_def del: json_members.simps)
qed simp

lemma json_parse_claims:
  assumes "list_all plain_claim cs" "cs \<noteq> []"
  shows "json_parse (claims_json cs) = Some (JsObject (map (member_json) cs))"
proof -
  let ?n = "2 * length (claims_json cs) + length cs + 1"
  obtain u where u: "members_text cs = quote_char # u"
    using assms(2) by (cases cs rule: members_text.cases) (simp_all add: member_text_def)
  have "json_members ?n (members_text cs @ ''}'') = Some (map (member_json) cs, [])"
    using json_members_claims [OF assms, of ?n "[]"] by (simp del: json_members.simps)
  moreover have "quote_char \<noteq> CHR ''}''" by (rule code_at_ne) (simp add: code_at_def)
  ultimately have "json_value (Suc ?n) (claims_json cs) = Some (JsObject (map (member_json) cs), [])"
    by (simp add: claims_json_def u startsWith_def del: json_members.simps)
  then show ?thesis using json_parse_enough [of "claims_json cs" "Suc ?n"] by (simp add: skip_def)
qed

definition minted :: "jstring \<Rightarrow> (jstring \<times> claim_value) list \<Rightarrow> jstring \<Rightarrow> jstring" where
  "minted h cs sig = h @ ''.'' @ b64url (claims_json cs) @ ''.'' @ sig"

lemma map_get_claims: "map_get (map (member_json) cs) k = map_option claim_json (map_get cs k)"
  by (induction cs) (auto simp: map_get_def member_json_def)

lemma minted_fields:
  assumes "CHR ''.'' \<notin> set h" "expires_at cs n"
  shows "getTokenExpiryTime (minted h cs sig) = Some (JsNumber (of_nat n))"
    "isTokenExpired now (minted h cs sig) \<longleftrightarrow> int n \<le> now"
    "getTimeUntilExpiry now (minted h cs sig) = Some (of_int (max 0 (int n - now)))"
    "minted h cs sig \<noteq> []"
proof -
  have "cs \<noteq> []" "list_all plain_claim cs" "0 < n" using assms(2) by (auto simp: expires_at_def map_get_def)
  moreover have "map_get (rev (map (member_json) cs)) ''exp'' = Some (JsNumber (of_nat n))"
    using assms(2) map_get_claims [of "rev cs" "''exp''"] by (simp add: expires_at_def rev_map)
  ultimately show e: "getTokenExpiryTime (minted h cs sig) = Some (JsNumber (of_nat n))"
    using json_parse_claims [of cs] unfolding minted_def getTokenExpiryTime_def parseJWT_b64url [OF assms(1)]
    by (simp add: get_field_def json_truthy_def)
  have "(of_nat n :: rat) \<le> of_int now \<longleftrightarrow> int n \<le> now"
    by (metis of_int_le_iff of_int_of_nat_eq)
  then show "isTokenExpired now (minted h cs sig) \<longleftrightarrow> int n \<le> now"
    by (simp add: e isTokenExpired_def json_number_def)
  have "max 0 (of_nat n - of_int now) = (of_int (max 0 (int n - now)) :: rat)"
    by (simp add: max_def)
  then show "getTimeUntilExpiry now (minted h cs sig) = Some (of_int (max 0 (int n - now)))"
    by (simp add: e getTimeUntilExpiry_def json_number_def)
  show "minted h cs sig \<noteq> []" by (simp add: minted_def)
qed

text \<open>
  C14. The expiry of a token is read back from its encoding for URLs, whatever its header and signature
  and whatever other claims it carries, in any order: it is the \<open>n\<close> of its \<^verbatim>\<open>exp\<close>, the token is
  expired exactly from second \<open>n\<close> on, and the time left is the distance to it. The claims are texts that
  need no escape and numbers, as those of the server are: \<^verbatim>\<open>sub\<close>, \<^verbatim>\<open>exp\<close>, \<^verbatim>\<open>iat\<close> and
  \<^verbatim>\<open>jti\<close>.
\<close>

theorem token_roundtrip:
  assumes "CHR ''.'' \<notin> set h" "expires_at cs n"
  shows "getTokenExpiryTime (minted h cs sig) = Some (JsNumber (of_nat n)) \<and>
    (isTokenExpired now (minted h cs sig) \<longleftrightarrow> int n \<le> now) \<and>
    getTimeUntilExpiry now (minted h cs sig) = Some (of_int (max 0 (int n - now)))"
  using minted_fields [OF assms] by blast

theorem token_roundtrip_witness:
  "let token = minted ''e30'' (server_claims ''7d44-4f'' 1700000000 1699996400 ''a1b2'') ''sig'' in
   isTokenExpired 1700000000 token \<and> getTimeUntilExpiry 1699999900 token = Some 100"
proof -
  have "plain_text ''7d44-4f''" "plain_text ''a1b2''" by (simp_all add: plain_text_def code_at_def)
  then have x: "expires_at (server_claims ''7d44-4f'' 1700000000 1699996400 ''a1b2'') 1700000000"
    by (simp add: server_claims_expire)
  show ?thesis
    using token_roundtrip [of "''e30''", OF _ x, of "''sig''" 1700000000]
      token_roundtrip [of "''e30''", OF _ x, of "''sig''" 1699999900] by (simp add: Let_def)
qed

end
