(* ===== verification/Onboarding.thy ===== *)
theory Onboarding
  imports Teller_Link
begin

text \<open>
  Registration and onboarding: the password and registration checks
  (\<^verbatim>\<open>hooks/usePasswordValidation.ts\<close>, \<^verbatim>\<open>useRegistrationValidation.ts\<close>), the
  choice of the provider (\<^verbatim>\<open>useTellerProviderInfo.ts\<close>), the steps of the wizard
  (\<^verbatim>\<open>useOnboardingWizard.ts\<close>) and connecting the first bank
  (\<^verbatim>\<open>useOnboardingPlaidFlow.ts\<close>, \<^verbatim>\<open>useOnboardingTellerFlow.ts\<close>).
\<close>

section \<open>Registration\<close>

record PasswordValidation =
  pv_minLength :: bool
  pv_hasCapital :: bool
  pv_hasNumber :: bool
  pv_hasSpecial :: bool
  pv_isValid :: bool

definition special_chars :: jstring where
  "special_chars = ''!@#$%^&*(),.?'' @ [char_of (34 :: nat)] @ '':{}|<>''"

definition validate_password :: "jstring \<Rightarrow> PasswordValidation" where
  "validate_password password =
     (let minLength = (8 \<le> length password); hasCapital = list_ex is_upper password;
          hasNumber = list_ex is_digit password; hasSpecial = list_ex (\<lambda>c. c \<in> set special_chars) password
      in \<lparr>pv_minLength = minLength, pv_hasCapital = hasCapital, pv_hasNumber = hasNumber,
          pv_hasSpecial = hasSpecial,
          pv_isValid = (minLength \<and> hasCapital \<and> hasNumber \<and> hasSpecial)\<rparr>)"

text \<open>
  The regular expression of \<^verbatim>\<open>validateEmail\<close>: the class \<^verbatim>\<open>[^\s@]\<close> excludes the at
  sign, so the first one ends the first part; the dot may be any inner dot of the rest.
\<close>

definition mail_char :: "char \<Rightarrow> bool" where
  "mail_char c \<longleftrightarrow> \<not> is_space c \<and> c \<noteq> CHR ''@''"

definition validateEmail :: "jstring \<Rightarrow> bool" where
  "validateEmail email =
     (let user = takeWhile mail_char email; rest = dropWhile mail_char email in
      case rest of [] \<Rightarrow> False
      | c # domain \<Rightarrow> user \<noteq> [] \<and> c = CHR ''@'' \<and> list_all mail_char domain \<and>
          list_ex (\<lambda>i. domain ! i = CHR ''.'') [1..<length domain - 1])"

definition validateForm :: "jstring \<Rightarrow> jstring \<Rightarrow> jstring \<Rightarrow> jstring option" where
  "validateForm email password confirmPassword =
     (if \<not> validateEmail email then Some ''Please enter a valid email address''
      else if \<not> pv_isValid (validate_password password) then Some ''Password does not meet requirements''
      else if password \<noteq> confirmPassword then Some ''Passwords do not match''
      else None)"

section \<open>The choice of the provider\<close>

record TellerProviderCatalogue =
  tp_available :: "FinancialProvider list"
  tp_default :: FinancialProvider
  tp_user :: "FinancialProvider option"
  tp_application_id :: "jstring option"
  tp_environment :: "jstring option"

text \<open>The answer of the server, before its providers are normalised.\<close>

record provider_answer =
  pn_available :: "jstring option list"
  pn_default :: "jstring option"
  pn_user :: "jstring option"
  pn_application_id :: "jstring option"
  pn_environment :: "jstring option"

definition normalizeProvider :: "jstring option \<Rightarrow> FinancialProvider option" where
  "normalizeProvider provider = (case provider of None \<Rightarrow> None
     | Some p \<Rightarrow> (let normalized = toLowerCase (trim p) in
         if normalized = ''plaid'' then Some Plaid
         else if normalized = ''teller'' then Some Teller else None))"

definition normalizeCatalogue :: "provider_answer \<Rightarrow> TellerProviderCatalogue" where
  "normalizeCatalogue catalogue = \<lparr>
     tp_available = List.map_filter normalizeProvider (pn_available catalogue),
     tp_default = default_to (normalizeProvider (pn_default catalogue)) Plaid,
     tp_user = normalizeProvider (pn_user catalogue),
     tp_application_id = pn_application_id catalogue,
     tp_environment = pn_environment catalogue\<rparr>"

record provider_info =
  pi_loading :: bool
  pi_error :: "jstring option"
  pi_catalogue :: "TellerProviderCatalogue option"

definition begin_info :: "provider_info \<Rightarrow> provider_info" where
  "begin_info s = s\<lparr>pi_loading := True, pi_error := None\<rparr>"

definition end_info :: "exn + provider_answer \<Rightarrow> provider_info \<Rightarrow> provider_info" where
  "end_info answer s = (case answer of
     Inr info \<Rightarrow> s\<lparr>pi_catalogue := Some (normalizeCatalogue info), pi_loading := False\<rparr>
   | Inl _ \<Rightarrow> s\<lparr>pi_error := Some ''Unable to load provider information'', pi_catalogue := None,
       pi_loading := False\<rparr>)"

text \<open>\<^verbatim>\<open>chooseProvider\<close> with the answer to it: the provider the server reports, if any.\<close>

definition chooseProvider :: "FinancialProvider \<Rightarrow> exn + jstring option \<Rightarrow> provider_info \<Rightarrow>
    (exn + unit) \<times> provider_info" where
  "chooseProvider provider answer s = (case answer of
     Inl x \<Rightarrow> (Inl x, s\<lparr>pi_error := Some ''Unable to select provider right now''\<rparr>)
   | Inr result \<Rightarrow>
       let userProvider = default_to (normalizeProvider result) provider
       in (Inr (), s\<lparr>pi_catalogue := Some (case pi_catalogue s of
            None \<Rightarrow> \<lparr>tp_available = [userProvider], tp_default = userProvider, tp_user = Some userProvider,
              tp_application_id = None, tp_environment = None\<rparr>
          | Some prev \<Rightarrow> prev\<lparr>tp_user := Some userProvider\<rparr>)\<rparr>))"

definition selectedProvider :: "provider_info \<Rightarrow> FinancialProvider option" where
  "selectedProvider s = map_option (\<lambda>c. default_to (tp_user c) (tp_default c)) (pi_catalogue s)"

definition tellerEnvironment :: "provider_info \<Rightarrow> jstring" where
  "tellerEnvironment s = (let environment = Option.bind (pi_catalogue s) tp_environment in
     if environment = Some ''sandbox'' \<or> environment = Some ''production'' then the environment
     else ''development'')"

section \<open>The wizard\<close>

datatype OnboardingStep = Welcome | Connect_account

definition ONBOARDING_STEPS :: "OnboardingStep list" where
  "ONBOARDING_STEPS = [Welcome, Connect_account]"

record wizard =
  wz_stepIndex :: nat
  wz_isComplete :: bool

definition currentStep :: "wizard \<Rightarrow> OnboardingStep option" where
  "currentStep w = (if wz_stepIndex w < length ONBOARDING_STEPS
     then Some (ONBOARDING_STEPS ! wz_stepIndex w) else None)"

definition canGoBack :: "wizard \<Rightarrow> bool" where
  "canGoBack w \<longleftrightarrow> 0 < wz_stepIndex w"

definition canGoNext :: "wizard \<Rightarrow> bool" where
  "canGoNext w \<longleftrightarrow> wz_stepIndex w + 1 < length ONBOARDING_STEPS"

definition wizard_progress :: "wizard \<Rightarrow> int" where
  "wizard_progress w =
     js_round (of_nat (wz_stepIndex w + 1) / of_nat (length ONBOARDING_STEPS) * 100)"

text \<open>The guards look at the wizard as it was rendered, the update at the current one.\<close>

definition goToNext :: "wizard \<Rightarrow> wizard \<Rightarrow> wizard" where
  "goToNext rendered w = (if canGoNext rendered then w\<lparr>wz_stepIndex := wz_stepIndex w + 1\<rparr> else w)"

definition goToPrevious :: "wizard \<Rightarrow> wizard \<Rightarrow> wizard" where
  "goToPrevious rendered w = (if canGoBack rendered then w\<lparr>wz_stepIndex := wz_stepIndex w - 1\<rparr> else w)"

definition markComplete :: "(json, 's) call \<Rightarrow> wizard \<Rightarrow> ('s client \<times> wizard) option" where
  "markComplete answer w = map_option (\<lambda>(r, st). (st, w\<lparr>wz_isComplete := True\<rparr>)) answer"

definition completeWizard where
  "completeWizard C N w st = markComplete (completeOnboarding C N st) w"

section \<open>Connecting the first bank with Plaid\<close>

record 'w plaid_onboarding =
  po_linkToken :: "jstring option"
  po_isConnected :: bool
  po_inProgress :: bool
  po_isSyncing :: bool
  po_institutionName :: "jstring option"
  po_error :: "jstring option"
  po_shouldOpen :: bool
  po_opened :: nat
  po_world :: 'w

definition no_plaid_onboarding :: "'w \<Rightarrow> 'w plaid_onboarding" where
  "no_plaid_onboarding w = \<lparr>po_linkToken = None, po_isConnected = False, po_inProgress = False,
     po_isSyncing = False, po_institutionName = None, po_error = None, po_shouldOpen = False,
     po_opened = 0, po_world = w\<rparr>"

definition po_fail :: "jstring \<Rightarrow> 'w plaid_onboarding \<Rightarrow> 'w plaid_onboarding" where
  "po_fail message s = s\<lparr>po_error := Some message, po_inProgress := False\<rparr>"

text \<open>The connection the status names, after a token was exchanged.\<close>

definition latest_connection :: "ProviderConnectionStatus list \<Rightarrow> ProviderConnectionStatus option" where
  "latest_connection connections = (case List.find pc_is_connected connections of
     Some c \<Rightarrow> Some c | None \<Rightarrow> (case connections of [] \<Rightarrow> None | c # _ \<Rightarrow> Some c))"

definition po_status :: "'w bank_services \<Rightarrow> 'w plaid_onboarding \<Rightarrow> jstring option \<times> 'w plaid_onboarding" where
  "po_status B s = (case bs_status B (po_world s) of
     (Inl _, w) \<Rightarrow> (None, s\<lparr>po_world := w\<rparr>)
   | (Inr status, w) \<Rightarrow> (case latest_connection (default_to status []) of
       None \<Rightarrow> (None, s\<lparr>po_world := w\<rparr>)
     | Some c \<Rightarrow> (pc_connection_id c, s\<lparr>po_world := w,
         po_institutionName := Some (str_or (pc_institution_name c) ''Connected Bank'')\<rparr>)))"

definition po_handleSuccess :: "'w bank_services \<Rightarrow> jstring \<Rightarrow> 'w plaid_onboarding \<Rightarrow> 'w plaid_onboarding" where
  "po_handleSuccess B publicToken s =
     (let s1 = s\<lparr>po_inProgress := True, po_error := None\<rparr> in
      (case bs_exchange B publicToken (po_world s1) of
         (Inl x, w) \<Rightarrow> po_fail (exn_message x) (s1\<lparr>po_world := w\<rparr>)
       | (Inr _, w) \<Rightarrow>
           (case po_status B (s1\<lparr>po_world := w, po_isConnected := True,
                po_institutionName := Some ''Connected Bank''\<rparr>) of (connectionId, s2) \<Rightarrow>
              if truthy connectionId
              then s2\<lparr>po_world := snd (bs_sync B (the connectionId) (po_world s2)), po_isSyncing := False\<rparr>
              else s2))
      \<lparr>po_inProgress := False\<rparr>)"

definition po_exit :: "'w plaid_onboarding \<Rightarrow> 'w plaid_onboarding" where
  "po_exit s = s\<lparr>po_inProgress := False, po_shouldOpen := False\<rparr>"

definition po_open_effect :: "bool \<Rightarrow> 'w plaid_onboarding \<Rightarrow> 'w plaid_onboarding" where
  "po_open_effect ready s = (if po_shouldOpen s \<and> ready
     then s\<lparr>po_opened := Suc (po_opened s), po_shouldOpen := False\<rparr> else s)"

definition po_initiate :: "'w bank_services \<Rightarrow> 'w plaid_onboarding \<Rightarrow> 'w plaid_onboarding" where
  "po_initiate B s =
     (let s1 = s\<lparr>po_inProgress := True, po_error := None\<rparr> in
      case bs_linkToken B (po_world s1) of
        (Inr token, w) \<Rightarrow> s1\<lparr>po_world := w, po_linkToken := Some token, po_shouldOpen := True\<rparr>
      | (Inl x, w) \<Rightarrow> (po_fail (exn_message x) (s1\<lparr>po_world := w\<rparr>))
           \<lparr>po_inProgress := False, po_shouldOpen := False\<rparr>)"

definition po_retry :: "'w bank_services \<Rightarrow> 'w plaid_onboarding \<Rightarrow> 'w plaid_onboarding" where
  "po_retry B s = po_initiate B (s\<lparr>po_error := None\<rparr>)"

definition po_reset :: "'w plaid_onboarding \<Rightarrow> 'w plaid_onboarding" where
  "po_reset s = s\<lparr>po_isConnected := False, po_inProgress := False, po_isSyncing := False,
     po_institutionName := None, po_error := None, po_linkToken := None, po_shouldOpen := False\<rparr>"

section \<open>Connecting the first bank with Teller\<close>

record teller_onboarding =
  to_isConnected :: bool
  to_inProgress :: bool
  to_isSyncing :: bool
  to_institutionName :: "jstring option"
  to_error :: "jstring option"
  to_opened :: nat

definition no_teller_onboarding :: teller_onboarding where
  "no_teller_onboarding = \<lparr>to_isConnected = False, to_inProgress = False, to_isSyncing = False,
     to_institutionName = None, to_error = None, to_opened = 0\<rparr>"

definition to_fail :: "bool \<Rightarrow> jstring \<Rightarrow> teller_onboarding \<Rightarrow> teller_onboarding" where
  "to_fail enabled message s = (if enabled then s\<lparr>to_error := Some message\<rparr> else s)"

definition refreshStatus :: "bool \<Rightarrow> exn + TellerConnectionStatus list \<Rightarrow> teller_onboarding \<Rightarrow>
    TellerConnectionStatus option \<times> teller_onboarding" where
  "refreshStatus enabled answer s =
     (if \<not> enabled then (None, s)
      else case answer of Inl _ \<Rightarrow> (None, s)
      | Inr statuses \<Rightarrow> (case List.find tcs_is_connected statuses of
          None \<Rightarrow> (None, s)
        | Some latest \<Rightarrow> (Some latest, s\<lparr>to_isConnected := True, to_institutionName :=
            Some (str_or (Some (tcs_institution_name latest)) ''Connected Bank'')\<rparr>)))"

text \<open>The effect of mounting; \<open>mounted\<close> is whether the page is still there at the answer.\<close>

definition loadExistingConnection :: "bool \<Rightarrow> bool \<Rightarrow> exn + TellerConnectionStatus list \<Rightarrow>
    teller_onboarding \<Rightarrow> teller_onboarding" where
  "loadExistingConnection enabled mounted answer s =
     (if \<not> enabled then s
      else case refreshStatus enabled answer s of (latest, s1) \<Rightarrow>
        if latest = None \<and> mounted then s1\<lparr>to_isConnected := False, to_institutionName := None\<rparr> else s1)"

definition to_begin_connected :: "bool \<Rightarrow> teller_onboarding \<Rightarrow> teller_onboarding" where
  "to_begin_connected enabled s = (if \<not> enabled then s else s\<lparr>to_isSyncing := True\<rparr>)"

definition to_end_connected :: "bool \<Rightarrow> exn + TellerConnectionStatus list \<Rightarrow> teller_onboarding \<Rightarrow>
    teller_onboarding" where
  "to_end_connected enabled answer s =
     (if \<not> enabled then s
      else case refreshStatus enabled answer s of (latest, s1) \<Rightarrow>
        (case latest of
           None \<Rightarrow> (to_fail enabled ''Connected account not found. Please try again.'' s1)
             \<lparr>to_isConnected := False\<rparr>
         | Some _ \<Rightarrow> s1\<lparr>to_error := None\<rparr>)\<lparr>to_isSyncing := False, to_inProgress := False\<rparr>)"

definition to_exit :: "bool \<Rightarrow> teller_onboarding \<Rightarrow> teller_onboarding" where
  "to_exit enabled s = (if \<not> enabled then s else s\<lparr>to_inProgress := False\<rparr>)"

definition to_widget_error :: "bool \<Rightarrow> teller_onboarding \<Rightarrow> teller_onboarding" where
  "to_widget_error enabled s = (if \<not> enabled then s
     else to_fail enabled ''Failed to complete Teller connection. Please try again.''
       (s\<lparr>to_inProgress := False\<rparr>))"

definition to_initiate :: "bool \<Rightarrow> jstring option \<Rightarrow> bool \<Rightarrow> teller_onboarding \<Rightarrow> teller_onboarding" where
  "to_initiate enabled applicationId ready s =
     (if \<not> enabled then s
      else let s1 = s\<lparr>to_error := None\<rparr> in
        if \<not> truthy applicationId then to_fail enabled ''Missing Teller application ID'' s1
        else if \<not> ready
          then to_fail enabled ''Teller Connect is still initializing. Please wait a moment.'' s1
        else s1\<lparr>to_inProgress := True, to_opened := Suc (to_opened s1)\<rparr>)"

definition to_reset :: "bool \<Rightarrow> teller_onboarding \<Rightarrow> teller_onboarding" where
  "to_reset enabled s = (if \<not> enabled then s
     else s\<lparr>to_isConnected := False, to_inProgress := False, to_isSyncing := False,
            to_institutionName := None, to_error := None\<rparr>)"

section \<open>Properties of the forms\<close>

lemma mail_at: "mail_char c \<Longrightarrow> c \<noteq> CHR ''@''" "\<not> mail_char (CHR ''@'')"
  by (simp_all add: mail_char_def)

lemma inner_dot:
  "(\<exists>i\<in>set [1..<length domain - 1]. domain ! i = CHR ''.'') \<longleftrightarrow>
   (\<exists>host tld. domain = host @ CHR ''.'' # tld \<and> host \<noteq> [] \<and> tld \<noteq> [])"
proof
  assume "\<exists>i\<in>set [1..<length domain - 1]. domain ! i = CHR ''.''"
  then obtain i where i: "1 \<le> i" "i < length domain - 1" "domain ! i = CHR ''.''" by auto
  then have l: "i < length domain" by simp
  have "domain = take i domain @ CHR ''.'' # drop (Suc i) domain"
    using id_take_nth_drop [OF l] i(3) by simp
  moreover have "take i domain \<noteq> []" "drop (Suc i) domain \<noteq> []" using i(1,2) l by auto
  ultimately show "\<exists>host tld. domain = host @ CHR ''.'' # tld \<and> host \<noteq> [] \<and> tld \<noteq> []" by blast
next
  assume "\<exists>host tld. domain = host @ CHR ''.'' # tld \<and> host \<noteq> [] \<and> tld \<noteq> []"
  then obtain host tld where d: "domain = host @ CHR ''.'' # tld" "host \<noteq> []" "tld \<noteq> []" by blast
  have "1 \<le> length host" "length host < length domain - 1"
    using d(2,3) unfolding d(1) by (simp_all add: Suc_le_eq)
  then have "length host \<in> set [1..<length domain - 1]" by (simp del: One_nat_def)
  moreover have "domain ! length host = CHR ''.''" by (simp add: d(1))
  ultimately show "\<exists>i\<in>set [1..<length domain - 1]. domain ! i = CHR ''.''" by blast
qed

lemma validateEmail_split:
  "validateEmail email \<longleftrightarrow> (\<exists>domain. dropWhile mail_char email = CHR ''@'' # domain \<and>
     takeWhile mail_char email \<noteq> [] \<and> list_all mail_char domain \<and>
     (\<exists>host tld. domain = host @ CHR ''.'' # tld \<and> host \<noteq> [] \<and> tld \<noteq> []))"
  unfolding validateEmail_def Let_def list_ex_iff inner_dot
  by (cases "dropWhile mail_char email"; simp only: list.case list.inject list.distinct; blast)

lemma mail_user:
  assumes "list_all mail_char user"
  shows "takeWhile mail_char (user @ CHR ''@'' # domain) = user"
    and "dropWhile mail_char (user @ CHR ''@'' # domain) = CHR ''@'' # domain"
proof -
  have u: "\<And>x. x \<in> set user \<Longrightarrow> mail_char x" using assms by (simp only: list_all_iff)
  show "takeWhile mail_char (user @ CHR ''@'' # domain) = user"
    by (simp only: takeWhile_append2 [OF u] takeWhile.simps mail_at(2) if_False append_Nil2)
  show "dropWhile mail_char (user @ CHR ''@'' # domain) = CHR ''@'' # domain"
    by (simp only: dropWhile_append2 [OF u] dropWhile.simps mail_at(2) if_False)
qed

lemma mail_dot: "mail_char (CHR ''.'')"
  by (simp add: mail_char_def is_space_eval)

text \<open>
  An email is accepted exactly when it is of the language of the regular expression: three
  non-empty parts, without white space or further at signs, joined by an at sign and a dot.
\<close>

theorem validateEmail_language:
  "validateEmail email \<longleftrightarrow> (\<exists>user host tld. email = user @ CHR ''@'' # host @ CHR ''.'' # tld \<and>
     user \<noteq> [] \<and> host \<noteq> [] \<and> tld \<noteq> [] \<and> list_all mail_char (user @ host @ tld))"
proof
  assume "validateEmail email"
  then obtain host tld where d: "dropWhile mail_char email = CHR ''@'' # host @ CHR ''.'' # tld"
    "takeWhile mail_char email \<noteq> []" "list_all mail_char (host @ CHR ''.'' # tld)" "host \<noteq> []" "tld \<noteq> []"
    unfolding validateEmail_split by blast
  have "email = takeWhile mail_char email @ CHR ''@'' # host @ CHR ''.'' # tld"
    using takeWhile_dropWhile_id [of mail_char email] by (simp only: d(1))
  moreover have "list_all mail_char (takeWhile mail_char email)"
    unfolding list_all_iff using set_takeWhileD [of _ mail_char email] by blast
  then have "list_all mail_char (takeWhile mail_char email @ host @ tld)"
    using d(3) by (simp only: list_all_append list.pred_inject simp_thms)
  ultimately show "\<exists>user host tld. email = user @ CHR ''@'' # host @ CHR ''.'' # tld \<and>
     user \<noteq> [] \<and> host \<noteq> [] \<and> tld \<noteq> [] \<and> list_all mail_char (user @ host @ tld)"
    using d(2,4,5) by blast
next
  assume "\<exists>user host tld. email = user @ CHR ''@'' # host @ CHR ''.'' # tld \<and>
     user \<noteq> [] \<and> host \<noteq> [] \<and> tld \<noteq> [] \<and> list_all mail_char (user @ host @ tld)"
  then obtain user host tld where e: "email = user @ CHR ''@'' # host @ CHR ''.'' # tld"
    "user \<noteq> []" "host \<noteq> []" "tld \<noteq> []" "list_all mail_char (user @ host @ tld)" by blast
  have u: "list_all mail_char user" and h: "list_all mail_char (host @ CHR ''.'' # tld)"
    using e(5) by (simp_all only: list_all_append list.pred_inject mail_dot simp_thms)
  show "validateEmail email"
    unfolding validateEmail_split e(1) mail_user [OF u] using e(2-4) h by blast
qed

text \<open>
  The form lets a registration pass exactly when every check does, and names the first that
  fails; a password that passes has eight characters or more.
\<close>

theorem validateForm_passes:
  "(validateForm email password confirm = None \<longleftrightarrow> validateEmail email \<and> password = confirm \<and>
     8 \<le> length password \<and> (\<exists>c\<in>set password. is_upper c) \<and> (\<exists>c\<in>set password. is_digit c) \<and>
     (\<exists>c\<in>set password. c \<in> set special_chars)) \<and>
   (validateForm email password confirm = Some ''Passwords do not match'' \<longrightarrow>
     validateEmail email \<and> pv_isValid (validate_password password) \<and> password \<noteq> confirm)"
  by (auto simp: validateForm_def validate_password_def list_ex_iff Let_def)

section \<open>Properties of the choice and of the first connection\<close>

text \<open>
  Once a choice went through, the provider the server reports, or else the one asked for, is
  the selected one, whatever the catalogue held before and the defaults it names; a message of an
  earlier attempt is kept all the same, for only a reload clears it.
\<close>

theorem chosen_provider_selected:
  "selectedProvider (snd (chooseProvider p (Inr reported) s)) =
     Some (default_to (normalizeProvider reported) p) \<and>
   pi_error (snd (chooseProvider p (Inr reported) s)) = pi_error s \<and>
   pi_error (begin_info s) = None"
  by (simp add: chooseProvider_def selectedProvider_def begin_info_def Let_def default_to_def
      split: option.split)

text \<open>The moves of a wizard that was rendered after the last one.\<close>

inductive wizard_step :: "wizard \<Rightarrow> wizard \<Rightarrow> bool" where
  wizard_next: "wizard_step w (goToNext w w)"
| wizard_previous: "wizard_step w (goToPrevious w w)"
| wizard_done: "markComplete (answer :: (json, unit) call) w = Some (st, w') \<Longrightarrow> wizard_step w w'"

inductive_cases wizard_stepE: "wizard_step w w'"

definition first_page :: "wizard \<Rightarrow> bool" where
  "first_page w \<longleftrightarrow> w = \<lparr>wz_stepIndex = 0, wz_isComplete = False\<rparr>"

definition wizard_ok :: "wizard \<Rightarrow> bool" where
  "wizard_ok w \<longleftrightarrow> wz_stepIndex w < length ONBOARDING_STEPS"

lemma markComplete_result: "markComplete answer w = Some (st, w') \<Longrightarrow> w' = w\<lparr>wz_isComplete := True\<rparr>"
  by (auto simp: markComplete_def)

interpretation onboarding: transition_system wizard_step first_page wizard_ok
proof
  show "wizard_ok w" if "first_page w" for w
    using that by (simp add: first_page_def wizard_ok_def ONBOARDING_STEPS_def)
  show "wizard_ok w'" if "wizard_step w w'" "wizard_ok w" for w w'
    using that by (auto elim!: wizard_stepE dest!: markComplete_result
        simp: goToNext_def goToPrevious_def canGoNext_def wizard_ok_def)
qed

text \<open>
  The wizard, moved by its buttons as they are rendered and completed or skipped at any time,
  always stands at one of its steps, and its progress is a percentage above zero.
\<close>

theorem wizard_stays_on_steps:
  assumes "wizard_step\<^sup>*\<^sup>* w w'" "first_page w"
  shows "currentStep w' \<noteq> None \<and> wizard_progress w' \<in> {50, 100}"
proof -
  have "wizard_ok w'" by (rule onboarding.invar_reachable [OF assms])
  then have i: "wz_stepIndex w' < length ONBOARDING_STEPS" unfolding wizard_ok_def .
  then have "currentStep w' \<noteq> None" by (simp add: currentStep_def)
  moreover have "wz_stepIndex w' = 0 \<or> wz_stepIndex w' = 1" using i by (auto simp: ONBOARDING_STEPS_def)
  then have "wizard_progress w' \<in> {50, 100}"
    by (auto simp: wizard_progress_def ONBOARDING_STEPS_def js_round_def floor_eq_iff)
  ultimately show ?thesis by blast
qed

theorem wizard_stays_on_steps_witness:
  "let w = \<lparr>wz_stepIndex = 0, wz_isComplete = False\<rparr>; w' = goToNext (goToNext w w) (goToNext w w)
   in wizard_step\<^sup>*\<^sup>* w w' \<and> currentStep w' \<noteq> None"
proof -
  let ?w = "\<lparr>wz_stepIndex = 0, wz_isComplete = False\<rparr>"
  have r: "wizard_step\<^sup>*\<^sup>* ?w (goToNext (goToNext ?w ?w) (goToNext ?w ?w))"
    by (meson converse_rtranclp_into_rtranclp rtranclp.rtrancl_refl wizard_next)
  show ?thesis
    unfolding Let_def using r wizard_stays_on_steps [OF r] by (simp add: first_page_def)
qed

lemma po_status_keeps:
  "po_status B s = (cid, s') \<Longrightarrow> po_isConnected s' = po_isConnected s \<and> po_error s' = po_error s \<and>
     po_isSyncing s' = po_isSyncing s \<and> po_opened s' = po_opened s \<and> po_linkToken s' = po_linkToken s"
  by (auto simp: po_status_def split: prod.splits sum.splits option.splits)

text \<open>
  Whatever the server answers to the exchange of a public token, to the status and to the
  first synchronisation, the flow settles: nothing is in progress, no synchronisation is shown
  that was not before, a message is shown exactly when the exchange failed, and the bank counts as
  connected when the exchange went through, even when the status or the synchronisation failed.
\<close>

theorem first_connection_settles:
  "let s' = po_handleSuccess B t s; accepted = \<not> isl (fst (bs_exchange B t (po_world s)))
   in \<not> po_inProgress s' \<and> po_isSyncing s' \<in> {False, po_isSyncing s} \<and>
      (po_error s' = None \<longleftrightarrow> accepted) \<and> (po_isConnected s' \<longleftrightarrow> accepted \<or> po_isConnected s)"
proof -
  obtain a w where x: "bs_exchange B t (po_world s) = (a, w)" by (cases "bs_exchange B t (po_world s)")
  obtain cid s2 where y: "po_status B (s\<lparr>po_inProgress := True, po_error := None, po_world := w,
      po_isConnected := True, po_institutionName := Some ''Connected Bank''\<rparr>) = (cid, s2)"
    by (metis prod.exhaust)
  show ?thesis
    using po_status_keeps [OF y]
    by (cases a) (simp_all add: po_handleSuccess_def Let_def x y po_fail_def)
qed

text \<open>
  Connecting with Teller settles as well while the provider is enabled: the bank is connected,
  and no message shown, exactly when the status names a connected one; a provider that is not
  enabled changes nothing.
\<close>

theorem teller_connection_settles:
  "(let s' = to_end_connected True answer (to_begin_connected True s);
        found = (case answer of Inl _ \<Rightarrow> False | Inr statuses \<Rightarrow> \<exists>c\<in>set statuses. tcs_is_connected c)
    in \<not> to_inProgress s' \<and> \<not> to_isSyncing s' \<and> (to_isConnected s' \<longleftrightarrow> found) \<and>
       (to_error s' = None \<longleftrightarrow> found)) \<and>
   to_end_connected False answer (to_begin_connected False s) = s"
  by (cases answer) (auto simp: to_end_connected_def to_begin_connected_def refreshStatus_def
      to_fail_def find_None_iff find_Some_iff Let_def split: option.splits)

end
