(* ===== verification/Session_Manager.thy ===== *)
theory Session_Manager
  imports Session_Token Api_Client Onboarding
begin

text \<open>
  The session around the pages: the guard of \<^verbatim>\<open>SessionManager.tsx\<close>, which warns two minutes
  before the token expires, counts down and logs out, and the shell of \<^verbatim>\<open>App.tsx\<close> with the
  forms of \<^verbatim>\<open>Auth.tsx\<close> and the tabs of \<^verbatim>\<open>components/AuthenticatedApp.tsx\<close>. Both
  read and write the session storage that \<^verbatim>\<open>AuthService\<close> keeps its token in.
\<close>

section \<open>The guard\<close>

definition SESSION_WARNING_THRESHOLD :: int where
  "SESSION_WARNING_THRESHOLD = 120"

text \<open>\<open>sm_logouts\<close> counts the calls of \<^verbatim>\<open>onLogout\<close>.\<close>

record session_manager =
  sm_showExpiryModal :: bool
  sm_timeRemaining :: rat
  sm_auth :: auth_state
  sm_logouts :: nat

definition initial_manager :: "auth_state \<Rightarrow> session_manager" where
  "initial_manager a = \<lparr>sm_showExpiryModal = False, sm_timeRemaining = 0, sm_auth = a, sm_logouts = 0\<rparr>"

definition clear_storage :: "auth_state \<Rightarrow> auth_state" where
  "clear_storage a = a\<lparr>as_storage := []\<rparr>"

definition call_logout :: "session_manager \<Rightarrow> session_manager" where
  "call_logout s = s\<lparr>sm_logouts := Suc (sm_logouts s)\<rparr>"

definition formatTime :: "rat \<Rightarrow> jstring" where
  "formatTime seconds = (let mins = \<lfloor>seconds / 60\<rfloor>; secs = seconds - 60 * of_int mins
     in int_str mins @ '':'' @ pad_start 2 (num_str secs))"

definition checkSessionExpiry :: "int \<Rightarrow> session_manager \<Rightarrow> session_manager" where
  "checkSessionExpiry now s =
     (let token = getToken (sm_auth s) in
      if \<not> truthy token then call_logout s
      else if isTokenExpired now (the token)
      then call_logout (s\<lparr>sm_auth := clear_storage (sm_auth s)\<rparr>)
      else case getTimeUntilExpiry now (the token) of
          Some timeUntilExpiry \<Rightarrow>
            if timeUntilExpiry \<le> of_int SESSION_WARNING_THRESHOLD \<and> 0 < timeUntilExpiry
            then s\<lparr>sm_timeRemaining := timeUntilExpiry, sm_showExpiryModal := True\<rparr> else s
        | None \<Rightarrow> s)"

text \<open>The timer of the countdown runs out, one second after it was set.\<close>

definition countdown :: "session_manager \<Rightarrow> session_manager" where
  "countdown s =
     (if \<not> sm_showExpiryModal s \<or> sm_timeRemaining s \<le> 0 then s
      else let newTime = sm_timeRemaining s - 1 in
        if newTime \<le> 0
        then call_logout (s\<lparr>sm_auth := clear_storage (sm_auth s), sm_timeRemaining := 0\<rparr>)
        else s\<lparr>sm_timeRemaining := newTime\<rparr>)"

definition sm_handleStayLoggedIn :: "session_manager \<Rightarrow> session_manager" where
  "sm_handleStayLoggedIn s = s\<lparr>sm_showExpiryModal := False, sm_timeRemaining := 0\<rparr>"

definition sm_handleLogout :: "session_manager \<Rightarrow> session_manager" where
  "sm_handleLogout s = call_logout (s\<lparr>sm_showExpiryModal := False\<rparr>)"

text \<open>The modal: \<open>answer\<close> is the one of \<^verbatim>\<open>AuthService.refreshToken\<close>.\<close>

definition refreshUserSession :: "exn + json \<Rightarrow> auth_state \<Rightarrow> bool \<times> auth_state" where
  "refreshUserSession answer a = (case answer of
     Inl _ \<Rightarrow> (False, a)
   | Inr result \<Rightarrow> (case get_field result ''token'' of
       Inl _ \<Rightarrow> (False, a)
     | Inr token \<Rightarrow> if json_truthy token
         then (True, a\<lparr>as_storage := map_set ''auth_token'' (scalar_text token) (as_storage a)\<rparr>)
         else (False, a)))"

definition modal_logout :: "session_manager \<Rightarrow> session_manager" where
  "modal_logout s = sm_handleLogout (s\<lparr>sm_auth := clear_storage (sm_auth s)\<rparr>)"

definition modal_stay :: "exn + json \<Rightarrow> session_manager \<Rightarrow> session_manager" where
  "modal_stay answer s = (case refreshUserSession answer (sm_auth s) of
     (success, a) \<Rightarrow> if success then sm_handleStayLoggedIn (s\<lparr>sm_auth := a\<rparr>)
       else modal_logout (s\<lparr>sm_auth := a\<rparr>))"

section \<open>The application shell\<close>

datatype auth_screen = Login_screen | Register_screen

record 's app_state =
  ap_isAuthenticated :: bool
  ap_isLoading :: bool
  ap_authScreen :: auth_screen
  ap_showOnboarding :: bool
  ap_mainAppKey :: nat
  ap_showProviderMismatch :: bool
  ap_client :: "'s client"

definition initial_app :: "auth_screen option \<Rightarrow> 's client \<Rightarrow> 's app_state" where
  "initial_app screen st = \<lparr>ap_isAuthenticated = False, ap_isLoading = True,
     ap_authScreen = default_to screen Login_screen, ap_showOnboarding = False, ap_mainAppKey = 0,
     ap_showProviderMismatch = False, ap_client = st\<rparr>"

text \<open>
  \<^verbatim>\<open>AuthService.refreshToken\<close>, with no other refresh in flight; reading the token of a
  \<^verbatim>\<open>null\<close> body throws.
\<close>

definition null_token :: exn where
  "null_token = JsExn ''Cannot read properties of null''"

definition refreshToken ::
    "RetryConfig \<Rightarrow> 's net_env \<Rightarrow> 's client \<Rightarrow> ((exn + json) \<times> 's client) option" where
  "refreshToken C N st =
     (if \<not> truthy (getToken (cl_auth st)) then Some (Inl (JsExn ''No token''), st)
      else map_option (\<lambda>(r, st1). case r of
          Inl x \<Rightarrow> (Inl x, set_refreshing False st1)
        | Inr v \<Rightarrow> (case refreshed_token v of
            None \<Rightarrow> (Inl null_token, set_refreshing False st1)
          | Some token \<Rightarrow> (Inr v, set_refreshing False
              (st1\<lparr>cl_auth := scheduleEncryptedTokenHash token (cl_auth st1)\<rparr>))))
        (api_post C N ''/auth/refresh'' None (set_refreshing True st)))"

definition onboarding_completed :: "json \<Rightarrow> bool" where
  "onboarding_completed v = (case get_field v ''onboarding_completed'' of Inl _ \<Rightarrow> False
     | Inr b \<Rightarrow> json_truthy b)"

definition checkAuth :: "RetryConfig \<Rightarrow> 's net_env \<Rightarrow> int \<Rightarrow> 's app_state \<Rightarrow> 's app_state option" where
  "checkAuth C N now s =
     (let st = ap_client s; token = getToken (cl_auth st);
          rejected = (\<lambda>st'. s\<lparr>ap_isAuthenticated := False, ap_isLoading := False, ap_client := st'\<rparr>)
      in if \<not> truthy token \<or> isTokenExpired now (the token)
         then Some (rejected (st\<lparr>cl_auth := (cl_auth st)\<lparr>as_storage :=
           map_delete ''auth_token'' (as_storage (cl_auth st))\<rparr>\<rparr>))
         else Option.bind (validateSession C N st) (\<lambda>(isValid, st1).
           if \<not> isValid then Some (rejected st1)
           else map_option (\<lambda>(r, st2).
             case (case r of Inl _ \<Rightarrow> None | Inr v \<Rightarrow> map_option (Pair v) (refreshed_token v)) of
               Some (v, t) \<Rightarrow> s\<lparr>ap_isAuthenticated := True, ap_isLoading := False,
                 ap_showOnboarding := \<not> onboarding_completed v,
                 ap_client := st2\<lparr>cl_auth := storeToken t None (cl_auth st2)\<rparr>\<rparr>
             | None \<Rightarrow> rejected (clear_session st2)) (refreshToken C N st1)))"

definition set_auth_token :: "jstring \<Rightarrow> 's client \<Rightarrow> 's client" where
  "set_auth_token token st = st\<lparr>cl_auth := (cl_auth st)\<lparr>as_storage :=
     map_set ''auth_token'' token (as_storage (cl_auth st))\<rparr>\<rparr>"

definition handleAuthSuccess :: "jstring \<Rightarrow> bool \<Rightarrow> 's app_state \<Rightarrow> 's app_state" where
  "handleAuthSuccess token completed s = s\<lparr>ap_client := set_auth_token token (ap_client s),
     ap_isAuthenticated := True, ap_showOnboarding := \<not> completed\<rparr>"

definition app_handleLogout :: "RetryConfig \<Rightarrow> 's net_env \<Rightarrow> 's app_state \<Rightarrow> 's app_state option" where
  "app_handleLogout C N s = map_option (\<lambda>(_, st). s\<lparr>ap_client := st, ap_isAuthenticated := False,
     ap_showOnboarding := False, ap_authScreen := Login_screen\<rparr>) (logout C N (ap_client s))"

definition handleOnboardingComplete :: "'s app_state \<Rightarrow> 's app_state" where
  "handleOnboardingComplete s = s\<lparr>ap_showOnboarding := False, ap_mainAppKey := Suc (ap_mainAppKey s)\<rparr>"

definition handleProviderMismatchConfirm where
  "handleProviderMismatchConfirm C N s = app_handleLogout C N (s\<lparr>ap_showProviderMismatch := False\<rparr>)"

definition mismatch_effect :: "'s app_state \<Rightarrow> 's app_state" where
  "mismatch_effect s = (if ap_showProviderMismatch s then s\<lparr>ap_showProviderMismatch := False\<rparr> else s)"

section \<open>The forms\<close>

record auth_form =
  fm_error :: jstring
  fm_isLoading :: bool

text \<open>
  The end of both forms: the token is stored, then the shell is told; \<^verbatim>\<open>response.token\<close> of a
  \<^verbatim>\<open>null\<close> body throws.
\<close>

definition form_answer :: "exn + json \<Rightarrow> 's client \<Rightarrow> auth_form \<Rightarrow> 's app_state \<Rightarrow> auth_form \<times> 's app_state" where
  "form_answer answer st f s =
     (case (case answer of Inl x \<Rightarrow> Inl x
            | Inr v \<Rightarrow> (case refreshed_token v of None \<Rightarrow> Inl null_token | Some t \<Rightarrow> Inr (v, t))) of
        Inl x \<Rightarrow> (f\<lparr>fm_error := exn_message x, fm_isLoading := False\<rparr>, s\<lparr>ap_client := st\<rparr>)
      | Inr (v, t) \<Rightarrow> (f\<lparr>fm_isLoading := False\<rparr>, handleAuthSuccess t (onboarding_completed v)
          (s\<lparr>ap_client := st\<lparr>cl_auth := storeToken t None (cl_auth st)\<rparr>\<rparr>)))"

definition login_submit where
  "login_submit C N email password f s =
     map_option (\<lambda>(r, st). form_answer r st (f\<lparr>fm_error := [], fm_isLoading := True\<rparr>) s)
       (login C N email password (ap_client s))"

definition register_submit where
  "register_submit C N email password confirm f s =
     (case validateForm email password confirm of
        Some message \<Rightarrow> Some (f\<lparr>fm_error := message\<rparr>, s)
      | None \<Rightarrow> map_option (\<lambda>(r, st). form_answer r st (f\<lparr>fm_error := [], fm_isLoading := True\<rparr>) s)
          (register C N email password (ap_client s)))"

section \<open>The guard and the clock\<close>

lemma getToken_storage: "getToken (a\<lparr>as_storage := m\<rparr>) = map_get m ''auth_token''"
  by (simp add: getToken_def)

lemma check_minted:
  assumes "getToken (sm_auth s) = Some (minted h cs sig)" "CHR ''.'' \<notin> set h" "expires_at cs n"
  shows "checkSessionExpiry now s =
    (if int n \<le> now then call_logout (s\<lparr>sm_auth := clear_storage (sm_auth s)\<rparr>)
     else if int n - now \<le> 120
     then s\<lparr>sm_timeRemaining := of_int (int n - now), sm_showExpiryModal := True\<rparr> else s)"
proof -
  have "truthy (Some (minted h cs sig))" using minted_fields(4) [OF assms(2,3)] by (simp add: truthy_def)
  moreover have "(of_int (max 0 (int n - now)) \<le> (of_int 120 :: rat)) \<longleftrightarrow> max 0 (int n - now) \<le> 120"
    by (rule of_int_le_iff)
  ultimately show ?thesis
    using minted_fields(2,3) [OF assms(2,3)]
    by (simp add: checkSessionExpiry_def assms(1) SESSION_WARNING_THRESHOLD_def)
qed

text \<open>
  C39. The guard follows the clock of the stored token, whatever its other claims: from its expiry on a
  check clears the storage and logs out, in the two minutes before it opens the warning with the seconds left, and before
  that it does nothing; without a token it logs out.
\<close>

theorem session_check_by_clock:
  assumes "getToken (sm_auth s) = Some (minted h cs sig)" "CHR ''.'' \<notin> set h" "expires_at cs n"
  shows "(int n \<le> now \<longrightarrow> sm_logouts (checkSessionExpiry now s) = Suc (sm_logouts s) \<and>
      getToken (sm_auth (checkSessionExpiry now s)) = None) \<and>
    (now < int n \<and> int n \<le> now + 120 \<longrightarrow> sm_showExpiryModal (checkSessionExpiry now s) \<and>
      sm_timeRemaining (checkSessionExpiry now s) = of_int (int n - now) \<and>
      sm_auth (checkSessionExpiry now s) = sm_auth s \<and>
      sm_logouts (checkSessionExpiry now s) = sm_logouts s) \<and>
    (now + 120 < int n \<longrightarrow> checkSessionExpiry now s = s) \<and>
    sm_logouts (checkSessionExpiry now (s\<lparr>sm_auth := clear_storage (sm_auth s)\<rparr>)) = Suc (sm_logouts s)"
proof (intro conjI impI; (elim conjE)?)
  show "sm_logouts (checkSessionExpiry now (s\<lparr>sm_auth := clear_storage (sm_auth s)\<rparr>)) = Suc (sm_logouts s)"
    by (simp add: checkSessionExpiry_def clear_storage_def getToken_storage map_get_def truthy_def call_logout_def)
qed (simp_all add: check_minted [OF assms] call_logout_def clear_storage_def getToken_storage map_get_def)

definition signed_in :: "jstring \<Rightarrow> session_manager" where
  "signed_in token = initial_manager (fresh_session\<lparr>as_storage := [(''auth_token'', token)]\<rparr>)"

lemma signed_in_token: "getToken (sm_auth (signed_in t)) = Some t"
  by (simp add: signed_in_def initial_manager_def getToken_storage map_get_def)

theorem session_check_by_clock_witness:
  "sm_timeRemaining (checkSessionExpiry 900 (signed_in (minted ''h'' (server_claims ''u'' 1000 1 ''j'') ''s''))) = 100"
proof -
  have "expires_at (server_claims ''u'' 1000 1 ''j'') 1000"
    by (rule server_claims_expire) (simp_all add: plain_text_def code_at_def)
  from session_check_by_clock [OF signed_in_token _ this, where h = "''h''" and now = 900] show ?thesis by simp
qed

text \<open>One second of the guard: its check, then the countdown.\<close>

definition second :: "session_manager \<Rightarrow> int \<Rightarrow> session_manager" where
  "second s now = countdown (checkSessionExpiry now s)"

lemma countdown_runs:
  assumes "CHR ''.'' \<notin> set h" "expires_at cs n" and "getToken (sm_auth s) = Some (minted h cs sig)"
    and "sm_showExpiryModal s" "sm_timeRemaining s = of_nat (Suc k)" and "now + int k + 120 < int n"
  shows "foldl second s (map (\<lambda>i. now + int i) [0..<Suc k]) =
    call_logout (s\<lparr>sm_auth := clear_storage (sm_auth s), sm_timeRemaining := 0\<rparr>)"
  using assms(3-)
proof (induction k arbitrary: s now)
  case 0
  then show ?case
    by (simp add: second_def check_minted [OF _ assms(1,2)] countdown_def)
next
  case (Suc k)
  have c: "checkSessionExpiry now s = s" using Suc.prems by (simp add: check_minted [OF _ assms(1,2)])
  let ?s = "s\<lparr>sm_timeRemaining := of_nat (Suc k)\<rparr>"
  have d: "second s now = ?s" using Suc.prems by (simp add: second_def c countdown_def)
  have m: "map (\<lambda>i. now + int i) [0..<Suc (Suc k)] = now # map (\<lambda>i. (now + 1) + int i) [0..<Suc k]"
    by (simp add: upt_conv_Cons map_Suc_upt [symmetric] del: upt_Suc)
  show ?case
    unfolding m foldl_Cons d using Suc.IH [of ?s "now + 1"] Suc.prems by simp
qed

text \<open>
  C21. The countdown does not look at the token: once the warning is open, a token that another
  request refreshed in the background, valid for any time beyond the countdown and not expired when
  it ends, does not stop it. The storage is cleared and the user logged out.
\<close>

theorem countdown_outlives_refresh:
  assumes "CHR ''.'' \<notin> set h" "expires_at cs n" and "getToken (sm_auth s) = Some (minted h cs sig)"
    and "sm_showExpiryModal s" "sm_timeRemaining s = of_nat (Suc k)" and "now + int k + 120 < int n"
  shows "sm_logouts (foldl second s (map (\<lambda>i. now + int i) [0..<Suc k])) = Suc (sm_logouts s) \<and>
    getToken (sm_auth (foldl second s (map (\<lambda>i. now + int i) [0..<Suc k]))) = None \<and>
    \<not> isTokenExpired (now + int k) (minted h cs sig)"
  using assms(6) unfolding countdown_runs [OF assms] minted_fields(2) [OF assms(1,2)]
  by (simp add: call_logout_def clear_storage_def getToken_storage map_get_def)

theorem countdown_outlives_refresh_witness:
  "let s = (signed_in (minted ''h'' (server_claims ''u'' 5000 1 ''j'') ''s''))\<lparr>sm_showExpiryModal := True, sm_timeRemaining := 3\<rparr>
   in sm_logouts (foldl second s (map (\<lambda>i. 1000 + int i) [0..<3])) = 1"
proof -
  let ?s = "(signed_in (minted ''h'' (server_claims ''u'' 5000 1 ''j'') ''s''))\<lparr>sm_showExpiryModal := True, sm_timeRemaining := 3\<rparr>"
  have t: "getToken (sm_auth ?s) = Some (minted ''h'' (server_claims ''u'' 5000 1 ''j'') ''s'')" using signed_in_token by simp
  have x: "expires_at (server_claims ''u'' 5000 1 ''j'') 5000"
    by (rule server_claims_expire) (simp_all add: plain_text_def code_at_def)
  have "sm_logouts (foldl second ?s (map (\<lambda>i. 1000 + int i) [0..<Suc 2])) = Suc (sm_logouts ?s)"
    using countdown_outlives_refresh [OF _ x t, where k = 2 and now = 1000] by simp
  then show ?thesis by (simp add: Let_def signed_in_def initial_manager_def numeral_3_eq_3 numeral_2_eq_2)
qed

text \<open>
  Staying logged in settles whatever the server answers: the warning closes; a token in the
  answer is stored and nobody is logged out; without one the storage is cleared and the user is
  logged out.
\<close>

theorem stay_settles:
  "\<not> sm_showExpiryModal (modal_stay answer s) \<and>
   (fst (refreshUserSession answer (sm_auth s)) \<longleftrightarrow> sm_logouts (modal_stay answer s) = sm_logouts s) \<and>
   getToken (sm_auth (modal_stay answer s)) =
     (if fst (refreshUserSession answer (sm_auth s))
      then Some (scalar_text (case answer of Inr v \<Rightarrow> projr (get_field v ''token'') | Inl _ \<Rightarrow> None)) else None)"
  by (cases answer) (auto simp: modal_stay_def refreshUserSession_def sm_handleStayLoggedIn_def
      modal_logout_def sm_handleLogout_def call_logout_def clear_storage_def getToken_storage
      map_get_map_set map_get_def [of "[]"] split: sum.splits)

section \<open>Logging out without the token\<close>

definition anonymous :: "http_request \<Rightarrow> bool" where
  "anonymous rq \<longleftrightarrow> map_get (hr_headers rq) ''Authorization'' = None"

lemma anonymous_send:
  assumes "getToken (cl_auth st) = None"
  obtains x rq st1 where "send_request N ep (post_options None) st = (x, st1)"
    "cl_sent st1 = cl_sent st @ [rq]" "anonymous rq" "cl_auth st1 = cl_auth st"
proof -
  let ?rq = "client_post (ne_base N) ep None json_headers"
  obtain r w where w: "ne_send N ?rq (cl_net st) = (r, w)" by fastforce
  have h: "request_headers None [] = json_headers"
    by (simp add: request_headers_def merge_headers_def truthy_def)
  have "dispatch (ne_base N) ep ((post_options None)\<lparr>ro_headers := request_headers None []\<rparr>) = Inr ?rq"
    unfolding h by (simp add: dispatch_def post_options_def toUpperCase_def upper_char_eval Let_def str_or_def truthy_def)
  then have s: "send_request N ep (post_options None) st =
      (handleResponse r, st\<lparr>cl_net := w, cl_sent := cl_sent st @ [?rq]\<rparr>)"
    using w by (simp add: send_request_def assms makeRawRequest_def) (simp add: post_options_def)
  have a: "anonymous ?rq"
    by (simp add: anonymous_def client_post_def merge_headers_def json_headers_def map_get_def)
  show ?thesis by (rule that [OF s _ a]) simp_all
qed

lemma anonymous_request:
  assumes "getToken (cl_auth st) = None"
  shows "\<exists>r st' rqs. makeRequestWithRetry C N ep (post_options None) a st = Some (r, st') \<and>
    cl_sent st' = cl_sent st @ rqs \<and> rqs \<noteq> [] \<and> list_all anonymous rqs"
  using assms
proof (induction "rc_maxRetries C - a" arbitrary: a st rule: less_induct)
  case less
  obtain x rq st1 where s: "send_request N ep (post_options None) st = (x, st1)"
    "cl_sent st1 = cl_sent st @ [rq]" "anonymous rq" "cl_auth st1 = cl_auth st"
    using anonymous_send [OF less.prems] .
  show ?case
  proof (cases x)
    case (Inr v)
    show ?thesis using request_done [OF s(1) [unfolded Inr], of C a] s(2,3) by simp
  next
    case (Inl e)
    consider (refresh) "is_auth_error e" "a = 0"
      | (retry) "\<not> (is_auth_error e \<and> a = 0)" "retryable C e" "a < rc_maxRetries C"
      | (fail) "\<not> (is_auth_error e \<and> a = 0)" "\<not> (retryable C e \<and> a < rc_maxRetries C)" by blast
    then show ?thesis
    proof cases
      case refresh
      have "\<not> truthy (getToken (cl_auth st1))" using less.prems s(4) by (simp add: truthy_def)
      then show ?thesis
        using request_no_refresh [OF s(1) [unfolded Inl] refresh(1), of C] refresh(2) s(2,3)
        by (simp add: clear_session_def)
    next
      case retry
      have "rc_maxRetries C - Suc a < rc_maxRetries C - a" using retry(3) by simp
      from less.hyps [OF this, of "sleep C N a st1"] less.prems s(2,4)
      obtain r st' rqs where i: "makeRequestWithRetry C N ep (post_options None) (Suc a) (sleep C N a st1) = Some (r, st')"
        "cl_sent st' = cl_sent st @ rq # rqs" "list_all anonymous rqs" by (auto simp: sleep_def)
      have "makeRequestWithRetry C N ep (post_options None) a st = Some (r, st')"
        using request_retry [OF s(1) [unfolded Inl] retry] i(1) by (rule trans)
      then show ?thesis using i(2,3) s(3) by (intro exI [of _ r] exI [of _ st'] exI [of _ "rq # rqs"]) simp
    next
      case fail
      show ?thesis using request_fail [OF s(1) [unfolded Inl] fail] s(2,3) by simp
    qed
  qed
qed

text \<open>
  C40. The buttons of the warning clear the session storage before the shell logs out, so that no
  request of the logout carries the token: the server is never told which session ends.
\<close>

theorem logout_after_warning_anonymous:
  assumes "cl_auth (ap_client s) = sm_auth (modal_logout g)"
  shows "\<exists>s' rqs. app_handleLogout C N s = Some s' \<and> cl_sent (ap_client s') = cl_sent (ap_client s) @ rqs \<and>
    rqs \<noteq> [] \<and> list_all anonymous rqs \<and> \<not> ap_isAuthenticated s' \<and> ap_authScreen s' = Login_screen"
proof -
  have "getToken (cl_auth (ap_client s)) = None"
    unfolding assms by (simp add: modal_logout_def sm_handleLogout_def call_logout_def clear_storage_def
        getToken_storage map_get_def)
  then obtain r st' rqs where "makeRequestWithRetry C N ''/auth/logout'' (post_options None) 0 (ap_client s) = Some (r, st')"
    "cl_sent st' = cl_sent (ap_client s) @ rqs" "rqs \<noteq> []" "list_all anonymous rqs"
    using anonymous_request [of "ap_client s" C N "''/auth/logout''" 0] by blast
  then show ?thesis
    by (simp add: app_handleLogout_def logout_def api_post_def makeRequest_def clear_session_def)
qed

theorem logout_after_warning_anonymous_witness:
  "\<exists>rqs s'. app_handleLogout retryConfig (quiet_net (Fetch_failed []))
       (initial_app None ((new_client ())\<lparr>cl_auth := sm_auth (modal_logout (signed_in ''token''))\<rparr>)) = Some s' \<and>
     cl_sent (ap_client s') = rqs \<and> rqs \<noteq> [] \<and> list_all anonymous rqs"
proof -
  let ?s = "initial_app None ((new_client ())\<lparr>cl_auth := sm_auth (modal_logout (signed_in ''token''))\<rparr>)"
  have "cl_auth (ap_client ?s) = sm_auth (modal_logout (signed_in ''token''))" by (simp add: initial_app_def)
  from logout_after_warning_anonymous [OF this, of retryConfig "quiet_net (Fetch_failed [])"]
  show ?thesis by (auto simp: initial_app_def new_client_def)
qed

text \<open>
  The check on start settles its loading and lets nobody in but the holder of a stored, unexpired
  token, whom it leaves with a token from the server.
\<close>

theorem checkAuth_guards:
  assumes "checkAuth C N now s = Some s'"
  shows "\<not> ap_isLoading s' \<and> (ap_isAuthenticated s' \<longrightarrow> (\<exists>t. getToken (cl_auth (ap_client s)) = Some t \<and>
    t \<noteq> [] \<and> \<not> isTokenExpired now t) \<and> getToken (cl_auth (ap_client s')) \<noteq> None)"
proof (cases "truthy (getToken (cl_auth (ap_client s))) \<and> \<not> isTokenExpired now (the (getToken (cl_auth (ap_client s))))")
  case False
  then show ?thesis using assms by (auto simp: checkAuth_def Let_def)
next
  case True
  have t: "\<exists>t. getToken (cl_auth (ap_client s)) = Some t \<and> t \<noteq> [] \<and> \<not> isTokenExpired now t"
    using True by (auto simp: truthy_def split: option.splits)
  have st: "getToken (storeToken t None a) \<noteq> None" for t a
    by (simp add: storeToken_def Let_def getToken_def map_get_map_set truthy_def)
  obtain v st1 where v: "validateSession C N (ap_client s) = Some (v, st1)"
    using assms True by (auto simp: checkAuth_def Let_def bind_eq_Some_conv)
  show ?thesis
  proof (cases v)
    case False
    then show ?thesis using assms True v by (auto simp: checkAuth_def Let_def)
  next
    case valid: True
    then obtain r st2 where r: "refreshToken C N st1 = Some (r, st2)"
      using assms True v by (auto simp: checkAuth_def Let_def)
    show ?thesis
      using assms True v valid r t st
      by (cases "case r of Inl _ \<Rightarrow> None | Inr v \<Rightarrow> map_option (Pair v) (refreshed_token v)")
        (auto simp: checkAuth_def Let_def)
  qed
qed

theorem checkAuth_guards_witness:
  "checkAuth retryConfig (quiet_net (Fetch_failed [])) 0 (initial_app None (new_client ())) =
     Some ((initial_app None (new_client ()))\<lparr>ap_isLoading := False\<rparr>) \<and> \<not> ap_isLoading
     (the (checkAuth retryConfig (quiet_net (Fetch_failed [])) 0 (initial_app None (new_client ()))))"
proof -
  have e: "checkAuth retryConfig (quiet_net (Fetch_failed [])) 0 (initial_app None (new_client ())) =
     Some ((initial_app None (new_client ()))\<lparr>ap_isLoading := False\<rparr>)"
    by (simp add: checkAuth_def Let_def initial_app_def new_client_def fresh_session_def getToken_def map_get_def
        map_delete_def truthy_def)
  show ?thesis using checkAuth_guards [OF e] e by simp
qed

end
