(* ===== verification/Accounts_Page.thy ===== *)
theory Accounts_Page
  imports Onboarding Dashboard_Calculator
begin

text \<open>
  The accounts page (\<^verbatim>\<open>views/AccountsPage.tsx\<close>): investments and property entered by
  hand, with their forms, the rate an investment in another currency is converted with, and
  saving, editing and deleting; choosing the provider a connection is launched with; the summary of
  the connections. The services answer from a world; toasts and accounts-changed events are counted
  in the state.
\<close>

section \<open>Times and accounts\<close>

definition formatRelativeTime :: "(jstring \<Rightarrow> int option) \<Rightarrow> int \<Rightarrow> jstring \<Rightarrow> jstring" where
  "formatRelativeTime parse now stamp = (case parse stamp of None \<Rightarrow> ''Unknown''
     | Some timestamp \<Rightarrow>
       let diff = max 0 (now - timestamp); minute = 60 * 1000; hour = 60 * minute; day = 24 * hour;
           month = 30 * day; year = 365 * day;
           ago = (\<lambda>k :: int. int_str (js_round (of_int diff / of_int k)))
       in if diff < minute then ''just now''
          else if diff < hour then ago minute @ ''m ago''
          else if diff < day then ago hour @ ''h ago''
          else if diff < month then ago day @ ''d ago''
          else if diff < year then ago month @ ''mo ago''
          else ago year @ ''y ago'')"

definition parseAccountBalance :: "jsval \<Rightarrow> rat" where
  "parseAccountBalance value = fin_or_zero (case value of JNum n \<Rightarrow> n
     | _ \<Rightarrow> js_Number (if nullish value then JNum (Fin 0) else value))"

definition entered_by_hand :: "Account \<Rightarrow> bool" where
  "entered_by_hand account \<longleftrightarrow> \<not> truthy (acct_provider_connection_id account) \<and>
     \<not> truthy (acct_provider_account_id account)"

definition isManualInvestmentAccount :: "Account \<Rightarrow> bool" where
  "isManualInvestmentAccount account \<longleftrightarrow>
     acct_account_type account = ''investment'' \<and> entered_by_hand account"

definition isManualPropertyAccount :: "Account \<Rightarrow> bool" where
  "isManualPropertyAccount account \<longleftrightarrow>
     acct_account_type account \<in> set [''property'', ''real_estate'', ''loan''] \<and> entered_by_hand account"

definition formatManualInvestmentTitle :: "Account \<Rightarrow> jstring" where
  "formatManualInvestmentTitle account =
     str_or (map_option trim (acct_institution_name account))
       (str_or (Some (acct_name account)) ''Manual investment'')"

text \<open>\<open>bullet\<close> is the separator, a character beyond those of the model.\<close>

definition formatManualInvestmentDetail :: "jstring \<Rightarrow> Account \<Rightarrow> jstring" where
  "formatManualInvestmentDetail bullet account =
     (let parts = filter (\<lambda>p. p \<noteq> []) [trim (acct_name account), trim (acct_account_type account)]
      in if parts \<noteq> [] then join bullet parts else ''Manual investment'')"

datatype ManualAssetAccountType = Property_asset | Real_estate_asset | Loan_asset | Investment_asset

definition asset_type_code :: "ManualAssetAccountType \<Rightarrow> jstring" where
  "asset_type_code t = (case t of Property_asset \<Rightarrow> ''property'' | Real_estate_asset \<Rightarrow> ''real_estate''
     | Loan_asset \<Rightarrow> ''loan'' | Investment_asset \<Rightarrow> ''investment'')"

definition getManualPropertyInstitutionName :: "ManualAssetAccountType \<Rightarrow> jstring" where
  "getManualPropertyInstitutionName accountType =
     (if accountType = Loan_asset then ''Mortgage'' else ''Property'')"

section \<open>The forms\<close>

record ManualInvestmentFormState =
  mf_institution_name :: jstring
  mf_name :: jstring
  mf_balance_current :: jstring
  mf_currency :: DisplayCurrency
  mf_conversion_rate :: jstring
  mf_mask :: jstring

record ManualPropertyFormState =
  pf_name :: jstring
  pf_account_type :: ManualAssetAccountType
  pf_balance_current :: jstring

definition emptyManualInvestmentForm :: ManualInvestmentFormState where
  "emptyManualInvestmentForm = \<lparr>mf_institution_name = ''Robinhood'', mf_name = ''Brokerage'',
     mf_balance_current = [], mf_currency = USD, mf_conversion_rate = ''1'', mf_mask = []\<rparr>"

definition emptyManualPropertyForm :: ManualPropertyFormState where
  "emptyManualPropertyForm = \<lparr>pf_name = ''Primary Home'', pf_account_type = Property_asset,
     pf_balance_current = []\<rparr>"

record manual_page =
  mp_investments :: "Account list"
  mp_properties :: "Account list"
  mp_form :: ManualInvestmentFormState
  mp_propertyForm :: ManualPropertyFormState
  mp_editingId :: "jstring option"
  mp_editingPropertyId :: "jstring option"
  mp_saving :: bool
  mp_propertySaving :: bool
  mp_error :: "jstring option"
  mp_propertyError :: "jstring option"
  mp_rateLoading :: bool
  mp_rateError :: "jstring option"
  mp_rateDate :: "jstring option"
  mp_toast :: "jstring option"
  mp_changes :: nat

definition initial_accounts :: manual_page where
  "initial_accounts = \<lparr>mp_investments = [], mp_properties = [], mp_form = emptyManualInvestmentForm,
     mp_propertyForm = emptyManualPropertyForm, mp_editingId = None, mp_editingPropertyId = None,
     mp_saving = False, mp_propertySaving = False, mp_error = None, mp_propertyError = None,
     mp_rateLoading = False, mp_rateError = None, mp_rateDate = None, mp_toast = None, mp_changes = 0\<rparr>"

definition resetManualForm :: "manual_page \<Rightarrow> manual_page" where
  "resetManualForm s = s\<lparr>mp_editingId := None, mp_form := emptyManualInvestmentForm, mp_error := None\<rparr>"

definition resetManualPropertyForm :: "manual_page \<Rightarrow> manual_page" where
  "resetManualPropertyForm s = s\<lparr>mp_editingPropertyId := None, mp_propertyForm := emptyManualPropertyForm,
     mp_propertyError := None\<rparr>"

definition editManualInvestment :: "Account \<Rightarrow> manual_page \<Rightarrow> manual_page" where
  "editManualInvestment account s = s\<lparr>mp_editingId := Some (acct_id account), mp_error := None,
     mp_form := \<lparr>mf_institution_name = str_or (acct_institution_name account) ''Investment'',
       mf_name = acct_name account,
       mf_balance_current = num_str (parseAccountBalance (acct_balance_current account)),
       mf_currency = USD, mf_conversion_rate = ''1'', mf_mask = str_or (acct_mask account) []\<rparr>\<rparr>"

definition editManualProperty :: "Account \<Rightarrow> manual_page \<Rightarrow> manual_page" where
  "editManualProperty account s = s\<lparr>mp_editingPropertyId := Some (acct_id account), mp_propertyError := None,
     mp_propertyForm := \<lparr>pf_name = acct_name account,
       pf_account_type = (if acct_account_type account = ''loan'' then Loan_asset else Property_asset),
       pf_balance_current = num_str (parseAccountBalance (acct_balance_current account))\<rparr>\<rparr>"

definition choose_asset_type :: "ManualAssetAccountType \<Rightarrow> manual_page \<Rightarrow> manual_page" where
  "choose_asset_type t s = s\<lparr>mp_propertyForm := (mp_propertyForm s)\<lparr>pf_account_type := t,
     pf_name := (if t = Loan_asset then ''Primary Mortgage'' else pf_name (mp_propertyForm s))\<rparr>\<rparr>"

text \<open>\<^verbatim>\<open>x.toFixed(n)\<close> below the magnitude \<open>10^21\<close>.\<close>

definition to_fixed :: "nat \<Rightarrow> rat \<Rightarrow> jstring" where
  "to_fixed n q = (let k = nat (js_round (\<bar>q\<bar> * 10 ^ n)) in
     (if q < 0 then ''-'' else []) @ dec (k div 10 ^ n) @
       (if n = 0 then [] else ''.'' @ fixed n (k mod 10 ^ n)))"

text \<open>
  The effect of a change of the currency, in two steps: its start, and its answer unless the
  currency changed again meanwhile.
\<close>

definition begin_manual_rate :: "manual_page \<Rightarrow> manual_page" where
  "begin_manual_rate s = s\<lparr>mp_rateLoading := True, mp_rateError := None\<rparr>"

definition end_manual_rate :: "DisplayCurrency \<Rightarrow> exn + rat \<times> jstring option \<Rightarrow> manual_page \<Rightarrow> manual_page" where
  "end_manual_rate currency answer s = (case answer of
     Inr (rate, date) \<Rightarrow>
       let nativeToUsdRate = (if 0 < rate then 1 / rate else 1);
           form = (if mf_currency (mp_form s) = currency
             then (mp_form s)\<lparr>mf_conversion_rate := to_fixed 8 nativeToUsdRate\<rparr> else mp_form s)
       in s\<lparr>mp_form := form, mp_rateDate := date, mp_rateLoading := False\<rparr>
   | Inl _ \<Rightarrow> s\<lparr>mp_rateError := Some ''Could not load the currency rate.'', mp_rateLoading := False\<rparr>)"

section \<open>What the forms send\<close>

definition nonnegative :: "jsnum \<Rightarrow> rat option" where
  "nonnegative n = (case n of Fin q \<Rightarrow> if q < 0 then None else Some q | _ \<Rightarrow> None)"

definition manualInvestmentPayload :: "manual_page \<Rightarrow> ManualRequest option \<times> manual_page" where
  "manualInvestmentPayload s =
     (let form = mp_form s; institution = trim (mf_institution_name form); name = trim (mf_name form);
          balance = number_of_string (mf_balance_current form);
          conversionRate = number_of_string (str_or (Some (mf_conversion_rate form)) ''1'')
      in if institution = [] \<or> name = [] \<or> nonnegative balance = None \<or>
            nonnegative conversionRate = None \<or> nonnegative conversionRate = Some 0
         then (None, s\<lparr>mp_error := Some ''Enter an institution, account name, balance, and currency.''\<rparr>)
         else if mp_rateLoading s \<or> mp_rateError s \<noteq> None
         then (None, s\<lparr>mp_error := Some ''Wait for the currency rate to load before saving.''\<rparr>)
         else (Some \<lparr>mr_institution_name = institution, mr_name = name, mr_account_type = None,
             mr_balance_current = round2 (the (nonnegative balance) * the (nonnegative conversionRate)),
             mr_mask = (if trim (mf_mask form) = [] then None else Some (trim (mf_mask form)))\<rparr>, s))"

definition manualPropertyPayload :: "manual_page \<Rightarrow> ManualRequest option \<times> manual_page" where
  "manualPropertyPayload s =
     (let form = mp_propertyForm s; name = trim (pf_name form);
          balance = number_of_string (pf_balance_current form)
      in case (if name = [] then None else nonnegative balance) of
           None \<Rightarrow> (None, s\<lparr>mp_propertyError := Some ''Enter an account name and non-negative balance.''\<rparr>)
         | Some b \<Rightarrow> (Some \<lparr>mr_institution_name = getManualPropertyInstitutionName (pf_account_type form),
             mr_name = name, mr_account_type = Some (asset_type_code (pf_account_type form)),
             mr_balance_current = b, mr_mask = None\<rparr>, s))"

section \<open>Saving and deleting\<close>

record 'w manual_services =
  ms_accounts :: "'w \<Rightarrow> (exn + Account list) \<times> 'w"
  ms_saveInvestment :: "jstring option \<Rightarrow> ManualRequest \<Rightarrow> 'w \<Rightarrow> (exn + unit) \<times> 'w"
  ms_deleteInvestment :: "jstring \<Rightarrow> 'w \<Rightarrow> (exn + unit) \<times> 'w"
  ms_saveProperty :: "jstring option \<Rightarrow> ManualRequest \<Rightarrow> 'w \<Rightarrow> (exn + unit) \<times> 'w"
  ms_deleteProperty :: "jstring \<Rightarrow> 'w \<Rightarrow> (exn + unit) \<times> 'w"

definition loadManualInvestments :: "'w manual_services \<Rightarrow> manual_page \<times> 'w \<Rightarrow> manual_page \<times> 'w" where
  "loadManualInvestments M = (\<lambda>(s, w). case ms_accounts M w of
     (Inr accounts, w1) \<Rightarrow> (s\<lparr>mp_investments := filter isManualInvestmentAccount accounts,
       mp_properties := filter isManualPropertyAccount accounts\<rparr>, w1)
   | (Inl _, w1) \<Rightarrow> (s\<lparr>mp_investments := [], mp_properties := []\<rparr>, w1))"

definition accounts_changed :: "manual_page \<Rightarrow> manual_page" where
  "accounts_changed s = s\<lparr>mp_changes := Suc (mp_changes s)\<rparr>"

text \<open>
  The end of a change the server accepted, for investments and for property: the form is reset, the
  accounts are loaded and the other pages told.
\<close>

definition finish_change :: "'w manual_services \<Rightarrow> (manual_page \<Rightarrow> manual_page) \<Rightarrow> manual_page \<Rightarrow> 'w \<Rightarrow>
    manual_page \<times> 'w" where
  "finish_change M reset s w = apfst accounts_changed (loadManualInvestments M (reset s, w))"

definition saveManualInvestment :: "'w manual_services \<Rightarrow> manual_page \<times> 'w \<Rightarrow> manual_page \<times> 'w" where
  "saveManualInvestment M = (\<lambda>(s, w). case manualInvestmentPayload s of
     (None, s1) \<Rightarrow> (s1, w)
   | (Some payload, s1) \<Rightarrow>
       let s2 = s1\<lparr>mp_saving := True, mp_error := None\<rparr>;
           editing = (if truthy (mp_editingId s) then mp_editingId s else None)
       in apfst (\<lambda>s'. s'\<lparr>mp_saving := False\<rparr>) (case ms_saveInvestment M editing payload w of
            (Inr _, w1) \<Rightarrow> finish_change M resetManualForm (s2\<lparr>mp_toast := Some (if editing \<noteq> None
              then ''Investment balance updated'' else ''Investment account added'')\<rparr>) w1
          | (Inl _, w1) \<Rightarrow> (s2\<lparr>mp_error := Some ''Could not save this investment account.''\<rparr>, w1)))"

definition deleteManualInvestment :: "'w manual_services \<Rightarrow> Account \<Rightarrow> manual_page \<times> 'w \<Rightarrow> manual_page \<times> 'w" where
  "deleteManualInvestment M account = (\<lambda>(s, w).
     let s1 = s\<lparr>mp_saving := True, mp_error := None\<rparr> in
     apfst (\<lambda>s'. s'\<lparr>mp_saving := False\<rparr>) (case ms_deleteInvestment M (acct_id account) w of
       (Inr _, w1) \<Rightarrow> finish_change M (if mp_editingId s = Some (acct_id account) then resetManualForm else id)
         (s1\<lparr>mp_toast := Some ''Investment account removed''\<rparr>) w1
     | (Inl _, w1) \<Rightarrow> (s1\<lparr>mp_error := Some ''Could not remove this investment account.''\<rparr>, w1)))"

definition saveManualProperty :: "'w manual_services \<Rightarrow> manual_page \<times> 'w \<Rightarrow> manual_page \<times> 'w" where
  "saveManualProperty M = (\<lambda>(s, w). case manualPropertyPayload s of
     (None, s1) \<Rightarrow> (s1, w)
   | (Some payload, s1) \<Rightarrow>
       let s2 = s1\<lparr>mp_propertySaving := True, mp_propertyError := None\<rparr>;
           editing = (if truthy (mp_editingPropertyId s) then mp_editingPropertyId s else None)
       in apfst (\<lambda>s'. s'\<lparr>mp_propertySaving := False\<rparr>) (case ms_saveProperty M editing payload w of
            (Inr _, w1) \<Rightarrow> finish_change M resetManualPropertyForm (s2\<lparr>mp_toast := Some (if editing \<noteq> None
              then ''Manual asset updated''
              else if mr_account_type payload = Some ''loan'' then ''Manual liability added''
              else ''Manual asset added'')\<rparr>) w1
          | (Inl _, w1) \<Rightarrow> (s2\<lparr>mp_propertyError := Some ''Could not save this manual asset.''\<rparr>, w1)))"

definition deleteManualProperty :: "'w manual_services \<Rightarrow> Account \<Rightarrow> manual_page \<times> 'w \<Rightarrow> manual_page \<times> 'w" where
  "deleteManualProperty M account = (\<lambda>(s, w).
     let s1 = s\<lparr>mp_propertySaving := True, mp_propertyError := None\<rparr> in
     apfst (\<lambda>s'. s'\<lparr>mp_propertySaving := False\<rparr>) (case ms_deleteProperty M (acct_id account) w of
       (Inr _, w1) \<Rightarrow> finish_change M
         (if mp_editingPropertyId s = Some (acct_id account) then resetManualPropertyForm else id)
         (s1\<lparr>mp_toast := Some (if acct_account_type account = ''loan'' then ''Manual liability removed''
           else ''Manual asset removed'')\<rparr>) w1
     | (Inl _, w1) \<Rightarrow> (s1\<lparr>mp_propertyError := Some ''Could not remove this manual asset.''\<rparr>, w1)))"

definition manual_total :: "Account list \<Rightarrow> rat" where
  "manual_total accounts = reduce_sum (\<lambda>a. parseAccountBalance (acct_balance_current a)) accounts"

definition manualHomeEquity :: "manual_page \<Rightarrow> rat" where
  "manualHomeEquity s =
     manual_total (filter (\<lambda>a. acct_account_type a \<noteq> ''loan'') (mp_properties s)) -
     manual_total (filter (\<lambda>a. acct_account_type a = ''loan'') (mp_properties s))"

section \<open>The provider of a connection\<close>

record provider_page =
  pp_info :: provider_info
  pp_selecting :: "FinancialProvider option"
  pp_pending :: "FinancialProvider option"
  pp_launched :: "FinancialProvider list"
  pp_error :: "jstring option"

definition begin_select :: "FinancialProvider \<Rightarrow> provider_page \<Rightarrow> provider_page" where
  "begin_select provider s = s\<lparr>pp_selecting := Some provider\<rparr>"

definition end_select :: "FinancialProvider \<Rightarrow> exn + jstring option \<Rightarrow> provider_page \<Rightarrow> provider_page" where
  "end_select provider answer s = (case chooseProvider provider answer (pp_info s) of
     (Inr _, i) \<Rightarrow> s\<lparr>pp_info := i, pp_selecting := None\<rparr>
   | (Inl _, i) \<Rightarrow> s\<lparr>pp_info := i, pp_error := Some ''Failed to select provider'', pp_selecting := None\<rparr>)"

definition launch_effect :: "provider_page \<Rightarrow> provider_page" where
  "launch_effect s = (case pp_pending s of None \<Rightarrow> s
     | Some p \<Rightarrow> if selectedProvider (pp_info s) \<noteq> Some p \<or> pp_selecting s \<noteq> None then s
         else s\<lparr>pp_pending := None, pp_launched := pp_launched s @ [p]\<rparr>)"

text \<open>A click that launches a connection; a selection it needs starts at once.\<close>

definition handleConnectProvider :: "FinancialProvider \<Rightarrow> provider_page \<Rightarrow> provider_page" where
  "handleConnectProvider provider s =
     (if provider = Teller \<and> \<not> truthy (Option.bind (pi_catalogue (pp_info s)) tp_application_id)
      then s\<lparr>pp_error := Some ''Missing Teller application ID''\<rparr>
      else if selectedProvider (pp_info s) = Some provider
      then s\<lparr>pp_launched := pp_launched s @ [provider]\<rparr>
      else begin_select provider (s\<lparr>pp_pending := Some provider\<rparr>))"


section \<open>The amount that is sent\<close>

lemma number_of_point:
  assumes "0 < k" "b < 10 ^ k"
  shows "number_of_string (dec a @ CHR ''.'' # fixed k b) = Fin (of_nat (a * 10 ^ k + b) / 10 ^ k)"
proof -
  let ?s = "dec a @ CHR ''.'' # fixed k b"
  have dot: "\<not> is_digit (CHR ''.'')" "lower_char (CHR ''.'') = CHR ''.''"
    by (simp_all add: is_digit_eval lower_char_eval)
  obtain c r where c: "dec a = c # r" using dec_not_Nil by (metis list.exhaust)
  then have d: "is_digit c" "list_all is_digit r" using list_all_digit_dec [of a] by simp_all
  have "fixed k b \<noteq> []" using assms(1) by (metis length_fixed length_greater_0_conv)
  then have "is_digit (last ?s)"
    using all_digits_fixed [of k b] by (simp add: list_all_iff)
  then have t: "trim ?s = ?s" using c d by (intro trim_id) (auto simp: digit_not_space)
  have "toLowerCase (take 2 ?s) \<notin> {''0x'', ''0o'', ''0b''}"
  proof (cases r)
    case Nil
    then show ?thesis using c dot by (auto simp: numeral_2_eq_2)
  next
    case (Cons e r')
    then show ?thesis using c d digit_facts [of e] by (auto simp: numeral_2_eq_2)
  qed
  moreover have "?s \<noteq> ''Infinity''" "\<not> startsWith ?s ''-''" "\<not> startsWith ?s ''+''"
    using c digit_facts [OF d(1)] by (auto simp: startsWith_def)
  moreover have "parse_unsigned ?s = Some (of_nat (a * 10 ^ k + b) / 10 ^ k)"
    using assms(2) by (simp add: takeWhile_run [OF list_all_digit_dec dot(1)] all_digits all_digits_fixed
        parse_unsigned_def parse_exponent_def pow10_def startsWith_def digits_value_append
        digits_value_fixed Let_def)
  ultimately show ?thesis
    using c unfolding number_of_string_def t Let_def by (auto simp: parse_decimal_def)
qed

lemma number_of_to_fixed:
  assumes "0 \<le> q" "0 < k"
  shows "number_of_string (to_fixed k q) = Fin (of_int (js_round (q * 10 ^ k)) / 10 ^ k)"
proof -
  have "0 \<le> q * 10 ^ k" using assms(1) by simp
  then have "js_round 0 \<le> js_round (q * 10 ^ k)" by (rule js_round_mono)
  then have n: "0 \<le> js_round (q * 10 ^ k)" using js_round_of_int [of 0] by simp
  let ?n = "nat (js_round (q * 10 ^ k))"
  have "?n div 10 ^ k * 10 ^ k + ?n mod 10 ^ k = ?n" by (rule div_mult_mod_eq)
  moreover have "number_of_string (to_fixed k q) =
      Fin (of_nat (?n div 10 ^ k * 10 ^ k + ?n mod 10 ^ k) / 10 ^ k)"
    using number_of_point [of k "?n mod 10 ^ k" "?n div 10 ^ k"] assms
    by (simp add: to_fixed_def Let_def)
  ultimately show ?thesis using n by simp
qed

lemma nonnegative_Some: "nonnegative n = Some q \<longleftrightarrow> n = Fin q \<and> 0 \<le> q"
  by (auto simp: nonnegative_def split: jsnum.splits)

lemma investment_payload_sent:
  assumes "manualInvestmentPayload s = (Some p, s')"
  shows "s' = s \<and> \<not> mp_rateLoading s \<and> mp_rateError s = None \<and>
    (\<exists>b r. number_of_string (mf_balance_current (mp_form s)) = Fin b \<and> 0 \<le> b \<and>
      number_of_string (str_or (Some (mf_conversion_rate (mp_form s))) ''1'') = Fin r \<and> 0 < r \<and>
      mr_balance_current p = round2 (b * r))"
  using assms
  by (auto simp: manualInvestmentPayload_def Let_def nonnegative_def split: if_splits jsnum.splits)


section \<open>Runs of the investment form\<close>

text \<open>
  What happens to the form of an investment: fields are typed, a currency is chosen, an account is
  taken over for editing, the form is reset (its cross is clicked or a save went through), and the
  answer to the request for a rate arrives. The effect of the currency runs after each: a change
  cancels the request in flight and starts another. A run keeps that request and the rates answered.
\<close>

datatype form_event = Type_institution jstring | Type_name jstring | Type_balance jstring
  | Type_mask jstring | Choose_currency DisplayCurrency | Edit_account Account | Reset_form
  | Rate_answered "exn + rat \<times> jstring option"

type_synonym form_run = "manual_page \<times> DisplayCurrency option \<times> (DisplayCurrency \<times> rat) list"

abbreviation form_currency :: "manual_page \<Rightarrow> DisplayCurrency" where
  "form_currency s \<equiv> mf_currency (mp_form s)"

definition currency_effect :: "form_run \<Rightarrow> manual_page \<Rightarrow> form_run" where
  "currency_effect = (\<lambda>(s, asked, rates) s'.
     if form_currency s' = form_currency s then (s', asked, rates)
     else (begin_manual_rate s', Some (form_currency s'), rates))"

definition update_form :: "(ManualInvestmentFormState \<Rightarrow> ManualInvestmentFormState) \<Rightarrow> manual_page \<Rightarrow> manual_page" where
  "update_form f s = s\<lparr>mp_form := f (mp_form s)\<rparr>"

fun form_handle :: "form_event \<Rightarrow> form_run \<Rightarrow> form_run" where
  "form_handle (Type_institution x) (s, r) = currency_effect (s, r) (update_form (mf_institution_name_update (\<lambda>_. x)) s)"
| "form_handle (Type_name x) (s, r) = currency_effect (s, r) (update_form (mf_name_update (\<lambda>_. x)) s)"
| "form_handle (Type_balance x) (s, r) = currency_effect (s, r) (update_form (mf_balance_current_update (\<lambda>_. x)) s)"
| "form_handle (Type_mask x) (s, r) = currency_effect (s, r) (update_form (mf_mask_update (\<lambda>_. x)) s)"
| "form_handle (Choose_currency c) (s, r) = currency_effect (s, r) (update_form (mf_currency_update (\<lambda>_. c)) s)"
| "form_handle (Edit_account a) (s, r) = currency_effect (s, r) (editManualInvestment a s)"
| "form_handle Reset_form (s, r) = currency_effect (s, r) (resetManualForm s)"
| "form_handle (Rate_answered answer) (s, asked, rates) = (case asked of None \<Rightarrow> (s, asked, rates)
     | Some c \<Rightarrow> (end_manual_rate c answer s, None,
         (case answer of Inr (rate, _) \<Rightarrow> (c, rate) # rates | Inl _ \<Rightarrow> rates)))"

definition form_start :: form_run where
  "form_start = (begin_manual_rate initial_accounts, Some USD, [])"

definition own_rate :: "(DisplayCurrency \<times> rat) list \<Rightarrow> ManualInvestmentFormState \<Rightarrow> bool" where
  "own_rate rates f \<longleftrightarrow> (mf_currency f = USD \<and> mf_conversion_rate f = ''1'') \<or>
     (\<exists>rate. (mf_currency f, rate) \<in> set rates \<and>
        mf_conversion_rate f = to_fixed 8 (if 0 < rate then 1 / rate else 1))"

definition form_ok :: "form_run \<Rightarrow> bool" where
  "form_ok = (\<lambda>(s, asked, rates). case asked of
     Some c \<Rightarrow> c = form_currency s \<and> mp_rateLoading s
   | None \<Rightarrow> mp_rateError s = None \<longrightarrow> own_rate rates (mp_form s))"

lemmas form_defs = currency_effect_def update_form_def form_ok_def begin_manual_rate_def
  editManualInvestment_def resetManualForm_def emptyManualInvestmentForm_def own_rate_def

lemma form_handle_ok: "form_ok r \<Longrightarrow> form_ok (form_handle e r)"
proof (cases r)
  case (fields s asked rates)
  assume ok: "form_ok r"
  show ?thesis
  proof (cases e)
    case (Rate_answered a)
    show ?thesis
    proof (cases asked)
      case (Some c)
      then show ?thesis using ok fields Rate_answered
        by (cases a) (auto simp: form_ok_def own_rate_def end_manual_rate_def Let_def)
    qed (use ok fields Rate_answered in simp)
  qed (use ok fields in \<open>auto simp: form_defs split: option.splits if_splits\<close>)
qed

interpretation investment_form: event_machine form_handle "\<lambda>_ _. True" "\<lambda>r. r = form_start" form_ok
proof
  show "form_ok r" if "r = form_start" for r
    using that by (simp add: form_start_def form_defs initial_accounts_def)
qed (rule form_handle_ok)

text \<open>
  C11. However typing, choosing currencies, editing, resetting and the answers to the requests for a rate
  interleave, an investment is sent with the balance that was entered times a rate that was answered
  for its own currency (one over it, to eight places), or times one for dollars: never at the rate of
  another currency, and never while its rate is being loaded or could not be.
\<close>

theorem investment_sent_at_own_rate:
  assumes "fold form_handle es form_start = (s, asked, rates)"
    and "manualInvestmentPayload s = (Some p, s')"
  shows "asked = None \<and> (\<exists>b r. number_of_string (mf_balance_current (mp_form s)) = Fin b \<and> 0 \<le> b \<and>
    mr_balance_current p = round2 (b * r) \<and> 0 < r \<and>
    (form_currency s = USD \<and> r = 1 \<or> (\<exists>rate. (form_currency s, rate) \<in> set rates \<and>
      r = of_int (js_round ((if 0 < rate then 1 / rate else 1) * 10 ^ 8)) / 10 ^ 8)))"
proof -
  have ok: "form_ok (s, asked, rates)"
    using investment_form.invar_fold [of form_start es] assms(1) by simp
  obtain b r where p: "\<not> mp_rateLoading s" "mp_rateError s = None"
      "number_of_string (mf_balance_current (mp_form s)) = Fin b" "0 \<le> b"
      "number_of_string (str_or (Some (mf_conversion_rate (mp_form s))) ''1'') = Fin r" "0 < r"
      "mr_balance_current p = round2 (b * r)"
    using investment_payload_sent [OF assms(2)] by blast
  have a: "asked = None" and own: "own_rate rates (mp_form s)"
    using ok p(1,2) by (auto simp: form_ok_def split: option.splits)
  have "number_of_string ''1'' = Fin 1" using number_of_digits [of "''1''"] by (simp add: is_digit_eval digits_value_def code_at_def)
  then have one: "r = 1" if "mf_conversion_rate (mp_form s) = ''1''"
    using p(5) that by (simp add: str_or_def)
  have r8: "r = of_int (js_round (x * 10 ^ 8)) / 10 ^ 8" if "mf_conversion_rate (mp_form s) = to_fixed 8 x" "0 \<le> x" for x
    using p(5) that number_of_to_fixed [of x 8] by (simp add: str_or_def to_fixed_def Let_def)
  have "form_currency s = USD \<and> r = 1 \<or> (\<exists>rate. (form_currency s, rate) \<in> set rates \<and>
      r = of_int (js_round ((if 0 < rate then 1 / rate else 1) * 10 ^ 8)) / 10 ^ 8)"
    using own unfolding own_rate_def
  proof (elim disjE conjE exE)
    fix rate assume "(form_currency s, rate) \<in> set rates"
      "mf_conversion_rate (mp_form s) = to_fixed 8 (if 0 < rate then 1 / rate else 1)"
    then show ?thesis using r8 [of "if 0 < rate then 1 / rate else 1"] by auto
  qed (use one in simp)
  then show ?thesis using a p by blast
qed


theorem investment_sent_at_own_rate_witness:
  "\<exists>s p. fold form_handle [Rate_answered (Inr (1, None)), Choose_currency EUR, Type_balance ''10'',
      Rate_answered (Inr (1 / 2, None))] form_start = (s, None, [(EUR, 1 / 2), (USD, 1)]) \<and>
    manualInvestmentPayload s = (Some p, s) \<and> mr_balance_current p = 20"
proof -
  let ?es = "[Rate_answered (Inr (1, None)), Choose_currency EUR, Type_balance ''10'',
      Rate_answered (Inr (1 / 2, None))]"
  define s where "s = fst (fold form_handle ?es form_start)"
  have f: "fold form_handle ?es form_start = (s, None, [(EUR, 1 / 2), (USD, 1)])"
    and form: "mp_form s = emptyManualInvestmentForm\<lparr>mf_currency := EUR, mf_balance_current := ''10'',
      mf_conversion_rate := to_fixed 8 2\<rparr>" "\<not> mp_rateLoading s" "mp_rateError s = None"
    by (simp_all add: s_def form_start_def form_defs initial_accounts_def end_manual_rate_def Let_def)
  have ten: "number_of_string ''10'' = Fin 10"
    using number_of_digits [of "''10''"] by (simp add: is_digit_eval digits_value_def code_at_def)
  have two: "number_of_string (to_fixed 8 2) = Fin 2"
    using number_of_to_fixed [of 2 8] js_round_of_int [of 200000000] by simp
  have tr: "trim ''Robinhood'' = ''Robinhood''" "trim ''Brokerage'' = ''Brokerage''"
    by (simp_all add: trim_id is_space_eval)
  have p: "manualInvestmentPayload s = (Some \<lparr>mr_institution_name = ''Robinhood'', mr_name = ''Brokerage'',
      mr_account_type = None, mr_balance_current = round2 (10 * 2), mr_mask = None\<rparr>, s)"
    unfolding manualInvestmentPayload_def Let_def form(1)
    using ten two form(2,3) tr
    by (simp add: emptyManualInvestmentForm_def str_or_def to_fixed_def nonnegative_def Let_def trim_def trim_start_def)
  have "round2 (10 * 2) = (20 :: rat)" unfolding round2_def using js_round_of_int [of 2000] by simp
  moreover have "form_currency s = EUR" using form(1) by simp
  moreover obtain b r where "number_of_string (mf_balance_current (mp_form s)) = Fin b"
      "(20 :: rat) = round2 (b * r)"
    using investment_sent_at_own_rate [OF f p] \<open>round2 (10 * 2) = (20 :: rat)\<close> by auto
  ultimately show ?thesis using f p by (intro exI [of _ s] exI conjI) (assumption | simp only: ManualRequest.simps)+
qed

section \<open>What saving settles\<close>

text \<open>
  Saving an investment whose form is complete settles: the button is released, and when the server
  accepts it the form is empty again, no error is left and the other pages are told once, while when
  it refuses the form, the account being edited and the lists stay as they were, with an error.
\<close>

theorem saving_settles:
  assumes "manualInvestmentPayload s = (Some p, s)"
    and "ms_saveInvestment M (if truthy (mp_editingId s) then mp_editingId s else None) p w = (answer, w1)"
    and "saveManualInvestment M (s, w) = (s', w')"
  shows "\<not> mp_saving s' \<and> mp_rateLoading s' = mp_rateLoading s \<and> (case answer of
      Inr _ \<Rightarrow> mp_form s' = emptyManualInvestmentForm \<and> mp_editingId s' = None \<and> mp_error s' = None \<and>
        mp_changes s' = Suc (mp_changes s) \<and> mp_toast s' \<noteq> None
    | Inl _ \<Rightarrow> mp_form s' = mp_form s \<and> mp_editingId s' = mp_editingId s \<and> mp_changes s' = mp_changes s \<and>
        mp_investments s' = mp_investments s \<and> mp_error s' = Some ''Could not save this investment account.'' \<and>
        w' = w1)"
  using assms(2,3)
  by (cases answer)
    (auto simp: saveManualInvestment_def assms(1) Let_def finish_change_def loadManualInvestments_def
      accounts_changed_def resetManualForm_def apfst_def map_prod_def split: sum.splits prod.splits)

theorem saving_settles_witness:
  "\<exists>M s. \<not> mp_saving (fst (saveManualInvestment M (s, ()))) \<and>
     mp_error (fst (saveManualInvestment M (s, ()))) = Some ''Could not save this investment account.''"
proof -
  let ?M = "\<lparr>ms_accounts = \<lambda>w. (Inr [], w), ms_saveInvestment = \<lambda>_ _ w. (Inl (JsExn ''down''), w),
    ms_deleteInvestment = \<lambda>_ w. (Inr (), w), ms_saveProperty = \<lambda>_ _ w. (Inr (), w),
    ms_deleteProperty = \<lambda>_ w. (Inr (), w)\<rparr>"
  let ?s = "initial_accounts\<lparr>mp_form := emptyManualInvestmentForm\<lparr>mf_balance_current := ''10''\<rparr>\<rparr>"
  have n: "number_of_string ''10'' = Fin 10" "number_of_string ''1'' = Fin 1"
    using number_of_digits [of "''10''"] number_of_digits [of "''1''"]
    by (simp_all add: is_digit_eval digits_value_def code_at_def)
  have tr: "trim ''Robinhood'' = ''Robinhood''" "trim ''Brokerage'' = ''Brokerage''"
    by (simp_all add: trim_id is_space_eval)
  have "manualInvestmentPayload ?s = (Some \<lparr>mr_institution_name = ''Robinhood'', mr_name = ''Brokerage'',
      mr_account_type = None, mr_balance_current = round2 10, mr_mask = None\<rparr>, ?s)"
    unfolding manualInvestmentPayload_def Let_def
    using n tr by (simp add: initial_accounts_def emptyManualInvestmentForm_def str_or_def nonnegative_def
        trim_def trim_start_def)
  then obtain p where p: "manualInvestmentPayload ?s = (Some p, ?s)" by blast
  obtain s' w' where r: "saveManualInvestment ?M (?s, ()) = (s', w')" by (rule prod.exhaust)
  have "ms_saveInvestment ?M (if truthy (mp_editingId ?s) then mp_editingId ?s else None) p () =
      (Inl (JsExn ''down''), ())" by simp
  from saving_settles [OF p this r] show ?thesis using r by (intro exI [of _ ?M] exI [of _ ?s]) simp
qed

text \<open>
  A list loaded from the server splits into investments and property: no account is in both, and
  only accounts that were entered by hand are in either, so that deleting from these lists never
  reaches an account of a provider.
\<close>

theorem manual_lists_apart:
  "set (mp_investments (fst (loadManualInvestments M (s, w)))) \<inter>
     set (mp_properties (fst (loadManualInvestments M (s, w)))) = {} \<and>
   set (mp_investments (fst (loadManualInvestments M (s, w)))) \<union>
     set (mp_properties (fst (loadManualInvestments M (s, w)))) \<subseteq> Collect entered_by_hand"
  by (auto simp: loadManualInvestments_def isManualInvestmentAccount_def isManualPropertyAccount_def
      split: sum.splits prod.splits)

text \<open>
  A balance left empty, or made of spaces only, is not refused: it is sent as zero.
\<close>

theorem empty_balance_sent_as_zero:
  assumes "trim (pf_balance_current (mp_propertyForm s)) = []" "trim (pf_name (mp_propertyForm s)) \<noteq> []"
  shows "map_option mr_balance_current (fst (manualPropertyPayload s)) = Some 0"
  using assms by (simp add: manualPropertyPayload_def Let_def number_of_string_def nonnegative_def)

theorem empty_balance_sent_as_zero_witness:
  "map_option mr_balance_current (fst (manualPropertyPayload initial_accounts)) = Some 0"
proof (rule empty_balance_sent_as_zero)
  show "trim (pf_balance_current (mp_propertyForm initial_accounts)) = []"
    by (simp add: initial_accounts_def emptyManualPropertyForm_def trim_def trim_start_def)
  show "trim (pf_name (mp_propertyForm initial_accounts)) \<noteq> []"
    by (simp add: initial_accounts_def emptyManualPropertyForm_def trim_id is_space_eval)
qed


section \<open>Runs of the choice of a provider\<close>

datatype connect_event = Click_connect FinancialProvider | Click_card FinancialProvider
  | Select_answered FinancialProvider "exn + jstring option" | Catalogue_loaded "exn + provider_answer"

type_synonym connect_run = "provider_page \<times> FinancialProvider list"

text \<open>Each event is followed by the effect that launches what is pending; the clicks are kept.\<close>

fun connect_handle :: "connect_event \<Rightarrow> connect_run \<Rightarrow> connect_run" where
  "connect_handle (Click_connect p) (s, clicks) = (launch_effect (handleConnectProvider p s), p # clicks)"
| "connect_handle (Click_card p) (s, clicks) = (launch_effect (begin_select p s), clicks)"
| "connect_handle (Select_answered p answer) (s, clicks) = (launch_effect (end_select p answer s), clicks)"
| "connect_handle (Catalogue_loaded answer) (s, clicks) =
     (launch_effect (s\<lparr>pp_info := end_info answer (pp_info s)\<rparr>), clicks)"

definition initial_connect :: provider_page where
  "initial_connect = \<lparr>pp_info = \<lparr>pi_loading = True, pi_error = None, pi_catalogue = None\<rparr>,
     pp_selecting = None, pp_pending = None, pp_launched = [], pp_error = None\<rparr>"

text \<open>The launches so far, with the one that waits for its provider.\<close>

definition owed :: "provider_page \<Rightarrow> FinancialProvider list" where
  "owed s = pp_launched s @ (case pp_pending s of None \<Rightarrow> [] | Some p \<Rightarrow> [p])"

definition connect_ok :: "connect_run \<Rightarrow> bool" where
  "connect_ok r \<longleftrightarrow> (\<forall>q. count_list (owed (fst r)) q \<le> count_list (snd r) q)"

lemma owed_launch [simp]: "owed (launch_effect s) = owed s"
  by (simp add: owed_def launch_effect_def split: option.splits)

lemma owed_select [simp]: "owed (end_select p answer s) = owed s" "owed (begin_select p s) = owed s"
  by (simp_all add: owed_def end_select_def begin_select_def split: prod.splits sum.splits)

lemma owed_click: "count_list (owed (handleConnectProvider p s)) q \<le> count_list (p # owed s) q"
  by (auto simp: owed_def handleConnectProvider_def begin_select_def split: option.splits)

lemma connect_handle_ok: "connect_ok r \<Longrightarrow> connect_ok (connect_handle e r)"
proof (cases r)
  case (Pair s clicks)
  assume "connect_ok r"
  then have ok: "count_list (owed s) q \<le> count_list clicks q" for q
    using Pair by (simp add: connect_ok_def)
  show ?thesis
  proof (cases e)
    case (Click_connect p)
    have "count_list (owed (handleConnectProvider p s)) q \<le> count_list (p # clicks) q" for q
      using owed_click [of p s q] ok [of q] by (auto split: if_splits)
    then show ?thesis using Pair Click_connect by (simp add: connect_ok_def)
  next
    case (Catalogue_loaded answer)
    then show ?thesis using Pair ok by (simp add: connect_ok_def) (simp add: owed_def)
  qed (use Pair ok in \<open>simp_all add: connect_ok_def\<close>)
qed

interpretation connect_flow: event_machine connect_handle "\<lambda>_ _. True" "\<lambda>r. r = (initial_connect, [])" connect_ok
proof
  show "connect_ok r" if "r = (initial_connect, [])" for r
    using that by (simp add: connect_ok_def owed_def initial_connect_def)
qed (rule connect_handle_ok)

text \<open>
  However clicks, answers of the server (failures and providers that were not asked for included)
  and the loads of the catalogue interleave, a connection is launched at most once for every click
  that asked for its provider, and the click that is remembered is one of them.
\<close>

theorem launches_were_clicked:
  "count_list (owed (fst (fold connect_handle es (initial_connect, [])))) q
     \<le> count_list (snd (fold connect_handle es (initial_connect, []))) q"
  using connect_flow.invar_fold [of "(initial_connect, [])" es] by (simp add: connect_ok_def)

section \<open>The summary of the connections\<close>

record bank =
  bk_id :: jstring
  bk_name :: jstring
  bk_short :: jstring
  bk_connected :: bool
  bk_lastSync :: "jstring option"
  bk_accounts :: "conn_account list"

definition short_name :: "jstring \<Rightarrow> jstring" where
  "short_name name = toUpperCase (take 2 (join [] (map (take 1) (split_on (CHR '' '') name))))"

definition bank_of :: "PlaidConnection \<Rightarrow> bank" where
  "bank_of conn = \<lparr>bk_id = cn_connectionId conn, bk_name = cn_institutionName conn,
     bk_short = short_name (cn_institutionName conn), bk_connected = cn_isConnected conn,
     bk_lastSync = cn_lastSyncAt conn, bk_accounts = cn_accounts conn\<rparr>"

definition later_sync :: "(jstring \<Rightarrow> int option) \<Rightarrow> jstring option \<times> int \<Rightarrow> bank \<Rightarrow> jstring option \<times> int" where
  "later_sync parse latest b = (case bk_lastSync b of None \<Rightarrow> latest
     | Some stamp \<Rightarrow> if stamp = [] then latest else (case parse stamp of None \<Rightarrow> latest
         | Some t \<Rightarrow> if snd latest < t then (Some stamp, t) else latest))"

record page_summary =
  su_institutions :: nat
  su_connectedInstitutions :: nat
  su_accounts :: nat
  su_latestSync :: "jstring option"

definition page_summary_of :: "(jstring \<Rightarrow> int option) \<Rightarrow> manual_page \<Rightarrow> PlaidConnection list \<Rightarrow> page_summary" where
  "page_summary_of parse s connections = (let banks = map bank_of connections in
     \<lparr>su_institutions = length banks,
      su_connectedInstitutions = foldl (\<lambda>n b. if bk_connected b then n + 1 else n) 0 banks,
      su_accounts = foldl (\<lambda>n b. n + length (bk_accounts b)) 0 banks + length (mp_investments s) + length (mp_properties s),
      su_latestSync = fst (foldl (later_sync parse) (None, 0) banks)\<rparr>)"

definition pendingInstitutions :: "page_summary \<Rightarrow> int" where
  "pendingInstitutions u = max 0 (int (su_institutions u) - int (su_connectedInstitutions u))"

definition lastSyncValue :: "(jstring \<Rightarrow> int option) \<Rightarrow> int \<Rightarrow> bool \<Rightarrow> bool \<Rightarrow> page_summary \<Rightarrow> jstring" where
  "lastSyncValue parse now syncingAll flowLoading u = (if syncingAll then ''Syncing...''
     else if flowLoading then ''Loading...''
     else if truthy (su_latestSync u) then formatRelativeTime parse now (the (su_latestSync u))
     else ''Awaiting first sync'')"

definition manualConvertedUsd :: "ManualInvestmentFormState \<Rightarrow> rat" where
  "manualConvertedUsd form = (case (number_of_string (mf_balance_current form),
       number_of_string (str_or (Some (mf_conversion_rate form)) ''1'')) of
     (Fin b, Fin r) \<Rightarrow> b * r | _ \<Rightarrow> 0)"


abbreviation latest_of :: "(jstring \<Rightarrow> int option) \<Rightarrow> jstring option \<times> int \<Rightarrow> bank list \<Rightarrow> jstring option \<times> int" where
  "latest_of parse \<equiv> foldl (later_sync parse)"

lemma later_sync_cases: "later_sync parse latest a = latest \<or> (\<exists>stamp. bk_lastSync a = Some stamp \<and>
    fst (later_sync parse latest a) = Some stamp \<and> parse stamp = Some (snd (later_sync parse latest a)))"
  by (cases "bk_lastSync a") (simp_all add: later_sync_def split: option.splits)

lemma later_sync_fold:
  shows "snd latest \<le> snd (latest_of parse latest banks)"
    and "b \<in> set banks \<Longrightarrow> bk_lastSync b = Some stamp \<Longrightarrow> stamp \<noteq> [] \<Longrightarrow> parse stamp = Some t \<Longrightarrow>
      t \<le> snd (latest_of parse latest banks)"
    and "latest_of parse latest banks = latest \<or> (\<exists>b \<in> set banks. \<exists>stamp. bk_lastSync b = Some stamp \<and>
      fst (latest_of parse latest banks) = Some stamp \<and> parse stamp = Some (snd (latest_of parse latest banks)))"
proof (induction banks arbitrary: latest)
  case (Cons a banks)
  have up: "snd latest \<le> snd (later_sync parse latest a)" for latest
    by (auto simp: later_sync_def split: option.splits)
  {
    case 1
    show ?case using order_trans [OF up Cons(1) [of "later_sync parse latest a"]] by simp
  next
    case 2
    then consider "b = a" | "b \<in> set banks" by auto
    then show ?case
    proof cases
      case 1
      then have "t \<le> snd (later_sync parse latest a)"
        using 2 by (simp add: later_sync_def)
      then show ?thesis using Cons(1) [of "later_sync parse latest a"] by simp
    qed (use Cons(2) [of "later_sync parse latest a"] 2 in \<open>simp\<close>)
  next
    case 3
    show ?case
    proof (cases "latest_of parse (later_sync parse latest a) banks = later_sync parse latest a")
      case True
      then show ?thesis using later_sync_cases [of parse latest a] by fastforce
    qed (use Cons(3) [of "later_sync parse latest a"] in \<open>auto\<close>)
  }
qed simp_all

lemma connected_le: "foldl (\<lambda>n b. if bk_connected b then n + 1 else n) k banks = k + length (filter bk_connected banks)"
  by (induction banks arbitrary: k) simp_all

text \<open>
  The summary counts at most as many connected institutions as there are, and its last sync is the
  time of one of them and at least as late as the time of every other that can be read.
\<close>

theorem summary_latest:
  assumes "c \<in> set connections" "cn_lastSyncAt c = Some stamp" "parse stamp = Some t" "0 < t" "stamp \<noteq> []"
  shows "su_connectedInstitutions (page_summary_of parse s connections) \<le> su_institutions (page_summary_of parse s connections) \<and>
    (\<exists>latest t'. su_latestSync (page_summary_of parse s connections) = Some latest \<and> parse latest = Some t' \<and>
       t \<le> t' \<and> Some latest \<in> cn_lastSyncAt ` set connections)"
proof -
  let ?banks = "map bank_of connections"
  let ?r = "foldl (later_sync parse) (None, 0) ?banks"
  have "bank_of c \<in> set ?banks" using assms(1) by simp
  moreover have "bk_lastSync (bank_of c) = Some stamp" using assms(2) by (simp add: bank_of_def)
  ultimately have le: "t \<le> snd ?r" using later_sync_fold(2) assms(3,5) by blast
  then have "?r \<noteq> (None, 0)" using assms(4) by auto
  then obtain b u where "b \<in> set ?banks" "bk_lastSync b = Some u" "fst ?r = Some u" "parse u = Some (snd ?r)"
    using later_sync_fold(3) [of parse "(None, 0)" ?banks] by auto
  then have "su_latestSync (page_summary_of parse s connections) = Some u" "Some u \<in> cn_lastSyncAt ` set connections"
    by (auto simp: page_summary_of_def Let_def bank_of_def image_iff) metis
  moreover have "su_connectedInstitutions (page_summary_of parse s connections)
      \<le> su_institutions (page_summary_of parse s connections)"
    using length_filter_le [of bk_connected ?banks] by (simp only: page_summary_of_def Let_def connected_le page_summary.simps)
  ultimately show ?thesis using le \<open>parse u = Some (snd ?r)\<close> by blast
qed

theorem summary_latest_witness:
  "su_latestSync (page_summary_of (\<lambda>s. if s = ''b'' then Some 2 else Some 1) initial_accounts
     [c\<lparr>cn_lastSyncAt := Some ''a''\<rparr>, c\<lparr>cn_lastSyncAt := Some ''b''\<rparr>]) = Some ''b''"
proof -
  let ?parse = "\<lambda>s :: jstring. if s = ''b'' then Some 2 else Some (1 :: int)"
  let ?cs = "[c\<lparr>cn_lastSyncAt := Some ''a''\<rparr>, c\<lparr>cn_lastSyncAt := Some ''b''\<rparr>]"
  obtain u t' where u: "su_latestSync (page_summary_of ?parse initial_accounts ?cs) = Some u"
      "?parse u = Some t'" "2 \<le> t'"
    using summary_latest [of "c\<lparr>cn_lastSyncAt := Some ''b''\<rparr>" ?cs "''b''" ?parse 2 initial_accounts] by auto
  then have "u = ''b''" by (cases "u = ''b''") simp_all
  then show ?thesis using u(1) by simp
qed

end
