(* ===== verification/Category_Picker.thy ===== *)
theory Category_Picker
  imports Transaction_List Tag_Themes
begin

text \<open>
  The category menu of a transaction
  (\<^verbatim>\<open>features/transactions/components/CategoryDropdown.tsx\<close>): the pattern it suggests
  for a rule, the lists it offers, its position, and its operations with the answers to them.
\<close>

section \<open>The pattern suggested for a merchant\<close>

text \<open>
  The regular expressions for noise in front of a name: letters compared without case, digits, runs
  of white space that may or may not be empty. No item after a run can match white space, so that
  taking a whole run is what the engine ends with.
\<close>

datatype prefix_item = Exactly char | A_digit | Any_spaces | Some_spaces

fun strip_prefix :: "prefix_item list \<Rightarrow> jstring \<Rightarrow> jstring option" where
  "strip_prefix [] s = Some s"
| "strip_prefix (Exactly c # items) s = (case s of [] \<Rightarrow> None
     | d # s' \<Rightarrow> if upper_char c = upper_char d then strip_prefix items s' else None)"
| "strip_prefix (A_digit # items) s = (case s of [] \<Rightarrow> None
     | d # s' \<Rightarrow> if is_digit d then strip_prefix items s' else None)"
| "strip_prefix (Any_spaces # items) s = strip_prefix items (dropWhile is_space s)"
| "strip_prefix (Some_spaces # items) s = (case s of [] \<Rightarrow> None
     | d # s' \<Rightarrow> if is_space d then strip_prefix items (dropWhile is_space s') else None)"

abbreviation word_items :: "jstring \<Rightarrow> prefix_item list" where
  "word_items w \<equiv> map Exactly w"

definition on_date :: "prefix_item list" where
  "on_date = word_items '' on '' @ [A_digit, A_digit, Exactly (CHR ''/''), A_digit, A_digit]"

definition noise_prefixes :: "prefix_item list list" where
  "noise_prefixes = [
     word_items ''recurring payment authorized'' @ on_date @ [Any_spaces],
     word_items ''purchase authorized'' @ on_date @ [Any_spaces],
     word_items ''recurring payment authorized'' @ [Any_spaces],
     word_items ''purchase authorized'' @ [Any_spaces],
     word_items ''business to business ach'' @ [Any_spaces],
     word_items ''checkcard purchase'' @ [Any_spaces],
     word_items ''checkcard'' @ [Any_spaces],
     word_items ''pos debit'' @ [Any_spaces],
     word_items ''debit card purchase'' @ [Any_spaces],
     word_items ''purchase'' @ [Some_spaces],
     word_items ''aplpay'' @ [Some_spaces],
     word_items ''py'' @ [Any_spaces, Exactly (CHR ''*''), Any_spaces],
     word_items ''sq'' @ [Any_spaces, Exactly (CHR ''*''), Any_spaces],
     word_items ''tst'' @ [Any_spaces, Exactly (CHR ''*''), Any_spaces]]"

definition replace_prefix :: "prefix_item list \<Rightarrow> jstring \<Rightarrow> jstring" where
  "replace_prefix items s = (case strip_prefix items s of None \<Rightarrow> s | Some r \<Rightarrow> r)"

definition strip_noise :: "jstring \<Rightarrow> jstring" where
  "strip_noise s = trim (foldl (\<lambda>clean items. replace_prefix items clean) s noise_prefixes)"

text \<open>The tokens that end a name: store numbers, card masks, telephone numbers.\<close>

definition starts_number :: "jstring \<Rightarrow> bool" where
  "starts_number t \<longleftrightarrow> t \<noteq> [] \<and> is_digit (hd t)"

definition is_tail_token :: "jstring \<Rightarrow> bool" where
  "is_tail_token t \<longleftrightarrow> 3 \<le> length (takeWhile is_digit t)
     \<or> (startsWith t ''#'' \<and> starts_number (tl t))
     \<or> (startsWith (toLowerCase t) ''card'' \<and> starts_number (trim_start (drop 4 t)))
     \<or> list_ex (startsWith t) [''800-'', ''888-'', ''877-'', ''866-'']
     \<or> (startsWith (toLowerCase t) ''s'' \<and> 10 \<le> length (takeWhile is_digit (tl t)))"

text \<open>\<^verbatim>\<open>s.split(/\s+/)\<close> of a trimmed string.\<close>

definition split_spaces :: "jstring \<Rightarrow> jstring list" where
  "split_spaces s = (if s = [] then [[]] else split_runs is_space [] s)"

definition find_index :: "('a \<Rightarrow> bool) \<Rightarrow> 'a list \<Rightarrow> nat option" where
  "find_index p xs = (let i = length (takeWhile (\<lambda>x. \<not> p x) xs) in
     if i = length xs then None else Some i)"

definition strip_stars :: "jstring \<Rightarrow> jstring" where
  "strip_stars s = (let edge = (\<lambda>c. c = CHR ''*'' \<or> is_space c) in
     rev (dropWhile edge (rev (dropWhile edge s))))"

definition pattern_core :: "jstring \<Rightarrow> jstring" where
  "pattern_core clean = (let tokens = split_spaces clean in
     case find_index is_tail_token tokens of
       Some n \<Rightarrow> if 0 < n then join '' '' (take n tokens) else clean
     | None \<Rightarrow> clean)"

definition suggestPattern :: "jstring \<Rightarrow> jstring" where
  "suggestPattern name = (if trim name = [] then ''*''
     else let trimmed = strip_stars (trim (pattern_core (strip_noise (trim name))))
       in if trimmed = [] then ''*'' else ''*'' @ trimmed @ ''*'')"

section \<open>The lists of the menu\<close>

text \<open>\<^verbatim>\<open>Array.from(new Set([...base, ...custom]))\<close>, the subcategories of a user included.\<close>

definition combined_subs :: "jstring list \<Rightarrow> jstring \<Rightarrow> UserCategory list \<Rightarrow> jstring list" where
  "combined_subs base parent userCategories =
     set_of_list (base @ map uc_name (filter (is_child_of (toLowerCase parent)) userCategories))"

definition named_subcategory :: "jstring \<Rightarrow> bool" where
  "named_subcategory sub \<longleftrightarrow> \<not> startsWith (toLowerCase sub) ''other '' \<and>
     toLowerCase sub \<notin> set [''other'', ''uncategorized'', ''general merchandise'', ''general_merchandise'']"

definition ruleSubcategoriesList :: "jstring \<Rightarrow> UserCategory list \<Rightarrow> jstring list" where
  "ruleSubcategoriesList ruleCategory userCategories = (if ruleCategory = [] then []
     else filter named_subcategory (combined_subs
       (case find_major (toLowerCase ruleCategory) of None \<Rightarrow> [] | Some c \<Rightarrow> cat_subcategories c)
       ruleCategory userCategories))"

definition listed_category :: "UserCategory list \<Rightarrow> CategoryDefinition \<Rightarrow> CategoryDefinition" where
  "listed_category userCategories cat = CategoryDefinition (cat_name cat) (cat_type cat)
     (filter (\<lambda>sub. named_subcategory sub \<and> (if toLowerCase (cat_name cat) = ''groceries'' then True
          else toLowerCase (trim sub) \<noteq> toLowerCase (cat_name cat)))
        (combined_subs (cat_subcategories cat) (cat_name cat) userCategories))"

definition search_category :: "jstring \<Rightarrow> CategoryDefinition \<Rightarrow> CategoryDefinition option" where
  "search_category s cat =
     (let filteredSubs = filter (\<lambda>sub. str_includes (toLowerCase sub) s) (cat_subcategories cat)
      in if str_includes (toLowerCase (cat_name cat)) s then Some cat
         else if filteredSubs \<noteq> [] then Some (CategoryDefinition (cat_name cat) (cat_type cat) filteredSubs)
         else None)"

definition categoriesList :: "UserCategory list \<Rightarrow> jstring \<Rightarrow> CategoryDefinition list" where
  "categoriesList userCategories search =
     (let listed = map (listed_category userCategories) CATEGORIES_TAXONOMY; s = toLowerCase (trim search)
      in if s = [] then listed else List.map_filter (search_category s) listed)"

text \<open>\<open>bullet\<close> separates the two names on the button.\<close>

definition displayLabel :: "jstring \<Rightarrow> jstring \<Rightarrow> jstring option \<Rightarrow> jstring" where
  "displayLabel bullet currentCategory currentSubcategory =
     (let catName = formatCategoryName (Some (resolveMajorCategory (Some currentCategory) [])) in
      if truthy currentSubcategory \<and> toLowerCase (the currentSubcategory) \<noteq> toLowerCase catName
      then catName @ bullet @ the currentSubcategory else catName)"


text \<open>The icon of a category, by its name and colour: the first row whose words its name contains.\<close>

definition category_icons :: "(jstring list \<times> jstring) list" where
  "category_icons = [([''bill'', ''util''], ''Zap amber''), ([''childcare''], ''Heart rose''),
     ([''earned income''], ''Briefcase emerald''), ([''education''], ''GraduationCap blue''),
     ([''entertainment''], ''Film purple''), ([''food''], ''Utensils orange''), ([''gift''], ''Gift pink''),
     ([''grocer''], ''ShoppingCart lime''), ([''improvement''], ''Hammer yellow''),
     ([''management''], ''Home indigo''), ([''insurance''], ''ShieldCheck teal''),
     ([''medical''], ''Activity red''), ([''personal care''], ''Scissors violet''),
     ([''pet''], ''Sparkles amber''), ([''shopping''], ''ShoppingBag cyan''),
     ([''tax refund''], ''PiggyBank green''), ([''tax''], ''Scale red''),
     ([''transportation''], ''Car sky''), ([''transfer''], ''ArrowLeftRight slate''),
     ([''travel''], ''Plane indigo'')]"

definition getCategoryIcon :: "jstring \<Rightarrow> jstring" where
  "getCategoryIcon name = (case List.find (\<lambda>(ws, _). list_ex (str_includes (toLowerCase name)) ws) category_icons of
     Some (_, icon) \<Rightarrow> icon | None \<Rightarrow> ''Receipt slate'')"

section \<open>The menu and its operations\<close>

record picker =
  pk_open :: bool
  pk_search :: jstring
  pk_addingParent :: "jstring option"
  pk_newSub :: jstring
  pk_creatingRule :: bool
  pk_rulePattern :: jstring
  pk_ruleCategory :: jstring
  pk_ruleSubcategory :: jstring
  pk_saving :: bool
  pk_error :: "jstring option"

definition initial_picker :: picker where
  "initial_picker = \<lparr>pk_open = False, pk_search = [], pk_addingParent = None, pk_newSub = [],
     pk_creatingRule = False, pk_rulePattern = [], pk_ruleCategory = [], pk_ruleSubcategory = [],
     pk_saving = False, pk_error = None\<rparr>"

definition toggle_menu :: "picker \<Rightarrow> picker" where
  "toggle_menu s = s\<lparr>pk_open := \<not> pk_open s, pk_error := None\<rparr>"

text \<open>A press of the mouse outside the button and the menu.\<close>

definition press_outside :: "picker \<Rightarrow> picker" where
  "press_outside s = (if \<not> pk_open s then s
     else s\<lparr>pk_open := False, pk_search := [], pk_addingParent := None, pk_newSub := [],
       pk_creatingRule := False, pk_error := None\<rparr>)"

definition begin_saving :: "picker \<Rightarrow> picker" where
  "begin_saving s = s\<lparr>pk_saving := True, pk_error := None\<rparr>"

definition end_saving :: "(picker \<Rightarrow> picker) \<Rightarrow> (exn \<Rightarrow> jstring) \<Rightarrow> exn + unit \<Rightarrow> picker \<Rightarrow> picker" where
  "end_saving done_with message answer s = (case answer of
     Inr _ \<Rightarrow> (done_with s)\<lparr>pk_open := False, pk_saving := False\<rparr>
   | Inl x \<Rightarrow> s\<lparr>pk_error := Some (message x), pk_saving := False\<rparr>)"

definition handleSelect :: "exn + unit \<Rightarrow> picker \<Rightarrow> picker" where
  "handleSelect answer s = end_saving id (\<lambda>_. ''Failed to update category.'') answer (begin_saving s)"

definition pk_handleReset :: "exn + unit \<Rightarrow> picker \<Rightarrow> picker" where
  "pk_handleReset answer s = end_saving id (\<lambda>_. ''Failed to reset category.'') answer (begin_saving s)"

definition start_subcategory :: "jstring \<Rightarrow> picker \<Rightarrow> picker" where
  "start_subcategory parent s = s\<lparr>pk_addingParent := Some parent, pk_newSub := []\<rparr>"

definition cancel_subcategory :: "picker \<Rightarrow> picker" where
  "cancel_subcategory s = s\<lparr>pk_addingParent := None, pk_newSub := []\<rparr>"

text \<open>What is sent (the name and its parent), if anything, and the state after the answer.\<close>

definition handleCreateSubcategory ::
    "(jstring \<Rightarrow> jstring \<Rightarrow> exn + unit) \<Rightarrow> jstring \<Rightarrow> picker \<Rightarrow> (jstring \<times> jstring) option \<times> picker" where
  "handleCreateSubcategory onCreateAndSelect parentCategory s = (let name = trim (pk_newSub s) in
     if name = [] then (None, s)
     else (Some (name, parentCategory),
       end_saving cancel_subcategory (\<lambda>_. ''Failed to create sub-category.'')
         (onCreateAndSelect name parentCategory) (begin_saving s)))"

definition openRuleForm :: "jstring option \<Rightarrow> jstring \<Rightarrow> jstring option \<Rightarrow> picker \<Rightarrow> picker" where
  "openRuleForm merchantName currentCategory currentSubcategory s =
     s\<lparr>pk_creatingRule := True, pk_rulePattern := suggestPattern (default_to merchantName []),
       pk_ruleCategory := str_or (Some (resolveMajorCategory (Some currentCategory) [])) ''Shopping'',
       pk_ruleSubcategory := default_to currentSubcategory [], pk_error := None\<rparr>"

definition choose_rule_category :: "jstring \<Rightarrow> picker \<Rightarrow> picker" where
  "choose_rule_category c s = s\<lparr>pk_ruleCategory := c, pk_ruleSubcategory := []\<rparr>"

definition handleCreateRule ::
    "(jstring \<Rightarrow> jstring \<Rightarrow> jstring option \<Rightarrow> exn + unit) \<Rightarrow> picker \<Rightarrow>
     (jstring \<times> jstring \<times> jstring option) option \<times> picker" where
  "handleCreateRule onCreateRule s =
     (let pattern = trim (pk_rulePattern s); category = trim (pk_ruleCategory s);
          sub = trim (pk_ruleSubcategory s); subcategory = (if sub = [] then None else Some sub)
      in if pattern = [] \<or> category = [] then (None, s)
         else (Some (pattern, category, subcategory),
           end_saving (\<lambda>s. s\<lparr>pk_rulePattern := [], pk_ruleCategory := [], pk_ruleSubcategory := [],
             pk_creatingRule := False\<rparr>) exn_message (onCreateRule pattern category subcategory)
             (begin_saving s)))"

section \<open>The position of the menu\<close>

record rect =
  rc_top :: rat
  rc_bottom :: rat
  rc_left :: rat

definition updatePosition :: "rat \<Rightarrow> rat \<Rightarrow> rect \<Rightarrow> rat \<times> rat" where
  "updatePosition innerWidth innerHeight r =
     (let dropdownHeight = 440; dropdownWidth = 320; below = rc_bottom r + 6;
          y = (if innerHeight < below + dropdownHeight \<and> 0 < rc_top r - dropdownHeight - 6
            then rc_top r - dropdownHeight - 6 else below);
          x = (if innerWidth - 12 < rc_left r + dropdownWidth
            then max 12 (innerWidth - dropdownWidth - 12) else rc_left r)
      in (y, x))"

section \<open>The suggestion matches its own merchant\<close>

lemma strip_prefix_suffix: "strip_prefix items s = Some r \<Longrightarrow> suffix r s"
proof (induction items s arbitrary: r rule: strip_prefix.induct)
  case (4 items s)
  then have "suffix r (dropWhile is_space s)" by simp
  then show ?case using suffix_dropWhile suffix_order.trans by blast
next
  case (5 items s)
  then obtain d s' where s: "s = d # s'" "suffix r (dropWhile is_space s')"
    by (auto split: list.splits if_splits)
  then have "suffix r s'" using suffix_dropWhile suffix_order.trans by blast
  then show ?case using s by (simp add: suffix_ConsI)
qed (auto split: list.splits if_splits intro: suffix_ConsI)

lemma replace_prefix_suffix: "suffix (replace_prefix items s) s"
  by (cases "strip_prefix items s") (auto simp: replace_prefix_def strip_prefix_suffix)

lemma trim_sublist: "sublist (trim s) s"
proof -
  have "prefix (rev (dropWhile is_space (rev (trim_start s)))) (trim_start s)"
    using suffix_dropWhile [of is_space "rev (trim_start s)"] by (simp add: suffix_to_prefix)
  then have "sublist (trim s) (trim_start s)" by (simp add: trim_def prefix_imp_sublist)
  moreover have "sublist (trim_start s) s"
    by (simp add: trim_start_def suffix_dropWhile suffix_imp_sublist)
  ultimately show ?thesis using sublist_order.order_trans by blast
qed

lemma strip_stars_sublist: "sublist (strip_stars s) s"
proof -
  let ?e = "\<lambda>c. c = CHR ''*'' \<or> is_space c"
  have "prefix (rev (dropWhile ?e (rev (dropWhile ?e s)))) (dropWhile ?e s)"
    using suffix_dropWhile [of ?e "rev (dropWhile ?e s)"] by (simp add: suffix_to_prefix)
  then have "sublist (strip_stars s) (dropWhile ?e s)" by (simp add: strip_stars_def Let_def prefix_imp_sublist)
  moreover have "sublist (dropWhile ?e s) s" by (simp add: suffix_dropWhile suffix_imp_sublist)
  ultimately show ?thesis using sublist_order.order_trans by blast
qed

lemma strip_noise_sublist: "sublist (strip_noise s) s"
proof -
  have "suffix (foldl (\<lambda>clean items. replace_prefix items clean) s ps) s" for ps
  proof (induction ps arbitrary: s)
    case (Cons p ps)
    then show ?case using replace_prefix_suffix suffix_order.trans by fastforce
  qed simp
  then show ?thesis
    unfolding strip_noise_def using trim_sublist suffix_imp_sublist sublist_order.order_trans by blast
qed

text \<open>Names whose words are separated by one space each, as they may have at either end.\<close>

definition single_spaced :: "jstring \<Rightarrow> bool" where
  "single_spaced s \<longleftrightarrow> successively (\<lambda>c d. \<not> (is_space c \<and> is_space d)) s \<and>
     list_all (\<lambda>c. is_space c \<longrightarrow> c = CHR '' '') s"

lemma single_spaced_append:
  "single_spaced (a @ b) \<Longrightarrow> single_spaced a \<and> single_spaced b"
  by (auto simp: single_spaced_def successively_append_iff)

lemma single_spaced_sublist: "sublist t s \<Longrightarrow> single_spaced s \<Longrightarrow> single_spaced t"
  by (auto simp: sublist_def dest!: single_spaced_append)

lemma split_word:
  assumes "\<forall>c\<in>set w. \<not> p c" "w \<noteq> []"
  shows "split_runs p [] w = [w]" "p d \<Longrightarrow> split_runs p [] (w @ d # t) = w # split_runs p [] t"
  using assms split_runs_run [of w p "[]" "[]"] split_runs_run [of w p "[]" "d # t"] by simp_all

lemma join_split_spaces:
  assumes "single_spaced s" "s = [] \<or> \<not> is_space (hd s) \<and> \<not> is_space (last s)"
  shows "join '' '' (split_runs is_space [] s) = s"
  using assms
proof (induction s rule: length_induct)
  case (1 s)
  show ?case
  proof (cases "\<exists>c\<in>set s. is_space c")
    case False
    then show ?thesis using split_word(1) [of s is_space] by (cases "s = []") auto
  next
    case True
    then obtain w c t where s: "s = w @ c # t" "is_space c" "\<forall>x\<in>set w. \<not> is_space x"
      using split_list_first_prop [of s is_space] by blast
    have w: "w \<noteq> []" using s 1(3) by auto
    have "single_spaced (c # t)" using 1(2) single_spaced_append s(1) by blast
    then have cs: "c = CHR '' ''" "single_spaced t" "t = [] \<or> \<not> is_space (hd t)"
      using s(2) single_spaced_append [of "[c]" t] by (auto simp: single_spaced_def successively_Cons)
    have t: "t \<noteq> []" using 1(3) s(1,2) by auto
    then have "last s = last t" "length t < length s" using s(1) by simp_all
    then have j: "join '' '' (split_runs is_space [] t) = t" using 1 cs s(1) t by auto
    have "split_runs is_space [] s = w # split_runs is_space [] t"
      unfolding s(1) by (rule split_word(2) [OF s(3) w s(2)])
    moreover have "split_runs is_space [] t \<noteq> []" using j t by auto
    ultimately have "join '' '' (split_runs is_space [] s) = w @ '' '' @ t"
      using j by (cases "split_runs is_space [] t") simp_all
    then show ?thesis using s(1) cs(1) by simp
  qed
qed

lemma prefix_join: "prefix (join sep (take n ws)) (join sep ws)"
proof (induction sep ws arbitrary: n rule: join.induct)
  case (3 sep x y ys)
  show ?case
  proof (cases n)
    case (Suc m)
    show ?thesis
    proof (cases m)
      case (Suc k)
      then show ?thesis using \<open>n = Suc m\<close> "3.IH" [of m] by simp
    qed (use \<open>n = Suc m\<close> in simp)
  qed simp
qed (simp_all add: take_Cons split: nat.splits)

lemma trim_ends: "trim s = [] \<or> \<not> is_space (hd (trim s)) \<and> \<not> is_space (last (trim s))"
proof -
  let ?u = "dropWhile is_space (rev (trim_start s))"
  have "?u = [] \<or> \<not> is_space (hd ?u)" by (metis hd_dropWhile)
  then have l: "trim s = [] \<or> \<not> is_space (last (trim s))" by (simp add: trim_def last_rev)
  have "prefix (trim s) (trim_start s)"
    using suffix_dropWhile [of is_space "rev (trim_start s)"] by (simp add: suffix_to_prefix trim_def)
  then have "trim s = [] \<or> hd (trim s) = hd (trim_start s) \<and> trim_start s \<noteq> []"
    by (cases "trim s") (auto simp: prefix_def)
  then show ?thesis using l trim_start_no_lead by metis
qed

lemma pattern_core_sublist:
  assumes "single_spaced s"
  shows "sublist (pattern_core (trim s)) (trim s)"
proof (cases "trim s = []")
  case True
  then show ?thesis by (simp add: pattern_core_def split_spaces_def find_index_def Let_def)
next
  case False
  have "join '' '' (split_runs is_space [] (trim s)) = trim s"
    using single_spaced_sublist [OF trim_sublist assms] trim_ends by (intro join_split_spaces) auto
  then have "prefix (join '' '' (take n (split_runs is_space [] (trim s)))) (trim s)" for n
    using prefix_join [of "'' ''" n "split_runs is_space [] (trim s)"] by simp
  then show ?thesis
    using False by (auto simp: pattern_core_def split_spaces_def Let_def prefix_imp_sublist split: option.splits)
qed

lemma starred_matches:
  assumes "sublist u s" "s \<noteq> []" "list_all (\<lambda>c. \<not> line_end c) s"
  shows "matchGlob (''*'' @ u @ ''*'') s"
proof -
  obtain a b where s: "s = a @ u @ b" using assms(1) by (auto simp: sublist_def)
  have one: "glob_piece c [c]" if "\<not> line_end c" for c using that by (auto simp: glob_piece_def)
  have "list_all (\<lambda>c. \<not> line_end c) u" using assms(3) s by simp
  then have u: "list_all2 glob_piece u (map (\<lambda>c. [c]) u)"
    using one by (induction u) auto
  have "list_all2 glob_piece (''*'' @ u @ ''*'') ([a] @ map (\<lambda>c. [c]) u @ [b])"
    using u assms(3) s by (intro list_all2_appendI) (simp_all add: glob_piece_def)
  moreover have "s = concat ([a] @ map (\<lambda>c. [c]) u @ [b])" using s by simp
  ultimately show ?thesis
    using assms(2) by (simp only: matchGlob_def read_atoms_glob glob_language) blast
qed

lemma star_matches: "s \<noteq> [] \<Longrightarrow> list_all (\<lambda>c. \<not> line_end c) s \<Longrightarrow> matchGlob ''*'' s"
  unfolding matchGlob_def read_atoms_glob glob_language
  by (auto intro!: exI [of _ "[s]"] simp: glob_piece_def)

text \<open>
  C29. The pattern suggested for a merchant is one its own transactions match, whatever noise was
  stripped in front and whatever store number was cut behind, when its words are separated by single
  spaces.
\<close>

theorem suggestion_matches_merchant:
  assumes "single_spaced name" "name \<noteq> []"
  shows "matchGlob (suggestPattern name) name"
proof -
  have char_codes: "code_at (CHR '' '') = 32" by (simp add: code_at_def)
  have "line_end c \<Longrightarrow> is_space c \<and> c \<noteq> CHR '' ''" for c
    using char_codes by (auto simp: line_end_def is_space_def)
  then have ne: "list_all (\<lambda>c. \<not> line_end c) name"
    using assms(1) by (auto simp: single_spaced_def list_all_iff)
  let ?clean = "strip_noise (trim name)"
  let ?core = "pattern_core ?clean"
  have c: "sublist ?clean name"
    by (rule sublist_order.order_trans [OF strip_noise_sublist trim_sublist])
  then have "single_spaced ?clean" by (rule single_spaced_sublist [OF _ assms(1)])
  moreover have "trim ?clean = ?clean" by (simp add: strip_noise_def)
  ultimately have "sublist ?core ?clean" using pattern_core_sublist [of ?clean] by simp
  then have "sublist ?core name" using c by (rule sublist_order.order_trans)
  then have "sublist (trim ?core) name" by (rule sublist_order.order_trans [OF trim_sublist])
  then have "sublist (strip_stars (trim ?core)) name"
    by (rule sublist_order.order_trans [OF strip_stars_sublist])
  then have "matchGlob (''*'' @ strip_stars (trim ?core) @ ''*'') name"
    by (rule starred_matches [OF _ assms(2) ne])
  then show ?thesis
    using star_matches [OF assms(2) ne] unfolding suggestPattern_def Let_def by (simp only: split: if_split) blast
qed

theorem suggestion_matches_merchant_witness:
  "single_spaced ''SQ *BLUE BOTTLE 12345 SF'' \<and>
   matchGlob (suggestPattern ''SQ *BLUE BOTTLE 12345 SF'') ''SQ *BLUE BOTTLE 12345 SF''"
proof -
  have "single_spaced ''SQ *BLUE BOTTLE 12345 SF''" by (simp add: single_spaced_def is_space_eval)
  then show ?thesis using suggestion_matches_merchant [of "''SQ *BLUE BOTTLE 12345 SF''"] by simp
qed


text \<open>
  With two spaces in front of a store number that is cut, the words are joined by one space, and the
  pattern suggested for a merchant is not matched by the merchant's own transactions.
\<close>

theorem double_space_breaks_suggestion:
  "suggestPattern ''CAFE  ROMA 12345'' = ''*CAFE ROMA*'' \<and>
   \<not> matchGlob (suggestPattern ''CAFE  ROMA 12345'') ''CAFE  ROMA 12345''"
proof -
  have "strip_noise ''CAFE  ROMA 12345'' = ''CAFE  ROMA 12345''"
    by (simp add: strip_noise_def noise_prefixes_def replace_prefix_def upper_char_eval trim_id is_space_eval)
  then have "suggestPattern ''CAFE  ROMA 12345'' = ''*CAFE ROMA*''"
    by (simp add: suggestPattern_def pattern_core_def split_spaces_def find_index_def is_tail_token_def
        strip_stars_def starts_number_def trim_id is_space_eval is_digit_eval lower_char_eval startsWith_def Let_def)
  then show ?thesis
    by (simp add: matchGlob_def read_atoms_glob atom_of_def upper_char_eval line_end_def code_at_def)
qed

section \<open>What the menu offers\<close>

lemma combined_foldl:
  "foldl (\<lambda>s x. set_add x s) base (map uc_name (filter P us)) =
   foldl (\<lambda>acc uc. if P uc then set_add (uc_name uc) acc else acc) base us"
  by (induction us arbitrary: base) simp_all

lemma set_of_list_distinct: "distinct xs \<Longrightarrow> set_of_list xs = xs"
proof -
  have "distinct (acc @ xs) \<Longrightarrow> foldl (\<lambda>s x. set_add x s) acc xs = acc @ xs" for acc
    by (induction xs arbitrary: acc) (auto simp: set_add_def)
  then show "distinct xs \<Longrightarrow> set_of_list xs = xs" by (simp add: set_of_list_def)
qed

lemma combined_subs_eq:
  assumes "distinct base"
  shows "combined_subs base parent us =
    foldl (\<lambda>acc uc. if is_child_of (toLowerCase parent) uc then set_add (uc_name uc) acc else acc) base us"
  using set_of_list_distinct [OF assms]
  by (simp add: combined_subs_def set_of_list_def combined_foldl)

lemma named_kept:
  "named_subcategory sub \<and> (if nrm = ''groceries'' then True else toLowerCase (trim sub) \<noteq> nrm) \<longleftrightarrow>
   subcategory_kept nrm sub"
  by (auto simp: named_subcategory_def subcategory_kept_def)

lemma taxonomy_keys:
  "map (\<lambda>c. find_major (toLowerCase (trim (cat_name c)))) CATEGORIES_TAXONOMY = map Some CATEGORIES_TAXONOMY"
  "list_all (\<lambda>c. trim (cat_name c) = cat_name c \<and> distinct (cat_subcategories c)) CATEGORIES_TAXONOMY"
  by (simp_all add: CATEGORIES_TAXONOMY_def find_major_def lower_char_eval trim_id is_space_eval)

text \<open>
  With no search, the menu offers under every major category exactly what
  \<^verbatim>\<open>getSubcategoriesForCategory\<close> of the shared utilities offers for it, in the same order.
\<close>

theorem menu_agrees_with_utilities:
  "map (\<lambda>c. (cat_name c, cat_subcategories c)) (categoriesList us []) =
   map (\<lambda>n. (n, getSubcategoriesForCategory n us)) getAllMajorCategories"
proof -
  have "cat_subcategories (listed_category us c) = getSubcategoriesForCategory (cat_name c) us"
    if "c \<in> set CATEGORIES_TAXONOMY" for c
  proof -
    have f: "find_major (toLowerCase (trim (cat_name c))) = Some c"
      using taxonomy_keys(1) that by (simp only: map_eq_conv)
    have t: "trim (cat_name c) = cat_name c" "distinct (cat_subcategories c)"
      using taxonomy_keys(2) that by (auto simp: list_all_iff)
    show ?thesis
      using f t by (simp add: listed_category_def getSubcategoriesForCategory_def Let_def
          combined_subs_eq named_kept)
  qed
  then show ?thesis
    by (simp add: categoriesList_def getAllMajorCategories_def Let_def listed_category_def)
qed

text \<open>
  A search offers exactly the subcategories whose own name, or whose category's name, contains what
  was typed, whatever its case and the spaces around it.
\<close>

theorem search_finds_exactly:
  "(\<exists>c \<in> set (categoriesList us search). cat_name c = name \<and> sub \<in> set (cat_subcategories c)) \<longleftrightarrow>
   (\<exists>c \<in> set (categoriesList us []). cat_name c = name \<and> sub \<in> set (cat_subcategories c) \<and>
      (str_includes (toLowerCase name) (toLowerCase (trim search)) \<or>
       str_includes (toLowerCase sub) (toLowerCase (trim search))))"
proof -
  let ?s = "toLowerCase (trim search)"
  let ?l = "map (listed_category us) CATEGORIES_TAXONOMY"
  have "(\<exists>d. search_category ?s c = Some d \<and> cat_name d = name \<and> sub \<in> set (cat_subcategories d)) \<longleftrightarrow>
      cat_name c = name \<and> sub \<in> set (cat_subcategories c) \<and>
      (str_includes (toLowerCase name) ?s \<or> str_includes (toLowerCase sub) ?s)" for c
    by (cases c) (auto simp: search_category_def Let_def filter_empty_conv)
  then have "(\<exists>c \<in> set (List.map_filter (search_category ?s) ?l). cat_name c = name \<and> sub \<in> set (cat_subcategories c)) \<longleftrightarrow>
      (\<exists>c \<in> set ?l. cat_name c = name \<and> sub \<in> set (cat_subcategories c) \<and>
       (str_includes (toLowerCase name) ?s \<or> str_includes (toLowerCase sub) ?s))"
    by (auto simp: map_filter_def) (metis option.sel option.distinct(1))+
  moreover have "str_includes x []" for x by (simp add: str_includes_def)
  ultimately show ?thesis
    unfolding categoriesList_def Let_def by (cases "?s = []") simp_all
qed

text \<open>
  Submitting the form of a rule sends nothing when its pattern or category is blank; otherwise it
  settles: refused, the menu stays as it was with the reason shown; accepted, it closes with the form
  emptied. In no case is the menu left saving.
\<close>

theorem rule_form_settles:
  "case handleCreateRule send s of
     (None, s') \<Rightarrow> s' = s
   | (Some (pattern, category, sub), s') \<Rightarrow> pattern \<noteq> [] \<and> category \<noteq> [] \<and> \<not> pk_saving s' \<and>
       (case send pattern category sub of
          Inl x \<Rightarrow> s' = s\<lparr>pk_saving := False, pk_error := Some (exn_message x)\<rparr>
        | Inr _ \<Rightarrow> \<not> pk_open s' \<and> \<not> pk_creatingRule s' \<and> pk_error s' = None \<and> pk_rulePattern s' = [])"
  by (auto simp: handleCreateRule_def Let_def end_saving_def begin_saving_def split: sum.splits)

text \<open>
  The menu lies inside the window whenever the window is wide enough for it and one side of the
  button, below it or above it, has room for its height.
\<close>

theorem menu_inside_window:
  assumes "0 \<le> rc_top r" "rc_top r \<le> rc_bottom r" "12 \<le> rc_left r" "344 \<le> innerWidth"
    and "rc_bottom r + 446 \<le> innerHeight \<or> 446 < rc_top r" "rc_bottom r \<le> innerHeight"
    and "updatePosition innerWidth innerHeight r = (y, x)"
  shows "0 \<le> y \<and> y + 440 \<le> innerHeight \<and> 12 \<le> x \<and> x + 320 \<le> innerWidth - 12"
  using assms by (auto simp: updatePosition_def Let_def split: if_splits)

theorem menu_inside_window_witness:
  "fst (updatePosition 1000 800 \<lparr>rc_top = 700, rc_bottom = 720, rc_left = 900\<rparr>) + 440 \<le> 800"
  using menu_inside_window [of "\<lparr>rc_top = 700, rc_bottom = 720, rc_left = 900\<rparr>" 1000 800 254 668]
  by (simp add: updatePosition_def Let_def)

end
