(* ===== verification/Trends_Page.thy ===== *)
theory Trends_Page
  imports Analytics_State Provider_Services Dashboard_Calculator
begin

text \<open>
  The trends page (\<^verbatim>\<open>views/TrendsPage.tsx\<close>): the months of a range, the totals, rows
  and figures of the line chart, the choice of up to six categories, and the two loads with their
  cancellation. The amounts of the points are finite numbers; labels of months come from the
  formatter of the locale, a parameter.
\<close>

section \<open>Months\<close>

record trend_point =
  tp_month :: jstring
  tp_category :: jstring
  tp_amount :: rat

definition truncate_number :: "rat \<Rightarrow> int" where
  "truncate_number q = (if 0 \<le> q then \<lfloor>q\<rfloor> else \<lceil>q\<rceil>)"

text \<open>
  \<^verbatim>\<open>new Date(y, m - 1, 1)\<close>, the first of a month, as the number of its month: years from
  0 to 99 are those of the twentieth century, and a date outside the range of the engine is invalid.
\<close>

definition date_month :: "jsnum \<Rightarrow> jsnum \<Rightarrow> int option" where
  "date_month y m = (case (y, m) of
     (Fin y, Fin m) \<Rightarrow>
       let yi = truncate_number y; year = (if 0 \<le> yi \<and> yi \<le> 99 then 1900 + yi else yi);
           i = 12 * year + truncate_number (m - 1)
       in if - 3261848 \<le> i \<and> i \<le> 3309128 then Some i else None
   | _ \<Rightarrow> None)"

definition nth_number :: "jstring list \<Rightarrow> nat \<Rightarrow> jsnum" where
  "nth_number parts i = (if i < length parts then number_of_string (parts ! i) else NaN)"

definition month_of_key :: "jstring \<Rightarrow> int option" where
  "month_of_key key = (let parts = split_on (CHR ''-'') key in
     date_month (nth_number parts 0) (nth_number parts 1))"

definition month_key :: "int \<Rightarrow> jstring" where
  "month_key i = int_str (i div 12) @ ''-'' @ pad_start 2 (int_str (i mod 12 + 1))"

text \<open>The loop over the months.\<close>

function months_until :: "int \<Rightarrow> int \<Rightarrow> jstring list" where
  "months_until cursor finish =
     (if cursor \<le> finish then month_key cursor # months_until (cursor + 1) finish else [])"
  by pat_completeness auto
termination by (relation "measure (\<lambda>(cursor, finish). nat (finish + 1 - cursor))") auto

declare months_until.simps [simp del]

definition getMonthKeys :: "jstring option \<Rightarrow> jstring option \<Rightarrow> trend_point list \<Rightarrow> jstring list" where
  "getMonthKeys start end_date points =
     (let pointMonths = js_sort (\<le>) (map tp_month points);
          first = (case start of Some s \<Rightarrow> take 7 s | None \<Rightarrow> if pointMonths = [] then [] else hd pointMonths);
          final = (case end_date of Some s \<Rightarrow> take 7 s | None \<Rightarrow> if pointMonths = [] then [] else last pointMonths)
      in if first = [] \<or> final = [] then []
         else case (month_of_key first, month_of_key final) of
           (Some cursor, Some finish) \<Rightarrow> months_until cursor finish | _ \<Rightarrow> [])"

text \<open>\<open>intl\<close> formats a month; of an invalid date it throws, which \<open>None\<close> stands for.\<close>

definition formatMonth :: "(int \<Rightarrow> jstring) \<Rightarrow> jstring \<Rightarrow> jstring option" where
  "formatMonth intl month = map_option intl (month_of_key month)"

definition periodLabel :: "(int \<Rightarrow> jstring) \<Rightarrow> MonthYearSelection \<Rightarrow> jstring" where
  "periodLabel intl activePeriod = (case sel_month activePeriod of
     None \<Rightarrow> ''Full Year '' @ int_str (sel_year activePeriod)
   | Some m \<Rightarrow> intl (12 * sel_year activePeriod + m))"

section \<open>The line chart\<close>

abbreviation MAX_SELECTED_CATEGORIES :: nat where
  "MAX_SELECTED_CATEGORIES \<equiv> 6"

definition point_major :: "trend_point \<Rightarrow> jstring" where
  "point_major p = resolveMajorCategory (Some (tp_category p)) []"

definition categoryTotals :: "trend_point list \<Rightarrow> (jstring \<times> rat) list" where
  "categoryTotals points =
     js_sort (down_by snd)
       (foldl (\<lambda>totals p. map_add (point_major p) (tp_amount p) totals) [] points)"

text \<open>A row of the chart: its fields, the month and its label and a number for each category.\<close>

type_synonym chart_row = "(jstring \<times> jsval) list"

definition month_row :: "(int \<Rightarrow> jstring) \<Rightarrow> jstring \<Rightarrow> jstring \<times> chart_row" where
  "month_row intl month = (month, [(''month'', JStr month),
     (''label'', JStr (default_to (formatMonth intl month) []))])"

definition row_number :: "chart_row \<Rightarrow> jstring \<Rightarrow> rat" where
  "row_number row c = (case map_get row c of None \<Rightarrow> 0 | Some v \<Rightarrow> fin_or_zero (js_Number v))"

definition add_point :: "(rat \<Rightarrow> rat) \<Rightarrow> jstring list \<Rightarrow> (jstring \<times> chart_row) list \<Rightarrow> trend_point \<Rightarrow>
    (jstring \<times> chart_row) list" where
  "add_point conv selected rows p = (let c = point_major p in
     if c \<notin> set selected then rows
     else case map_get rows (tp_month p) of None \<Rightarrow> rows
       | Some row \<Rightarrow> map_set (tp_month p)
           (map_set c (JNum (Fin (row_number row c + conv (tp_amount p)))) row) rows)"

definition zero_category :: "(jstring \<times> chart_row) list \<Rightarrow> jstring \<Rightarrow> (jstring \<times> chart_row) list" where
  "zero_category rows c = map (\<lambda>(m, row). (m, map_set c (JNum (Fin 0)) row)) rows"

definition chartData :: "(int \<Rightarrow> jstring) \<Rightarrow> (rat \<Rightarrow> rat) \<Rightarrow> jstring list \<Rightarrow> jstring list \<Rightarrow>
    trend_point list \<Rightarrow> chart_row list" where
  "chartData intl conv monthKeys selected points =
     (let rows = foldl (\<lambda>m r. map_set (fst r) (snd r) m) [] (map (month_row intl) monthKeys);
          zeroed = foldl zero_category rows selected
      in map snd (foldl (add_point conv selected) zeroed points))"

definition selectedTotal :: "jstring list \<Rightarrow> trend_point list \<Rightarrow> rat" where
  "selectedTotal selected points = reduce_sum tp_amount (filter (\<lambda>p. point_major p \<in> set selected) points)"

definition monthlySelectedTotals :: "jstring list \<Rightarrow> chart_row list \<Rightarrow> rat list" where
  "monthlySelectedTotals selected data = map (\<lambda>row. reduce_sum (row_number row) selected) data"

definition activeMonthCount :: "rat list \<Rightarrow> nat" where
  "activeMonthCount totals = length (filter (\<lambda>t. 0 < t) totals)"

definition monthlyChange :: "rat list \<Rightarrow> rat option" where
  "monthlyChange totals = (let n = length totals; latest = (if 1 \<le> n then totals ! (n - 1) else 0);
       previous = (if 2 \<le> n then totals ! (n - 2) else 0)
     in if 0 < previous then Some ((latest - previous) / previous * 100) else None)"

definition peakIndex :: "rat list \<Rightarrow> nat" where
  "peakIndex totals = fold (\<lambda>i best. if totals ! best < totals ! i then i else best) [0..<length totals] 0"

definition peakLabel :: "rat \<Rightarrow> chart_row list \<Rightarrow> rat list \<Rightarrow> jsval" where
  "peakLabel spent data totals = (if 0 < spent \<and> peakIndex totals < length data
     then default_to (map_get (data ! peakIndex totals) ''label'') (JStr ''No data'') else JStr ''No data'')"

definition monthlyAverage :: "rat \<Rightarrow> nat \<Rightarrow> rat" where
  "monthlyAverage spent months = (if months \<noteq> 0 then spent / of_nat months else 0)"

section \<open>The choice of categories\<close>

record category_choice =
  cc_selected :: "jstring list"
  cc_touched :: bool

definition initial_choice :: category_choice where
  "initial_choice = \<lparr>cc_selected = [], cc_touched = False\<rparr>"

definition top_categories :: "trend_point list \<Rightarrow> jstring list" where
  "top_categories points = map fst (take MAX_SELECTED_CATEGORIES (categoryTotals points))"

text \<open>The effect of new points.\<close>

definition select_effect :: "trend_point list \<Rightarrow> category_choice \<Rightarrow> category_choice" where
  "select_effect points s = (if cc_touched s \<or> categoryTotals points = [] then s
     else s\<lparr>cc_selected := top_categories points\<rparr>)"

definition toggleCategory :: "jstring \<Rightarrow> category_choice \<Rightarrow> category_choice" where
  "toggleCategory category s = (let current = cc_selected s in
     s\<lparr>cc_touched := True, cc_selected :=
       (if category \<in> set current then filter (\<lambda>c. c \<noteq> category) current
        else if MAX_SELECTED_CATEGORIES \<le> length current then current
        else current @ [category])\<rparr>)"


definition choose_top :: "trend_point list \<Rightarrow> category_choice \<Rightarrow> category_choice" where
  "choose_top points s = s\<lparr>cc_touched := True, cc_selected := top_categories points\<rparr>"

definition clear_categories :: "category_choice \<Rightarrow> category_choice" where
  "clear_categories s = s\<lparr>cc_touched := True, cc_selected := []\<rparr>"

section \<open>The months of a selection\<close>

lemma months_until_eq: "months_until a b = map month_key [a..b]"
proof (induction a b rule: months_until.induct)
  case (1 cursor finish)
  then show ?case
    by (cases "cursor \<le> finish") (simp_all add: months_until.simps [of cursor] upto_rec1)
qed

lemma map_add_upto: "map ((+) a) [i..j] = [a + i..a + j]"
proof (induction i j rule: upto.induct)
  case (1 i j)
  then show ?case by (cases "i \<le> j") (simp_all add: upto_rec1 add.assoc)
qed

lemma month_of_date_key:
  assumes "100 \<le> y" "y < 10000" "0 \<le> m" "m < 12"
  shows "month_of_key (take 7 (date_key y m d)) = Some (12 * y + m)" "take 7 (date_key y m d) \<noteq> []"
proof -
  let ?Y = "fixed 4 (nat y)" and ?M = "fixed 2 (nat (m + 1))"
  have p: "pad_start 4 (int_str y) = ?Y" "pad_start 2 (int_str (m + 1)) = ?M"
    using assms pad_int_str [of 4 y] pad_int_str [of 2 "m + 1"] by simp_all
  then have k: "take 7 (date_key y m d) = ?Y @ CHR ''-'' # ?M" by (simp add: date_key_def)
  then show "take 7 (date_key y m d) \<noteq> []" by simp
  have s: "split_on (CHR ''-'') (take 7 (date_key y m d)) = [?Y, ?M]"
    unfolding k by (simp add: split_on_piece split_on_single hyphen_not_fixed)
  have "number_of_string ?Y = Fin (of_int y)" "number_of_string ?M = Fin (of_int (m + 1))"
    using assms number_of_fixed [of 4 "nat y"] number_of_fixed [of 2 "nat (m + 1)"] by simp_all
  moreover have "truncate_number (of_int k) = k" for k :: int
    by (simp add: truncate_number_def)
  moreover have "(of_int (m + 1) :: rat) - 1 = of_int m" by simp
  ultimately show "month_of_key (take 7 (date_key y m d)) = Some (12 * y + m)"
    using assms unfolding month_of_key_def s Let_def nth_number_def date_month_def by simp
qed

text \<open>
  The chart of a selected month has that month, and the chart of a whole year its twelve months in
  order, whatever points were loaded.
\<close>

theorem months_of_selection:
  assumes "100 \<le> sel_year s" "sel_year s < 10000" "\<And>m. sel_month s = Some m \<Longrightarrow> 0 \<le> m \<and> m < 12"
  shows "getMonthKeys (Some (fst (computeMonthRange s))) (Some (snd (computeMonthRange s))) points =
    (case sel_month s of Some m \<Rightarrow> [month_key (12 * sel_year s + m)]
     | None \<Rightarrow> map (\<lambda>m. month_key (12 * sel_year s + m)) [0..11])"
proof -
  let ?y = "sel_year s"
  have one: "fmt (localDate ?y m 1) = date_key ?y m 1" if "0 \<le> m" "m < 12" for m
    using fields_make_day [OF valid_first [OF that, of ?y]] by (simp add: fmt_def localDate_def date_key_def)
  have final: "\<exists>d. fmt (localDate ?y (m + 1) 0) = date_key ?y m d" if "0 \<le> m" "m < 12" for m
    using last_day_fields [OF that, of ?y] by (simp add: fmt_def localDate_def date_key_def) blast
  note key = month_of_date_key [OF assms(1,2)]
  show ?thesis
  proof (cases "sel_month s")
    case None
    obtain d where d: "fmt (localDate ?y (11 + 1) 0) = date_key ?y 11 d" using final [of 11] by auto
    have "getMonthKeys (Some (fst (computeMonthRange s))) (Some (snd (computeMonthRange s))) points =
        months_until (12 * ?y) (12 * ?y + 11)"
      using key [of 0 1] key [of 11 d] one [of 0] d None
      by (simp add: computeMonthRange_def getMonthKeys_def Let_def)
    also have "\<dots> = map month_key (map ((+) (12 * ?y)) [0..11])"
      unfolding months_until_eq map_add_upto by simp
    finally show ?thesis using None by simp
  next
    case (Some m)
    then have m: "0 \<le> m" "m < 12" using assms(3) by auto
    obtain d where d: "fmt (localDate ?y (m + 1) 0) = date_key ?y m d" using final [OF m] by blast
    show ?thesis
      using key [OF m, of 1] key [OF m, of d] one [OF m] d Some
      by (simp add: computeMonthRange_def getMonthKeys_def Let_def months_until_eq)
  qed
qed


theorem months_of_selection_witness:
  "length (getMonthKeys (Some (fst (computeMonthRange \<lparr>sel_year = 2024, sel_month = None\<rparr>)))
     (Some (snd (computeMonthRange \<lparr>sel_year = 2024, sel_month = None\<rparr>))) []) = 12"
  using months_of_selection [of "\<lparr>sel_year = 2024, sel_month = None\<rparr>" "[]"] by simp

section \<open>What the chart shows\<close>

text \<open>The number at a month and a category, and what the points say it should be.\<close>

definition cell :: "(jstring \<times> chart_row) list \<Rightarrow> jstring \<Rightarrow> jstring \<Rightarrow> rat" where
  "cell rows m c = (case map_get rows m of None \<Rightarrow> 0 | Some row \<Rightarrow> row_number row c)"

definition spent_at :: "(rat \<Rightarrow> rat) \<Rightarrow> trend_point list \<Rightarrow> jstring \<Rightarrow> jstring \<Rightarrow> rat" where
  "spent_at conv points m c =
     reduce_sum (\<lambda>p. conv (tp_amount p)) (filter (\<lambda>p. tp_month p = m \<and> point_major p = c) points)"

lemma map_keys_set: "k \<in> set (map fst m) \<Longrightarrow> map fst (map_set k v m) = map fst m"
  by (induction k v m rule: map_set.induct) auto

lemma map_get_key: "map_get m k = Some v \<Longrightarrow> k \<in> set (map fst m)"
  unfolding map_get_def by (metis domI dom_map_of_conv_image_fst set_map)

lemma row_number_set: "row_number (map_set c (JNum (Fin x)) row) c' = (if c' = c then x else row_number row c')"
  by (simp add: row_number_def map_get_map_set fin_or_zero_def)

lemma add_point_keys: "map fst (add_point conv selected rows p) = map fst rows"
  by (simp add: add_point_def Let_def map_keys_set [OF map_get_key] split: option.split)

lemma cell_add_point:
  assumes "m \<in> set (map fst rows)" "c \<in> set selected"
  shows "cell (add_point conv selected rows p) m c =
    cell rows m c + (if tp_month p = m \<and> point_major p = c then conv (tp_amount p) else 0)"
proof -
  have "map_get rows m \<noteq> None"
    using assms(1) unfolding map_get_def by (simp add: map_of_eq_None_iff)
  then show ?thesis using assms(2)
    by (auto simp: cell_def add_point_def Let_def map_get_map_set row_number_set split: option.splits)
qed

lemma cell_points:
  assumes "m \<in> set (map fst rows)" "c \<in> set selected"
  shows "map fst (foldl (add_point conv selected) rows points) = map fst rows \<and>
    cell (foldl (add_point conv selected) rows points) m c = cell rows m c + spent_at conv points m c"
  using assms(1)
proof (induction points arbitrary: rows)
  case (Cons p points)
  have "m \<in> set (map fst (add_point conv selected rows p))" using Cons.prems by (simp only: add_point_keys)
  from Cons.IH [OF this] show ?case
    using cell_add_point [OF Cons.prems assms(2), of conv p] by (auto simp: add_point_keys spent_at_def)
qed (simp add: spent_at_def)

lemma zero_category_keys: "map fst (zero_category rows d) = map fst rows"
  by (simp add: zero_category_def case_prod_beta comp_def)

lemma cell_zero_category: "cell (zero_category rows d) m c = (if c = d then 0 else cell rows m c)"
proof -
  have "map_get (zero_category rows d) m = map_option (map_set d (JNum (Fin 0))) (map_get rows m)"
    by (induction rows) (auto simp: map_get_def zero_category_def)
  then show ?thesis by (auto simp: cell_def row_number_set split: option.splits)
qed

lemma zero_rows:
  "map fst (foldl zero_category rows selected) = map fst rows \<and>
   (c \<in> set selected \<or> cell rows m c = 0 \<longrightarrow> cell (foldl zero_category rows selected) m c = 0)"
proof (induction selected arbitrary: rows)
  case (Cons d selected)
  show ?case
    using Cons.IH [of "zero_category rows d"] by (auto simp: zero_category_keys cell_zero_category)
qed simp

lemma month_rows:
  assumes "distinct keys"
  shows "foldl (\<lambda>m r. map_set (fst r) (snd r) m) [] (map (month_row intl) keys) = map (month_row intl) keys"
proof -
  have new: "k \<notin> set (map fst m) \<Longrightarrow> map_set k v m = m @ [(k, v)]" for k v and m :: "(jstring \<times> chart_row) list"
    by (induction k v m rule: map_set.induct) auto
  have "distinct (map fst acc @ keys) \<Longrightarrow>
      foldl (\<lambda>m r. map_set (fst r) (snd r) m) acc (map (month_row intl) keys) = acc @ map (month_row intl) keys" for acc
  proof (induction keys arbitrary: acc)
    case (Cons k keys)
    then have "map_set k (snd (month_row intl k)) acc = acc @ [month_row intl k]"
      using new [of k acc] by (simp add: month_row_def)
    moreover have "fst (month_row intl k) = k" by (simp add: month_row_def)
    ultimately show ?case using Cons.IH [of "acc @ [month_row intl k]"] Cons.prems by (simp add: month_row_def)
  qed simp
  then show ?thesis using assms by simp
qed

lemma chartData_rows:
  assumes "distinct keys"
  obtains rows where "chartData intl conv keys selected points = map snd rows" "map fst rows = keys"
    "\<And>m c. m \<in> set keys \<Longrightarrow> c \<in> set selected \<Longrightarrow> cell rows m c = spent_at conv points m c"
proof -
  let ?z = "foldl zero_category (map (month_row intl) keys) selected"
  let ?rows = "foldl (add_point conv selected) ?z points"
  have "map fst (map (month_row intl) keys) = keys" by (simp add: month_row_def comp_def)
  then have z: "map fst ?z = keys" using zero_rows [of "map (month_row intl) keys" selected] by simp
  have fst: "map fst ?rows = keys"
    using z by (induction points rule: rev_induct) (simp_all add: add_point_keys)
  have "cell ?rows m c = spent_at conv points m c" if mc: "m \<in> set keys" "c \<in> set selected" for m c
  proof -
    have "m \<in> set (map fst ?z)" using mc(1) unfolding z .
    from conjunct2 [OF cell_points [OF this mc(2), of conv points]]
    show ?thesis using zero_rows [of "map (month_row intl) keys" selected c m] mc(2) by simp
  qed
  then show ?thesis
    using that [of ?rows] fst by (simp add: chartData_def month_rows [OF assms] Let_def)
qed

text \<open>
  The chart has a row for every month of the range, in order, and the number it shows there for a
  chosen category is what the points of that month and category add up to, after conversion.
\<close>

theorem chart_shows_the_points:
  assumes "distinct keys" "i < length keys" "c \<in> set selected"
  shows "length (chartData intl conv keys selected points) = length keys \<and>
    row_number (chartData intl conv keys selected points ! i) c = spent_at conv points (keys ! i) c"
proof -
  obtain rows where r: "chartData intl conv keys selected points = map snd rows" "map fst rows = keys"
      "\<And>m c. m \<in> set keys \<Longrightarrow> c \<in> set selected \<Longrightarrow> cell rows m c = spent_at conv points m c"
    using chartData_rows [OF assms(1)] by metis
  have l: "i < length rows" "fst (rows ! i) = keys ! i"
    using r(2) assms(2) by (metis length_map, metis length_map nth_map)
  have "map_get rows (keys ! i) = Some (snd (rows ! i))"
    unfolding map_get_def using l r(2) assms(1) by (metis map_of_is_SomeI nth_mem prod.collapse)
  then have "row_number (snd (rows ! i)) c = cell rows (keys ! i) c" by (simp add: cell_def)
  then show ?thesis using r l assms(2,3) by (metis length_map nth_map nth_mem)
qed

theorem chart_shows_the_points_witness:
  "row_number (chartData (\<lambda>_. []) (\<lambda>x. 2 * x) [''2024-01''] [''Shopping'']
     [\<lparr>tp_month = ''2024-01'', tp_category = ''Shopping'', tp_amount = 5\<rparr>] ! 0) ''Shopping'' =
   spent_at (\<lambda>x. 2 * x) [\<lparr>tp_month = ''2024-01'', tp_category = ''Shopping'', tp_amount = 5\<rparr>] ''2024-01'' ''Shopping''"
  using chart_shows_the_points [of "[''2024-01'']" 0 "''Shopping''" "[''Shopping'']"] by simp


lemma categoryTotals_ok:
  "distinct (map fst (categoryTotals points)) \<and> sorted_wrt (down_by snd) (categoryTotals points) \<and>
   set (map fst (categoryTotals points)) = point_major ` set points \<and>
   (\<forall>c t. (c, t) \<in> set (categoryTotals points) \<longrightarrow> t = reduce_sum tp_amount (filter (\<lambda>p. point_major p = c) points))"
proof -
  let ?m = "foldl (\<lambda>totals p. map_add (point_major p) (tp_amount p) totals) [] points"
  have ok: "map_ok ?m \<and> fst ` set ?m = point_major ` set points \<and>
      (\<forall>c. default_to (map_get ?m c) 0 = reduce_sum tp_amount (filter (\<lambda>p. point_major p = c) points))"
  proof (induction points rule: rev_induct)
    case Nil
    show ?case by (simp add: map_ok_def map_get_def default_to_def)
  next
    case (snoc p points)
    have "default_to (map_get (map_add k x m) c) 0 = default_to (map_get m c) 0 + (if c = k then x else 0)"
      for k x c and m :: "(jstring, rat) js_map"
      by (simp add: map_add_def map_get_map_set default_to_def)
    moreover have "fst ` set (map_add k x m) = insert k (fst ` set m)" for k x and m :: "(jstring, rat) js_map"
      by (simp add: map_add_def)
    ultimately show ?case using snoc map_ok_add by auto
  qed
  have d: "distinct (map fst ?m)" using ok unfolding map_ok_def by blast
  have t: "t = reduce_sum tp_amount (filter (\<lambda>p. point_major p = c) points)" if ct: "(c, t) \<in> set ?m" for c t
  proof -
    have "map_get ?m c = Some t" unfolding map_get_def by (rule map_of_is_SomeI [OF d ct])
    then have "default_to (map_get ?m c) 0 = t" by (simp add: default_to_def)
    then show ?thesis using ok by metis
  qed
  have e: "set (categoryTotals points) = set ?m" "distinct (map fst (categoryTotals points)) = distinct (map fst ?m)"
    unfolding categoryTotals_def distinct_map set_js_sort distinct_js_sort by (rule refl)+
  have "sorted_wrt (down_by snd) (categoryTotals points)"
    unfolding categoryTotals_def by (rule down.sorted_js_sort)
  moreover have "set (map fst (categoryTotals points)) = point_major ` set points"
    unfolding set_map e(1) using ok by blast
  ultimately show ?thesis unfolding e using d t by blast
qed

text \<open>
  The categories offered are those of the points, each once, with the sum of its points, the largest
  first.
\<close>

theorem category_totals_ranked:
  "distinct (map fst (categoryTotals points)) \<and>
   sorted_wrt (\<lambda>a b. snd b \<le> snd a) (categoryTotals points) \<and>
   set (categoryTotals points) =
     (\<lambda>c. (c, reduce_sum tp_amount (filter (\<lambda>p. point_major p = c) points))) ` point_major ` set points"
proof -
  have ok: "distinct (map fst (categoryTotals points))" "sorted_wrt (down_by snd) (categoryTotals points)"
    "set (map fst (categoryTotals points)) = point_major ` set points"
    "(c, t) \<in> set (categoryTotals points) \<Longrightarrow> t = reduce_sum tp_amount (filter (\<lambda>p. point_major p = c) points)" for c t
    using categoryTotals_ok [of points] by blast+
  let ?sum = "\<lambda>c. reduce_sum tp_amount (filter (\<lambda>p. point_major p = c) points)"
  have same: "(fst e, ?sum (fst e)) = e" if "e \<in> set (categoryTotals points)" for e
    using that ok(4) [of "fst e" "snd e"] by (simp add: prod_eq_iff)
  have "set (categoryTotals points) = (\<lambda>c. (c, ?sum c)) ` set (map fst (categoryTotals points))"
    unfolding set_map image_image using same by simp
  then show ?thesis using ok(1,2) unfolding ok(3) down_by_def [abs_def] by blast
qed

section \<open>Runs of the choice\<close>

datatype choice_event = Points_loaded "trend_point list" | Toggled jstring | Top_clicked | Cleared

text \<open>New points run the effect; the button for the six largest uses the points of the moment.\<close>

fun choice_handle :: "choice_event \<Rightarrow> trend_point list \<times> category_choice \<Rightarrow> trend_point list \<times> category_choice" where
  "choice_handle (Points_loaded points) (_, s) = (points, select_effect points s)"
| "choice_handle (Toggled c) (points, s) = (points, toggleCategory c s)"
| "choice_handle Top_clicked (points, s) = (points, choose_top points s)"
| "choice_handle Cleared (points, s) = (points, clear_categories s)"

definition choice_ok :: "trend_point list \<times> category_choice \<Rightarrow> bool" where
  "choice_ok = (\<lambda>(points, s). distinct (cc_selected s) \<and> length (cc_selected s) \<le> MAX_SELECTED_CATEGORIES \<and>
     (\<not> cc_touched s \<and> points \<noteq> [] \<longrightarrow> cc_selected s = top_categories points))"

lemma top_categories_ok: "distinct (top_categories points) \<and> length (top_categories points) \<le> 6"
  using categoryTotals_ok [of points]
  by (simp add: top_categories_def take_map [symmetric] distinct_take)

lemma categoryTotals_empty: "categoryTotals points = [] \<longleftrightarrow> points = []"
  using categoryTotals_ok [of points] by (metis image_is_empty list.map_disc_iff set_empty)

lemma choice_handle_ok: "choice_ok ps \<Longrightarrow> choice_ok (choice_handle e ps)"
  by (cases ps; cases e) (auto simp: choice_ok_def select_effect_def toggleCategory_def choose_top_def
      clear_categories_def top_categories_ok categoryTotals_empty Let_def length_filter_le
      intro: le_trans [OF length_filter_le])

interpretation choice: event_machine choice_handle "\<lambda>_ _. True" "\<lambda>ps. ps = ([], initial_choice)" choice_ok
proof
  show "choice_ok ps" if "ps = ([], initial_choice)" for ps
    using that by (simp add: choice_ok_def initial_choice_def)
qed (rule choice_handle_ok)

text \<open>
  In every run at most six different categories are chosen, as many as there are colours; until the
  user chooses, they are the six largest of the points that are shown.
\<close>

theorem at_most_six_categories:
  assumes "fold choice_handle es ([], initial_choice) = (points, s)"
  shows "distinct (cc_selected s) \<and> length (cc_selected s) \<le> 6 \<and>
    (cc_touched s \<or> points = [] \<or> cc_selected s = top_categories points)"
  using choice.invar_fold [of "([], initial_choice)" es] assms by (auto simp: choice_ok_def)

theorem at_most_six_categories_witness:
  "length (cc_selected (snd (fold choice_handle [Toggled ''Pets'', Toggled ''Travel''] ([], initial_choice)))) = 2 \<and>
   distinct (cc_selected (snd (fold choice_handle [Toggled ''Pets'', Toggled ''Travel''] ([], initial_choice))))"
proof -
  have r: "fold choice_handle [Toggled ''Pets'', Toggled ''Travel''] ([], initial_choice) =
      ([], \<lparr>cc_selected = [''Pets'', ''Travel''], cc_touched = True\<rparr>)"
    by (simp add: toggleCategory_def initial_choice_def Let_def)
  show ?thesis using at_most_six_categories [OF r] unfolding r by simp
qed

section \<open>The peak\<close>

lemma peak_fold:
  assumes "n \<le> length xs" "0 < n"
  shows "fold (\<lambda>i best. if xs ! best < (xs ! i :: rat) then i else best) [0..<n] 0 < n \<and>
    (\<forall>j < n. xs ! j \<le> xs ! fold (\<lambda>i best. if xs ! best < xs ! i then i else best) [0..<n] 0)"
  using assms
proof (induction n)
  case (Suc n)
  show ?case
  proof (cases "n = 0")
    case False
    then show ?thesis using Suc by (auto simp: less_Suc_eq)
  qed simp
qed simp

text \<open>The month named as the peak is one with the largest total.\<close>

theorem peak_is_largest:
  assumes "totals \<noteq> []"
  shows "totals ! peakIndex totals = Max (set totals)"
proof -
  have p: "peakIndex totals < length totals" "j < length totals \<Longrightarrow> totals ! j \<le> totals ! peakIndex totals" for j
    using peak_fold [of "length totals" totals] assms by (auto simp: peakIndex_def)
  show ?thesis
    using p by (intro Max_eqI [symmetric]) (auto simp: in_set_conv_nth)
qed

theorem peak_is_largest_witness: "[1, 3, 2 :: rat] ! peakIndex [1, 3, 2] = 3"
  using peak_is_largest [of "[1, 3, 2]"] by simp


section \<open>The two loads\<close>

record trends_inputs =
  ti_filter :: account_filter
  ti_range :: "jstring \<times> jstring"

text \<open>
  The page with its loads: each keeps the inputs it was started for while it is in flight and not
  cancelled, which the cleanup of its effect does.
\<close>

record 't trends_view =
  tv_line :: bool
  tv_inputs :: trends_inputs
  tv_transactions :: "'t list"
  tv_sankeyLoading :: bool
  tv_sankeyRequest :: "trends_inputs option"
  tv_points :: "trend_point list"
  tv_lineLoading :: bool
  tv_lineRequest :: "trends_inputs option"
  tv_error :: "jstring option"

definition no_account_chosen :: "trends_inputs \<Rightarrow> bool" where
  "no_account_chosen i \<longleftrightarrow> 0 < length (allAccountIds (ti_filter i)) \<and> af_selected (ti_filter i) = []"

definition sankey_effect :: "'t trends_view \<Rightarrow> 't trends_view" where
  "sankey_effect s = (let i = tv_inputs s in
     if af_loading (ti_filter i) then s\<lparr>tv_sankeyRequest := None\<rparr>
     else if no_account_chosen i
     then s\<lparr>tv_transactions := [], tv_sankeyLoading := False, tv_sankeyRequest := None\<rparr>
     else s\<lparr>tv_sankeyLoading := True, tv_error := None, tv_sankeyRequest := Some i\<rparr>)"

definition line_effect :: "'t trends_view \<Rightarrow> 't trends_view" where
  "line_effect s = (let i = tv_inputs s in
     if \<not> tv_line s \<or> af_loading (ti_filter i) then s\<lparr>tv_lineRequest := None\<rparr>
     else if no_account_chosen i
     then s\<lparr>tv_points := [], tv_lineLoading := False, tv_lineRequest := None\<rparr>
     else s\<lparr>tv_lineLoading := True, tv_lineRequest := Some i\<rparr>)"

definition sankey_answer :: "exn + 't list \<Rightarrow> 't trends_view \<Rightarrow> 't trends_view" where
  "sankey_answer answer s = (if tv_sankeyRequest s = None then s
     else (case answer of Inr txs \<Rightarrow> s\<lparr>tv_transactions := txs\<rparr>
       | Inl x \<Rightarrow> s\<lparr>tv_transactions := [], tv_error := Some (exn_message x)\<rparr>)
       \<lparr>tv_sankeyLoading := False, tv_sankeyRequest := None\<rparr>)"

definition line_answer :: "exn + trend_point list \<Rightarrow> 't trends_view \<Rightarrow> 't trends_view" where
  "line_answer answer s = (if tv_lineRequest s = None then s
     else (case answer of Inr points \<Rightarrow> s\<lparr>tv_points := points\<rparr>
       | Inl x \<Rightarrow> s\<lparr>tv_points := [], tv_error := Some (exn_message x)\<rparr>)
       \<lparr>tv_lineLoading := False, tv_lineRequest := None\<rparr>)"

datatype 't trends_event = Inputs_changed trends_inputs | View_changed bool
  | Sankey_answered "exn + 't list" | Line_answered "exn + trend_point list"

fun trends_handle :: "'t trends_event \<Rightarrow> 't trends_view \<Rightarrow> 't trends_view" where
  "trends_handle (Inputs_changed i) s = line_effect (sankey_effect (s\<lparr>tv_inputs := i\<rparr>))"
| "trends_handle (View_changed line) s =
     (if line = tv_line s then s else line_effect (s\<lparr>tv_line := line\<rparr>))"
| "trends_handle (Sankey_answered a) s = sankey_answer a s"
| "trends_handle (Line_answered a) s = line_answer a s"

definition mounted_trends :: "trends_inputs \<Rightarrow> 't trends_view" where
  "mounted_trends i = line_effect (sankey_effect \<lparr>tv_line = False, tv_inputs = i, tv_transactions = [],
     tv_sankeyLoading = True, tv_sankeyRequest = None, tv_points = [], tv_lineLoading = False,
     tv_lineRequest = None, tv_error = None\<rparr>)"

definition trends_ok :: "'t trends_view \<Rightarrow> bool" where
  "trends_ok s \<longleftrightarrow>
     (if af_loading (ti_filter (tv_inputs s)) then tv_sankeyRequest s = None \<and> tv_lineRequest s = None
      else if no_account_chosen (tv_inputs s)
      then tv_sankeyRequest s = None \<and> tv_lineRequest s = None \<and> tv_transactions s = [] \<and>
        \<not> tv_sankeyLoading s \<and> (tv_line s \<longrightarrow> tv_points s = [] \<and> \<not> tv_lineLoading s)
      else tv_sankeyRequest s = (if tv_sankeyLoading s then Some (tv_inputs s) else None) \<and>
        (if tv_line s then tv_lineRequest s = (if tv_lineLoading s then Some (tv_inputs s) else None)
         else tv_lineRequest s = None))"

lemmas trends_defs = sankey_effect_def line_effect_def sankey_answer_def line_answer_def trends_ok_def Let_def

lemma inputs_ok: "trends_ok (line_effect (sankey_effect s))"
  by (simp add: trends_defs)

lemma view_ok: "trends_ok s \<Longrightarrow> trends_ok (line_effect (s\<lparr>tv_line := l\<rparr>))"
  unfolding trends_defs by (simp split: if_splits)

lemma sankey_answer_ok: "trends_ok s \<Longrightarrow> trends_ok (sankey_answer a s)"
  unfolding sankey_answer_def trends_ok_def by (cases a) (auto split: if_splits)

lemma line_answer_ok: "trends_ok s \<Longrightarrow> trends_ok (line_answer a s)"
  unfolding line_answer_def trends_ok_def by (cases a) (auto split: if_splits)

lemma trends_handle_ok: "trends_ok s \<Longrightarrow> trends_ok (trends_handle e s)"
  by (cases e) (simp_all add: inputs_ok view_ok sankey_answer_ok line_answer_ok)

interpretation trends: event_machine trends_handle "\<lambda>_ _. True" "\<lambda>s. \<exists>i. s = mounted_trends i" trends_ok
proof
  show "trends_ok s" if "\<exists>i. s = mounted_trends i" for s :: "'a trends_view"
    using that by (auto simp: mounted_trends_def inputs_ok)
qed (rule trends_handle_ok)

text \<open>
  However changes of the accounts, the range and the view interleave with answers, only a request
  made for the present inputs can change what is shown, a load is shown as running exactly while one
  is in flight, and nothing is shown when no account is chosen.
\<close>

theorem trends_show_present_inputs:
  assumes "fold trends_handle es (mounted_trends i0) = (s :: 't trends_view)" "\<not> af_loading (ti_filter (tv_inputs s))"
  shows "if no_account_chosen (tv_inputs s)
     then tv_transactions s = [] \<and> sankey_answer a s = s \<and> (tv_line s \<longrightarrow> tv_points s = [] \<and> line_answer b s = s)
     else tv_sankeyLoading s = (tv_sankeyRequest s = Some (tv_inputs s)) \<and>
       (tv_sankeyLoading s \<or> sankey_answer a s = s) \<and>
       (tv_line s \<longrightarrow> tv_lineLoading s = (tv_lineRequest s = Some (tv_inputs s))) \<and>
       (tv_line s \<and> tv_lineLoading s \<or> line_answer b s = s)"
proof -
  have "trends_ok s" unfolding assms(1) [symmetric] by (rule trends.invar_fold) auto
  then show ?thesis
    using assms(2) unfolding trends_ok_def sankey_answer_def line_answer_def by (auto split: if_splits)
qed

definition some_inputs :: trends_inputs where
  "some_inputs = \<lparr>ti_filter = initial_filter\<lparr>af_loading := False\<rparr>, ti_range = (''2024-01-01'', ''2024-01-31'')\<rparr>"

lemma some_inputs_ready: "\<not> af_loading (ti_filter some_inputs)" "\<not> no_account_chosen some_inputs"
  by (simp_all add: some_inputs_def no_account_chosen_def allAccountIds_def initial_filter_def)

theorem trends_show_present_inputs_witness:
  "tv_transactions (fold trends_handle [Sankey_answered (Inr [1 :: nat]), Sankey_answered (Inr [2])]
     (mounted_trends some_inputs)) = [1]"
proof -
  let ?s = "fold trends_handle [Sankey_answered (Inr [1 :: nat])] (mounted_trends some_inputs)"
  have s: "\<not> af_loading (ti_filter (tv_inputs ?s))" "\<not> no_account_chosen (tv_inputs ?s)"
    "\<not> tv_sankeyLoading ?s" "tv_transactions ?s = [1]"
    using some_inputs_ready by (simp_all add: mounted_trends_def trends_defs)
  then have "sankey_answer (Inr [2]) ?s = ?s"
    using trends_show_present_inputs [OF refl s(1), of "Inr [2]"] by simp
  then show ?thesis using s(4) by simp
qed

text \<open>
  The error of a failed load of the line chart stays after the chart was opened again and loaded:
  only the other load clears it.
\<close>

theorem stale_line_error:
  fixes s :: "'t trends_view"
  assumes "\<not> af_loading (ti_filter (tv_inputs s))" "\<not> no_account_chosen (tv_inputs s)" "\<not> tv_line s"
  shows "tv_error (fold trends_handle [View_changed True, Line_answered (Inl x), View_changed False,
      View_changed True, Line_answered (Inr points)] s) = Some (exn_message x) \<and>
    tv_points (fold trends_handle [View_changed True, Line_answered (Inl x), View_changed False,
      View_changed True, Line_answered (Inr points)] s) = points"
  using assms by (simp add: trends_defs)

theorem stale_line_error_witness:
  "tv_error (fold trends_handle [View_changed True, Line_answered (Inl (JsExn ''down'')), View_changed False,
      View_changed True, Line_answered (Inr [])] (mounted_trends some_inputs :: nat trends_view)) = Some ''down''"
proof -
  have "tv_inputs (mounted_trends some_inputs :: nat trends_view) = some_inputs"
    "\<not> tv_line (mounted_trends some_inputs :: nat trends_view)"
    by (simp_all add: mounted_trends_def trends_defs)
  then show ?thesis
    using stale_line_error [of "mounted_trends some_inputs :: nat trends_view" "JsExn ''down''" "[]"]
      some_inputs_ready by (simp add: exn_message_def)
qed

end
