(* ===== verification/Budgets_Page.thy ===== *)
theory Budgets_Page
  imports Accounts_Page Budget_Book
begin

text \<open>
  The budgets page (\<^verbatim>\<open>views/BudgetsPage.tsx\<close>) with its form, its list and the
  progress of a budget (\<^verbatim>\<open>features/budgets/components/\<close>) and the accents of its cards
  (\<^verbatim>\<open>components/widgets/HeroStatCard.tsx\<close>). The book of budgets it works on is
  \<open>budget_book\<close>; a request to the server begins and ends in two steps.
\<close>

section \<open>The cards\<close>

datatype Accent = Emerald | Sky | Violet | Amber | Slate | Rose

datatype Tone = Success | Info | Warning | Danger

datatype HeroPill = Category_pill jstring jstring | Semantic_pill jstring Tone

definition accentFromIndex :: "int option \<Rightarrow> Accent" where
  "accentFromIndex index = (case index of None \<Rightarrow> Emerald
     | Some i \<Rightarrow> if i < 1 then Emerald
         else if i mod 4 = 1 then Emerald else if i mod 4 = 2 then Sky
         else if i mod 4 = 3 then Violet else Amber)"

definition category_pills :: "(jstring \<Rightarrow> jstring \<Rightarrow> bool) \<Rightarrow> jstring list \<Rightarrow> HeroPill list" where
  "category_pills lc categories =
     map (\<lambda>(raw, label). Category_pill label raw)
       (js_sort (\<lambda>a b. lc (snd a) (snd b))
         (map (\<lambda>c. (c, formatCategoryName (Some c))) (set_of_list categories)))"

definition activeBudgetPills :: "(jstring \<Rightarrow> jstring \<Rightarrow> bool) \<Rightarrow> BudgetStats \<Rightarrow> HeroPill list" where
  "activeBudgetPills lc stats = category_pills lc (bs_activeBudgetCategories stats)"

definition overBudgetPills :: "(jstring \<Rightarrow> jstring \<Rightarrow> bool) \<Rightarrow> BudgetStats \<Rightarrow> ComputedBudget list \<Rightarrow> HeroPill list" where
  "overBudgetPills lc stats budgets =
     (let overBudgetCategoryPills = category_pills lc (bs_overBudgetCategories stats) in
      if overBudgetCategoryPills \<noteq> [] then overBudgetCategoryPills
      else if bs_overBudgetCount stats = 0 \<and> budgets \<noteq> []
      then [Semantic_pill ''All budgets on track'' Success] else [])"

datatype UtilizationZone = Healthy | On_Track | Overextended | Critical

definition utilizationPercent :: "BudgetStats \<Rightarrow> rat" where
  "utilizationPercent stats = (if 0 < bs_totalBudgeted stats
     then bs_totalSpent stats / bs_totalBudgeted stats else 0) * 100"

definition utilizationValue :: "rat \<Rightarrow> jstring" where
  "utilizationValue percent = (if 100 < percent then to_fixed 1 (percent / 100) @ ''x''
     else to_fixed 0 percent @ ''%'')"

definition utilizationSuffix :: "rat \<Rightarrow> jstring" where
  "utilizationSuffix percent = (if 100 < percent then ''over budget'' else ''of budget'')"

definition getUtilizationZone :: "rat \<Rightarrow> UtilizationZone" where
  "getUtilizationZone percent = (if percent \<le> 80 then Healthy else if percent \<le> 100 then On_Track
     else if percent \<le> 150 then Overextended else Critical)"

definition zone_tone :: "UtilizationZone \<Rightarrow> Tone" where
  "zone_tone z = (case z of Healthy \<Rightarrow> Success | On_Track \<Rightarrow> Info | Overextended \<Rightarrow> Warning | Critical \<Rightarrow> Danger)"

text \<open>The bar of a budget: percent used, width of the bar, whether over, and what is left or over.\<close>

record budget_bar =
  bb_percent :: rat
  bb_width :: rat
  bb_isOver :: bool
  bb_rest :: rat

definition BudgetProgress :: "rat \<Rightarrow> rat \<Rightarrow> budget_bar" where
  "BudgetProgress amount spent = (let percent = (if 0 < amount then spent / amount * 100 else 0);
       isOver = (amount < spent)
     in \<lparr>bb_percent = percent, bb_width = min 100 percent, bb_isOver = isOver,
         bb_rest = (if isOver then spent - amount else max 0 (amount - spent))\<rparr>)"

section \<open>The page and its operations\<close>

record BudgetFormValue =
  bf_category :: jstring
  bf_amount :: jstring

definition empty_form :: BudgetFormValue where
  "empty_form = \<lparr>bf_category = [], bf_amount = []\<rparr>"

text \<open>
  The page: its form, the budget being edited and the drafts of the list, the book, the requests in
  flight and the amounts that were sent.
\<close>

record budgets_page =
  bp_isAdding :: bool
  bp_editingId :: "jstring option"
  bp_form :: BudgetFormValue
  bp_drafts :: "(jstring, jstring) js_map"
  bp_book :: budget_book
  bp_inFlight :: "pending list"
  bp_sent :: "(jstring \<times> rat) list"

definition mounted_budgets :: "budget_book \<Rightarrow> budgets_page" where
  "mounted_budgets book = \<lparr>bp_isAdding = False, bp_editingId = None, bp_form = empty_form,
     bp_drafts = [], bp_book = book, bp_inFlight = [], bp_sent = []\<rparr>"

definition startAdd :: "budgets_page \<Rightarrow> budgets_page" where
  "startAdd s = s\<lparr>bp_isAdding := True, bp_editingId := None, bp_form := empty_form\<rparr>"

definition cancel_form :: "budgets_page \<Rightarrow> budgets_page" where
  "cancel_form s = s\<lparr>bp_isAdding := False, bp_editingId := None, bp_form := empty_form\<rparr>"

definition positive_number :: "jsnum \<Rightarrow> rat option" where
  "positive_number n = (case n of Fin q \<Rightarrow> if 0 < q then Some q else None | _ \<Rightarrow> None)"

text \<open>\<open>generated\<close> is the id of the temporary item that \<^verbatim>\<open>add\<close> shows at once.\<close>

definition onSaveAdd :: "jstring \<Rightarrow> budgets_page \<Rightarrow> budgets_page" where
  "onSaveAdd generated s = (case positive_number (number_of_string (bf_amount (bp_form s))) of
     None \<Rightarrow> s
   | Some amount \<Rightarrow>
       if bf_category (bp_form s) = [] then s
       else let temp = temp_budget generated (bf_category (bp_form s)) amount None None in
         case add_begin temp (bp_book s) of
           (Inl _, book) \<Rightarrow> cancel_form (s\<lparr>bp_book := book\<rparr>)
         | (Inr _, book) \<Rightarrow> s\<lparr>bp_book := book, bp_inFlight := bp_inFlight s @ [Adding temp],
             bp_sent := (bd_category temp, amount) # bp_sent s\<rparr>)"

definition add_answered :: "Budget \<Rightarrow> exn + Budget \<Rightarrow> budgets_page \<Rightarrow> budgets_page" where
  "add_answered temp answer s =
     cancel_form (s\<lparr>bp_book := snd (add_end temp answer (bp_book s)),
       bp_inFlight := remove1 (Adding temp) (bp_inFlight s)\<rparr>)"

definition onStartEdit :: "jstring \<Rightarrow> budgets_page \<Rightarrow> budgets_page" where
  "onStartEdit budgetId s = s\<lparr>bp_editingId := Some budgetId\<rparr>"

definition type_draft :: "jstring \<Rightarrow> jstring \<Rightarrow> budgets_page \<Rightarrow> budgets_page" where
  "type_draft budgetId value s = s\<lparr>bp_drafts := map_set budgetId value (bp_drafts s)\<rparr>"

definition draft_of :: "Budget \<Rightarrow> budgets_page \<Rightarrow> jstring" where
  "draft_of b s = default_to (map_get (bp_drafts s) (bd_id b)) (num_str (bd_amount b))"

text \<open>The save button of a budget in the list hands the number of its draft to \<open>onSaveEdit\<close>.\<close>

definition onSaveEdit :: "Budget \<Rightarrow> budgets_page \<Rightarrow> budgets_page" where
  "onSaveEdit b s = (case positive_number (number_of_string (draft_of b s)) of
     None \<Rightarrow> s
   | Some amount \<Rightarrow> s\<lparr>bp_book := edit_begin (bd_id b) amount None None (bp_book s),
       bp_inFlight := bp_inFlight s @ [Editing (bd_id b) (bk_budgets (bp_book s))],
       bp_sent := (bd_category b, amount) # bp_sent s\<rparr>)"

definition edit_answered :: "jstring \<Rightarrow> Budget list \<Rightarrow> exn + Budget \<Rightarrow> budgets_page \<Rightarrow> budgets_page" where
  "edit_answered budgetId snapshot answer s =
     cancel_form (s\<lparr>bp_book := edit_end budgetId snapshot answer (bp_book s),
       bp_inFlight := remove1 (Editing budgetId snapshot) (bp_inFlight s)\<rparr>)"

definition onDelete :: "jstring \<Rightarrow> budgets_page \<Rightarrow> budgets_page" where
  "onDelete budgetId s = s\<lparr>bp_book := remove_begin budgetId (bp_book s),
     bp_inFlight := bp_inFlight s @ [Removing (bk_budgets (bp_book s))]\<rparr>"

definition delete_answered :: "Budget list \<Rightarrow> exn + unit \<Rightarrow> budgets_page \<Rightarrow> budgets_page" where
  "delete_answered snapshot answer s = s\<lparr>bp_book := remove_end snapshot answer (bp_book s),
     bp_inFlight := remove1 (Removing snapshot) (bp_inFlight s)\<rparr>"

definition page_error :: "budgets_page \<Rightarrow> jstring option" where
  "page_error s = (if truthy (bk_error (bp_book s)) then bk_error (bp_book s)
     else if truthy (bk_validationError (bp_book s)) then bk_validationError (bp_book s) else None)"

text \<open>A click on a budget that is not being edited shows its transactions.\<close>

definition select_category :: "Budget \<Rightarrow> budgets_page \<Rightarrow> (jstring \<times> MonthYearSelection) option" where
  "select_category b s = (if bp_editingId s = Some (bd_id b) then None
     else Some (resolveMajorCategory (Some (bd_category b)) [],
       \<lparr>sel_year = year_of_day (bk_month (bp_book s)), sel_month = Some (month_of_day (bk_month (bp_book s)))\<rparr>))"


section \<open>The cards agree with the budgets\<close>

text \<open>
  The monitor says \<^verbatim>\<open>over budget\<close> exactly in the zones that warn of it, and exactly when more
  was spent than planned.
\<close>

theorem monitor_consistent:
  "(utilizationSuffix (utilizationPercent st) = ''over budget'') =
     (getUtilizationZone (utilizationPercent st) \<in> {Overextended, Critical}) \<and>
   (getUtilizationZone (utilizationPercent st) \<in> {Overextended, Critical}) =
     (0 < bs_totalBudgeted st \<and> bs_totalBudgeted st < bs_totalSpent st)"
  by (auto simp: utilizationSuffix_def getUtilizationZone_def utilizationPercent_def field_simps)

text \<open>
  The bar of a budget with a positive amount stays within its track for spending that is not
  negative, it is full exactly from the amount on, and what it says is left or over makes up the
  difference between the amount and the spending.
\<close>

theorem bar_within_track:
  assumes "0 < amount" "0 \<le> spent"
  shows "0 \<le> bb_width (BudgetProgress amount spent) \<and> bb_width (BudgetProgress amount spent) \<le> 100 \<and>
    (bb_width (BudgetProgress amount spent) = 100) = (amount \<le> spent) \<and>
    (bb_isOver (BudgetProgress amount spent) = (100 < bb_percent (BudgetProgress amount spent))) \<and>
    (if bb_isOver (BudgetProgress amount spent) then amount + bb_rest (BudgetProgress amount spent) = spent
     else spent + bb_rest (BudgetProgress amount spent) = amount)"
  using assms by (auto simp: BudgetProgress_def Let_def field_simps min_def max_def)

theorem bar_within_track_witness: "bb_width (BudgetProgress 50 75) = 100"
  using bar_within_track [of 50 75] by simp

lemma category_pills_set: "set (category_pills lc cs) =
    (\<lambda>c. Category_pill (formatCategoryName (Some c)) c) ` set cs"
  by (auto simp: category_pills_def)

lemma category_pills_distinct: "distinct (category_pills lc cs)"
proof -
  have "inj_on (\<lambda>(raw, label). Category_pill label raw) A" for A by (auto simp: inj_on_def)
  moreover have "distinct (map (\<lambda>c. (c, formatCategoryName (Some c))) (set_of_list cs))"
    by (simp add: distinct_map inj_on_def)
  ultimately show ?thesis by (simp add: category_pills_def distinct_map)
qed

lemma category_pills_empty: "category_pills lc cs = [] \<longleftrightarrow> cs = []"
  using category_pills_set [of lc cs] by (metis image_is_empty set_empty)

text \<open>
  The card of overages shows one pill for every category with a budget that is overspent and no
  other, and the good news instead exactly when there are budgets and none is.
\<close>

theorem overage_pills:
  "distinct (overBudgetPills lc (computeStats now bs month) bs) \<and>
   set (overBudgetPills lc (computeStats now bs month) bs) =
     (if bs \<noteq> [] \<and> filter (\<lambda>b. cbud_amount b < cbud_spent b) bs = []
      then {Semantic_pill ''All budgets on track'' Success}
      else (\<lambda>b. Category_pill (formatCategoryName (Some (cbud_category b))) (cbud_category b)) `
        {b \<in> set bs. cbud_amount b < cbud_spent b})"
proof -
  let ?o = "filter (\<lambda>b. cbud_amount b < cbud_spent b) bs"
  have o: "bs_overBudgetCategories (computeStats now bs month) = map cbud_category ?o"
    "bs_overBudgetCount (computeStats now bs month) = length ?o"
    by (simp_all add: computeStats_def Let_def stats_totals_eq)
  show ?thesis
    by (auto simp: overBudgetPills_def Let_def o category_pills_empty category_pills_distinct category_pills_set
        image_image filter_empty_conv)
qed

section \<open>Runs of the page\<close>

inductive page_step :: "budgets_page \<Rightarrow> budgets_page \<Rightarrow> bool" where
  start_add: "page_step s (startAdd s)"
| cancelled: "page_step s (cancel_form s)"
| typed: "page_step s (s\<lparr>bp_form := f\<rparr>)"
| start_edit: "page_step s (onStartEdit i s)"
| draft: "page_step s (type_draft i v s)"
| save_add: "page_step s (onSaveAdd generated s)"
| added: "Adding temp \<in> set (bp_inFlight s) \<Longrightarrow> keeps_category (bd_id temp) (bk_budgets (bp_book s)) a \<Longrightarrow>
     page_step s (add_answered temp a s)"
| save_edit: "page_step s (onSaveEdit b s)"
| edited: "Editing i snapshot \<in> set (bp_inFlight s) \<Longrightarrow> keeps_category i (bk_budgets (bp_book s)) a \<Longrightarrow>
     page_step s (edit_answered i snapshot a s)"
| delete: "page_step s (onDelete i s)"
| deleted: "Removing snapshot \<in> set (bp_inFlight s) \<Longrightarrow> page_step s (delete_answered snapshot d s)"
| loaded: "(\<forall>bs. a = Inr bs \<longrightarrow> distinct (map category_key bs)) \<Longrightarrow>
     page_step s (s\<lparr>bp_book := load_budgets e a fetch af (bp_book s)\<rparr>)"
| month: "page_step s (s\<lparr>bp_book := range_effect e fetch af (set_month d (bp_book s))\<rparr>)"

abbreviation page_book :: "budgets_page \<Rightarrow> budget_book \<times> pending list" where
  "page_book s \<equiv> (bp_book s, bp_inFlight s)"

lemma page_step_book: "page_step s s' \<Longrightarrow> page_book s' = page_book s \<or> book_step (page_book s) (page_book s')"
proof (induction rule: page_step.induct)
  case (save_add s generated)
  let ?n = "positive_number (number_of_string (bf_amount (bp_form s)))"
  show ?case
  proof (cases "?n = None \<or> bf_category (bp_form s) = []")
    case True
    then show ?thesis by (auto simp: onSaveAdd_def split: option.splits)
  next
    case False
    then obtain amount where n: "?n = Some amount" "bf_category (bp_form s) \<noteq> []" by auto
    let ?temp = "temp_budget generated (bf_category (bp_form s)) amount None None"
    obtain r book where a: "add_begin ?temp (bp_book s) = (r, book)" by (rule prod.exhaust)
    show ?thesis
    proof (cases r)
      case (Inl x)
      then have "page_book (onSaveAdd generated s) = (book, bp_inFlight s)"
        using n a by (simp add: onSaveAdd_def cancel_form_def Let_def)
      then show ?thesis using book_step.refused [of ?temp "bp_book s" x book] a Inl by simp
    next
      case (Inr u)
      then have "page_book (onSaveAdd generated s) = (book, bp_inFlight s @ [Adding ?temp])"
        using n a by (simp add: onSaveAdd_def Let_def)
      then show ?thesis using book_step.add [of ?temp "bp_book s" book] a Inr by simp
    qed
  qed
next
  case (save_edit s b)
  then show ?case by (auto simp: onSaveEdit_def split: option.splits intro: book_step.edit)
qed (auto simp: startAdd_def cancel_form_def onStartEdit_def type_draft_def add_answered_def edit_answered_def
    onDelete_def delete_answered_def
    intro: book_step.load book_step.month book_step.added book_step.edited book_step.remove book_step.removed)

definition page_ok :: "budgets_page \<Rightarrow> bool" where
  "page_ok s \<longleftrightarrow> book_ok (page_book s) \<and> (\<forall>x\<in>set (bp_sent s). 0 < snd x)"

lemma sent_positive:
  "page_step s s' \<Longrightarrow> set (bp_sent s') \<subseteq> set (bp_sent s) \<union> {x. 0 < snd x}"
  by (induction rule: page_step.induct)
    (auto simp: startAdd_def cancel_form_def onStartEdit_def type_draft_def add_answered_def edit_answered_def
      onDelete_def delete_answered_def onSaveAdd_def onSaveEdit_def positive_number_def Let_def
      split: option.splits jsnum.splits prod.splits sum.splits if_splits)

interpretation budgets_view: transition_system page_step "\<lambda>s. \<exists>today. s = mounted_budgets (empty_book today)" page_ok
proof
  show "page_ok s" if "\<exists>today. s = mounted_budgets (empty_book today)" for s
  proof -
    obtain today where "s = mounted_budgets (empty_book today)" using \<open>\<exists>today. s = mounted_budgets (empty_book today)\<close> by blast
    moreover have "book_ok (empty_book today, [])" by (rule book.invar_init) blast
    ultimately show ?thesis by (simp add: page_ok_def mounted_budgets_def)
  qed
  show "page_ok s'" if "page_step s s'" "page_ok s" for s s'
    using page_step_book [OF that(1)] sent_positive [OF that(1)] that(2) book_step_ok
    unfolding page_ok_def by (metis (no_types, lifting) UnE mem_Collect_eq subsetD)
qed





lemma refusal_loadTransactions [simp]:
  "bk_validationError (loadTransactions fetch af a b s) = bk_validationError s"
  by (simp add: loadTransactions_def Let_def split: sum.split)

lemma refusal_effect [simp]: "bk_validationError (range_effect e fetch af s) = bk_validationError s"
  by (simp add: range_effect_def Let_def)









text \<open>
  In every run of the page, no two budgets shown are of the same category up to case, and no amount
  was sent that is not positive.
\<close>

theorem budgets_page_safe:
  assumes "page_step\<^sup>*\<^sup>* (mounted_budgets (empty_book today)) s"
  shows "distinct (map (\<lambda>b. toLowerCase (bd_category b)) (bk_budgets (bp_book s))) \<and>
    snd ` set (bp_sent s) \<subseteq> {0<..}"
proof -
  have "page_ok s" using budgets_view.invar_reachable [OF assms] by blast
  then show ?thesis
    by (auto simp: page_ok_def book_ok_def unique_categories_def category_key_def [abs_def])
qed

theorem budgets_page_safe_witness:
  "snd ` set (bp_sent (startAdd (mounted_budgets (empty_book 0)))) \<subseteq> {0<..}"
  using budgets_page_safe [OF r_into_rtranclp, OF page_step.start_add] by blast


text \<open>
  A draft survives the cancelling of its edit: editing the budget again shows what was typed before
  instead of its amount, and saving sends it.
\<close>

theorem draft_survives_cancel:
  assumes "number_of_string v = Fin x" "0 < x"
  shows "draft_of b (onStartEdit (bd_id b) (cancel_form (type_draft (bd_id b) v s))) = v \<and>
    bp_sent (onSaveEdit b (onStartEdit (bd_id b) (cancel_form (type_draft (bd_id b) v s)))) =
      (bd_category b, x) # bp_sent s"
  using assms
  by (simp add: draft_of_def onStartEdit_def cancel_form_def type_draft_def onSaveEdit_def
      map_get_map_set default_to_def positive_number_def)

lemma number_of_500: "number_of_string ''500'' = Fin 500"
  using number_of_digits [of "''500''"] by (simp add: is_digit_eval digits_value_def code_at_def)

theorem draft_survives_cancel_witness:
  "draft_of (demo_budget ''b'' ''Pets'') (onStartEdit ''b'' (cancel_form
     (type_draft ''b'' ''500'' (mounted_budgets (empty_book 0))))) = ''500''"
  using draft_survives_cancel [OF number_of_500, of "demo_budget ''b'' ''Pets''"]
  by (simp add: demo_budget_def temp_budget_def)

text \<open>
  The answer to a save closes whatever form is open by then: a budget being entered while an earlier
  edit was in flight is thrown away with what was typed.
\<close>

theorem late_answer_closes_form:
  fixes v :: BudgetFormValue
  shows "\<exists>s i snapshot a. page_step\<^sup>*\<^sup>* (mounted_budgets (empty_book today)) s \<and>
    Editing i snapshot \<in> set (bp_inFlight s) \<and> bp_isAdding s \<and> bp_form s = v \<and>
    page_step s (edit_answered i snapshot a s) \<and>
    \<not> bp_isAdding (edit_answered i snapshot a s) \<and> bp_form (edit_answered i snapshot a s) = empty_form"
proof -
  let ?b = "demo_budget ''b'' ''Pets''"
  let ?start = "mounted_budgets (empty_book today)"
  let ?typed = "type_draft ''b'' ''500'' ?start"
  let ?saved = "onSaveEdit ?b ?typed"
  let ?open = "(startAdd ?saved)\<lparr>bp_form := v\<rparr>"
  note more = rtranclp.rtrancl_into_rtrancl [of page_step]
  have "page_step\<^sup>*\<^sup>* ?start ?saved"
    by (rule more [OF r_into_rtranclp [of page_step, OF page_step.draft] page_step.save_edit])
  from more [OF more [OF this page_step.start_add] page_step.typed [of _ v]]
  have run: "page_step\<^sup>*\<^sup>* ?start ?open" .
  have f: "Editing ''b'' (bk_budgets (bp_book ?start)) \<in> set (bp_inFlight ?open)"
    using number_of_500 by (simp add: onSaveEdit_def draft_of_def type_draft_def startAdd_def demo_budget_def
        temp_budget_def map_get_map_set default_to_def positive_number_def)
  have "page_step ?open (edit_answered ''b'' (bk_budgets (bp_book ?start)) (Inl (JsExn ''down'')) ?open)"
    by (rule page_step.edited [OF f]) (simp add: keeps_category_def)
  moreover have "bp_isAdding ?open" "bp_form ?open = v" by (simp_all add: startAdd_def)
  moreover have "\<not> bp_isAdding (edit_answered i sn a t)" "bp_form (edit_answered i sn a t) = empty_form" for i sn a t
    by (simp_all add: edit_answered_def cancel_form_def)
  ultimately show ?thesis using run f by blast
qed

end
