(* ===== verification/Transactions_View.thy ===== *)
theory Transactions_View
  imports Budgets_Page
begin

text \<open>
  The budgets and figures of the transactions page (\<^verbatim>\<open>views/TransactionsPage.tsx\<close>): the
  budget that matches the selection, the totals over all budgets, the card, the modal that saves and
  deletes budgets with its preview, the load of the year to date, and the statistics of the list.
  \<open>fm\<close> is the currency formatter; the characters of the labels that are beyond the model's are
  parameters.
\<close>

section \<open>The budget of the selection\<close>

definition category_is :: "jstring \<Rightarrow> Budget \<Rightarrow> bool" where
  "category_is target b \<longleftrightarrow> toLowerCase (trim (bd_category b)) = toLowerCase (trim target)"

definition find_budget :: "jstring \<Rightarrow> Budget list \<Rightarrow> Budget option" where
  "find_budget target budgets = List.find (category_is target) budgets"

definition matchedBudget :: "jstring option \<Rightarrow> jstring option \<Rightarrow> Budget list \<Rightarrow> Budget option" where
  "matchedBudget category subcategory budgets =
     (if truthy subcategory then find_budget (the subcategory) budgets
      else if truthy category then find_budget (the category) budgets else None)"

definition effectiveYtdTransactions :: "Transaction list \<Rightarrow> Transaction list \<Rightarrow> Transaction list" where
  "effectiveYtdTransactions ytd all_txs = (if ytd \<noteq> [] then ytd else all_txs)"

definition activeRolloverData :: "date_env \<Rightarrow> Budget option \<Rightarrow> Transaction list \<Rightarrow> MonthYearSelection \<Rightarrow>
    jstring option \<Rightarrow> RolloverBudgetResult option result" where
  "activeRolloverData e matched ytd period subcategory = (case matched of None \<Rightarrow> Inr None
     | Some b \<Rightarrow> (case computeRolloverBudget e b ytd period subcategory of
         Inl err \<Rightarrow> Inl err | Inr r \<Rightarrow> Inr (Some r)))"

definition subcategoryBudgets :: "jstring \<Rightarrow> UserCategory list \<Rightarrow> Budget list \<Rightarrow> (jstring \<times> Budget) list" where
  "subcategoryBudgets normMajor userCategories budgets =
     map (\<lambda>b. (bd_category b, b)) (filter (\<lambda>b.
       if toLowerCase (trim (bd_category b)) = normMajor then False
       else toLowerCase (str_or (getMajorCategoryForSubcategory (bd_category b) userCategories)
         (resolveMajorCategory (Some (bd_category b)) [])) = normMajor) budgets)"

definition compositeMajorData :: "date_env \<Rightarrow> jstring option \<Rightarrow> jstring option \<Rightarrow> Budget list \<Rightarrow>
    UserCategory list \<Rightarrow> Transaction list \<Rightarrow> MonthYearSelection \<Rightarrow> CompositeBudgetResult option result" where
  "compositeMajorData e category subcategory budgets userCategories ytd period =
     (if \<not> truthy category \<or> truthy subcategory then Inr None
      else let normMajor = toLowerCase (trim (the category)); direct = find_budget (the category) budgets;
               subs = subcategoryBudgets normMajor userCategories budgets
        in if direct = None \<and> subs = [] then Inr None
           else (case computeCompositeMajorBudget e (the category) direct subs ytd period of
             Inl err \<Rightarrow> Inl err | Inr r \<Rightarrow> Inr (Some r)))"

definition categorySpent :: "date_env \<Rightarrow> jstring option \<Rightarrow> jstring option \<Rightarrow> Transaction list \<Rightarrow> jstring \<Rightarrow>
    jstring \<Rightarrow> rat result" where
  "categorySpent e category subcategory txs start finish =
     (let target = str_or subcategory (str_or category []) in
      if target = [] then Inr 0 else calculateSpent e txs target start finish subcategory)"

definition year_start :: "MonthYearSelection \<Rightarrow> jstring" where
  "year_start period = int_str (sel_year period) @ ''-01-01''"

definition categoryYtdSpent :: "date_env \<Rightarrow> jstring option \<Rightarrow> jstring option \<Rightarrow> Transaction list \<Rightarrow>
    MonthYearSelection \<Rightarrow> jstring \<Rightarrow> rat result" where
  "categoryYtdSpent e category subcategory ytd period finish =
     categorySpent e category subcategory ytd (year_start period) finish"

section \<open>The totals over all budgets\<close>

definition totalBudgeted :: "MonthYearSelection \<Rightarrow> Budget list \<Rightarrow> rat" where
  "totalBudgeted period budgets = reduce_sum (\<lambda>b.
     let freq = default_to (bd_frequency b) Monthly;
         multiplier = (if sel_month period = None
           then (case freq of Quarterly \<Rightarrow> 4 | Semi_annual \<Rightarrow> 2 | Annual \<Rightarrow> 1 | Monthly \<Rightarrow> 12) else 1)
     in bd_amount b * multiplier) budgets"

fun some_budget :: "date_env \<Rightarrow> jstring \<Rightarrow> jstring \<Rightarrow> Transaction \<Rightarrow> Budget list \<Rightarrow> bool result" where
  "some_budget e start finish t [] = Inr False"
| "some_budget e start finish t (b # bs) = (case calculateSpent e [t] (bd_category b) start finish None of
     Inl err \<Rightarrow> Inl err | Inr x \<Rightarrow> if x \<noteq> 0 then Inr True else some_budget e start finish t bs)"

text \<open>The loop, with the ids that were counted and the total so far.\<close>

fun total_spent_from :: "date_env \<Rightarrow> Budget list \<Rightarrow> jstring \<Rightarrow> jstring \<Rightarrow> jstring list \<Rightarrow> rat \<Rightarrow>
    Transaction list \<Rightarrow> rat result" where
  "total_spent_from e budgets start finish countedIds acc [] = Inr acc"
| "total_spent_from e budgets start finish countedIds acc (t # ts) =
     (if isSpendingExcludedCategory (Some (str_or (category_primary t) []))
      then total_spent_from e budgets start finish countedIds acc ts
      else case iso_date e t of Inl err \<Rightarrow> Inl err
        | Inr dateString \<Rightarrow>
          if dateString < start \<or> finish < dateString
          then total_spent_from e budgets start finish countedIds acc ts
          else case some_budget e start finish t budgets of Inl err \<Rightarrow> Inl err
            | Inr isBudgeted \<Rightarrow>
              if isBudgeted \<and> tx_id t \<notin> set countedIds
              then total_spent_from e budgets start finish (set_add (tx_id t) countedIds)
                (acc + getNetSpendingAmount t) ts
              else total_spent_from e budgets start finish countedIds acc ts)"

definition totalBudgetSpent :: "date_env \<Rightarrow> Budget list \<Rightarrow> jstring \<Rightarrow> jstring \<Rightarrow> Transaction list \<Rightarrow> rat result" where
  "totalBudgetSpent e budgets start finish txs = total_spent_from e budgets start finish [] 0 txs"

definition rolloverCount :: "Budget list \<Rightarrow> nat" where
  "rolloverCount budgets = length (filter (\<lambda>b. bd_rollover b = Some True) budgets)"

section \<open>The card\<close>

record budget_card =
  bc_title :: jstring
  bc_value :: jstring
  bc_suffix :: "jstring option"
  bc_subtext :: jstring
  bc_pills :: "(jstring \<times> Tone) list"
  bc_accent :: Accent

definition frequency_badge :: "BudgetFrequency \<Rightarrow> jstring" where
  "frequency_badge f = (case f of Semi_annual \<Rightarrow> ''Twice / yr'' | Quarterly \<Rightarrow> ''Every 3 mos''
     | Annual \<Rightarrow> ''Yearly'' | Monthly \<Rightarrow> ''Monthly'')"

definition badge_pills :: "BudgetFrequency \<Rightarrow> (jstring \<times> Tone) list" where
  "badge_pills f = (if frequency_badge f \<noteq> ''Monthly'' then [(frequency_badge f, Info)] else [])"

text \<open>The pill of what is left or over, and the accent that goes with it.\<close>

definition rest_pill :: "(rat \<Rightarrow> jstring) \<Rightarrow> bool \<Rightarrow> rat \<Rightarrow> jstring \<times> Tone" where
  "rest_pill fm isOver remaining = (if isOver then (fm (- remaining) @ '' over'', Danger)
     else (fm remaining @ '' left'', Success))"

definition card_accent :: "bool \<Rightarrow> int \<Rightarrow> Accent" where
  "card_accent isOver percent = (if isOver then Rose else if 85 \<le> percent then Amber else Emerald)"

record card_data =
  cd_matched :: "Budget option"
  cd_rollover :: "RolloverBudgetResult option"
  cd_composite :: "CompositeBudgetResult option"
  cd_categorySpent :: rat
  cd_categoryYtdSpent :: rat
  cd_budgets :: nat
  cd_totalBudgeted :: rat
  cd_totalBudgetSpent :: rat
  cd_rolloverCount :: nat

definition percent_of :: "rat \<Rightarrow> rat \<Rightarrow> int" where
  "percent_of part whole = (if 0 < whole then js_round (part / whole * 100) else 0)"

definition carry_suffix :: "(rat \<Rightarrow> jstring) \<Rightarrow> rat \<Rightarrow> jstring option" where
  "carry_suffix fm carryover = (if 0 < carryover then Some (''(+'' @ fm carryover @ '' roll)'') else None)"

definition spent_subtext :: "(rat \<Rightarrow> jstring) \<Rightarrow> jstring \<Rightarrow> MonthYearSelection \<Rightarrow> jstring \<Rightarrow> rat \<Rightarrow> rat \<Rightarrow> jstring" where
  "spent_subtext fm bullet period share spent ytdSpent =
     (if sel_month period = None then fm spent @ '' in '' @ int_str (sel_year period) @ share
      else fm spent @ '' this mo'' @ share @ '' '' @ bullet @ '' '' @ fm ytdSpent @ '' YTD'')"

definition no_budget_card :: "(rat \<Rightarrow> jstring) \<Rightarrow> jstring \<Rightarrow> MonthYearSelection \<Rightarrow> jstring \<Rightarrow> card_data \<Rightarrow> budget_card" where
  "no_budget_card fm bullet period title d = \<lparr>bc_title = title, bc_value = ''No budget'', bc_suffix = None,
     bc_subtext = spent_subtext fm bullet period [] (cd_categorySpent d) (cd_categoryYtdSpent d),
     bc_pills = [(''Set budget'', Info)], bc_accent = Slate\<rparr>"

definition rollover_card :: "(rat \<Rightarrow> jstring) \<Rightarrow> jstring \<Rightarrow> MonthYearSelection \<Rightarrow> jstring \<Rightarrow> RolloverBudgetResult \<Rightarrow> budget_card" where
  "rollover_card fm bullet period title r = \<lparr>bc_title = title, bc_value = fm (rb_availableThisMonth r),
     bc_suffix = carry_suffix fm (rb_priorCarryover r),
     bc_subtext = spent_subtext fm bullet period [] (rb_monthSpent r) (rb_ytdSpent r),
     bc_pills = badge_pills (rb_frequency r) @ [(''Rollover'', Info),
       rest_pill fm (rb_isOverBudget r) (rb_remainingThisMonth r)],
     bc_accent = card_accent (rb_isOverBudget r) (rb_percentageUsed r)\<rparr>"

definition plain_card :: "(rat \<Rightarrow> jstring) \<Rightarrow> jstring \<Rightarrow> jstring \<Rightarrow> Budget \<Rightarrow> card_data \<Rightarrow> budget_card" where
  "plain_card fm bullet title b d =
     (let remaining = bd_amount b - cd_categorySpent d; percent = percent_of (cd_categorySpent d) (bd_amount b);
          isOver = (remaining < 0)
      in \<lparr>bc_title = title, bc_value = fm (bd_amount b), bc_suffix = None,
          bc_subtext = fm (cd_categorySpent d) @ '' spent ('' @ int_str percent @ ''%) '' @ bullet @ '' '' @
            fm (cd_categoryYtdSpent d) @ '' YTD'',
          bc_pills = badge_pills (default_to (bd_frequency b) Monthly) @ [rest_pill fm isOver remaining],
          bc_accent = card_accent isOver percent\<rparr>)"

definition composite_card :: "(rat \<Rightarrow> jstring) \<Rightarrow> jstring \<Rightarrow> MonthYearSelection \<Rightarrow> jstring \<Rightarrow> CompositeBudgetResult \<Rightarrow> budget_card" where
  "composite_card fm bullet period title c =
     (let subCount = length (cb_subcategoryResults c)
      in \<lparr>bc_title = title, bc_value = fm (cb_availableThisMonth c),
          bc_suffix = carry_suffix fm (cb_totalPriorCarryover c),
          bc_subtext = spent_subtext fm bullet period ('' ('' @ int_str (cb_percentageUsed c) @ ''%)'')
            (cb_monthSpent c) (cb_ytdSpent c),
          bc_pills = (if 0 < subCount then [(''Includes '' @ int_str (int subCount) @ '' subcategory'', Info)] else []) @
            (if cb_hasRollover c then [(''Rollover'', Info)] else []) @
            [rest_pill fm (cb_isOverBudget c) (cb_remainingThisMonth c)],
          bc_accent = card_accent (cb_isOverBudget c) (cb_percentageUsed c)\<rparr>)"

definition total_card :: "(rat \<Rightarrow> jstring) \<Rightarrow> card_data \<Rightarrow> budget_card" where
  "total_card fm d =
     (let remaining = cd_totalBudgeted d - cd_totalBudgetSpent d;
          percent = percent_of (cd_totalBudgetSpent d) (cd_totalBudgeted d); isOver = (remaining < 0)
      in \<lparr>bc_title = ''Total Budget'', bc_value = fm (cd_totalBudgeted d), bc_suffix = None,
          bc_subtext = fm (cd_totalBudgetSpent d) @ '' spent across '' @ int_str (int (cd_budgets d)) @ '' budgets'',
          bc_pills = rest_pill fm isOver remaining #
            (if 0 < cd_rolloverCount d then [(int_str (int (cd_rolloverCount d)) @ '' rollover'', Info)] else []),
          bc_accent = card_accent isOver percent\<rparr>)"

definition budget_title :: "jstring \<Rightarrow> jstring \<Rightarrow> jstring" where
  "budget_title dot label = ''Budget '' @ dot @ '' '' @ formatCategoryName (Some label)"

definition budgetCardData :: "(rat \<Rightarrow> jstring) \<Rightarrow> jstring \<Rightarrow> jstring \<Rightarrow> MonthYearSelection \<Rightarrow> jstring option \<Rightarrow>
    jstring option \<Rightarrow> card_data \<Rightarrow> budget_card" where
  "budgetCardData fm bullet dot period category subcategory d =
     (if truthy subcategory then
        let title = budget_title dot (the subcategory) in
        case cd_matched d of None \<Rightarrow> no_budget_card fm bullet period title d
        | Some b \<Rightarrow> (case cd_rollover d of
            Some r \<Rightarrow> if rb_rollover r then rollover_card fm bullet period title r
              else plain_card fm bullet title b d
          | None \<Rightarrow> plain_card fm bullet title b d)
      else if truthy category then
        let title = budget_title dot (the category) in
        case cd_composite d of None \<Rightarrow> no_budget_card fm bullet period title d
        | Some c \<Rightarrow> composite_card fm bullet period title c
      else if cd_budgets d = 0 then
        \<lparr>bc_title = ''Budget'', bc_value = ''No budgets'', bc_suffix = None,
         bc_subtext = ''Click to add a budget'', bc_pills = [(''Add budget'', Info)], bc_accent = Slate\<rparr>
      else total_card fm d)"


section \<open>The modal of a budget\<close>

datatype budget_request =
    Update_budget jstring rat BudgetFrequency bool "jstring option"
  | Create_budget jstring rat BudgetFrequency bool "jstring option"

record budget_modal =
  bm_open :: bool
  bm_category :: jstring
  bm_amount :: jstring
  bm_frequency :: BudgetFrequency
  bm_rollover :: bool
  bm_saving :: bool
  bm_error :: "jstring option"
  bm_budgets :: "Budget list"

definition initial_modal :: budget_modal where
  "initial_modal = \<lparr>bm_open = False, bm_category = [], bm_amount = [], bm_frequency = Monthly,
     bm_rollover = False, bm_saving = False, bm_error = None, bm_budgets = []\<rparr>"

definition loadBudgets :: "exn + Budget list \<Rightarrow> budget_modal \<Rightarrow> budget_modal" where
  "loadBudgets answer s = (case answer of Inr bs \<Rightarrow> s\<lparr>bm_budgets := bs\<rparr> | Inl _ \<Rightarrow> s)"

definition handleOpenBudgetModal :: "jstring option \<Rightarrow> jstring option \<Rightarrow> jstring option \<Rightarrow> budget_modal \<Rightarrow> budget_modal" where
  "handleOpenBudgetModal target category subcategory s =
     (let cat = default_to (coalesce target (coalesce subcategory category)) [];
          s1 = s\<lparr>bm_category := cat, bm_error := None, bm_open := True\<rparr>
      in case (if cat = [] then None else find_budget cat (bm_budgets s)) of
           None \<Rightarrow> s1\<lparr>bm_amount := [], bm_frequency := Monthly, bm_rollover := False\<rparr>
         | Some b \<Rightarrow> s1\<lparr>bm_amount := num_str (bd_amount b), bm_frequency := default_to (bd_frequency b) Monthly,
             bm_rollover := (bd_rollover b = Some True)\<rparr>)"

definition currentPeriodStr :: "MonthYearSelection \<Rightarrow> jstring" where
  "currentPeriodStr period = (case sel_month period of
     None \<Rightarrow> int_str (sel_year period) @ ''-01''
   | Some m \<Rightarrow> int_str (sel_year period) @ ''-'' @ pad_start 2 (int_str (m + 1)))"

definition rolloverStart :: "MonthYearSelection \<Rightarrow> budget_modal \<Rightarrow> jstring option" where
  "rolloverStart period s = (if bm_rollover s
     then Some (str_or (Option.bind (find_budget (bm_category s) (bm_budgets s)) bd_rollover_start_month)
       (currentPeriodStr period))
     else None)"

definition budget_request_of :: "MonthYearSelection \<Rightarrow> rat \<Rightarrow> budget_modal \<Rightarrow> budget_request" where
  "budget_request_of period amount s = (case find_budget (bm_category s) (bm_budgets s) of
     Some b \<Rightarrow> Update_budget (bd_id b) amount (bm_frequency s) (bm_rollover s) (rolloverStart period s)
   | None \<Rightarrow> Create_budget (trim (bm_category s)) amount (bm_frequency s) (bm_rollover s) (rolloverStart period s))"

text \<open>The request that is sent, if any, and the state once it and the reload are answered.\<close>

definition handleSaveBudget :: "MonthYearSelection \<Rightarrow> (budget_request \<Rightarrow> exn + unit) \<Rightarrow> exn + Budget list \<Rightarrow>
    budget_modal \<Rightarrow> budget_request option \<times> budget_modal" where
  "handleSaveBudget period send reload s =
     (if bm_category s = [] then (None, s\<lparr>bm_error := Some ''Please select or specify a category.''\<rparr>)
      else case positive_number (number_of_string (bm_amount s)) of
        None \<Rightarrow> (None, s\<lparr>bm_error := Some ''Please enter a valid amount greater than 0.''\<rparr>)
      | Some amount \<Rightarrow>
          let request = budget_request_of period amount s; s1 = s\<lparr>bm_saving := True, bm_error := None\<rparr>
          in (Some request, (case send request of
               Inr _ \<Rightarrow> (loadBudgets reload s1)\<lparr>bm_open := False\<rparr>
             | Inl _ \<Rightarrow> s1\<lparr>bm_error := Some ''Failed to save budget. Please try again.''\<rparr>)\<lparr>bm_saving := False\<rparr>))"

definition handleDeleteBudget :: "exn + unit \<Rightarrow> exn + Budget list \<Rightarrow> budget_modal \<Rightarrow> budget_modal" where
  "handleDeleteBudget answer reload s =
     (let s1 = s\<lparr>bm_saving := True, bm_error := None\<rparr> in
      (case answer of
         Inr _ \<Rightarrow> (let s2 = loadBudgets reload s1 in
           if bm_category s \<noteq> [] then s2\<lparr>bm_open := False\<rparr> else s2)
       | Inl _ \<Rightarrow> s1\<lparr>bm_error := Some ''Failed to delete budget. Please try again.''\<rparr>)\<lparr>bm_saving := False\<rparr>)"

definition modalPreview :: "date_env \<Rightarrow> UserCategory list \<Rightarrow> Transaction list \<Rightarrow> MonthYearSelection \<Rightarrow>
    budget_modal \<Rightarrow> RolloverBudgetResult option result" where
  "modalPreview e userCategories ytd period s =
     (if bm_category s = [] then Inr None
      else let amount = fin_or_zero (number_of_string (bm_amount s));
               tempBudget = \<lparr>bd_id = ''preview'', bd_category = bm_category s, bd_amount = amount,
                 bd_frequency = Some (bm_frequency s), bd_rollover = Some (bm_rollover s),
                 bd_rollover_start_month = rolloverStart period s, bd_created_at = None\<rparr>;
               parentMajor = getMajorCategoryForSubcategory (bm_category s) userCategories;
               isSub = (truthy parentMajor \<and>
                 toLowerCase (the parentMajor) \<noteq> toLowerCase (trim (bm_category s)))
        in (case computeRolloverBudget e tempBudget ytd period (if isSub then Some (bm_category s) else None) of
             Inl err \<Rightarrow> Inl err | Inr r \<Rightarrow> Inr (Some r)))"

section \<open>The year to date\<close>

text \<open>A load asks for the year of the period and an account; answers are not tied to their load.\<close>

definition ytd_filters :: "MonthYearSelection \<Rightarrow> jstring \<Rightarrow> jstring option \<Rightarrow> TransactionFilters" where
  "ytd_filters period finish account = \<lparr>tf_startDate = Some (year_start period), tf_endDate = Some finish,
     tf_categoryId = None, tf_searchTerm = None, tf_search = None, tf_dateRange = None,
     tf_accountIds = (if truthy account then Some [the account] else None)\<rparr>"

definition ytd_answer :: "exn + Transaction list \<Rightarrow> Transaction list \<Rightarrow> Transaction list" where
  "ytd_answer answer ytd = (case answer of Inr txs \<Rightarrow> txs | Inl _ \<Rightarrow> ytd)"

section \<open>The toast and the labels of the accounts\<close>

text \<open>The toast appears once the rule is made, and a failure leaves it as it was.\<close>

definition handleCreateCategoryRule :: "exn + unit \<Rightarrow> jstring \<Rightarrow> jstring option \<Rightarrow> exn + jstring option" where
  "handleCreateCategoryRule answer pattern toastMessage = (case answer of
     Inl err \<Rightarrow> Inl err
   | Inr _ \<Rightarrow> Inr (Some (''Auto-rule \"'' @ pattern @ ''\" saved successfully'')))"

definition formatAccountOptionTitle :: "jstring \<Rightarrow> ProviderAccount \<Rightarrow> jstring" where
  "formatAccountOptionTitle dot a = pa_institution_name a @ '' - '' @ pa_name a @
     (if truthy (pa_mask a) then '' '' @ dot @ '' '' @ the (pa_mask a) else [])"

section \<open>The figures of the list\<close>

record list_stats =
  ls_totalCount :: nat
  ls_totalShown :: rat
  ls_totalSpent :: rat
  ls_spendingCount :: nat
  ls_pendingCount :: nat
  ls_avgTransaction :: rat
  ls_largestTransaction :: "Transaction option"
  ls_categoryDriver :: "jstring option"

definition magnitude :: "Transaction \<Rightarrow> rat" where
  "magnitude t = \<bar>getDisplayAmount t\<bar>"

definition largest_of :: "Transaction list \<Rightarrow> Transaction option" where
  "largest_of txs = (case txs of [] \<Rightarrow> None
     | t0 # _ \<Rightarrow> Some (foldl (\<lambda>best t. if magnitude best < magnitude t then t else best) t0 txs))"

definition categoryCounts :: "Transaction list \<Rightarrow> (jstring, rat) js_map" where
  "categoryCounts txs =
     foldl (\<lambda>m t. map_add (formatCategoryName (Some (str_or (category_primary t) ''Shopping''))) 1 m) [] txs"

definition topCategories :: "Transaction list \<Rightarrow> jstring list" where
  "topCategories txs = map fst (take 2 (js_sort (down_by snd) (categoryCounts txs)))"

definition list_stats_of :: "jstring \<Rightarrow> Transaction list \<Rightarrow> list_stats" where
  "list_stats_of warningSymbol txs =
     (let totalCount = length txs; top_two = topCategories txs
      in \<lparr>ls_totalCount = totalCount, ls_totalShown = reduce_sum getDisplayAmount txs,
          ls_totalSpent = reduce_sum getNetSpendingAmount txs,
          ls_spendingCount = length (filter isSpendingTransaction txs),
          ls_pendingCount = length (filter (\<lambda>t. tx_pending t = Some True) txs),
          ls_avgTransaction = (if 0 < totalCount then reduce_sum magnitude txs / of_nat totalCount else 0),
          ls_largestTransaction = largest_of txs,
          ls_categoryDriver = (case top_two of [] \<Rightarrow> None
            | [a] \<Rightarrow> Some (warningSymbol @ '' '' @ a)
            | a # b # _ \<Rightarrow> Some (warningSymbol @ '' '' @ a @ '' & '' @ b))\<rparr>)"

section \<open>The totals count each transaction once\<close>

definition counted_day :: "date_env \<Rightarrow> jstring \<Rightarrow> jstring \<Rightarrow> Transaction \<Rightarrow> bool" where
  "counted_day e start finish t \<longleftrightarrow> (case iso_date e t of Inl _ \<Rightarrow> False | Inr d \<Rightarrow> start \<le> d \<and> d \<le> finish)"

lemma spent_on_one:
  assumes "iso_date e t = Inr d"
  shows "calculateSpent e [t] cat start finish None =
    Inr (if budget_matches cat None t \<and> start \<le> d \<and> d \<le> finish then getNetSpendingAmount t else 0)"
  using assms by (simp add: calculateSpent_def Let_def)

lemma some_budget_eq:
  assumes "iso_date e t = Inr d"
  shows "some_budget e start finish t budgets = Inr (start \<le> d \<and> d \<le> finish \<and> getNetSpendingAmount t \<noteq> 0 \<and>
    (\<exists>b\<in>set budgets. budget_matches (bd_category b) None t))"
  by (induction budgets) (auto simp: spent_on_one [OF assms])

lemma is_excluded_no_budget: "isSpendingExcludedCategory (Some (str_or (category_primary t) [])) \<Longrightarrow>
    \<not> budget_matches cat None t"
  by (simp add: budget_matches_def Let_def)

definition in_a_budget :: "Budget list \<Rightarrow> Transaction \<Rightarrow> bool" where
  "in_a_budget budgets t \<longleftrightarrow> list_ex (\<lambda>b. budget_matches (bd_category b) None t) budgets"

lemma total_spent_from_eq:
  assumes "\<And>t. t \<in> set txs \<Longrightarrow> date_parse e (tx_date t) \<noteq> None"
    and "distinct (map tx_id txs)" "tx_id ` set txs \<inter> set counted = {}"
  shows "total_spent_from e budgets start finish counted acc txs =
    Inr (acc + reduce_sum getNetSpendingAmount
      (filter (\<lambda>t. in_a_budget budgets t \<and> counted_day e start finish t) txs))"
  using assms
proof (induction txs arbitrary: counted acc)
  case (Cons t txs)
  obtain d where d: "iso_date e t = Inr d" using Cons.prems(1) [of t] by (auto simp: iso_date_def)
  have pre: "distinct (map tx_id txs)" "tx_id ` set txs \<inter> set counted = {}"
    "tx_id ` set txs \<inter> set (set_add (tx_id t) counted) = {}" "tx_id t \<notin> set counted"
    using Cons.prems(2,3) by auto
  have IH: "total_spent_from e budgets start finish counted acc txs =
      Inr (acc + reduce_sum getNetSpendingAmount (filter (\<lambda>t. in_a_budget budgets t \<and> counted_day e start finish t) txs))"
    "total_spent_from e budgets start finish (set_add (tx_id t) counted) (acc + getNetSpendingAmount t) txs =
      Inr (acc + getNetSpendingAmount t + reduce_sum getNetSpendingAmount
        (filter (\<lambda>t. in_a_budget budgets t \<and> counted_day e start finish t) txs))"
    using Cons.IH [of counted acc] Cons.IH [of "set_add (tx_id t) counted" "acc + getNetSpendingAmount t"] pre Cons.prems(1)
    by auto
  have b: "some_budget e start finish t budgets =
      Inr (start \<le> d \<and> d \<le> finish \<and> getNetSpendingAmount t \<noteq> 0 \<and> in_a_budget budgets t)"
    unfolding some_budget_eq [OF d] in_a_budget_def list_ex_iff by blast
  have c: "counted_day e start finish t \<longleftrightarrow> start \<le> d \<and> d \<le> finish" by (simp add: counted_day_def d)
  show ?case
  proof (cases "isSpendingExcludedCategory (Some (str_or (category_primary t) []))")
    case True
    then have "\<not> in_a_budget budgets t" using is_excluded_no_budget by (auto simp: in_a_budget_def list_ex_iff)
    then show ?thesis using True IH(1) by simp
  next
    case False
    then show ?thesis using IH b c d pre(4) by (auto simp: not_less)
  qed
qed simp

text \<open>
  The total spent is the net spending of the transactions of the period that fall under at least one
  budget, each counted once however many budgets it falls under.
\<close>

theorem total_counts_once:
  assumes "\<And>t. t \<in> set txs \<Longrightarrow> date_parse e (tx_date t) \<noteq> None" "distinct (map tx_id txs)"
  shows "totalBudgetSpent e budgets start finish txs =
    Inr (reduce_sum getNetSpendingAmount
      (filter (\<lambda>t. in_a_budget budgets t \<and> counted_day e start finish t) txs))"
  using total_spent_from_eq [OF assms(1), of txs "[]" budgets start finish 0] assms(2)
  by (simp add: totalBudgetSpent_def)

theorem total_counts_once_witness:
  "totalBudgetSpent utc_env [sample_budget Monthly False 100, sample_budget Monthly False 50]
     (day_key 19700) (day_key 19800) sample_txs =
   Inr (reduce_sum getNetSpendingAmount (filter (\<lambda>t. in_a_budget
     [sample_budget Monthly False 100, sample_budget Monthly False 50] t \<and>
     counted_day utc_env (day_key 19700) (day_key 19800) t) sample_txs))"
proof (rule total_counts_once)
  have "year_of_day 19782 = 2024" "year_of_day 19740 = 2024" by code_simp+
  then show "date_parse utc_env (tx_date t) \<noteq> None" if "t \<in> set sample_txs" for t
    using that date_parse_day_key [of 19782 utc_env] date_parse_day_key [of 19740 utc_env]
    by (auto simp: sample_txs_def bare_transaction_def four_digit_day_def)
  show "distinct (map tx_id sample_txs)" by (simp add: sample_txs_def bare_transaction_def)
qed

lemma available_plain:
  assumes "bd_rollover b \<noteq> Some True" "computeRolloverBudget e b ytd period None = Inr r"
  shows "rb_availableThisMonth r = totalBudgeted period [b]"
  using assms
  by (auto simp: computeRolloverBudget_def totalBudgeted_def Let_def period_multiplier_def
      split: sum.splits prod.splits BudgetFrequency.splits option.splits)

text \<open>
  The total budgeted is what the cards of the single budgets make available together, as long as
  none of them rolls over, for a month and for a whole year.
\<close>

theorem total_agrees_with_cards:
  assumes "traverse (\<lambda>b. computeRolloverBudget e b ytd period None) budgets = Inr rs"
    and "\<And>b. b \<in> set budgets \<Longrightarrow> bd_rollover b \<noteq> Some True"
  shows "totalBudgeted period budgets = reduce_sum rb_availableThisMonth rs"
  using assms
proof (induction budgets arbitrary: rs)
  case (Cons b budgets)
  obtain r rs' where r: "computeRolloverBudget e b ytd period None = Inr r"
      "traverse (\<lambda>b. computeRolloverBudget e b ytd period None) budgets = Inr rs'" "rs = r # rs'"
    using Cons.prems(1) by (auto split: sum.splits)
  have "totalBudgeted period budgets = reduce_sum rb_availableThisMonth rs'"
    using Cons.IH [OF r(2)] Cons.prems(2) by simp
  moreover have "rb_availableThisMonth r = totalBudgeted period [b]"
    using available_plain [OF _ r(1)] Cons.prems(2) by simp
  ultimately show ?case using r(3) by (simp add: totalBudgeted_def)
qed (simp add: totalBudgeted_def)


theorem total_agrees_with_cards_witness:
  "totalBudgeted \<lparr>sel_year = 2024, sel_month = None\<rparr> [sample_budget Annual False 100] = 100"
proof -
  let ?p = "\<lparr>sel_year = 2024, sel_month = None\<rparr>" and ?b = "sample_budget Annual False 100"
  obtain r where r: "computeRolloverBudget utc_env ?b [] ?p None = Inr r" "rb_availableThisMonth r = 100"
    by (auto simp: computeRolloverBudget_def calculateSpent_def sample_budget_def default_to_def
        period_multiplier_def prior_months_def Let_def)
  then have "traverse (\<lambda>b. computeRolloverBudget utc_env b [] ?p None) [?b] = Inr [r]" by simp
  from total_agrees_with_cards [OF this] show ?thesis using r(2) by (simp add: sample_budget_def)
qed

section \<open>The card warns exactly when its accent does\<close>

lemma rest_pill_tone: "snd (rest_pill fm isOver x) = (if isOver then Danger else Success)"
  by (simp add: rest_pill_def)

lemma card_accent_rose: "card_accent isOver p = Rose \<longleftrightarrow> isOver"
  by (simp add: card_accent_def)

lemma badge_tones: "Danger \<notin> snd ` set (badge_pills f)"
  by (auto simp: badge_pills_def)

text \<open>
  Whatever the selection and the figures, the card of the budget is in the colour of alarm exactly
  when one of its pills is a warning of overspending, and exactly when the budget it shows is overspent.
\<close>

theorem card_alarm:
  "(bc_accent (budgetCardData fm bullet dot period category subcategory d) = Rose) =
     (Danger \<in> snd ` set (bc_pills (budgetCardData fm bullet dot period category subcategory d)))"
  using badge_tones
  by (auto simp: budgetCardData_def no_budget_card_def rollover_card_def plain_card_def composite_card_def
      total_card_def Let_def card_accent_rose rest_pill_tone image_Un split: option.splits)

text \<open>
  The card of a subcategory measures the spending of the whole year against one month's amount: a
  budget of 100 a month with 600 spent in the year is 500 over on it, and the card of the total, with
  the same budget and the same spending, has 600 left.
\<close>

theorem year_cards_disagree:
  "let p = \<lparr>sel_year = 2024, sel_month = None\<rparr>; b = sample_budget Monthly False 100;
       d = \<lparr>cd_matched = Some b, cd_rollover = None, cd_composite = None, cd_categorySpent = 600,
         cd_categoryYtdSpent = 600, cd_budgets = 1, cd_totalBudgeted = totalBudgeted p [b],
         cd_totalBudgetSpent = 600, cd_rolloverCount = 0\<rparr>
   in last (bc_pills (budgetCardData fm bullet dot p category (Some ''Coffee'') d)) = (fm 500 @ '' over'', Danger) \<and>
      bc_pills (budgetCardData fm bullet dot p None None d) = [(fm 600 @ '' left'', Success)]"
  by (simp add: Let_def budgetCardData_def plain_card_def total_card_def rest_pill_def totalBudgeted_def
      sample_budget_def default_to_def truthy_def period_multiplier_def)

section \<open>The modal keeps one budget for a category\<close>

lemma find_budget_Some: "find_budget target bs = Some b \<Longrightarrow> b \<in> set bs \<and> category_is target b"
  unfolding find_budget_def by (metis find_Some_iff nth_mem)

lemma find_budget_None: "find_budget target bs = None \<longleftrightarrow> (\<forall>b\<in>set bs. \<not> category_is target b)"
  by (auto simp: find_budget_def find_None_iff)

text \<open>
  The modal sends a positive amount only, and never asks for a second budget of a category: it
  updates the one there is, up to case and surrounding spaces, keeping the month its rollover started
  in, and creates one exactly when there is none. In every case it ends up not saving.
\<close>

theorem modal_never_duplicates:
  "case handleSaveBudget period send reload s of (request, s') \<Rightarrow>
     bm_saving s' = (bm_saving s \<and> request = None) \<and>
     (case request of
        None \<Rightarrow> bm_error s' \<noteq> None \<and> bm_budgets s' = bm_budgets s
      | Some (Update_budget i amount f r start) \<Rightarrow> 0 < amount \<and> (\<exists>b\<in>set (bm_budgets s). bd_id b = i \<and>
          category_is (bm_category s) b \<and>
          (r \<and> truthy (bd_rollover_start_month b) \<longrightarrow> start = bd_rollover_start_month b))
      | Some (Create_budget c amount f r start) \<Rightarrow> 0 < amount \<and> c = trim (bm_category s) \<and>
          filter (category_is c) (bm_budgets s) = [])"
proof (cases "bm_category s = [] \<or> positive_number (number_of_string (bm_amount s)) = None")
  case True
  then show ?thesis by (auto simp: handleSaveBudget_def)
next
  case False
  then obtain amount where a: "positive_number (number_of_string (bm_amount s)) = Some amount" by blast
  then have pos: "0 < amount" by (auto simp: positive_number_def split: jsnum.splits if_splits)
  have c: "category_is (trim x) = category_is x" for x by (simp add: category_is_def [abs_def])
  have h: "fst (handleSaveBudget period send reload s) = Some (budget_request_of period amount s)"
    "\<not> bm_saving (snd (handleSaveBudget period send reload s))"
    using False a by (simp_all add: handleSaveBudget_def Let_def)
  show ?thesis
  proof (cases "find_budget (bm_category s) (bm_budgets s)")
    case None
    then have "filter (category_is (trim (bm_category s))) (bm_budgets s) = []"
      by (simp add: find_budget_None c filter_empty_conv)
    then show ?thesis using h None pos by (auto simp: budget_request_of_def split: prod.splits)
  next
    case (Some b)
    have "rolloverStart period s = bd_rollover_start_month b" if r: "bm_rollover s" "truthy (bd_rollover_start_month b)"
    proof -
      obtain m where "bd_rollover_start_month b = Some m" "m \<noteq> []"
        using r(2) by (auto simp: truthy_def split: option.splits)
      then show ?thesis using r(1) Some by (simp add: rolloverStart_def str_or_def)
    qed
    then have "\<exists>b'\<in>set (bm_budgets s). bd_id b' = bd_id b \<and> category_is (bm_category s) b' \<and>
        (bm_rollover s \<and> truthy (bd_rollover_start_month b') \<longrightarrow>
          rolloverStart period s = bd_rollover_start_month b')"
      using find_budget_Some [OF Some] by blast
    then show ?thesis
      using h Some pos by (auto simp: budget_request_of_def split: prod.splits)
  qed
qed

section \<open>The figures\<close>

lemma largest_fold:
  "foldl (\<lambda>best t. if magnitude best < magnitude t then t else best) t0 txs \<in> insert t0 (set txs) \<and>
   (\<forall>t \<in> insert t0 (set txs). magnitude t \<le>
      magnitude (foldl (\<lambda>best t. if magnitude best < magnitude t then t else best) t0 txs))"
proof (induction txs arbitrary: t0)
  case (Cons t txs)
  let ?n = "if magnitude t0 < magnitude t then t else t0"
  have IH: "foldl (\<lambda>best t. if magnitude best < magnitude t then t else best) ?n txs \<in> insert ?n (set txs)"
    "u \<in> insert ?n (set txs) \<Longrightarrow> magnitude u \<le>
      magnitude (foldl (\<lambda>best t. if magnitude best < magnitude t then t else best) ?n txs)" for u
    using Cons.IH [of ?n] by blast+
  have "magnitude t0 \<le> magnitude ?n" "magnitude t \<le> magnitude ?n" by auto
  then show ?case using IH(1) IH(2) [of ?n] IH(2) by (auto intro: order_trans)
qed simp

text \<open>
  The figures of the list agree with each other: the average times the count is the volume, the
  largest transaction is one of the list and none is larger, and no more items are spending or
  pending than there are.
\<close>

theorem figures_agree:
  "ls_avgTransaction (list_stats_of w txs) * of_nat (ls_totalCount (list_stats_of w txs)) =
     reduce_sum magnitude txs \<and>
   ls_spendingCount (list_stats_of w txs) \<le> ls_totalCount (list_stats_of w txs) \<and>
   ls_pendingCount (list_stats_of w txs) \<le> ls_totalCount (list_stats_of w txs) \<and>
   (case ls_largestTransaction (list_stats_of w txs) of None \<Rightarrow> txs = []
    | Some t \<Rightarrow> t \<in> set txs \<and> magnitude t = Max (magnitude ` set txs))"
proof -
  have "magnitude t = Max (magnitude ` set txs) \<and> t \<in> set txs" if "largest_of txs = Some t" for t
  proof -
    have txs: "hd txs \<in> set txs"
      "t = foldl (\<lambda>best t. if magnitude best < magnitude t then t else best) (hd txs) txs"
      using that by (cases txs; simp add: largest_of_def)+
    then have "t \<in> set txs" "\<And>u. u \<in> set txs \<Longrightarrow> magnitude u \<le> magnitude t"
      using largest_fold [of "hd txs" txs] by (simp_all add: insert_absorb)
    then show ?thesis by (auto intro!: Max_eqI [symmetric])
  qed
  moreover have "largest_of txs = None \<longleftrightarrow> txs = []" by (simp add: largest_of_def split: list.splits)
  ultimately show ?thesis
    by (auto simp: list_stats_of_def Let_def split: option.splits)
qed

end
