(* ===== verification/Dashboard_View.thy ===== *)
theory Dashboard_View
  imports Dashboard_Calculator Analytics_State Provider_Services Trends_Page Budgets_Page
begin

text \<open>
  The dashboard (\<^verbatim>\<open>views/DashboardPage.tsx\<close>) and its overview of the balances
  (\<^verbatim>\<open>components/BalancesOverview.tsx\<close>): the window of the selected month, the charges that
  are predicted for it and the load behind them, the tiles of the top categories, the labels of the
  axes, and the bars. The names of months and the compact notation of numbers are the host's.
\<close>

section \<open>The charges of the selected month\<close>

definition window_start :: "MonthYearSelection \<Rightarrow> int" where
  "window_start p = make_day (sel_year p) (default_to (sel_month p) 0) 1"

definition window_end :: "MonthYearSelection \<Rightarrow> int" where
  "window_end p = make_day (sel_year p) (case sel_month p of None \<Rightarrow> 12 | Some m \<Rightarrow> m + 1) 0"

definition getSelectedMonthWindow :: "date_env \<Rightarrow> MonthYearSelection \<Rightarrow> int \<times> int" where
  "getSelectedMonthWindow e p = (window_start p,
     max 0 (js_round (of_int (de_midnight e (window_end p) - de_midnight e (window_start p)) / of_int ms_per_day)))"

text \<open>A transaction as the calculator reads it.\<close>

definition charge_of :: "Transaction \<Rightarrow> ChargeTransaction" where
  "charge_of t = \<lparr>ct_account_id = tx_account_id t, ct_account_type = Some (tx_account_type t),
     ct_amount = tx_amount t, ct_date = tx_date t, ct_merchant = tx_merchant t, ct_name = Some (tx_name t),
     ct_provider = map_option (\<lambda>p. case p of Plaid \<Rightarrow> ''plaid'' | Teller \<Rightarrow> ''teller'') (tx_provider t)\<rparr>"

definition upcomingCharges :: "date_env \<Rightarrow> MonthYearSelection \<Rightarrow> Transaction list \<Rightarrow>
    UpcomingChargePrediction list option" where
  "upcomingCharges e p txs = (case getSelectedMonthWindow e p of (start, horizonDays) \<Rightarrow>
     predictUpcomingCharges e (map charge_of txs) start horizonDays)"

definition totalUpcomingCharges :: "UpcomingChargePrediction list \<Rightarrow> rat" where
  "totalUpcomingCharges ps = reduce_sum up_amount ps"

text \<open>The distance of a charge; a distance that is not a number is printed as such.\<close>

definition charge_when :: "int option \<Rightarrow> jstring" where
  "charge_when d = (if d = Some 0 then ''Today''
     else ''In '' @ (case d of None \<Rightarrow> ''NaN'' | Some n \<Rightarrow> int_str n) @ '' day'' @ (if d = Some 1 then [] else ''s''))"

section \<open>The load of the transactions\<close>

text \<open>
  Each run of the effect cancels the one before; \<open>cl_run\<close> is the number of the run that is not
  cancelled. Run and accounts of a request go with it.
\<close>

record charge_loader =
  cl_transactions :: "Transaction list"
  cl_loading :: bool
  cl_error :: "jstring option"
  cl_run :: nat

type_synonym charge_request = "nat \<times> jstring list option"

definition initial_charges :: charge_loader where
  "initial_charges = \<lparr>cl_transactions = [], cl_loading = False, cl_error = None, cl_run = 0\<rparr>"

definition loadChargeTransactions :: "account_filter \<Rightarrow> charge_loader \<Rightarrow> charge_request option \<times> charge_loader" where
  "loadChargeTransactions af s0 =
     (let s = s0\<lparr>cl_run := Suc (cl_run s0)\<rparr> in
      if af_loading af then (None, s)
      else if 0 < length (allAccountIds af) \<and> af_selected af = [] then
        (None, s\<lparr>cl_transactions := [], cl_error := None, cl_loading := False\<rparr>)
      else (Some (cl_run s, asked_accounts af), s\<lparr>cl_loading := True, cl_error := None\<rparr>))"

definition charges_answered :: "charge_request \<Rightarrow> exn + Transaction list \<Rightarrow> charge_loader \<Rightarrow> charge_loader" where
  "charges_answered r answer s =
     (if fst r \<noteq> cl_run s then s
      else (case answer of
          Inr txns \<Rightarrow> s\<lparr>cl_transactions := txns\<rparr>
        | Inl _ \<Rightarrow> s\<lparr>cl_transactions := [], cl_error := Some ''Unable to predict upcoming charges right now.''\<rparr>)
        \<lparr>cl_loading := False\<rparr>)"

section \<open>The tiles and the labels of the net worth\<close>

record category_tile =
  ct_category :: jstring
  ct_value :: rat
  ct_percentage :: jstring

definition category_tiles :: "(jstring \<times> rat) list \<Rightarrow> category_tile list" where
  "category_tiles categories =
     (let categorySum = reduce_sum snd categories in
      map (\<lambda>(name, value). \<lparr>ct_category = name, ct_value = value,
        ct_percentage = (if 0 < categorySum then to_fixed 1 (value / categorySum * 100) else ''0.0'')\<rparr>)
        (take 6 categories))"

definition displayNetSeries :: "currency_state \<Rightarrow> NetWorthPoint list \<Rightarrow> NetWorthPoint list" where
  "displayNetSeries c series =
     map (\<lambda>point. point\<lparr>nw_value := JNum (Fin (currency_convert c (nw_value point)))\<rparr>) series"

text \<open>The span of the series in days: 0 when it has no dates, \<open>None\<close> when they cannot be read.\<close>

definition span_days :: "date_env \<Rightarrow> NetWorthPoint list \<Rightarrow> int option" where
  "span_days e series =
     (if series = [] \<or> nw_date (hd series) = [] \<or> nw_date (last series) = [] then Some 0
      else case (date_parse e (nw_date (hd series)), date_parse e (nw_date (last series))) of
        (Some a, Some b) \<Rightarrow> Some (max 1 (js_round (of_int (b - a) / of_int ms_per_day)))
      | _ \<Rightarrow> None)"

definition net_tick :: "date_env \<Rightarrow> (int \<Rightarrow> jstring) \<Rightarrow> (int \<Rightarrow> jstring) \<Rightarrow> NetWorthPoint list \<Rightarrow> jstring \<Rightarrow> jstring" where
  "net_tick e monthDay monthYear series value =
     (if value = [] then []
      else case date_parse e value of None \<Rightarrow> value
      | Some d \<Rightarrow> (case span_days e series of
          Some n \<Rightarrow> if n \<noteq> 0 \<and> n \<le> 92 then monthDay d else monthYear d
        | None \<Rightarrow> monthYear d))"

definition net_value_tick :: "(nat \<Rightarrow> rat \<Rightarrow> jstring) \<Rightarrow> (rat \<times> rat) option \<Rightarrow> rat \<Rightarrow> jstring" where
  "net_value_tick compactNotation netYAxisDomain v =
     (let span = (case netYAxisDomain of None \<Rightarrow> 0 | Some (lo, hi) \<Rightarrow> \<bar>hi - lo\<bar>);
          digits = (if 0 < span \<and> span < 2000000 then 2 else 1)
      in (if v < 0 then ''-'' else []) @ compactNotation digits \<bar>v\<bar>)"

section \<open>The overview of the balances\<close>

record bank_totals =
  bt_bankName :: jstring
  bt_cash :: "rat option"
  bt_investments :: "rat option"
  bt_property :: "rat option"
  bt_credit :: "rat option"
  bt_loan :: "rat option"

text \<open>\<^verbatim>\<open>Intl.NumberFormat\<close> for integers in \<^verbatim>\<open>en-US\<close>: digits in groups of three.\<close>

function group_digits :: "jstring \<Rightarrow> jstring" where
  "group_digits s = (if length s \<le> 3 then s
     else group_digits (take (length s - 3) s) @ '','' @ drop (length s - 3) s)"
  by pat_completeness auto
termination by (relation "measure length") auto

declare group_digits.simps [simp del]

definition fmtAxis :: "rat \<Rightarrow> jstring" where
  "fmtAxis n =
     (let sign = (if n < 0 then ''-'' else []); absolute = \<bar>n\<bar>;
          scaled = (\<lambda>scale unit above. let rounded = js_round (absolute / scale) in
            if 1000 \<le> rounded then sign @ ''1'' @ above else sign @ int_str rounded @ unit)
      in if 10 ^ 12 \<le> absolute then sign @ int_str (js_round (absolute / 10 ^ 12)) @ ''T''
         else if 10 ^ 9 \<le> absolute then scaled (10 ^ 9) ''B'' ''T''
         else if 10 ^ 6 \<le> absolute then scaled (10 ^ 6) ''M'' ''B''
         else if 10 ^ 4 \<le> absolute then scaled (10 ^ 3) ''k'' ''M''
         else sign @ group_digits (int_str (js_round absolute)))"

definition or_zero :: "rat option \<Rightarrow> rat" where
  "or_zero x = default_to x 0"

definition assets_of :: "bank_totals \<Rightarrow> rat" where
  "assets_of b = or_zero (bt_cash b) + or_zero (bt_investments b) + or_zero (bt_property b)"

definition debts_of :: "bank_totals \<Rightarrow> rat" where
  "debts_of b = \<bar>or_zero (bt_credit b) + or_zero (bt_loan b)\<bar>"

definition maxAbs :: "bank_totals list \<Rightarrow> rat" where
  "maxAbs banks = max (Max (set (0 # map assets_of banks))) (Max (set (0 # map debts_of banks)))"

definition maxLabelLen :: "rat \<Rightarrow> nat" where
  "maxLabelLen m = max (length (fmtAxis m)) (length (fmtAxis (- m)))"

definition yTickFontSize :: "nat \<Rightarrow> rat" where
  "yTickFontSize len = (if 18 \<le> len then 9 else if 16 \<le> len then 10 else if 14 \<le> len then 11 else 12)"

definition yAxisWidth :: "nat \<Rightarrow> int" where
  "yAxisWidth len = min 120 (\<lceil>of_nat len * (yTickFontSize len * (62 / 100))\<rceil> + 12)"

definition chart_bar :: "(rat \<Rightarrow> rat) \<Rightarrow> bank_totals \<Rightarrow> bank_totals" where
  "chart_bar convert b = b\<lparr>bt_cash := map_option convert (bt_cash b),
     bt_investments := map_option convert (bt_investments b), bt_property := map_option convert (bt_property b),
     bt_credit := map_option convert (bt_credit b), bt_loan := map_option convert (bt_loan b)\<rparr>"

definition bankChartData :: "(rat \<Rightarrow> rat) \<Rightarrow> bank_totals list option \<Rightarrow> bank_totals list" where
  "bankChartData convert banks = map (chart_bar convert) (default_to banks [])"

text \<open>What is shown above the chart while a bar is pointed at: a figure it lacks is shown as zero.\<close>

definition hover_figures :: "(rat \<Rightarrow> jstring) \<Rightarrow> bank_totals \<Rightarrow> (jstring \<times> jstring) list" where
  "hover_figures formatConv b =
     [(''Cash'', formatConv (or_zero (bt_cash b))), (''Investments'', formatConv (or_zero (bt_investments b))),
      (''Property'', formatConv (or_zero (bt_property b))), (''Credit'', formatConv (or_zero (bt_credit b))),
      (''Loan'', formatConv (or_zero (bt_loan b)))]"

record balance_totals =
  bo_net :: "rat option"
  bo_totals :: bank_totals

definition overviewCards :: "(rat \<Rightarrow> jstring) \<Rightarrow> balance_totals option \<Rightarrow> (jstring \<times> Accent \<times> jstring) list" where
  "overviewCards fm overall =
     (let figure = (\<lambda>f. fm (or_zero (Option.bind overall f))) in
      [(''Net'', Violet, figure bo_net), (''Cash'', Emerald, figure (\<lambda>o1. bt_cash (bo_totals o1))),
       (''Investments'', Sky, figure (\<lambda>o1. bt_investments (bo_totals o1))),
       (''Property'', Emerald, figure (\<lambda>o1. bt_property (bo_totals o1))),
       (''Credit'', Rose, figure (\<lambda>o1. bt_credit (bo_totals o1))),
       (''Loan'', Amber, figure (\<lambda>o1. bt_loan (bo_totals o1)))])"

section \<open>The window of a month\<close>

lemma window_bounds:
  assumes "\<And>m. sel_month p = Some m \<Longrightarrow> 0 \<le> m \<and> m < 12"
  shows "window_start p \<le> n \<and> n \<le> window_end p \<longleftrightarrow>
      year_of_day n = sel_year p \<and> (case sel_month p of None \<Rightarrow> True | Some m \<Rightarrow> month_of_day n = m)"
    and "0 \<le> window_end p - window_start p" and "window_end p - window_start p \<le> 365"
proof -
  obtain m m' where w: "window_start p = make_day (sel_year p) m 1" "window_end p = make_day (sel_year p) (m' + 1) 0"
    and m: "0 \<le> m" "m < 12" "0 \<le> m'" "m' < 12" "m \<le> m'"
    and sel: "sel_month p = None \<and> m = 0 \<and> m' = 11 \<or> sel_month p = Some m \<and> m' = m"
    using assms by (cases "sel_month p") (auto simp: window_start_def window_end_def default_to_def
        intro: that [of 0 11])
  have in_window: "window_start p \<le> n \<and> n \<le> window_end p \<longleftrightarrow>
      12 * sel_year p + m \<le> month_index n \<and> month_index n \<le> 12 * sel_year p + m'" for n
    by (simp add: w first_of_month_le le_last_of_month)
  show "window_start p \<le> n \<and> n \<le> window_end p \<longleftrightarrow>
      year_of_day n = sel_year p \<and> (case sel_month p of None \<Rightarrow> True | Some m \<Rightarrow> month_of_day n = m)"
    unfolding in_window using sel m month_index_year [of "sel_year p" n] month_index_eq_iff [OF m(1,2), of n "sel_year p"]
    by (auto simp: order_antisym_conv)
  have "month_index (window_start p) = 12 * sel_year p + m"
    using fields_make_day(1,2) [OF valid_first [OF m(1,2)], of "sel_year p"] by (simp add: w month_index_def)
  then show "0 \<le> window_end p - window_start p" using in_window [of "window_start p"] m(5) by simp
  show "window_end p - window_start p \<le> 365"
    using valid_date_doy(3) [OF valid_first [OF m(1,2)], of "sel_year p"]
      valid_date_doy(4) [OF valid_last [OF m(3,4)], of "sel_year p"] make_day_last [OF m(3,4), of "sel_year p"]
      day_from_year_Suc [of "sel_year p"]
    by (simp add: w split: if_splits)
qed

lemma window_exact:
  assumes "zone_steady e" and "\<And>m. sel_month p = Some m \<Longrightarrow> 0 \<le> m \<and> m < 12"
  shows "getSelectedMonthWindow e p = (window_start p, window_end p - window_start p)"
  using window_bounds(2) [of p] assms(2) midnights_apart [OF assms(1), of "window_end p" "window_start p"]
  by (simp add: getSelectedMonthWindow_def)

text \<open>
  The charges predicted for a month, or for a year, lie in it. The first day itself is never among
  them, because the prediction takes that day for today and looks for later ones: no charge is ever
  shown as due today, and one that falls on the first of the month is not shown at all.
\<close>

theorem charges_in_window:
  assumes "zone_steady e" and "early_day (window_start p)" and "\<And>m. sel_month p = Some m \<Longrightarrow> 0 \<le> m \<and> m < 12"
    and "charge_dates_ok e (map charge_of txs)"
  shows "\<exists>ps. upcomingCharges e p txs = Some ps \<and> length ps \<le> 8 \<and>
    (\<forall>c\<in>set ps. \<exists>k. up_nextDate c = day_key k \<and> year_of_day k = sel_year p \<and>
       (case sel_month p of None \<Rightarrow> True | Some m \<Rightarrow> month_of_day k = m) \<and>
       window_start p < k \<and> charge_when (up_daysUntil c) \<noteq> ''Today'')"
proof -
  note b = window_bounds(2,3) [of p] and w = window_bounds(1) [of p]
  obtain ys where ys: "upcomingCharges e p txs = Some (take 8 (js_sort prediction_le ys))"
      "\<forall>c\<in>set ys. prediction_ok e (window_start p) (window_end p - window_start p) c"
    using predictions_ok [OF assms(1,2) b assms(4)] assms(3)
    by (auto simp: upcomingCharges_def window_exact [OF assms(1,3)])
  let ?ps = "take 8 (js_sort prediction_le ys)"
  show ?thesis
  proof (intro exI [of _ ?ps] conjI ballI)
    fix c assume "c \<in> set ?ps"
    then have "c \<in> set ys" by (auto dest: in_set_takeD)
    then obtain k where k: "up_nextDate c = day_key k" "window_start p < k" "k \<le> window_end p"
        "up_daysUntil c = Some (k - window_start p)"
      using ys(2) by (auto simp: prediction_ok_def)
    then show "\<exists>k. up_nextDate c = day_key k \<and> year_of_day k = sel_year p \<and>
       (case sel_month p of None \<Rightarrow> True | Some m \<Rightarrow> month_of_day k = m) \<and>
       window_start p < k \<and> charge_when (up_daysUntil c) \<noteq> ''Today''"
      using w [of k] assms(3) by (auto simp: charge_when_def)
  qed (use ys in auto)
qed

definition rent :: "int \<Rightarrow> Transaction" where
  "rent n = bare_transaction ''Rent'' (day_key n) 900 ''Housing''"

theorem charges_in_window_witness:
  "\<exists>ps. upcomingCharges utc_env \<lparr>sel_year = 2024, sel_month = Some 2\<rparr> [rent 19724, rent 19755] = Some ps \<and>
     length ps \<le> 8"
proof -
  have y: "year_of_day 19724 = 2024" "year_of_day 19755 = 2024" "year_of_day 19783 = 2024"
    "window_start \<lparr>sel_year = 2024, sel_month = Some 2\<rparr> = 19783" by code_simp+
  then have d: "early_day 19724" "early_day 19755" "early_day 19783" by (simp_all add: early_day_def)
  have k: "toDateKey utc_env (day_key n) = day_key n" if "early_day n" for n
    using date_only_day_key [OF plain_four_digit [OF early_plain [OF that]]] by (simp add: toDateKey_def)
  have "charge_dates_ok utc_env (map charge_of [rent 19724, rent 19755])"
    using d k fromDateKey_day_key early_plain by (auto simp: charge_dates_ok_def charge_of_def rent_def bare_transaction_def)
  moreover have "zone_steady utc_env" by (simp add: zone_steady_def utc_env_def algebra_simps)
  ultimately show ?thesis
    using charges_in_window [of utc_env "\<lparr>sel_year = 2024, sel_month = Some 2\<rparr>" "[rent 19724, rent 19755]"] d y by fastforce
qed

section \<open>The newest run of the load counts\<close>

datatype charge_event = Run_effect account_filter | Answer_charges nat "exn + Transaction list"

text \<open>A run: the loader, the requests in flight, and whether the accounts were loading at the last effect.\<close>

type_synonym charge_run = "charge_loader \<times> charge_request list \<times> bool"

fun charge_handle :: "charge_event \<Rightarrow> charge_run \<Rightarrow> charge_run" where
  "charge_handle (Run_effect af) (s, p, w) =
     (let (r, s') = loadChargeTransactions af s in (s', p @ (case r of None \<Rightarrow> [] | Some q \<Rightarrow> [q]), af_loading af))"
| "charge_handle (Answer_charges i answer) (s, p, w) =
     (if i < length p then (charges_answered (p ! i) answer s, take i p @ drop (Suc i) p, w) else (s, p, w))"

definition charges_ok :: "charge_run \<Rightarrow> bool" where
  "charges_ok x = (case x of (s, p, w) \<Rightarrow>
     distinct (map fst p) \<and> (\<forall>r\<in>set p. fst r \<le> cl_run s) \<and>
     (cl_loading s \<longrightarrow> w \<or> cl_run s \<in> fst ` set p) \<and>
     (cl_run s \<in> fst ` set p \<longrightarrow> cl_loading s \<and> \<not> w))"

lemma charges_ok_effect:
  assumes "charges_ok (s, p, w)"
  shows "charges_ok (charge_handle (Run_effect af) (s, p, w))"
proof -
  have old: "distinct (map fst p)" "\<forall>r\<in>set p. fst r \<le> cl_run s" using assms by (simp_all add: charges_ok_def)
  then have fresh: "Suc (cl_run s) \<notin> fst ` set p" "\<forall>r\<in>set p. fst r \<le> Suc (cl_run s)" by fastforce+
  consider (waits) "af_loading af" | (nothing) "\<not> af_loading af" "0 < length (allAccountIds af) \<and> af_selected af = []"
    | (asks) "\<not> af_loading af" "\<not> (0 < length (allAccountIds af) \<and> af_selected af = [])" by blast
  then show ?thesis
  proof cases
    case waits
    then show ?thesis using old(1) fresh by (simp add: loadChargeTransactions_def charges_ok_def)
  next
    case nothing
    then show ?thesis using old(1) fresh by (simp add: loadChargeTransactions_def charges_ok_def)
  next
    case asks
    then have "loadChargeTransactions af s = (Some (Suc (cl_run s), asked_accounts af),
        s\<lparr>cl_run := Suc (cl_run s), cl_loading := True, cl_error := None\<rparr>)"
      unfolding loadChargeTransactions_def by (simp only: Let_def if_False) simp
    then show ?thesis using old(1) fresh asks(1) by (simp add: charges_ok_def)
  qed
qed

lemma answered_stale: "fst r \<noteq> cl_run s \<Longrightarrow> charges_answered r answer s = s"
  by (simp add: charges_answered_def)

lemma answered_current:
  "fst r = cl_run s \<Longrightarrow> \<not> cl_loading (charges_answered r answer s) \<and> cl_run (charges_answered r answer s) = cl_run s"
  by (simp add: charges_answered_def split: sum.split)

lemma charges_ok_answered:
  assumes "charges_ok (s, q @ r # q', w)"
  shows "charges_ok (charges_answered r answer s, q @ q', w)"
proof (cases "fst r = cl_run s")
  case True
  then have "cl_run s \<notin> fst ` set (q @ q')" using assms by (auto simp: charges_ok_def)
  then show ?thesis
    using assms answered_current [OF True, of answer] unfolding charges_ok_def by simp
next
  case False
  then show ?thesis
    using assms answered_stale [OF False, of answer] unfolding charges_ok_def by simp
qed

lemma charges_ok_answer:
  assumes "charges_ok (s, p, w)"
  shows "charges_ok (charge_handle (Answer_charges i answer) (s, p, w))"
  using assms charges_ok_answered [of s "take i p" "p ! i" "drop (Suc i) p" w answer]
  by (cases "i < length p") (simp_all add: id_take_nth_drop [symmetric])

interpretation charges: event_machine charge_handle "\<lambda>_ _. True" "\<lambda>x. x = (initial_charges, [], False)" charges_ok
proof
  fix x e assume "charges_ok x"
  then show "charges_ok (charge_handle e x)"
    by (cases x; cases e) (simp_all only: charges_ok_effect charges_ok_answer)
qed (simp add: charges_ok_def initial_charges_def)

text \<open>
  However selections and answers interleave, the page is loading its charges exactly while the
  newest request is in flight, or the accounts are being loaded after one that was given up; an
  answer to an older request changes nothing.
\<close>

theorem newest_charges_shown:
  "case fold charge_handle es (initial_charges, [], False) of (s, p, w) \<Rightarrow>
     (w \<or> cl_loading s = (cl_run s \<in> fst ` set p)) \<and>
     (fst r = cl_run s \<or> charges_answered r answer s = s)"
proof -
  obtain s p w where run: "fold charge_handle es (initial_charges, [], False) = (s, p, w)" by (rule prod_cases3)
  then have "charges_ok (s, p, w)" using charges.invar_fold [of "(initial_charges, [], False)" es] by simp
  then show ?thesis using answered_stale [of r s answer] unfolding run charges_ok_def prod.case by blast
qed

section \<open>The labels of the axis\<close>

lemma dec_length: "n < 1000 \<Longrightarrow> length (dec n) \<le> 3"
  by (subst dec.simps, subst dec.simps, subst dec.simps) simp

lemma int_str_length: "0 \<le> k \<Longrightarrow> k < 1000 \<Longrightarrow> length (int_str k) \<le> 3"
  using dec_length [of "nat k"] by (simp add: int_str_def)

text \<open>The unit of a label and the number in front of it.\<close>

definition axis_scale :: "char \<Rightarrow> rat" where
  "axis_scale c = (if c = CHR ''T'' then 10 ^ 12 else if c = CHR ''B'' then 10 ^ 9
     else if c = CHR ''M'' then 10 ^ 6 else 10 ^ 3)"

lemma js_round_within: "\<bar>of_int (js_round x) - x\<bar> \<le> 1 / 2"
  unfolding js_round_def abs_le_iff by linarith

lemma js_round_scaled:
  assumes "0 < scale"
  shows "\<bar>of_int (js_round (a / scale)) * scale - a\<bar> \<le> scale / 2"
proof -
  have "\<bar>of_int (js_round (a / scale)) - a / scale\<bar> * scale \<le> 1 / 2 * scale"
    using js_round_within [of "a / scale"] assms by (intro mult_right_mono) auto
  moreover have "\<bar>of_int (js_round (a / scale)) - a / scale\<bar> * scale = \<bar>of_int (js_round (a / scale)) * scale - a\<bar>"
    using assms abs_mult_pos [of scale "of_int (js_round (a / scale)) - a / scale"] by (simp add: left_diff_distrib)
  ultimately show ?thesis by simp
qed

lemma js_round_ge: "k \<le> js_round x \<longleftrightarrow> of_int k - 1 / 2 \<le> x"
  unfolding js_round_def le_floor_iff by linarith

lemma scaled_label:
  assumes "0 < scale" and "scale \<le> a" and "a < 1000 * scale"
  shows "if 1000 \<le> js_round (a / scale) then \<bar>1000 * scale - a\<bar> \<le> scale / 2
    else 1 \<le> js_round (a / scale) \<and> \<bar>of_int (js_round (a / scale)) * scale - a\<bar> \<le> scale / 2"
proof -
  have "1 \<le> a / scale" "a / scale < 1000" using assms by (simp_all add: field_simps)
  then have "1 \<le> js_round (a / scale)" "\<not> 1001 \<le> js_round (a / scale)" unfolding js_round_ge by linarith+
  then show ?thesis using js_round_scaled [OF assms(1), of a] by (auto simp: le_less)
qed

definition labels_axis :: "jstring \<Rightarrow> rat \<Rightarrow> bool" where
  "labels_axis s a \<longleftrightarrow> (\<exists>k c. s = int_str k @ [c] \<and> 1 \<le> k \<and> k < 1000 \<and> c \<in> set ''TBMk'' \<and>
     \<bar>of_int k * axis_scale c - a\<bar> \<le> axis_scale c / 2)"

lemma int_str_1: "int_str 1 = ''1''"
  by code_simp

lemma labels_scaled:
  assumes "0 < axis_scale c" "axis_scale c \<le> a" "a < 1000 * axis_scale c" "axis_scale c' = 1000 * axis_scale c"
    and "c \<in> set ''TBMk''" "c' \<in> set ''TBMk''"
  shows "labels_axis (if 1000 \<le> js_round (a / axis_scale c) then ''1'' @ [c']
    else int_str (js_round (a / axis_scale c)) @ [c]) a"
proof (cases "1000 \<le> js_round (a / axis_scale c)")
  case True
  then have "\<bar>1000 * axis_scale c - a\<bar> \<le> 1000 * axis_scale c / 2"
    using scaled_label [OF assms(1-3)] assms(1) by simp
  then show ?thesis using True assms(4,6) int_str_1
    unfolding labels_axis_def by (intro exI [of _ 1] exI [of _ c']) simp
next
  case False
  then show ?thesis using scaled_label [OF assms(1-3)] assms(5)
    unfolding labels_axis_def by (intro exI [of _ "js_round (a / axis_scale c)"] exI [of _ c]) simp
qed

lemma fmtAxis_sign: "fmtAxis n = (if n < 0 then ''-'' else []) @ fmtAxis \<bar>n\<bar>"
  by (simp add: fmtAxis_def Let_def)

lemma fmtAxis_labels:
  assumes "10 ^ 4 \<le> a" and "a < 9995 * 10 ^ 11"
  shows "labels_axis (fmtAxis a) a"
proof -
  have s: "axis_scale (CHR ''T'') = 10 ^ 12" "axis_scale (CHR ''B'') = 10 ^ 9" "axis_scale (CHR ''M'') = 10 ^ 6"
    "axis_scale (CHR ''k'') = 10 ^ 3" by (simp_all add: axis_scale_def)
  consider (T) "10 ^ 12 \<le> a" | (B) "10 ^ 9 \<le> a" "a < 10 ^ 12" | (M) "10 ^ 6 \<le> a" "a < 10 ^ 9"
    | (k) "a < 10 ^ 6" by linarith
  then show ?thesis
  proof cases
    case T
    have "\<not> 1000 \<le> js_round (a / 10 ^ 12)" using assms(2) unfolding js_round_ge by (simp add: field_simps)
    then show ?thesis
      using T assms(2) scaled_label [of "10 ^ 12" a] s(1)
      by (auto simp: fmtAxis_def labels_axis_def intro!: exI [of _ "js_round (a / 10 ^ 12)"])
  next
    case B
    then show ?thesis
      using labels_scaled [of "CHR ''B''" a "CHR ''T''"] s by (simp add: fmtAxis_def split: if_splits)
  next
    case M
    then show ?thesis
      using labels_scaled [of "CHR ''M''" a "CHR ''B''"] s by (simp add: fmtAxis_def split: if_splits)
  next
    case k
    then show ?thesis
      using labels_scaled [of "CHR ''k''" a "CHR ''M''"] s assms(1) by (simp add: fmtAxis_def split: if_splits)
  qed
qed

text \<open>
  A label of the axis is a number of at most three digits and a unit, and it is off by at most half
  of that unit, from ten thousand to a thousand trillions: rounding never writes a thousand of a unit.
\<close>

theorem axis_label_exact:
  assumes "10 ^ 4 \<le> \<bar>n\<bar>" and "\<bar>n\<bar> < 9995 * 10 ^ 11"
  shows "\<exists>k c. fmtAxis n = (if n < 0 then ''-'' else []) @ int_str k @ [c] \<and> 1 \<le> k \<and> k < 1000 \<and>
    c \<in> set ''TBMk'' \<and> \<bar>of_int k * axis_scale c - \<bar>n\<bar>\<bar> \<le> axis_scale c / 2"
  using fmtAxis_labels [OF assms] fmtAxis_sign [of n] unfolding labels_axis_def by metis

theorem axis_label_exact_witness:
  "\<exists>k c. fmtAxis (- 999700) = ''-'' @ int_str k @ [c] \<and> k < 1000"
  using axis_label_exact [of "- 999700"] by fastforce

lemma group_digits_small: "length s \<le> 3 \<Longrightarrow> group_digits s = s"
  by (subst group_digits.simps) simp

lemma group_digits_length: "length s \<le> 5 \<Longrightarrow> length (group_digits s) \<le> length s + 1"
  by (subst group_digits.simps) (auto simp: group_digits_small)

lemma dec_length5: "n \<le> 10000 \<Longrightarrow> length (dec n) \<le> 5"
  using dec_length [of "n div 10 div 10"] dec.simps [of n] dec.simps [of "n div 10"] by (simp split: if_splits)

lemma fmtAxis_small: "0 \<le> a \<Longrightarrow> a < 10 ^ 4 \<Longrightarrow> fmtAxis a = group_digits (int_str (js_round a))"
  by (simp add: fmtAxis_def)

lemma fmtAxis_length:
  assumes "\<bar>m\<bar> < 9995 * 10 ^ 11"
  shows "length (fmtAxis m) \<le> 7"
proof -
  have "length (fmtAxis \<bar>m\<bar>) \<le> 6"
  proof (cases "10 ^ 4 \<le> \<bar>m\<bar>")
    case True
    from fmtAxis_labels [OF this assms] obtain k c where kc: "fmtAxis \<bar>m\<bar> = int_str k @ [c]" "1 \<le> k" "k < 1000"
      unfolding labels_axis_def by blast
    have "length (int_str k) \<le> 3" by (rule int_str_length) (use kc(2,3) in linarith)+
    then show ?thesis unfolding kc(1) by simp
  next
    case False
    define r where "r = js_round \<bar>m\<bar>"
    have "0 \<le> r" "\<not> 10001 \<le> r" using False unfolding r_def js_round_ge by simp_all
    then have len: "length (int_str r) \<le> 5" by (simp add: int_str_def dec_length5)
    have eq: "fmtAxis \<bar>m\<bar> = group_digits (int_str r)"
      unfolding r_def by (rule fmtAxis_small) (use False in simp_all)
    show ?thesis unfolding eq using group_digits_length [OF len] len by linarith
  qed
  moreover have "length (fmtAxis m) = length (if m < 0 then ''-'' else []) + length (fmtAxis \<bar>m\<bar>)"
    using fmtAxis_sign [of m] by (metis length_append)
  moreover have "length (if m < 0 then ''-'' else []) \<le> 1" by simp
  ultimately show ?thesis by linarith
qed

text \<open>
  The smaller fonts are never used: below a thousand trillions every label has at most seven
  characters, so the font is the largest one and the axis at most 65 pixels wide.
\<close>

theorem axis_font:
  assumes "\<bar>m\<bar> < 9995 * 10 ^ 11"
  shows "yTickFontSize (maxLabelLen m) = 12 \<and> yAxisWidth (maxLabelLen m) \<le> 65"
proof -
  have l: "maxLabelLen m \<le> 7" using fmtAxis_length [of m] fmtAxis_length [of "- m"] assms by (simp add: maxLabelLen_def)
  then have f: "yTickFontSize (maxLabelLen m) = 12" by (simp add: yTickFontSize_def)
  have "of_nat (maxLabelLen m) \<le> (7 :: rat)" using l by (simp add: of_nat_le_iff [of _ 7, simplified])
  then have "of_nat (maxLabelLen m) * (yTickFontSize (maxLabelLen m) * (62 / 100)) \<le> 53" by (simp add: f)
  then show ?thesis using f by (simp add: yAxisWidth_def ceiling_le_iff)
qed

theorem axis_font_witness: "yTickFontSize (maxLabelLen 250000) = 12"
  using axis_font [of 250000] by simp

text \<open>
  A monthly charge whose next day is the first of the selected month is moved on, past the end of
  the month: the window takes its first day for today, and a charge of today is not upcoming.
\<close>

theorem first_of_month_hidden:
  assumes "early_day (window_start p)" and "sel_month p = Some m" and "0 \<le> m" and "m < 12"
  shows "\<exists>k. advance Monthly_cadence (day_key (window_start p)) (day_key (window_start p)) = Some (day_key k) \<and>
    k = window_end p + 1"
proof -
  let ?n = "window_start p"
  have n: "?n = make_day (sel_year p) m 1" "window_end p + 1 = make_day (sel_year p) (m + 1) 1"
    using make_day_add [of "sel_year p" "m + 1" 0 1] assms(2) by (simp_all add: window_start_def window_end_def default_to_def)
  note f = fields_make_day [OF valid_first [OF assms(3,4)], of "sel_year p"]
  have next_day: "next_day Monthly_cadence ?n = window_end p + 1"
    using days_in_month_bounds [OF month_of_day_range, of "year_of_day (window_end p + 1)" "window_end p + 1"]
    by (simp add: next_day_def n f Let_def)
  have key: "next_charge Monthly_cadence (day_key ?n) = day_key (window_end p + 1)" "plain_day (window_end p + 1)"
    using next_charge_day [OF fromDateKey_day_key [OF early_plain [OF assms(1)]] assms(1), of Monthly_cadence]
    by (simp_all add: next_day)
  have "?n < window_end p + 1" using next_day_bounds(1) [where n = ?n and c = Monthly_cadence] next_day by simp
  then have "\<not> day_key (window_end p + 1) \<le> day_key ?n"
    using day_key_less_iff [OF plain_four_digit [OF early_plain [OF assms(1)]] plain_four_digit [OF key(2)]] by simp
  then have "advance Monthly_cadence (day_key ?n) (day_key ?n) = Some (day_key (window_end p + 1))"
    by (subst advance.simps, subst advance.simps) (simp add: key(1))
  then show ?thesis by blast
qed

theorem first_of_month_hidden_witness:
  "\<exists>k. advance Monthly_cadence (day_key 19783) (day_key 19783) = Some (day_key k) \<and> 19783 + 30 < k"
proof -
  have w: "window_start \<lparr>sel_year = 2024, sel_month = Some 2\<rparr> = 19783" "window_end \<lparr>sel_year = 2024, sel_month = Some 2\<rparr> = 19813"
    "year_of_day 19783 = 2024" by code_simp+
  then show ?thesis
    using first_of_month_hidden [of "\<lparr>sel_year = 2024, sel_month = Some 2\<rparr>" 2] by (auto simp: early_day_def)
qed

end
