(* ===== verification/Transaction_Table.thy ===== *)
theory Transaction_Table
  imports Transaction_Page Category_Picker
begin

text \<open>
  The table of the transactions (\<^verbatim>\<open>features/transactions/components/TransactionsTable.tsx\<close>):
  the range it says it shows, the cells of a row, the buttons of the pages, and the button that marks
  a duplicate while its request is in flight. Dates are formatted by \<open>fd\<close>, amounts by \<open>fm\<close>.
\<close>

section \<open>The range shown\<close>

definition table_page_size :: "'a list \<Rightarrow> nat \<Rightarrow> nat \<Rightarrow> nat" where
  "table_page_size items totalItems pageCount =
     (if 0 < length items then nat \<lceil>(of_nat totalItems / of_nat pageCount :: rat)\<rceil> else 8)"

definition shown_from :: "nat \<Rightarrow> nat \<Rightarrow> nat \<Rightarrow> nat" where
  "shown_from totalItems currentPage pageSize = (if totalItems = 0 then 0 else (currentPage - 1) * pageSize + 1)"

definition shown_to :: "nat \<Rightarrow> nat \<Rightarrow> nat \<Rightarrow> nat" where
  "shown_to totalItems currentPage pageSize = min totalItems (currentPage * pageSize)"

definition showing :: "'a list \<Rightarrow> nat \<Rightarrow> nat \<Rightarrow> nat \<Rightarrow> nat \<times> nat" where
  "showing items totalItems currentPage pageCount =
     (let pageSize = table_page_size items totalItems pageCount
      in (shown_from totalItems currentPage pageSize, shown_to totalItems currentPage pageSize))"

definition prev_disabled :: "nat \<Rightarrow> bool" where
  "prev_disabled currentPage \<longleftrightarrow> currentPage \<le> 1"

definition next_disabled :: "nat \<Rightarrow> nat \<Rightarrow> bool" where
  "next_disabled currentPage pageCount \<longleftrightarrow> pageCount \<le> currentPage"

section \<open>A row\<close>

datatype override_type = Explicit_override | Rule_override | No_override

definition overrideType :: "Transaction \<Rightarrow> override_type" where
  "overrideType r = (if truthy (tx_custom_category r) then Explicit_override
     else if truthy (tx_rule_category r) then Rule_override else No_override)"

datatype amount_tone = Green_amount | Red_amount | Slate_amount

definition tone_of_amount :: "rat \<Rightarrow> amount_tone" where
  "tone_of_amount x = (if 0 < x then Green_amount else if x < 0 then Red_amount else Slate_amount)"

record table_row =
  row_pending :: bool
  row_striped :: bool
  row_title :: "jstring option"
  row_date :: jstring
  row_merchant :: jstring
  row_review :: bool
  row_amount :: jstring
  row_tone :: amount_tone
  row_account :: jstring
  row_category :: jstring
  row_subcategory :: "jstring option"
  row_override :: override_type
  row_ruleMerchant :: jstring

definition table_row_of :: "(jstring \<Rightarrow> jstring) \<Rightarrow> (rat \<Rightarrow> jstring) \<Rightarrow> jstring \<Rightarrow> jstring list \<Rightarrow> nat \<Rightarrow> Transaction \<Rightarrow> table_row" where
  "table_row_of fd fm dots candidates i r =
     (let pending = (tx_pending r = Some True); displayAmount = getDisplayAmount r
      in \<lparr>row_pending = pending, row_striped = (i mod 2 \<noteq> 0),
          row_title = (if pending then Some (''Pending transaction (authorized: '' @ fd (tx_date r) @ '')'') else None),
          row_date = fd (tx_date r), row_merchant = str_or (Some (tx_name r)) (str_or (tx_merchant r) ''-''),
          row_review = (tx_id r \<in> set candidates),
          row_amount = fm displayAmount, row_tone = tone_of_amount displayAmount,
          row_account = tx_account_name r @
            (if truthy (tx_account_mask r) then dots @ the (tx_account_mask r) else []),
          row_category = default_to (category_primary r) ''OTHER'',
          row_subcategory = coalesce (category_detailed r) (coalesce (tx_custom_subcategory r) (tx_rule_subcategory r)),
          row_override = overrideType r, row_ruleMerchant = str_or (tx_merchant r) (tx_name r)\<rparr>)"

section \<open>Marking a duplicate\<close>

text \<open>
  The marking in progress, one for the whole table, and the requests in flight; clicks on a button
  that is disabled are not possible.
\<close>

record marking =
  mk_id :: "jstring option"
  mk_flight :: "jstring list"

datatype mark_event = Click_mark jstring | Mark_settled nat

definition isMarkingDuplicate :: "marking \<Rightarrow> jstring \<Rightarrow> bool" where
  "isMarkingDuplicate s i \<longleftrightarrow> mk_id s = Some i"

definition table_markDuplicate :: "jstring \<Rightarrow> marking \<Rightarrow> marking" where
  "table_markDuplicate i s = (if isMarkingDuplicate s i then s
     else s\<lparr>mk_id := Some i, mk_flight := mk_flight s @ [i]\<rparr>)"

definition mark_settled :: "nat \<Rightarrow> marking \<Rightarrow> marking" where
  "mark_settled k s = (if k < length (mk_flight s)
     then s\<lparr>mk_id := None, mk_flight := take k (mk_flight s) @ drop (Suc k) (mk_flight s)\<rparr> else s)"

fun mark_handle :: "mark_event \<Rightarrow> marking \<Rightarrow> marking" where
  "mark_handle (Click_mark i) s = table_markDuplicate i s"
| "mark_handle (Mark_settled k) s = mark_settled k s"

definition no_marking :: marking where
  "no_marking = \<lparr>mk_id = None, mk_flight = []\<rparr>"

section \<open>Properties\<close>

lemma page_size_div:
  assumes "0 < length items" "0 < pageCount"
  shows "table_page_size items totalItems pageCount = (totalItems + pageCount - 1) div pageCount"
proof -
  define k where "k = (totalItems + pageCount - 1) div pageCount"
  have k: "totalItems \<le> k * pageCount" "k * pageCount < totalItems + pageCount"
    using assms(2) div_mult_mod_eq [of "totalItems + pageCount - 1" pageCount] mod_less_divisor [OF assms(2), of "totalItems + pageCount - 1"]
    unfolding k_def by linarith+
  have "\<lceil>(of_nat totalItems / of_nat pageCount :: rat)\<rceil> = int k"
  proof (rule ceiling_unique)
    have "of_nat totalItems \<le> (of_nat (k * pageCount) :: rat)" using k(1) by (simp only: of_nat_le_iff)
    then show "of_nat totalItems / of_nat pageCount \<le> (of_int (int k) :: rat)" using assms(2) by (simp add: field_simps)
    have "of_nat (k * pageCount) < (of_nat (totalItems + pageCount) :: rat)" using k(2) by (simp only: of_nat_less_iff)
    then show "of_int (int k) - 1 < (of_nat totalItems / of_nat pageCount :: rat)" using assms(2) by (simp add: field_simps)
  qed
  then show ?thesis using assms(1) by (simp add: table_page_size_def k_def)
qed

lemma page_size_at_most:
  assumes "0 < length items" "0 < perPage" "0 < totalItems"
  shows "table_page_size items totalItems (totalPages totalItems perPage) \<le> perPage"
proof -
  let ?p = "totalPages totalItems perPage"
  have p: "0 < ?p" by (simp add: totalPages_def)
  have "totalItems \<le> perPage * ((totalItems + perPage - 1) div perPage)"
    using mult_div_mod_eq [of perPage "totalItems + perPage - 1"] mod_less_divisor [OF assms(2), of "totalItems + perPage - 1"]
    by linarith
  also have "\<dots> \<le> perPage * ?p" by (rule mult_le_mono2) (simp add: totalPages_def)
  finally have "totalItems \<le> perPage * ?p" .
  then have "(totalItems + ?p - 1) div ?p < Suc perPage" using p by (intro less_mult_imp_div_less) (simp add: mult.commute; linarith)
  then show ?thesis using page_size_div [OF assms(1) p, of totalItems] by simp
qed

lemma page_offset: "0 < perPage \<Longrightarrow> 0 < n \<Longrightarrow> 1 \<le> p \<Longrightarrow> p \<le> totalPages n perPage \<Longrightarrow> (p - 1) * perPage < n"
proof -
  assume h: "0 < perPage" "0 < n" "1 \<le> p" "p \<le> totalPages n perPage"
  then have "p - 1 \<le> (n - 1) div perPage"
    using div_add_self2 [of perPage "n - 1"] by (simp add: totalPages_def max_def split: if_splits)
  then have "(p - 1) * perPage \<le> (n - 1) div perPage * perPage" by (rule mult_le_mono1)
  also have "\<dots> \<le> n - 1" by simp
  finally show ?thesis using h(2) by linarith
qed

lemma one_page: "0 < n \<Longrightarrow> n \<le> perPage \<Longrightarrow> totalPages n perPage = 1"
proof -
  assume h: "0 < n" "n \<le> perPage"
  then have "(n + perPage - 1) div perPage < 2" by (intro less_mult_imp_div_less) linarith
  then show ?thesis by (simp add: totalPages_def)
qed

text \<open>
  The table guesses the size of a page from the number of pages. The range it says it shows is the
  range of the rows it shows exactly when there is one page, or when the guess happens to be the size:
  when the transactions, spread evenly over the pages, would fill them too.
\<close>

theorem range_shown_exact:
  assumes "items \<noteq> []" and "0 < perPage" and "1 \<le> p" and "p \<le> totalPages (length items) perPage"
    and "shown = pageItems items perPage p"
  shows "showing shown (length items) p (totalPages (length items) perPage) =
      ((p - 1) * perPage + 1, (p - 1) * perPage + length shown) \<longleftrightarrow>
    length items \<le> perPage \<or> table_page_size shown (length items) (totalPages (length items) perPage) = perPage"
proof -
  let ?n = "length items" and ?g = "table_page_size shown (length items) (totalPages (length items) perPage)"
  have n: "0 < ?n" using assms(1) by simp
  have len: "length shown = min perPage (?n - (p - 1) * perPage)" by (simp add: assms(5) pageItems_def)
  have off: "(p - 1) * perPage < ?n"
    by (rule page_offset [OF assms(2) n assms(3,4)])
  then have pos: "0 < length shown" using len assms(2) by simp
  have g: "?g \<le> perPage" by (rule page_size_at_most [OF pos assms(2) n])
  have show_eq: "showing shown ?n p (totalPages ?n perPage) = ((p - 1) * ?g + 1, min ?n (p * ?g))"
    using n by (simp add: showing_def shown_from_def shown_to_def Let_def)
  show ?thesis
  proof (cases "?n \<le> perPage")
    case True
    then have one: "totalPages ?n perPage = 1" by (rule one_page [OF n])
    then have "p = 1" "?g = ?n" using assms(3,4) pos page_size_div [OF pos, of 1 ?n] by simp_all
    then show ?thesis using True len unfolding show_eq by simp
  next
    case False
    have ends: "min ?n (p * perPage) = (p - 1) * perPage + length shown"
      using off assms(3) by (cases p) (auto simp: len min_def)
    show ?thesis
    proof (cases "p = 1")
      case True
      then show ?thesis using \<open>\<not> ?n \<le> perPage\<close> g len unfolding show_eq by (auto simp: min_def)
    next
      case False
      then have "(p - 1) * ?g = (p - 1) * perPage \<longleftrightarrow> ?g = perPage" using assms(3) by simp
      then show ?thesis using \<open>\<not> ?n \<le> perPage\<close> ends by (auto simp: show_eq)
    qed
  qed
qed

theorem range_shown_exact_witness:
  "showing (pageItems [1..<18] 8 2) 17 2 (totalPages 17 8) \<noteq> ((2 - 1) * 8 + 1, (2 - 1) * 8 + length (pageItems [1..<18] 8 2))"
proof -
  have "totalPages 17 8 = 3" "table_page_size (pageItems [1..<18] 8 2) 17 3 = 6" by code_simp+
  then show ?thesis using range_shown_exact [of "[1..<18]" 8 2 "pageItems [1..<18] 8 2"] by simp
qed

text \<open>Nine transactions on pages of eight: the first page shows eight rows as 1-5, the second one as 6-9.\<close>

theorem range_shown_wrong:
  "map (\<lambda>p. (length (pageItems [1..<10] 8 p), showing (pageItems [1..<10] 8 p) 9 p (totalPages 9 8))) [1, 2] =
     [(8, 1, 5), (1, 6, 9)]"
  by code_simp

text \<open>
  The table remembers one marking only: with a second one in flight the button of the first is
  enabled again, and the transaction can be sent a second time before its answer.
\<close>

theorem duplicate_sent_twice:
  assumes "a \<noteq> b"
  shows "mk_flight (fold mark_handle [Click_mark a, Click_mark b, Click_mark a] no_marking) = [a, b, a]"
  using assms by (simp add: table_markDuplicate_def isMarkingDuplicate_def no_marking_def)

theorem duplicate_sent_twice_witness:
  "mk_flight (fold mark_handle [Click_mark ''1'', Click_mark ''2'', Click_mark ''1''] no_marking) = [''1'', ''2'', ''1'']"
  by (rule duplicate_sent_twice) simp

end
