(* ===== verification/Telemetry.thy ===== *)
theory Telemetry
  imports Js_Collections Js_Prelude "HOL-Library.Sublist"
begin

text \<open>
  What the telemetry removes before it sends a span: the patterns of
  \<^verbatim>\<open>observability/sanitization.ts\<close>, with each regular expression as the function from the
  preceding character and the rest of the text to the length of its match, and the span processors of
  \<^verbatim>\<open>observability/processors.ts\<close>. The URL parser, the matching of selectors and the
  \<^verbatim>\<open>setAttribute\<close> of the tracing library are parameters.
\<close>

section \<open>Replacing a pattern\<close>

type_synonym matcher = "char option \<Rightarrow> jstring \<Rightarrow> nat option"

text \<open>\<^verbatim>\<open>s.replace(pattern, r)\<close> with the flag \<^verbatim>\<open>g\<close>; no pattern here matches the empty text.\<close>

function replace_all :: "matcher \<Rightarrow> jstring \<Rightarrow> char option \<Rightarrow> jstring \<Rightarrow> jstring" where
  "replace_all m r p [] = []"
| "replace_all m r p (c # cs) = (case m p (c # cs) of
     Some (Suc n) \<Rightarrow> r @ replace_all m r (Some (last (take (Suc n) (c # cs)))) (drop n cs)
   | _ \<Rightarrow> c # replace_all m r (Some c) cs)"
  by pat_completeness auto
termination by (relation "measure (\<lambda>(m, r, p, s). length s)") auto

definition is_alnum :: "char \<Rightarrow> bool" where
  "is_alnum c \<longleftrightarrow> is_digit c \<or> is_upper c \<or> is_lower c"

definition token_char :: "char \<Rightarrow> bool" where
  "token_char c \<longleftrightarrow> is_alnum c \<or> c = CHR ''_'' \<or> c = CHR ''-''"

definition word_char :: "char \<Rightarrow> bool" where
  "word_char c \<longleftrightarrow> is_alnum c \<or> c = CHR ''_''"

definition starts_word :: "jstring \<Rightarrow> bool" where
  "starts_word s \<longleftrightarrow> s \<noteq> [] \<and> word_char (hd s)"

text \<open>The rest after a run of at least \<open>k\<close> characters, taken as long as possible, and after a literal.\<close>

definition skip_run :: "(char \<Rightarrow> bool) \<Rightarrow> nat \<Rightarrow> jstring \<Rightarrow> jstring option" where
  "skip_run P k s = (if k \<le> length (takeWhile P s) then Some (dropWhile P s) else None)"

definition skip_text :: "jstring \<Rightarrow> jstring \<Rightarrow> jstring option" where
  "skip_text t s = (if startsWith s t then Some (drop (length t) s) else None)"

definition skip_digits :: "nat \<Rightarrow> jstring \<Rightarrow> jstring option" where
  "skip_digits k s = (if k \<le> length s \<and> list_all is_digit (take k s) then Some (drop k s) else None)"

definition skip_separator :: "jstring \<Rightarrow> jstring option" where
  "skip_separator s = Some (if s \<noteq> [] \<and> (is_space (hd s) \<or> hd s = CHR ''-'') then tl s else s)"

fun skip_all :: "(jstring \<Rightarrow> jstring option) list \<Rightarrow> jstring \<Rightarrow> jstring option" where
  "skip_all [] s = Some s"
| "skip_all (f # fs) s = Option.bind (f s) (skip_all fs)"

definition match_parts :: "(jstring \<Rightarrow> jstring option) list \<Rightarrow> jstring \<Rightarrow> nat option" where
  "match_parts fs s = map_option (\<lambda>rest. length s - length rest) (skip_all fs s)"

text \<open>Between word boundaries; what is matched begins and ends with a digit.\<close>

definition bounded_matches :: "(jstring \<Rightarrow> jstring option) list \<Rightarrow> matcher" where
  "bounded_matches fs p s = (if (case p of None \<Rightarrow> False | Some c \<Rightarrow> word_char c) then None
     else case skip_all fs s of None \<Rightarrow> None
     | Some rest \<Rightarrow> if starts_word rest then None else Some (length s - length rest))"

definition match_jwt :: matcher where
  "match_jwt p = match_parts [skip_text ''eyJ'', skip_run token_char 10, skip_text ''.'', skip_run token_char 10,
     skip_text ''.'', skip_run token_char 10]"

definition match_plaid :: matcher where
  "match_plaid p = match_parts [skip_text ''access-'', skip_run is_lower 1, skip_text ''-'',
     skip_run (\<lambda>c. is_alnum c \<or> c = CHR ''-'') 10]"

definition match_teller :: matcher where
  "match_teller p = match_parts [skip_text ''test_token_'', skip_run is_alnum 1]"

definition match_card :: matcher where
  "match_card = bounded_matches [skip_digits 4, skip_separator, skip_digits 4, skip_separator,
     skip_digits 4, skip_separator, skip_digits 4]"

definition match_ssn :: matcher where
  "match_ssn = bounded_matches [skip_digits 3, skip_text ''-'', skip_digits 2, skip_text ''-'', skip_digits 4]"

definition match_bearer :: matcher where
  "match_bearer p = match_parts [skip_text ''Bearer'', skip_run is_space 1, skip_run token_char 1]"

definition TOKEN_PATTERNS :: "(matcher \<times> jstring) list" where
  "TOKEN_PATTERNS = [(match_jwt, ''[JWT_REDACTED]''), (match_plaid, ''[PLAID_TOKEN_REDACTED]''),
     (match_teller, ''[TELLER_TOKEN_REDACTED]''), (match_card, ''[CC_REDACTED]''),
     (match_ssn, ''[SSN_REDACTED]''), (match_bearer, ''Bearer [REDACTED]'')]"

definition redactTokenPatterns :: "jstring \<Rightarrow> jstring" where
  "redactTokenPatterns value = foldl (\<lambda>sanitized (m, r). replace_all m r None sanitized) value TOKEN_PATTERNS"

section \<open>URLs and attributes\<close>

definition SENSITIVE_QUERY_PARAMS :: "jstring list" where
  "SENSITIVE_QUERY_PARAMS = [''token'', ''access_token'', ''public_token'', ''refresh_token'', ''api_key'', ''key'']"

text \<open>\<^verbatim>\<open>searchParams.set(k, v)\<close>: the first value is replaced and the others go.\<close>

fun params_set :: "jstring \<Rightarrow> jstring \<Rightarrow> (jstring \<times> jstring) list \<Rightarrow> (jstring \<times> jstring) list" where
  "params_set k v [] = [(k, v)]"
| "params_set k v ((k', v') # ps) = (if k' = k then (k, v) # filter (\<lambda>p. fst p \<noteq> k) ps
     else (k', v') # params_set k v ps)"

definition redact_param :: "jstring \<Rightarrow> (jstring \<times> jstring) list \<Rightarrow> (jstring \<times> jstring) list" where
  "redact_param k ps = (if k \<in> fst ` set ps then params_set k ''[REDACTED]'' ps else ps)"

definition redact_params :: "(jstring \<times> jstring) list \<Rightarrow> (jstring \<times> jstring) list" where
  "redact_params ps = fold redact_param SENSITIVE_QUERY_PARAMS ps"

text \<open>A parsed URL: what is beside its query, and the query.\<close>

record 'u url_parts =
  up_rest :: 'u
  up_params :: "(jstring \<times> jstring) list"

definition sanitizeUrl :: "(jstring \<Rightarrow> 'u url_parts option) \<Rightarrow> ('u url_parts \<Rightarrow> jstring) \<Rightarrow> jstring \<Rightarrow> jstring" where
  "sanitizeUrl parse print url = (case parse url of
     Some u \<Rightarrow> print (u\<lparr>up_params := redact_params (up_params u)\<rparr>)
   | None \<Rightarrow> redactTokenPatterns url)"

datatype attr = A_str jstring | A_num rat | A_bool bool | A_undefined

type_synonym attributes = "(jstring, attr) js_map"

definition SENSITIVE_HEADERS :: "jstring list" where
  "SENSITIVE_HEADERS = [''authorization'', ''cookie'', ''x-api-key'', ''x-auth-token'', ''api-key'', ''auth-token'']"

definition sensitive_key :: "jstring \<Rightarrow> bool" where
  "sensitive_key key \<longleftrightarrow> list_ex (\<lambda>header. str_includes (toLowerCase key) header) SENSITIVE_HEADERS"

definition keysToDelete :: "attributes \<Rightarrow> jstring list" where
  "keysToDelete as = map fst (filter (\<lambda>(key, _). sensitive_key key) as)"

definition keysToUpdate :: "(jstring \<Rightarrow> jstring) \<Rightarrow> attributes \<Rightarrow> (jstring \<times> attr) list" where
  "keysToUpdate clean_url as = concat (map (\<lambda>(key, value).
     if sensitive_key key then []
     else case value of
       A_str v \<Rightarrow> if str_includes (toLowerCase key) ''url'' then [(key, A_str (clean_url v))]
         else if v \<noteq> [] \<and> redactTokenPatterns v \<noteq> v then [(key, A_str (redactTokenPatterns v))] else []
     | _ \<Rightarrow> []) as)"

definition sanitizeSpanAttributes :: "(jstring \<Rightarrow> attr \<Rightarrow> attributes \<Rightarrow> attributes) \<Rightarrow> (jstring \<Rightarrow> jstring) \<Rightarrow>
    attributes \<Rightarrow> attributes" where
  "sanitizeSpanAttributes setAttribute clean_url as =
     fold (\<lambda>(key, value). setAttribute key value) (keysToUpdate clean_url as)
       (fold (\<lambda>key. setAttribute key A_undefined) (keysToDelete as) as)"

text \<open>The class of an element: none, a text, or the object an SVG element has.\<close>

datatype class_name = No_class | Class_text jstring | Class_object

definition preventSensitiveSpans :: "(jstring \<Rightarrow> bool) option \<Rightarrow> class_name \<Rightarrow> js_error + bool" where
  "preventSensitiveSpans element className = (case element of None \<Rightarrow> Inr False
     | Some found \<Rightarrow>
        if list_ex found [''input[type=\"password\"]'', ''input[type=\"text\"][name*=\"password\"]'',
            ''input[type=\"text\"][name*=\"token\"]'', ''input[name*=\"card\"]'', ''input[name*=\"ssn\"]'']
        then Inr True
        else (case className of
            Class_object \<Rightarrow> Inl TypeError
          | No_class \<Rightarrow> Inr False
          | Class_text t \<Rightarrow> Inr (list_ex (str_includes (toLowerCase t)) [''password'', ''token'', ''secret'', ''credential''])))"

section \<open>Processors\<close>



























section \<open>No signed token survives\<close>

definition jwt_word :: "jstring \<Rightarrow> bool" where
  "jwt_word w \<longleftrightarrow> (\<exists>a b c. w = ''eyJ'' @ a @ ''.'' @ b @ ''.'' @ c \<and> list_all token_char (a @ b @ c) \<and>
     10 \<le> length a \<and> 10 \<le> length b \<and> 10 \<le> length c)"

definition jwt_at :: "jstring \<Rightarrow> bool" where
  "jwt_at s \<longleftrightarrow> (\<exists>w. jwt_word w \<and> prefix w s)"

fun jwt_free :: "jstring \<Rightarrow> bool" where
  "jwt_free [] \<longleftrightarrow> True"
| "jwt_free (c # cs) \<longleftrightarrow> \<not> jwt_at (c # cs) \<and> jwt_free cs"

definition jwt_char :: "char \<Rightarrow> bool" where
  "jwt_char c \<longleftrightarrow> token_char c \<or> c = CHR ''.''"

lemma jwt_word_not_Nil: "jwt_word w \<Longrightarrow> w \<noteq> []"
  by (auto simp: jwt_word_def)

lemma jwt_free_iff: "jwt_free s \<longleftrightarrow> (\<nexists>w. jwt_word w \<and> sublist w s)"
  by (induction s) (auto simp: sublist_Cons_right jwt_at_def dest: jwt_word_not_Nil)

lemma not_token_dot: "\<not> token_char (CHR ''.'')"
  by code_simp

lemma jwt_word_chars: "jwt_word w \<Longrightarrow> list_all jwt_char w"
proof -
  have "jwt_char (CHR ''e'')" "jwt_char (CHR ''y'')" "jwt_char (CHR ''J'')" by code_simp+
  then show "jwt_word w \<Longrightarrow> list_all jwt_char w" by (auto simp: jwt_word_def list_all_iff jwt_char_def)
qed

lemma jwt_at_prefix:
  assumes "prefix (takeWhile jwt_char s) (takeWhile jwt_char t)" and "jwt_at s"
  shows "jwt_at t"
proof -
  obtain w r where w: "jwt_word w" "s = w @ r" using assms(2) by (auto simp: jwt_at_def prefix_def)
  then have "prefix w (takeWhile jwt_char s)"
    using jwt_word_chars [OF w(1)] by (simp add: list_all_iff takeWhile_append2)
  also have "prefix \<dots> (takeWhile jwt_char t)" by (rule assms(1))
  also have "prefix \<dots> t" by (rule takeWhile_is_prefix)
  finally show ?thesis using w(1) by (auto simp: jwt_at_def)
qed

lemma jwt_at_head: "jwt_at (c # cs) \<Longrightarrow> c = CHR ''e'' \<and> cs \<noteq> [] \<and> hd cs = CHR ''y''"
  by (cases cs) (auto simp: jwt_at_def jwt_word_def)

lemma skip_text_Some: "skip_text t s = Some r \<longleftrightarrow> s = t @ r"
  by (auto simp: skip_text_def startsWith_def prefix_def)

lemma skip_run_Some: "skip_run P k s = Some r \<Longrightarrow> \<exists>a. s = a @ r \<and> list_all P a \<and> k \<le> length a"
  by (auto simp: skip_run_def list_all_iff dest: set_takeWhileD split: if_splits
      intro!: exI [of _ "takeWhile P s"])

lemma skip_run_stop: "list_all P a \<Longrightarrow> k \<le> length a \<Longrightarrow> \<not> P c \<Longrightarrow> skip_run P k (a @ c # r) = Some (c # r)"
  by (simp add: skip_run_def list_all_iff takeWhile_append2)

lemma skip_run_enough: "list_all P a \<Longrightarrow> k \<le> length a \<Longrightarrow> skip_run P k (a @ r) \<noteq> None"
  by (simp add: skip_run_def list_all_iff takeWhile_append2)

lemma match_jwt_iff: "jwt_at s \<longleftrightarrow> (\<exists>n. match_jwt p s = Some (Suc n))"
proof
  assume "jwt_at s"
  then obtain a b c r where s: "s = ''eyJ'' @ a @ CHR ''.'' # b @ CHR ''.'' # c @ r"
    and w: "list_all token_char a" "list_all token_char b" "list_all token_char c"
      "10 \<le> length a" "10 \<le> length b" "10 \<le> length c"
    by (auto simp: jwt_at_def jwt_word_def prefix_def)
  obtain rest where rest: "skip_run token_char 10 (c @ r) = Some rest"
    using skip_run_enough [OF w(3,6)] by blast
  then have "length rest \<le> length (c @ r)" using skip_run_Some by fastforce
  moreover have t: "skip_text t (t @ u) = Some u" for t u by (simp add: skip_text_Some)
  ultimately show "\<exists>n. match_jwt p s = Some (Suc n)"
    using t [of "''eyJ''"] t [of "''.''"] skip_run_stop [OF w(1,4) not_token_dot] skip_run_stop [OF w(2,5) not_token_dot] rest
    by (auto simp: match_jwt_def match_parts_def s Suc_diff_le intro!: exI)
next
  assume "\<exists>n. match_jwt p s = Some (Suc n)"
  then show "jwt_at s"
    by (fastforce simp: match_jwt_def match_parts_def skip_text_Some jwt_at_def jwt_word_def prefix_def
        split: bind_splits dest!: skip_run_Some)
qed

text \<open>
  A replacement that brings in no token: it interrupts the text where it stands, it begins as what
  it replaces does up to that point, and no token starts in it.
\<close>

definition harmless :: "matcher \<Rightarrow> jstring \<Rightarrow> bool" where
  "harmless m r \<longleftrightarrow> (\<exists>c\<in>set r. \<not> jwt_char c) \<and>
     (\<forall>p s n. m p s = Some n \<longrightarrow> prefix (takeWhile jwt_char r) (takeWhile jwt_char s)) \<and>
     (\<forall>x. jwt_free x \<longrightarrow> jwt_free (r @ x))"

lemma takeWhile_interrupted: "\<exists>c\<in>set r. \<not> P c \<Longrightarrow> takeWhile P (r @ x) = takeWhile P r"
  by (auto simp: takeWhile_append1)

lemma replace_all_cases:
  obtains n q where "m p (c # cs) = Some (Suc n)" "replace_all m r p (c # cs) = r @ replace_all m r q (drop n cs)"
  | "\<nexists>n. m p (c # cs) = Some (Suc n)" "replace_all m r p (c # cs) = c # replace_all m r (Some c) cs"
proof (cases "\<exists>n. m p (c # cs) = Some (Suc n)")
  case True
  then show thesis using that(1) by auto
next
  case False
  then show thesis using that(2) by (auto split: option.split nat.split)
qed

lemma replace_keeps_run:
  assumes h: "harmless m r"
  shows "prefix (takeWhile jwt_char (replace_all m r p s)) (takeWhile jwt_char s)"
proof (induction s arbitrary: p)
  case (Cons c cs)
  show ?case
  proof (cases rule: replace_all_cases [of m p c cs r])
    case (1 n q)
    then have "prefix (takeWhile jwt_char r) (takeWhile jwt_char (c # cs))" using h unfolding harmless_def by blast
    then show ?thesis using 1(2) h by (simp add: harmless_def takeWhile_interrupted)
  next
    case 2
    then show ?thesis using Cons.IH [of "Some c"] by simp
  qed
qed simp

lemma jwt_free_drop: "jwt_free s \<Longrightarrow> jwt_free (drop n s)"
  by (induction s arbitrary: n) (auto simp: drop_Cons split: nat.split)

lemma replace_jwt_free:
  assumes h: "harmless m r" and "jwt_free s \<or> (\<forall>p s. jwt_at s \<longrightarrow> (\<exists>n. m p s = Some (Suc n)))"
  shows "jwt_free (replace_all m r p s)"
  using assms(2)
proof (induction s arbitrary: p rule: length_induct)
  case (1 s)
  show ?case
  proof (cases s)
    case (Cons c cs)
    have IH: "jwt_free (replace_all m r q (drop n cs))" for q n
      using 1(1) [rule_format, of "drop n cs" q] 1(2) jwt_free_drop [of cs n] by (auto simp: Cons)
    show ?thesis
    proof (cases rule: replace_all_cases [of m p c cs r])
      case (1 n q)
      then show ?thesis using IH [of q n] h by (simp add: Cons harmless_def)
    next
      case 2
      then have "\<not> jwt_at (c # cs)" using 1(2) by (auto simp: Cons)
      then have "\<not> jwt_at (c # replace_all m r (Some c) cs)"
      proof (rule contrapos_nn)
        have "prefix (takeWhile jwt_char (c # replace_all m r (Some c) cs)) (takeWhile jwt_char (c # cs))"
          using replace_keeps_run [OF h, of "Some c" cs] by simp
        then show "jwt_at (c # replace_all m r (Some c) cs) \<Longrightarrow> jwt_at (c # cs)" by (rule jwt_at_prefix)
      qed
      then show ?thesis using IH [of "Some c" 0] 2(2) by (simp add: Cons)
    qed
  qed simp
qed

lemma harmless_bracket:
  assumes "r = CHR ''['' # t" and "\<And>x. jwt_free x \<Longrightarrow> jwt_free (r @ x)"
  shows "harmless m r"
proof -
  have "\<not> jwt_char (CHR ''['')" by code_simp
  then show ?thesis using assms by (simp add: harmless_def)
qed

lemma not_jwt_at: "c \<noteq> CHR ''e'' \<Longrightarrow> \<not> jwt_at (c # cs)" "d \<noteq> CHR ''y'' \<Longrightarrow> \<not> jwt_at (c # d # cs)"
  using jwt_at_head by fastforce+

lemma match_bearer_head: "match_bearer p s = Some n \<Longrightarrow> prefix ''Bearer'' (takeWhile jwt_char s)"
proof -
  assume "match_bearer p s = Some n"
  then obtain u where "s = ''Bearer'' @ u"
    by (auto simp: match_bearer_def match_parts_def skip_text_Some split: bind_splits)
  moreover have "list_all jwt_char ''Bearer''" by code_simp
  then have "takeWhile jwt_char (''Bearer'' @ u) = ''Bearer'' @ takeWhile jwt_char u"
    unfolding list_all_iff by (intro takeWhile_append2) blast
  ultimately show ?thesis by simp
qed

lemma patterns_harmless:
  assumes "(m, r) \<in> set TOKEN_PATTERNS"
  shows "harmless m r"
proof -
  have "takeWhile jwt_char ''Bearer [REDACTED]'' = ''Bearer''" by code_simp
  moreover have "\<not> jwt_char (CHR '' '')" by code_simp
  ultimately have "harmless match_bearer ''Bearer [REDACTED]''"
    using match_bearer_head by (simp add: harmless_def not_jwt_at)
  moreover have "harmless m ''[JWT_REDACTED]''" "harmless m ''[PLAID_TOKEN_REDACTED]''"
    "harmless m ''[TELLER_TOKEN_REDACTED]''" "harmless m ''[CC_REDACTED]''" "harmless m ''[SSN_REDACTED]''"
    by (rule harmless_bracket; simp add: not_jwt_at)+
  ultimately show ?thesis using assms unfolding TOKEN_PATTERNS_def by fastforce
qed

lemma redact_jwt_free: "jwt_free (redactTokenPatterns s)"
proof -
  have keep: "jwt_free t \<Longrightarrow> set ps \<subseteq> set TOKEN_PATTERNS \<Longrightarrow>
      jwt_free (foldl (\<lambda>sanitized (m, r). replace_all m r None sanitized) t ps)" for t ps
    using patterns_harmless by (induction ps arbitrary: t) (auto intro: replace_jwt_free)
  have "jwt_free (replace_all match_jwt ''[JWT_REDACTED]'' None s)"
    using match_jwt_iff patterns_harmless by (intro replace_jwt_free) (auto simp: TOKEN_PATTERNS_def)
  then show ?thesis
    using keep [of _ "tl TOKEN_PATTERNS"] by (simp add: redactTokenPatterns_def TOKEN_PATTERNS_def)
qed

section \<open>Properties\<close>

text \<open>C17. Whatever the text, no signed token is left in it once the patterns are redacted.\<close>

theorem no_jwt_survives: "\<not> (\<exists>w. jwt_word w \<and> sublist w (redactTokenPatterns s))"
  using redact_jwt_free jwt_free_iff by simp

text \<open>
  The pattern of a bearer stops at the first character it does not know: of a token with a dot that
  is not a signed one, what follows the dot is sent.
\<close>

theorem bearer_tail_survives:
  "redactTokenPatterns ''Bearer abc.def'' = ''Bearer [REDACTED].def''"
  by code_simp

section \<open>Spans that must not leave\<close>












section \<open>Parameters and headers\<close>

lemma keys_params_set: "k \<in> fst ` set ps \<Longrightarrow> fst ` set (params_set k v ps) = fst ` set ps"
proof (induction k v ps rule: params_set.induct)
  case (2 k v k2 v2 ps)
  show ?case
  proof (cases "k2 = k")
    case True
    have "insert k (fst ` {p \<in> set ps. fst p \<noteq> k}) = insert k (fst ` set ps)" by blast
    then show ?thesis using True by simp
  next
    case False
    then show ?thesis using 2 by auto
  qed
qed simp

lemma params_set_same: "filter (\<lambda>p. fst p = k) (params_set k v ps) = [(k, v)]"
  by (induction k v ps rule: params_set.induct) (simp_all add: filter_filter)

lemma params_set_other: "k' \<noteq> k \<Longrightarrow> filter (\<lambda>p. fst p = k') (params_set k v ps) = filter (\<lambda>p. fst p = k') ps"
proof (induction k v ps rule: params_set.induct)
  case (2 k v k2 v2 ps)
  have "filter (\<lambda>p. fst p = k' \<and> fst p \<noteq> k) ps = filter (\<lambda>p. fst p = k') ps"
    using 2(2) by (intro filter_cong) auto
  then show ?case using 2 by (simp add: filter_filter conj_commute)
qed simp

lemma redact_param_values:
  "filter (\<lambda>p. fst p = k) (redact_param k' ps) =
     (if k = k' \<and> k \<in> fst ` set ps then [(k, ''[REDACTED]'')] else filter (\<lambda>p. fst p = k) ps)"
  by (cases "k = k'") (simp_all add: redact_param_def params_set_same params_set_other)

lemma redact_param_keys: "fst ` set (redact_param k ps) = fst ` set ps"
  by (simp add: redact_param_def keys_params_set)

lemma fold_redact_values:
  "distinct ks \<Longrightarrow> filter (\<lambda>p. fst p = k) (fold redact_param ks ps) =
     (if k \<in> set ks \<and> k \<in> fst ` set ps then [(k, ''[REDACTED]'')] else filter (\<lambda>p. fst p = k) ps)"
  by (induction ks arbitrary: ps) (auto simp: redact_param_values redact_param_keys)

text \<open>
  The values of a parameter that is sensitive become one redacted value, and every other parameter
  keeps its values in their order.
\<close>

theorem url_params_redacted:
  "filter (\<lambda>p. fst p = k) (redact_params ps) =
     (if k \<in> set SENSITIVE_QUERY_PARAMS \<and> k \<in> fst ` set ps then [(k, ''[REDACTED]'')]
      else filter (\<lambda>p. fst p = k) ps)"
  unfolding redact_params_def by (rule fold_redact_values) (simp add: SENSITIVE_QUERY_PARAMS_def)

text \<open>
  The library that holds the attributes ignores a value that is not defined. With it no header is
  removed: the attribute of a sensitive header is after the clean-up what it was before.
\<close>

theorem headers_stay:
  assumes "\<And>k as. setAttribute k A_undefined as = as"
    and "\<And>k v k' as. k' \<noteq> k \<Longrightarrow> map_get (setAttribute k v as) k' = map_get as k'"
    and "sensitive_key key"
  shows "map_get (sanitizeSpanAttributes setAttribute clean_url as) key = map_get as key"
proof -
  have "fold (\<lambda>key. setAttribute key A_undefined) ks as = as" for ks
    by (induction ks) (simp_all add: assms(1))
  moreover have "(\<forall>(k, v)\<in>set us. k \<noteq> key) \<Longrightarrow> map_get (fold (\<lambda>(k, v). setAttribute k v) us x) key = map_get x key" for us x
    by (induction us arbitrary: x) (auto simp: assms(2))
  moreover have "\<forall>(k, v)\<in>set (keysToUpdate clean_url as). k \<noteq> key"
    using assms(3) by (auto simp: keysToUpdate_def split: if_splits attr.splits)
  ultimately show ?thesis by (simp add: sanitizeSpanAttributes_def)
qed

definition sdk_setAttribute :: "jstring \<Rightarrow> attr \<Rightarrow> attributes \<Rightarrow> attributes" where
  "sdk_setAttribute k v as = (if v = A_undefined then as else map_set k v as)"

theorem headers_stay_witness:
  "map_get (sanitizeSpanAttributes sdk_setAttribute id [(''http.request.header.authorization'', A_str ''Bearer x'')])
     ''http.request.header.authorization'' = Some (A_str ''Bearer x'')"
proof -
  have "sensitive_key ''http.request.header.authorization''" by code_simp
  then show ?thesis
    by (subst headers_stay) (simp_all add: sdk_setAttribute_def map_get_map_set, simp add: map_get_def)
qed

end
