(* ===== verification/App_Shell.thy ===== *)
theory App_Shell
  imports Account_Selection Provider_Services Date_Ranges Tag_Themes Accounts_Page
begin

text \<open>
  The shell around the pages: the tabs and what they preselect
  (\<^verbatim>\<open>components/AuthenticatedApp.tsx\<close>), the selector of month and year
  (\<^verbatim>\<open>MonthYearSelector.tsx\<close>), the theme (\<^verbatim>\<open>context/ThemeContext.tsx\<close>), the
  account filter of the header (\<^verbatim>\<open>HeaderAccountFilter.tsx\<close>).
\<close>

section \<open>Tabs\<close>

datatype TabKey = Tab_dashboard | Tab_trends | Tab_transactions | Tab_accounts | Tab_settings

record shell =
  sh_tab :: TabKey
  sh_error :: "jstring option"
  sh_account :: "jstring option"
  sh_category :: "jstring option"
  sh_period :: MonthYearSelection

definition initial_shell :: "TabKey option \<Rightarrow> MonthYearSelection \<Rightarrow> shell" where
  "initial_shell initialTab current = \<lparr>sh_tab = default_to initialTab Tab_dashboard, sh_error = None,
     sh_account = None, sh_category = None, sh_period = current\<rparr>"

definition openTransactionsForAccount :: "jstring \<Rightarrow> shell \<Rightarrow> shell" where
  "openTransactionsForAccount accountId s =
     s\<lparr>sh_account := Some accountId, sh_category := None, sh_tab := Tab_transactions\<rparr>"

definition openTransactionsForCategory :: "jstring \<Rightarrow> MonthYearSelection option \<Rightarrow> shell \<Rightarrow> shell" where
  "openTransactionsForCategory category targetPeriod s =
     (case targetPeriod of None \<Rightarrow> s | Some p \<Rightarrow> s\<lparr>sh_period := p\<rparr>)
       \<lparr>sh_account := None, sh_category := Some category, sh_tab := Tab_transactions\<rparr>"

definition handleTabChange :: "TabKey \<Rightarrow> shell \<Rightarrow> shell" where
  "handleTabChange nextTab s = s\<lparr>sh_account := None, sh_category := None, sh_tab := nextTab\<rparr>"

datatype shell_event = Open_account jstring | Open_category jstring "MonthYearSelection option"
  | Change_tab TabKey | Change_period MonthYearSelection | Page_error "jstring option"

fun shell_handle :: "shell_event \<Rightarrow> shell \<Rightarrow> shell" where
  "shell_handle (Open_account i) s = openTransactionsForAccount i s"
| "shell_handle (Open_category c p) s = openTransactionsForCategory c p s"
| "shell_handle (Change_tab t) s = handleTabChange t s"
| "shell_handle (Change_period p) s = s\<lparr>sh_period := p\<rparr>"
| "shell_handle (Page_error e) s = s\<lparr>sh_error := e\<rparr>"

section \<open>Month and year\<close>

text \<open>\<open>today\<close> is the year and the month of the clock when the selector is drawn.\<close>

definition availableMonths :: "int \<times> int \<Rightarrow> MonthYearSelection \<Rightarrow> int" where
  "availableMonths today value = (if sel_year value = fst today then snd today + 1 else 12)"

definition setMonth :: "int \<Rightarrow> MonthYearSelection \<Rightarrow> MonthYearSelection" where
  "setMonth month value = value\<lparr>sel_month := Some month\<rparr>"

definition toggleAllYear :: "int \<times> int \<Rightarrow> MonthYearSelection \<Rightarrow> MonthYearSelection" where
  "toggleAllYear today value = (if sel_month value = None
     then value\<lparr>sel_month := Some (if sel_year value = fst today then snd today else 0)\<rparr>
     else value\<lparr>sel_month := None\<rparr>)"

definition setYear :: "int \<times> int \<Rightarrow> int \<Rightarrow> MonthYearSelection \<Rightarrow> MonthYearSelection" where
  "setYear today year value =
     (let nextYear = min year (fst today)
      in \<lparr>sel_year = nextYear, sel_month = (case sel_month value of None \<Rightarrow> None
         | Some m \<Rightarrow> Some (if nextYear = fst today then min m (snd today) else m))\<rparr>)"

datatype selector_event = Click_month int | Click_year | Click_previous | Click_next

text \<open>What a click does; a month that is not shown and a button that is disabled cannot be clicked.\<close>

fun selector_handle :: "int \<times> int \<Rightarrow> selector_event \<Rightarrow> MonthYearSelection \<Rightarrow> MonthYearSelection" where
  "selector_handle today (Click_month m) v = (if 0 \<le> m \<and> m < availableMonths today v then setMonth m v else v)"
| "selector_handle today Click_year v = toggleAllYear today v"
| "selector_handle today Click_previous v = setYear today (sel_year v - 1) v"
| "selector_handle today Click_next v = (if fst today \<le> sel_year v then v else setYear today (sel_year v + 1) v)"

definition period_ok :: "int \<times> int \<Rightarrow> MonthYearSelection \<Rightarrow> bool" where
  "period_ok today v \<longleftrightarrow> sel_year v \<le> fst today \<and> (case sel_month v of None \<Rightarrow> True
     | Some m \<Rightarrow> 0 \<le> m \<and> m < 12 \<and> (sel_year v = fst today \<longrightarrow> m \<le> snd today))"

section \<open>The theme\<close>

datatype ThemeMode = Light_mode | Dark_mode

definition theme_code :: "ThemeMode \<Rightarrow> jstring" where
  "theme_code m = (case m of Light_mode \<Rightarrow> ''light'' | Dark_mode \<Rightarrow> ''dark'')"

definition getInitialTheme :: "jstring option \<Rightarrow> bool \<Rightarrow> ThemeMode" where
  "getInitialTheme stored prefersDark =
     (if stored = Some ''light'' then Light_mode else if stored = Some ''dark'' then Dark_mode
      else if prefersDark then Dark_mode else Dark_mode)"

record theme =
  th_mode :: ThemeMode
  th_stored :: "jstring option"
  th_dark_class :: bool

text \<open>The effect of a change of the mode applies the theme and stores it.\<close>

definition theme_effect :: "theme \<Rightarrow> theme" where
  "theme_effect s = s\<lparr>th_dark_class := (th_mode s = Dark_mode), th_stored := Some (theme_code (th_mode s))\<rparr>"

definition mounted_theme :: "jstring option \<Rightarrow> bool \<Rightarrow> theme" where
  "mounted_theme stored prefersDark = theme_effect
     \<lparr>th_mode = getInitialTheme stored prefersDark, th_stored = stored, th_dark_class = False\<rparr>"

definition toggle_theme :: "theme \<Rightarrow> theme" where
  "toggle_theme s = theme_effect (s\<lparr>th_mode := (if th_mode s = Dark_mode then Light_mode else Dark_mode)\<rparr>)"

definition system_change :: "bool \<Rightarrow> theme \<Rightarrow> theme" where
  "system_change prefersDark s = (if truthy (th_stored s) then s
     else theme_effect (s\<lparr>th_mode := (if prefersDark then Dark_mode else Light_mode)\<rparr>))"

datatype theme_event = Toggle_mode | System_prefers bool

fun theme_handle :: "theme_event \<Rightarrow> theme \<Rightarrow> theme" where
  "theme_handle Toggle_mode s = toggle_theme s"
| "theme_handle (System_prefers d) s = system_change d s"

section \<open>The account filter of the header\<close>

definition filter_text :: "account_filter \<Rightarrow> jstring" where
  "filter_text af =
     (let totalAccounts = length (allAccountIds af); selectedCount = length (af_selected af) in
      if totalAccounts = 0 then (if af_loading af then ''Loading accounts...'' else ''No accounts'')
      else if selectedCount = 0 then ''No accounts selected''
      else if isAllAccountsSelected af then ''All accounts''
      else int_str (int selectedCount) @ '' '' @ (if selectedCount = 1 then ''account'' else ''accounts''))"

definition all_accounts_disabled :: "account_filter \<Rightarrow> bool" where
  "all_accounts_disabled af \<longleftrightarrow> af_loading af \<or> isAllAccountsSelected af \<or> length (allAccountIds af) = 0"

datatype check_state = Checked | Indeterminate | Unchecked

definition bank_accounts :: "account_filter \<Rightarrow> jstring \<Rightarrow> jstring list" where
  "bank_accounts af bankName = map pa_id (default_to (map_get (accountsByBank af) bankName) [])"

definition bank_box :: "account_filter \<Rightarrow> jstring \<Rightarrow> check_state" where
  "bank_box af bankName =
     (if list_all (\<lambda>i. i \<in> set (af_selected af)) (bank_accounts af bankName) then Checked
      else if list_ex (\<lambda>i. i \<in> set (af_selected af)) (bank_accounts af bankName) then Indeterminate
      else Unchecked)"

definition toggleBankCollapse :: "jstring \<Rightarrow> jstring list \<Rightarrow> jstring list" where
  "toggleBankCollapse bankName collapsed =
     (if bankName \<in> set collapsed then filter (\<lambda>b. b \<noteq> bankName) collapsed else collapsed @ [bankName])"

datatype filter_key = Escape_key | Enter_key | Space_key | Other_key

definition filter_keydown :: "filter_key \<Rightarrow> bool \<Rightarrow> bool" where
  "filter_keydown k isOpen = (case k of Escape_key \<Rightarrow> False | Enter_key \<Rightarrow> \<not> isOpen | Space_key \<Rightarrow> \<not> isOpen
     | Other_key \<Rightarrow> isOpen)"

text \<open>A press of the mouse outside of the button and of the dialog closes it.\<close>

definition click_outside :: "bool \<Rightarrow> bool option \<Rightarrow> bool \<Rightarrow> bool" where
  "click_outside in_trigger in_dialog isOpen =
     (if isOpen \<and> \<not> in_trigger \<and> in_dialog = Some False then False else isOpen)"

section \<open>Properties\<close>

definition shell_ok :: "shell \<Rightarrow> bool" where
  "shell_ok s \<longleftrightarrow> (sh_account s = None \<or> sh_category s = None) \<and>
     (sh_tab s = Tab_transactions \<or> sh_account s = None \<and> sh_category s = None)"

interpretation shell: event_machine shell_handle "\<lambda>_ _. True" "\<lambda>s. \<exists>t p. s = initial_shell t p" shell_ok
proof
  fix s e assume "shell_ok s"
  then show "shell_ok (shell_handle e s)"
    by (cases e) (auto simp: shell_ok_def openTransactionsForAccount_def openTransactionsForCategory_def
        handleTabChange_def split: option.split)
qed (auto simp: shell_ok_def initial_shell_def)

text \<open>
  Whatever is opened in whatever order, at most one of account and category is preselected, and
  only while the transactions are shown: another tab never inherits it.
\<close>

theorem preselection_scoped:
  "(sh_account (fold shell_handle es (initial_shell t p)) = None \<or> sh_category (fold shell_handle es (initial_shell t p)) = None) \<and>
   (sh_tab (fold shell_handle es (initial_shell t p)) = Tab_transactions \<or>
    sh_account (fold shell_handle es (initial_shell t p)) = None \<and> sh_category (fold shell_handle es (initial_shell t p)) = None)"
proof -
  have "shell_ok (fold shell_handle es (initial_shell t p))" by (rule shell.invar_fold) auto
  then show ?thesis by (simp add: shell_ok_def)
qed

lemma selector_keeps:
  assumes "period_ok today v" "0 \<le> snd today" "snd today < 12"
  shows "period_ok today (selector_handle today e v)"
  using assms
  by (cases e; cases "sel_month v")
    (auto simp: period_ok_def setMonth_def toggleAllYear_def setYear_def availableMonths_def Let_def)

text \<open>
  The selector never leaves the past: as long as the clock does not run backwards, every click keeps
  the selected month at or before the current one.
\<close>

theorem never_in_future:
  assumes "period_ok (fst (hd clicks)) v" and "sorted (map fst clicks)"
    and "\<And>today. today \<in> fst ` set clicks \<Longrightarrow> 0 \<le> snd today \<and> snd today < 12" and "clicks \<noteq> []"
  shows "period_ok (fst (last clicks)) (fold (\<lambda>(today, e). selector_handle today e) clicks v)"
  using assms
proof (induction clicks arbitrary: v)
  case (Cons c clicks)
  obtain today e where c: "c = (today, e)" by (rule prod.exhaust)
  have now: "period_ok today (selector_handle today e v)"
    using selector_keeps Cons.prems by (auto simp: c)
  show ?case
  proof (cases clicks)
    case (Cons c' rest)
    then have "today \<le> fst c'" "0 \<le> snd (fst c')" "snd (fst c') < 12" using Cons.prems(2,3) by (auto simp: c)
    then have "period_ok (fst (hd clicks)) (selector_handle today e v)" using now Cons.prems(3)
      by (auto simp: period_ok_def Cons less_eq_prod_def c split: option.splits)
    then show ?thesis using Cons.IH Cons.prems by (simp add: c \<open>clicks = c' # rest\<close>)
  qed (simp add: c now)
qed simp

theorem never_in_future_witness:
  "period_ok (2025, 0) (fold (\<lambda>(today, e). selector_handle today e)
     [((2024, 11), Click_month 11), ((2025, 0), Click_next)] \<lparr>sel_year = 2024, sel_month = Some 2\<rparr>)"
proof -
  let ?c = "[((2024, 11), Click_month 11), ((2025, 0), Click_next)] :: ((int \<times> int) \<times> selector_event) list"
  have "period_ok (fst (last ?c)) (fold (\<lambda>(today, e). selector_handle today e) ?c \<lparr>sel_year = 2024, sel_month = Some 2\<rparr>)"
    by (rule never_in_future) (auto simp: period_ok_def)
  then show ?thesis by (simp del: selector_handle.simps)
qed

lemma stored_theme: "truthy (Some (theme_code m))"
  by (cases m) (simp_all add: theme_code_def truthy_def)

lemma theme_step:
  assumes "truthy (th_stored s)"
  shows "truthy (th_stored (theme_handle e s))" and "e \<noteq> Toggle_mode \<Longrightarrow> theme_handle e s = s"
  using assms by (cases e; simp add: toggle_theme_def theme_effect_def system_change_def stored_theme)+

text \<open>
  The theme follows the toggle and what was stored, and never the system: the mode is stored as soon
  as the page is mounted, so that no later change of the system's preference counts, and the first
  mode is dark whatever the system prefers.
\<close>

theorem system_theme_ignored:
  "fold theme_handle es (mounted_theme stored prefersDark) =
   fold theme_handle (filter (\<lambda>e. e = Toggle_mode) es) (mounted_theme stored prefersLight)"
proof -
  have "truthy (th_stored s) \<Longrightarrow> fold theme_handle es s = fold theme_handle (filter (\<lambda>e. e = Toggle_mode) es) s" for s
    by (induction es arbitrary: s) (auto simp: theme_step)
  moreover have "mounted_theme stored prefersDark = mounted_theme stored prefersLight"
    by (simp add: mounted_theme_def getInitialTheme_def)
  ultimately show ?thesis by (simp add: mounted_theme_def theme_effect_def stored_theme)
qed

text \<open>
  The box of a bank with accounts is checked, empty or in between as all, none or some of them are
  selected, and a click on it selects all of them or, when all are selected, none.
\<close>

theorem bank_box_toggles:
  assumes "bank_accounts af bank \<noteq> []"
  shows "bank_box (toggleBank bank af) bank = (if bank_box af bank = Checked then Unchecked else Checked)"
proof -
  have same: "bank_accounts (toggleBank bank af) bank = bank_accounts af bank"
    by (simp add: bank_accounts_def accountsByBank_def toggleBank_def Let_def)
  show ?thesis
  proof (cases "set (bank_accounts af bank) \<subseteq> set (af_selected af)")
    case True
    then have "af_selected (toggleBank bank af) = filter (\<lambda>i. i \<notin> set (bank_accounts af bank)) (af_selected af)"
      by (auto simp: toggleBank_def Let_def list_all_iff bank_accounts_def)
    then show ?thesis using True assms
      by (cases "bank_accounts af bank") (auto simp: bank_box_def same list_all_iff list_ex_iff)
  next
    case False
    then have "af_selected (toggleBank bank af) = add_missing (af_selected af) (bank_accounts af bank)"
      by (auto simp: toggleBank_def Let_def list_all_iff bank_accounts_def)
    then show ?thesis using False by (auto simp: bank_box_def same list_all_iff)
  qed
qed

theorem bank_box_toggles_witness:
  "bank_box (toggleBank ''Bank'' (initial_filter\<lparr>af_accounts :=
     [(map_account (plain_account ''a'' ''A''))\<lparr>pa_institution_name := ''Bank''\<rparr>]\<rparr>)) ''Bank'' = Checked"
  by (subst bank_box_toggles)
    (simp_all add: bank_accounts_def bank_box_def accountsByBank_def group_get str_or_def truthy_def initial_filter_def)

end
