(* ===== verification/Settings_View.thy ===== *)
theory Settings_View
  imports Onboarding Transition_Systems
begin

text \<open>
  The settings (\<^verbatim>\<open>views/SettingsPage.tsx\<close>): the change of the password, which ends the session
  two seconds after it succeeds, and the removal of the account. Requests are two steps, the click
  and the answer; the timer outlives the page.
\<close>

section \<open>The page\<close>

record settings =
  se_current :: jstring
  se_new :: jstring
  se_confirm :: jstring
  se_error :: "jstring option"
  se_success :: "jstring option"
  se_changing :: bool
  se_showDelete :: bool
  se_confirmText :: jstring
  se_deleting :: bool
  se_deleteError :: "jstring option"

definition initial_settings :: settings where
  "initial_settings = \<lparr>se_current = [], se_new = [], se_confirm = [], se_error = None, se_success = None,
     se_changing = False, se_showDelete = False, se_confirmText = [], se_deleting = False, se_deleteError = None\<rparr>"

definition type_current :: "jstring \<Rightarrow> settings \<Rightarrow> settings" where
  "type_current v s = s\<lparr>se_current := v, se_error := None\<rparr>"

definition type_new :: "jstring \<Rightarrow> settings \<Rightarrow> settings" where
  "type_new v s = s\<lparr>se_new := v, se_error := None\<rparr>"

definition type_confirm :: "jstring \<Rightarrow> settings \<Rightarrow> settings" where
  "type_confirm v s = s\<lparr>se_confirm := v, se_error := None\<rparr>"

definition password_refused :: "settings \<Rightarrow> jstring option" where
  "password_refused s =
     (if se_current s = [] then Some ''Current password is required''
      else if \<not> pv_isValid (validate_password (se_new s)) then Some ''Password does not meet requirements''
      else if se_new s \<noteq> se_confirm s then Some ''Passwords do not match'' else None)"

datatype settings_request = Change_password jstring jstring | Delete_account

definition handleChangePassword :: "settings \<Rightarrow> settings_request option \<times> settings" where
  "handleChangePassword s0 =
     (let s = s0\<lparr>se_error := None, se_success := None\<rparr> in
      case password_refused s of
        Some err \<Rightarrow> (None, s\<lparr>se_error := Some err\<rparr>)
      | None \<Rightarrow> (Some (Change_password (se_current s) (se_new s)), s\<lparr>se_changing := True\<rparr>))"

text \<open>The answer: a message, or what was thrown, with its message if it is an error. The flag says whether a timer starts.\<close>

definition password_changed :: "jstring option + jstring \<Rightarrow> settings \<Rightarrow> bool \<times> settings" where
  "password_changed answer s = (case answer of
     Inr message \<Rightarrow> (True, s\<lparr>se_success := Some message, se_current := [], se_new := [], se_confirm := [], se_changing := False\<rparr>)
   | Inl err \<Rightarrow> (False, s\<lparr>se_error := Some (default_to err ''Failed to change password''), se_changing := False\<rparr>))"

definition closeDeleteModal :: "settings \<Rightarrow> settings" where
  "closeDeleteModal s = s\<lparr>se_showDelete := False, se_confirmText := [], se_deleteError := None\<rparr>"

definition handleDeleteAccount :: "settings \<Rightarrow> settings_request option \<times> settings" where
  "handleDeleteAccount s = (if se_confirmText s \<noteq> ''DELETE'' then (None, s)
     else (Some Delete_account, s\<lparr>se_deleting := True, se_deleteError := None\<rparr>))"

text \<open>After a success the session ends, and the page with it.\<close>

definition account_deleted :: "jstring option + unit \<Rightarrow> settings \<Rightarrow> bool \<times> settings" where
  "account_deleted answer s = (case answer of
     Inr _ \<Rightarrow> (True, s)
   | Inl err \<Rightarrow> (False, s\<lparr>se_deleteError := Some (default_to err ''Failed to delete account''), se_deleting := False\<rparr>))"

definition confirm_invalid :: "settings \<Rightarrow> bool" where
  "confirm_invalid s \<longleftrightarrow> se_confirmText s \<noteq> [] \<and> se_confirmText s \<noteq> ''DELETE''"

definition change_disabled :: "settings \<Rightarrow> bool" where
  "change_disabled s \<longleftrightarrow> se_changing s \<or> se_current s = [] \<or> \<not> pv_isValid (validate_password (se_new s)) \<or>
     se_new s \<noteq> se_confirm s"

definition delete_disabled :: "settings \<Rightarrow> bool" where
  "delete_disabled s \<longleftrightarrow> se_confirmText s \<noteq> ''DELETE'' \<or> se_deleting s"

section \<open>Runs\<close>

text \<open>
  A run: the page while it is shown and the number of its mount, the session's token, the requests
  sent, those in flight with the mount they are from, and the timers that have not fired. Fields and buttons that are disabled do nothing.
\<close>

record settings_run =
  sr_page :: "settings option"
  sr_mount :: nat
  sr_token :: "jstring option"
  sr_sent :: "settings_request list"
  sr_flight :: "(nat \<times> settings_request) list"
  sr_timers :: nat

datatype settings_event = Type_current jstring | Type_new jstring | Type_confirm jstring | Submit_password
  | Answered nat "jstring option + jstring" | Timer_fires | Open_delete | Close_delete | Type_delete jstring
  | Click_delete | Log_out | Log_in jstring

definition on_page :: "(settings \<Rightarrow> settings) \<Rightarrow> settings_run \<Rightarrow> settings_run" where
  "on_page f r = r\<lparr>sr_page := map_option f (sr_page r)\<rparr>"

definition send_from :: "(settings \<Rightarrow> bool) \<Rightarrow> (settings \<Rightarrow> settings_request option \<times> settings) \<Rightarrow> settings_run \<Rightarrow> settings_run" where
  "send_from disabled f r = (case sr_page r of None \<Rightarrow> r
     | Some s \<Rightarrow> if disabled s then r
         else (case f s of (q, s') \<Rightarrow> r\<lparr>sr_page := Some s',
           sr_sent := sr_sent r @ (case q of None \<Rightarrow> [] | Some x \<Rightarrow> [x]),
           sr_flight := sr_flight r @ (case q of None \<Rightarrow> [] | Some x \<Rightarrow> [(sr_mount r, x)])\<rparr>))"

text \<open>\<^verbatim>\<open>clearToken\<close> and \<^verbatim>\<open>onLogout\<close>: the token goes and the page is replaced by the login.\<close>

definition end_session :: "settings_run \<Rightarrow> settings_run" where
  "end_session r = r\<lparr>sr_token := None, sr_page := None\<rparr>"

text \<open>An answer reaches the page only if it is the one that asked; its other effects happen anyway.\<close>

definition answered :: "nat \<Rightarrow> settings_request \<Rightarrow> jstring option + jstring \<Rightarrow> settings_run \<Rightarrow> settings_run" where
  "answered mount q a r =
     (let tell = (\<lambda>f r. if mount = sr_mount r then on_page f r else r) in
      case q of
        Change_password _ _ \<Rightarrow> tell (\<lambda>s. snd (password_changed a s))
          (r\<lparr>sr_timers := sr_timers r + (if fst (password_changed a initial_settings) then 1 else 0)\<rparr>)
      | Delete_account \<Rightarrow>
          let r1 = tell (\<lambda>s. snd (account_deleted (map_sum id (\<lambda>_. ()) a) s)) r
          in if fst (account_deleted (map_sum id (\<lambda>_. ()) a) initial_settings) then end_session r1 else r1)"

fun settings_handle :: "settings_event \<Rightarrow> settings_run \<Rightarrow> settings_run" where
  "settings_handle (Type_current v) r = on_page (\<lambda>s. if se_changing s then s else type_current v s) r"
| "settings_handle (Type_new v) r = on_page (\<lambda>s. if se_changing s then s else type_new v s) r"
| "settings_handle (Type_confirm v) r = on_page (\<lambda>s. if se_changing s then s else type_confirm v s) r"
| "settings_handle Submit_password r = send_from change_disabled handleChangePassword r"
| "settings_handle (Answered i a) r = (if i < length (sr_flight r)
     then (case sr_flight r ! i of (mount, q) \<Rightarrow>
       answered mount q a (r\<lparr>sr_flight := take i (sr_flight r) @ drop (Suc i) (sr_flight r)\<rparr>)) else r)"
| "settings_handle Timer_fires r =
     (if 0 < sr_timers r then end_session (r\<lparr>sr_timers := sr_timers r - 1\<rparr>) else r)"
| "settings_handle Open_delete r = on_page (\<lambda>s. s\<lparr>se_showDelete := True\<rparr>) r"
| "settings_handle Close_delete r = on_page (\<lambda>s. if se_deleting s then s else closeDeleteModal s) r"
| "settings_handle (Type_delete v) r = on_page (\<lambda>s. if se_deleting s then s else s\<lparr>se_confirmText := v\<rparr>) r"
| "settings_handle Click_delete r = send_from delete_disabled handleDeleteAccount r"
| "settings_handle Log_out r = end_session r"
| "settings_handle (Log_in t) r = r\<lparr>sr_token := Some t, sr_page := Some initial_settings, sr_mount := Suc (sr_mount r)\<rparr>"

definition settings_start :: "jstring \<Rightarrow> settings_run" where
  "settings_start t = \<lparr>sr_page = Some initial_settings, sr_mount = 0, sr_token = Some t, sr_sent = [], sr_flight = [], sr_timers = 0\<rparr>"

section \<open>Properties\<close>

definition request_ok :: "settings_request \<Rightarrow> bool" where
  "request_ok q = (case q of Delete_account \<Rightarrow> True
     | Change_password c n \<Rightarrow> c \<noteq> [] \<and> pv_isValid (validate_password n))"

definition run_ok :: "settings_run \<Rightarrow> bool" where
  "run_ok r \<longleftrightarrow> list_all request_ok (sr_sent r) \<and> (sr_token r = None \<longrightarrow> sr_page r = None)"

lemma change_request_ok: "handleChangePassword s = (Some q, s') \<Longrightarrow> request_ok q"
  by (auto simp: handleChangePassword_def password_refused_def request_ok_def Let_def split: if_splits)

lemma delete_request_ok: "handleDeleteAccount s = (Some q, s') \<Longrightarrow> request_ok q"
  by (auto simp: handleDeleteAccount_def request_ok_def split: if_splits)

lemma on_page_ok: "run_ok r \<Longrightarrow> run_ok (on_page f r)"
  by (simp add: run_ok_def on_page_def)

lemma send_from_ok:
  assumes "run_ok r" "\<And>s q s'. f s = (Some q, s') \<Longrightarrow> request_ok q"
  shows "run_ok (send_from disabled f r)"
proof (cases "sr_page r")
  case (Some s)
  obtain q s' where f: "f s = (q, s')" by (rule prod.exhaust)
  then show ?thesis using assms(1) assms(2) [of s _ s'] Some
    by (cases q) (auto simp: send_from_def run_ok_def)
qed (use assms(1) in \<open>simp add: send_from_def\<close>)

lemma end_session_ok: "run_ok r \<Longrightarrow> run_ok (end_session r)"
  by (simp add: run_ok_def end_session_def)

lemma answered_ok:
  assumes "run_ok r"
  shows "run_ok (answered mount q a r)"
proof -
  have "run_ok (r\<lparr>sr_timers := n\<rparr>)" for n using assms by (simp add: run_ok_def)
  then show ?thesis using assms
    by (cases q) (simp_all add: answered_def Let_def on_page_ok end_session_ok del: add_0_right)
qed

lemma settings_handle_ok: "run_ok r \<Longrightarrow> run_ok (settings_handle e r)"
proof (induction e r rule: settings_handle.induct)
  case (5 i a r)
  then have "run_ok (r\<lparr>sr_flight := q\<rparr>)" for q by (simp add: run_ok_def)
  then show ?case using 5 by (auto intro: answered_ok split: prod.split)
next
  case (6 r)
  then have "run_ok (r\<lparr>sr_timers := n\<rparr>)" for n by (simp add: run_ok_def)
  then show ?case using 6 by (auto intro: end_session_ok)
next
  case (12 t r)
  then show ?case by (simp add: run_ok_def)
qed (auto intro: on_page_ok end_session_ok send_from_ok change_request_ok delete_request_ok)

interpretation settings: event_machine settings_handle "\<lambda>_ _. True" "\<lambda>r. \<exists>t. r = settings_start t" run_ok
proof
  fix r e assume "run_ok r"
  then show "run_ok (settings_handle e r)" by (rule settings_handle_ok)
qed (auto simp: run_ok_def settings_start_def)

text \<open>
  In every run no change of the password is sent without the current one or with a new one that does
  not meet the requirements, and the page is never shown without a session.
\<close>

theorem settings_requests_valid:
  "list_all request_ok (sr_sent (fold settings_handle es (settings_start t))) \<and>
   (sr_page (fold settings_handle es (settings_start t)) = None \<or> sr_token (fold settings_handle es (settings_start t)) \<noteq> None)"
proof -
  have "run_ok (fold settings_handle es (settings_start t))" by (rule settings.invar_fold) auto
  then show ?thesis by (auto simp: run_ok_def)
qed

text \<open>
  The timer of a change of the password is not stopped by a logout: it ends the session that is open
  when it fires, also one that began after it was set.
\<close>

theorem timer_ends_next_session:
  "sr_token (fold settings_handle [Type_current ''old'', Type_new ''Passw0rd!'', Type_confirm ''Passw0rd!'', Submit_password,
     Answered 0 (Inr ''ok''), Log_out, Log_in ''next''] (settings_start t)) = Some ''next'' \<and>
   sr_token (fold settings_handle [Type_current ''old'', Type_new ''Passw0rd!'', Type_confirm ''Passw0rd!'', Submit_password,
     Answered 0 (Inr ''ok''), Log_out, Log_in ''next'', Timer_fires] (settings_start t)) = None"
  by code_simp

end
