(* ===== verification/Error_Boundary.thy ===== *)
theory Error_Boundary
  imports Http_Boundary Telemetry Transition_Systems
begin

text \<open>
  The error boundary of \<^verbatim>\<open>components/ErrorBoundary.tsx\<close>: the class it puts a thrown error in, the
  secrets it takes out of the message, the card it shows, and the boundary as a state machine over the
  errors thrown below it and the clicks on its buttons. A thrown error is an error of the API client or
  another one; of another one a numeric field \<^verbatim>\<open>status\<close> is given beside it.
\<close>

section \<open>The class of an error\<close>

datatype ErrorTone = Auth_tone | Network_tone | Server_tone | Generic_tone

record caught =
  ca_exn :: exn
  ca_status :: "rat option"

definition is_authentication :: "exn \<Rightarrow> bool" where
  "is_authentication x = (case x of ApiExn a \<Rightarrow> ae_class a = Authentication | JsExn _ \<Rightarrow> False)"

definition hasStatusCode :: "caught \<Rightarrow> rat option" where
  "hasStatusCode e = (case ca_exn e of ApiExn a \<Rightarrow> Some (of_int (ae_status a)) | JsExn _ \<Rightarrow> ca_status e)"

definition getErrorType :: "caught \<Rightarrow> ErrorTone" where
  "getErrorType e = (let message = exn_message (ca_exn e) in
     if is_authentication (ca_exn e) \<or> str_includes message ''Authentication required'' then Auth_tone
     else if str_includes message ''Failed to fetch'' \<or> str_includes message ''Network error'' \<or>
       str_includes message ''DNS resolution'' then Network_tone
     else if (case ca_exn e of ApiExn a \<Rightarrow> 500 \<le> ae_status a | JsExn _ \<Rightarrow> False) then Server_tone
     else if (case hasStatusCode e of Some n \<Rightarrow> 500 \<le> n | None \<Rightarrow> False) then Server_tone
     else Generic_tone)"

section \<open>The message without its secrets\<close>

text \<open>A key and what its value is made of; the flag \<^verbatim>\<open>i\<close> reads the key in any case.\<close>

definition sensitivePatterns :: "(jstring \<times> (char \<Rightarrow> bool)) list" where
  "sensitivePatterns = [(''password'', word_char), (''token'', token_char), (''key'', token_char),
     (''secret'', word_char), (''api_key'', token_char)]"

definition skip_text_ci :: "jstring \<Rightarrow> jstring \<Rightarrow> jstring option" where
  "skip_text_ci t s = (if toLowerCase (take (length t) s) = t then Some (drop (length t) s) else None)"

definition match_pair :: "jstring \<times> (char \<Rightarrow> bool) \<Rightarrow> matcher" where
  "match_pair kp p = match_parts [skip_text_ci (fst kp @ ''=''), skip_run (snd kp) 1]"

definition sanitize_with :: "(jstring \<times> (char \<Rightarrow> bool)) list \<Rightarrow> jstring \<Rightarrow> jstring" where
  "sanitize_with kps message =
     foldl (\<lambda>sanitized kp. replace_all (match_pair kp) ''[REDACTED]'' None sanitized) message kps"

definition sanitizeErrorMessage :: "jstring \<Rightarrow> jstring" where
  "sanitizeErrorMessage message = sanitize_with sensitivePatterns message"

section \<open>The boundary\<close>

record boundary =
  eb_hasError :: bool
  eb_error :: "caught option"
  eb_errorInfo :: "jstring option"

definition no_error :: boundary where
  "no_error = \<lparr>eb_hasError = False, eb_error = None, eb_errorInfo = None\<rparr>"

definition getDerivedStateFromError :: "caught \<Rightarrow> boundary" where
  "getDerivedStateFromError e = \<lparr>eb_hasError = True, eb_error = Some e, eb_errorInfo = None\<rparr>"

text \<open>What is told to the active span, to the console, and to the window.\<close>

datatype boundary_effect = Record_exception caught | Set_error_status jstring | Console_error caught
  | Reload | Go_to jstring | Called_onRetry

definition componentDidCatch :: "bool \<Rightarrow> caught \<Rightarrow> jstring \<Rightarrow> boundary \<Rightarrow> boundary \<times> boundary_effect list" where
  "componentDidCatch activeSpan e info b =
     (b\<lparr>eb_error := Some e, eb_errorInfo := Some info\<rparr>,
      (if activeSpan then [Record_exception e, Set_error_status (sanitizeErrorMessage (exn_message (ca_exn e)))]
       else []) @ [Console_error e])"

datatype card_button = Go_to_login | Try_again | Refresh_page

record error_card =
  ec_title :: jstring
  ec_text :: jstring
  ec_buttons :: "card_button list"

datatype boundary_view = Children | Blank | Card error_card

definition card_of :: "bool \<Rightarrow> caught \<Rightarrow> error_card" where
  "card_of onRetry e = (case getErrorType e of
     Auth_tone \<Rightarrow> \<lparr>ec_title = ''Authentication Required'',
       ec_text = ''Please log in to continue using the application.'', ec_buttons = [Go_to_login]\<rparr>
   | Network_tone \<Rightarrow> \<lparr>ec_title = ''Connection Problem'',
       ec_text = ''Please check your internet connection and try again.'', ec_buttons = [Try_again, Refresh_page]\<rparr>
   | Server_tone \<Rightarrow> \<lparr>ec_title = ''Server Temporarily Unavailable'',
       ec_text = ''Our server is temporarily unavailable. Please try again in a few minutes.'',
       ec_buttons = [Try_again]\<rparr>
   | Generic_tone \<Rightarrow> \<lparr>ec_title = ''Something Went Wrong'',
       ec_text = str_or (Some (sanitizeErrorMessage (exn_message (ca_exn e))))
         ''An unexpected error occurred. Please try refreshing the page.'',
       ec_buttons = (if onRetry then [Try_again] else []) @ [Refresh_page]\<rparr>)"

definition renderErrorContent :: "bool \<Rightarrow> boundary \<Rightarrow> boundary_view" where
  "renderErrorContent onRetry b = (case eb_error b of None \<Rightarrow> Blank | Some e \<Rightarrow> Card (card_of onRetry e))"

definition boundary_render :: "bool \<Rightarrow> boundary \<Rightarrow> boundary_view" where
  "boundary_render onRetry b = (if eb_hasError b then renderErrorContent onRetry b else Children)"

text \<open>The handlers \<^verbatim>\<open>handleRetry\<close>, \<^verbatim>\<open>handleRefresh\<close> and \<^verbatim>\<open>handleLogin\<close>.\<close>

definition boundary_click :: "bool \<Rightarrow> card_button \<Rightarrow> boundary \<Rightarrow> boundary \<times> boundary_effect list" where
  "boundary_click onRetry k b = (case k of
     Try_again \<Rightarrow> (no_error, if onRetry then [Called_onRetry] else [])
   | Refresh_page \<Rightarrow> (b, [Reload])
   | Go_to_login \<Rightarrow> (b, [Go_to ''/login'']))"

text \<open>
  A throw below the boundary runs both lifecycle methods of React; children that are shown may throw,
  a button is clicked only when it is shown.
\<close>

datatype boundary_event = Throw bool caught jstring | Click card_button

type_synonym boundary_run = "boundary \<times> boundary_effect list"

fun boundary_handle :: "bool \<Rightarrow> boundary_event \<Rightarrow> boundary_run \<Rightarrow> boundary_run" where
  "boundary_handle onRetry (Throw sp e info) (b, out) =
     (if boundary_render onRetry b = Children
      then (let (b', es) = componentDidCatch sp e info (getDerivedStateFromError e) in (b', out @ es))
      else (b, out))"
| "boundary_handle onRetry (Click k) (b, out) =
     (case boundary_render onRetry b of
        Card c \<Rightarrow> if k \<in> set (ec_buttons c)
          then (let (b', es) = boundary_click onRetry k b in (b', out @ es)) else (b, out)
      | _ \<Rightarrow> (b, out))"

section \<open>What a pass leaves\<close>

definition pair_at :: "jstring \<times> (char \<Rightarrow> bool) \<Rightarrow> jstring \<Rightarrow> bool" where
  "pair_at kp s \<longleftrightarrow> (\<exists>u c. toLowerCase u = fst kp @ ''='' \<and> snd kp c \<and> prefix (u @ [c]) s)"

definition pair_free :: "jstring \<times> (char \<Rightarrow> bool) \<Rightarrow> jstring \<Rightarrow> bool" where
  "pair_free kp s \<longleftrightarrow> (\<nexists>u c. toLowerCase u = fst kp @ ''='' \<and> snd kp c \<and> sublist (u @ [c]) s)"

lemma pair_free_Nil [simp]: "pair_free kp []"
  by (simp add: pair_free_def)

lemma pair_free_Cons: "pair_free kp (c # s) \<longleftrightarrow> \<not> pair_at kp (c # s) \<and> pair_free kp s"
  by (auto simp: pair_free_def pair_at_def sublist_Cons_right)

lemma pair_free_drop: "pair_free kp s \<Longrightarrow> pair_free kp (drop n s)"
  by (induction s arbitrary: n) (auto simp: drop_Cons pair_free_Cons split: nat.split)

lemma match_pair_iff: "pair_at kp s \<longleftrightarrow> (\<exists>n. match_pair kp p s = Some (Suc n))"
proof -
  obtain k P where kp: "kp = (k, P)" by fastforce
  let ?n = "length (k @ ''='')"
  have "pair_at kp s \<longleftrightarrow> toLowerCase (take ?n s) = k @ ''='' \<and> drop ?n s \<noteq> [] \<and> P (hd (drop ?n s))"
  proof
    assume "pair_at kp s"
    then obtain u c r where u: "toLowerCase u = k @ ''=''" "P c" "s = u @ c # r"
      by (auto simp: pair_at_def kp prefix_def)
    then have "length u = ?n" by (metis length_toLowerCase)
    with u show "toLowerCase (take ?n s) = k @ ''='' \<and> drop ?n s \<noteq> [] \<and> P (hd (drop ?n s))" by simp
  next
    assume r: "toLowerCase (take ?n s) = k @ ''='' \<and> drop ?n s \<noteq> [] \<and> P (hd (drop ?n s))"
    then have "s = take ?n s @ [hd (drop ?n s)] @ tl (drop ?n s)" by simp
    then have "prefix (take ?n s @ [hd (drop ?n s)]) s" by (metis append_assoc prefixI)
    with r show "pair_at kp s" by (auto simp: pair_at_def kp)
  qed
  also have "\<dots> \<longleftrightarrow> (\<exists>n. match_pair kp p s = Some (Suc n))"
  proof -
    have m: "match_pair kp p s = (if toLowerCase (take ?n s) = k @ ''='' \<and> drop ?n s \<noteq> [] \<and> P (hd (drop ?n s))
        then Some (length s - length (dropWhile P (drop ?n s))) else None)"
      by (cases "drop ?n s") (auto simp: match_pair_def kp match_parts_def skip_text_ci_def skip_run_def)
    have "0 < length s - length (dropWhile P (drop ?n s))" if "drop ?n s \<noteq> []"
      using that length_dropWhile_le [of P "drop ?n s"] by simp
    then show ?thesis unfolding m by (auto simp: gr0_conv_Suc)
  qed
  finally show ?thesis .
qed

text \<open>The keys are lower case letters and underscores, and no value has a bracket.\<close>

definition plain_pair :: "jstring \<times> (char \<Rightarrow> bool) \<Rightarrow> bool" where
  "plain_pair kp \<longleftrightarrow> CHR ''['' \<notin> set (fst kp) \<and> CHR '']'' \<notin> set (fst kp) \<and>
     \<not> snd kp (CHR ''['') \<and> \<not> snd kp (CHR '']'')"

lemma patterns_plain: "kp \<in> set sensitivePatterns \<Longrightarrow> plain_pair kp"
proof -
  have "\<not> word_char (CHR ''['')" "\<not> word_char (CHR '']'')" "\<not> token_char (CHR ''['')" "\<not> token_char (CHR '']'')"
    by code_simp+
  then show "kp \<in> set sensitivePatterns \<Longrightarrow> plain_pair kp" by (auto simp: plain_pair_def sensitivePatterns_def)
qed

lemma lower_in: "c \<in> set u \<Longrightarrow> lower_char c = c \<Longrightarrow> c \<in> set (toLowerCase u)"
  by (auto simp: toLowerCase_def rev_image_eqI)

lemma lower_equals: "lower_char c = CHR ''='' \<Longrightarrow> c = CHR ''=''"
proof (rule ccontr)
  assume c: "lower_char c = CHR ''=''" "c \<noteq> CHR ''=''"
  then have u: "is_upper c" by (simp add: lower_char_def split: if_splits)
  then have "code_at (lower_char c) = code_at c + 32" by (simp add: lower_char_def is_upper_def)
  moreover have "code_at (CHR ''='') = 61" by code_simp
  ultimately show False using u c(1) by (simp add: is_upper_def)
qed

lemma pair_text:
  assumes "plain_pair kp" and "toLowerCase u = fst kp @ ''=''" and "snd kp c"
  shows "CHR ''['' \<notin> set (u @ [c])" and "CHR '']'' \<notin> set (u @ [c])" and "CHR ''='' \<in> set (u @ [c])"
proof -
  have "lower_char (CHR ''['') = CHR ''[''" "lower_char (CHR '']'') = CHR '']''" by code_simp+
  then show "CHR ''['' \<notin> set (u @ [c])" "CHR '']'' \<notin> set (u @ [c])"
    using assms lower_in [of _ u] by (auto simp: plain_pair_def)
  have "last (toLowerCase u) = CHR ''=''" "u \<noteq> []" using assms(2) by (auto simp: toLowerCase_def)
  then have "lower_char (last u) = CHR ''=''" by (simp add: toLowerCase_def last_map)
  then have "last u = CHR ''=''" by (rule lower_equals)
  then show "CHR ''='' \<in> set (u @ [c])" using \<open>u \<noteq> []\<close> by (metis UnCI last_in_set set_append)
qed

lemma prefix_kept:
  "CHR ''['' \<notin> set w \<Longrightarrow> prefix w (replace_all m ''[REDACTED]'' p s) \<Longrightarrow> prefix w s"
proof (induction s arbitrary: p w)
  case (Cons c cs)
  show ?case
  proof (cases rule: replace_all_cases [of m p c cs "''[REDACTED]''"])
    case (1 n q)
    then show ?thesis using Cons.prems by (cases w) auto
  next
    case 2
    then show ?thesis using Cons.prems Cons.IH [of "tl w" "Some c"] by (cases w) auto
  qed
qed simp

lemma prefix_before:
  "prefix w (t @ d # x) \<Longrightarrow> d \<notin> set w \<Longrightarrow> e \<in> set w \<Longrightarrow> e \<notin> set t \<Longrightarrow> False"
  by (induction t arbitrary: w) (auto simp: prefix_Cons)

lemma sublist_after_redacted:
  assumes "sublist w (''[REDACTED]'' @ x)" "CHR ''['' \<notin> set w" "CHR '']'' \<notin> set w" "CHR ''='' \<in> set w"
  shows "sublist w x"
proof -
  have "\<not> prefix w (t @ CHR '']'' # x)" if "CHR ''='' \<notin> set t" for t
    using prefix_before [of w t] that assms(3,4) by blast
  note n = this [of "''REDACTED''"] this [of "''EDACTED''"] this [of "''DACTED''"] this [of "''ACTED''"]
    this [of "''CTED''"] this [of "''TED''"] this [of "''ED''"] this [of "''D''"] this [of "[]"] this [of "''[REDACTED''"]
  show ?thesis using assms(1) n by (simp add: sublist_Cons_right)
qed

lemma pair_free_redacted: "plain_pair kp \<Longrightarrow> pair_free kp x \<Longrightarrow> pair_free kp (''[REDACTED]'' @ x)"
  unfolding pair_free_def using sublist_after_redacted pair_text by blast

lemma pass_pair_free:
  assumes kp: "plain_pair kp" and "pair_free kp s \<or> m = match_pair kp"
  shows "pair_free kp (replace_all m ''[REDACTED]'' p s)"
  using assms(2)
proof (induction s arbitrary: p rule: length_induct)
  case (1 s)
  show ?case
  proof (cases s)
    case (Cons c cs)
    have IH: "pair_free kp (replace_all m ''[REDACTED]'' q (drop n cs))" for q n
      using 1(1) [rule_format, of "drop n cs" q] 1(2) pair_free_drop [of kp cs n] by (auto simp: Cons pair_free_Cons)
    show ?thesis
    proof (cases rule: replace_all_cases [of m p c cs "''[REDACTED]''"])
      case (1 n q)
      then show ?thesis using pair_free_redacted [OF kp IH [of q n]] by (simp add: Cons)
    next
      case 2
      then have "\<not> pair_at kp (c # cs)" using 1(2) match_pair_iff [of kp "c # cs" p] by (auto simp: Cons pair_free_Cons)
      then have "\<not> pair_at kp (c # replace_all m ''[REDACTED]'' (Some c) cs)"
        using prefix_kept [of _ m p "c # cs"] pair_text(1) [OF kp] 2(2) unfolding pair_at_def by metis
      then show ?thesis using IH [of "Some c" 0] 2(2) by (simp add: Cons pair_free_Cons)
    qed
  qed simp
qed

lemma sanitize_with_free:
  "plain_pair kp \<Longrightarrow> pair_free kp s \<or> kp \<in> set kps \<Longrightarrow> pair_free kp (sanitize_with kps s)"
proof (induction kps arbitrary: s)
  case (Cons a kps)
  then have "pair_free kp (replace_all (match_pair a) ''[REDACTED]'' None s) \<or> kp \<in> set kps"
    using pass_pair_free [of kp s "match_pair a" None] by auto
  with Cons show ?case by (simp add: sanitize_with_def)
qed (auto simp: sanitize_with_def)

lemma pass_unchanged: "pair_free kp s \<Longrightarrow> replace_all (match_pair kp) r p s = s"
proof (induction s arbitrary: p)
  case (Cons c cs)
  show ?case
    using Cons match_pair_iff [of kp "c # cs" p]
    by (cases rule: replace_all_cases [of "match_pair kp" p c cs r]) (auto simp: pair_free_Cons)
qed simp

section \<open>Properties\<close>

text \<open>
  C33. Whatever the message, no key of the table is left with its value: neither the text of the card nor
  the status of the span holds one, in whatever case it was written.
\<close>

theorem no_secret_pair_survives:
  assumes "(key, P) \<in> set sensitivePatterns" and "toLowerCase k = key" and "P c"
  shows "\<not> sublist (k @ CHR ''='' # [c]) (sanitizeErrorMessage message)"
proof -
  have "pair_free (key, P) (sanitizeErrorMessage message)"
    unfolding sanitizeErrorMessage_def using assms(1) patterns_plain by (intro sanitize_with_free) auto
  moreover have "lower_char (CHR ''='') = CHR ''=''" by code_simp
  then have "toLowerCase (k @ ''='') = key @ ''=''" using assms(2) by simp
  ultimately show ?thesis using assms(3) unfolding pair_free_def by (metis append.assoc append_Cons append_Nil fst_conv snd_conv)
qed

theorem no_secret_pair_survives_witness:
  "\<not> sublist ''PassWord=h'' (sanitizeErrorMessage ''login PassWord=hunter2 refused'')"
proof -
  have "(''password'', word_char) \<in> set sensitivePatterns" by (simp add: sensitivePatterns_def)
  moreover have "toLowerCase ''PassWord'' = ''password''" "word_char (CHR ''h'')" by code_simp+
  ultimately show ?thesis using no_secret_pair_survives [of "''password''" word_char "''PassWord''" "CHR ''h''"] by simp
qed

text \<open>The last pattern of the table never finds anything: the pattern of \<^verbatim>\<open>key=\<close> has taken it.\<close>

theorem api_key_pattern_dead: "sanitizeErrorMessage message = sanitize_with (butlast sensitivePatterns) message"
proof -
  let ?s = "sanitize_with (butlast sensitivePatterns) message"
  have "pair_free (''key'', token_char) ?s"
    using patterns_plain by (intro sanitize_with_free) (auto simp: sensitivePatterns_def)
  then have "pair_free (''api_key'', token_char) ?s"
    unfolding pair_free_def
  proof (rule contrapos_nn)
    assume "\<exists>u c. toLowerCase u = fst (''api_key'', token_char) @ ''='' \<and> snd (''api_key'', token_char) c \<and> sublist (u @ [c]) ?s"
    then obtain u c where u: "toLowerCase u = ''api_'' @ ''key=''" "token_char c" "sublist (u @ [c]) ?s" by auto
    have "toLowerCase (drop 4 u) = ''key=''" using u(1) by (simp add: toLowerCase_def flip: drop_map)
    moreover have "sublist (drop 4 u @ [c]) (u @ [c])"
      by (metis append.assoc append_take_drop_id sublist_append_leftI)
    ultimately show "\<exists>u c. toLowerCase u = fst (''key'', token_char) @ ''='' \<and> snd (''key'', token_char) c \<and> sublist (u @ [c]) ?s"
      using u(2,3) sublist_order.order_trans by fastforce
  qed
  then show ?thesis
    by (simp add: sanitizeErrorMessage_def sanitize_with_def sensitivePatterns_def pass_unchanged)
qed

text \<open>
  The value of a password ends at the first character that is no letter, digit or underscore: what
  comes after it stays, the rest of the password included.
\<close>

lemma replace_match:
  "u \<noteq> [] \<Longrightarrow> m p (u @ v) = Some (length u) \<Longrightarrow> replace_all m r p (u @ v) = r @ replace_all m r (Some (last u)) v"
  by (cases u) simp_all

lemma match_pair_stop:
  assumes "toLowerCase u = k @ ''=''" and "w \<noteq> []" and "list_all P w" and "\<not> P c"
  shows "match_pair (k, P) p (u @ w @ c # t) = Some (length u + length w)"
proof -
  have "length (k @ ''='') = length u" using assms(1) by (metis length_toLowerCase)
  moreover have "skip_run P 1 (w @ c # t) = Some (c # t)"
    using assms(2-4) by (intro skip_run_stop) (auto simp: Suc_le_eq)
  ultimately show ?thesis using assms(1) by (simp add: match_pair_def match_parts_def skip_text_ci_def)
qed

theorem password_tail_survives:
  assumes "w \<noteq> []" and "list_all word_char w" and "\<not> word_char c" and "CHR ''='' \<notin> set (c # t)"
  shows "sanitizeErrorMessage (''password='' @ w @ c # t) = ''[REDACTED]'' @ c # t"
proof -
  have "pair_free kp (c # t)" "pair_free kp (''[REDACTED]'' @ c # t)" if "kp \<in> set sensitivePatterns" for kp
  proof -
    have "pair_free kp (c # t)"
      unfolding pair_free_def using pair_text(3) [OF patterns_plain [OF that]] assms(4)
      by (blast dest: set_mono_sublist)
    then show "pair_free kp (c # t)" "pair_free kp (''[REDACTED]'' @ c # t)"
      using pair_free_redacted [OF patterns_plain [OF that]] by blast+
  qed
  note free = this
  have "toLowerCase ''password='' = ''password'' @ ''=''" by code_simp
  then have "match_pair (''password'', word_char) None ((''password='' @ w) @ c # t) = Some (length (''password='' @ w))"
    using match_pair_stop [of "''password=''" "''password''" w word_char c None t] assms(1-3) by simp
  from replace_match [of "''password='' @ w" "match_pair (''password'', word_char)" None "c # t" "''[REDACTED]''"] this
  have "replace_all (match_pair (''password'', word_char)) ''[REDACTED]'' None
      (''password='' @ w @ c # t) = ''[REDACTED]'' @ c # t"
    using pass_unchanged [OF free(1) [of "(''password'', word_char)"]] assms(1)
    by (simp only: append_assoc append_is_Nil_conv simp_thms) (simp add: sensitivePatterns_def)
  moreover have "replace_all (match_pair kp) ''[REDACTED]'' None (''[REDACTED]'' @ c # t) = ''[REDACTED]'' @ c # t"
    if "kp \<in> set sensitivePatterns" for kp
    using free(2) [OF that] by (rule pass_unchanged)
  ultimately show ?thesis
    by (simp add: sanitizeErrorMessage_def sanitize_with_def sensitivePatterns_def)
qed

theorem password_tail_survives_witness:
  "sanitizeErrorMessage ''password=p@ssw0rd'' = ''[REDACTED]@ssw0rd''"
proof -
  have "list_all word_char ''p''" "\<not> word_char (CHR ''@'')" by code_simp+
  then show ?thesis using password_tail_survives [of "''p''" "CHR ''@''" "''ssw0rd''"] by simp
qed

text \<open>The exception recorded on the span is the error as it was thrown: only the status is sanitized.\<close>

theorem raw_exception_recorded:
  "Record_exception e \<in> set (snd (componentDidCatch True e info b)) \<and>
   Set_error_status (sanitizeErrorMessage (exn_message (ca_exn e))) \<in> set (snd (componentDidCatch True e info b))"
  by (simp add: componentDidCatch_def)

text \<open>
  The class of an answer of the server: 401 asks for a login whatever its text, an answer of 500 and
  above is the server's, and any other is generic, unless the text names a login or the network.
\<close>

definition names_cause :: "jstring \<Rightarrow> bool" where
  "names_cause m \<longleftrightarrow> list_ex (str_includes m)
     [''Authentication required'', ''Failed to fetch'', ''Network error'', ''DNS resolution'']"

lemma error_for_status_fields:
  "ae_status (error_for_status n m) = n" "ae_message (error_for_status n m) = m"
  "ae_class (error_for_status n m) = Authentication \<longleftrightarrow> n = 401"
  by (auto simp: error_for_status_def ValidationError_def AuthenticationError_def ForbiddenError_def
      NotFoundError_def ConflictError_def ServerError_def ApiError_def)

theorem answers_classified:
  assumes "\<not> names_cause (error_message status statusText b)"
  shows "getErrorType \<lparr>ca_exn = ApiExn (createApiError status statusText b), ca_status = st\<rparr> =
    (if status = 401 then Auth_tone else if 500 \<le> status then Server_tone else Generic_tone)"
  using assms
  by (auto simp: getErrorType_def is_authentication_def createApiError_def error_for_status_fields names_cause_def
      exn_message_def hasStatusCode_def Let_def)

theorem answers_classified_witness:
  "getErrorType \<lparr>ca_exn = ApiExn (createApiError 503 ''Unavailable'' (Json (JsObject []))), ca_status = None\<rparr> = Server_tone"
proof -
  have "\<not> names_cause (error_message 503 ''Unavailable'' (Json (JsObject [])))" by code_simp
  then show ?thesis by (simp add: answers_classified)
qed

section \<open>The boundary as a machine\<close>

definition boundary_ok :: "boundary_run \<Rightarrow> bool" where
  "boundary_ok r \<longleftrightarrow> (eb_hasError (fst r) \<longleftrightarrow> eb_error (fst r) \<noteq> None)"

interpretation boundary: event_machine "boundary_handle onRetry" "\<lambda>s e. True" "\<lambda>s. s = (no_error, [])" boundary_ok
proof
  fix s e
  assume "boundary_ok s"
  then show "boundary_ok (boundary_handle onRetry e s)"
    by (cases s; cases e)
      (auto simp: boundary_ok_def componentDidCatch_def boundary_click_def no_error_def getDerivedStateFromError_def
        split: boundary_view.split card_button.split)
qed (simp add: boundary_ok_def no_error_def)

definition boundary_after :: "bool \<Rightarrow> boundary_event list \<Rightarrow> boundary_run" where
  "boundary_after onRetry es = fold (boundary_handle onRetry) es (no_error, [])"

lemma boundary_after_ok: "boundary_ok (boundary_after onRetry es)"
  unfolding boundary_after_def by (rule boundary.invar_fold) auto

lemma card_has_button: "ec_buttons (card_of onRetry e) \<noteq> []"
  by (simp add: card_of_def split: ErrorTone.split)

lemma status_log:
  "Set_error_status m \<in> set (snd (boundary_after onRetry es)) \<Longrightarrow> \<exists>x. m = sanitizeErrorMessage x"
proof (induction es rule: rev_induct)
  case (snoc e es)
  obtain b out where r: "boundary_after onRetry es = (b, out)" by fastforce
  have "boundary_after onRetry (es @ [e]) = boundary_handle onRetry e (b, out)"
    using r by (simp add: boundary_after_def)
  then show ?case using snoc r
    by (cases e) (auto simp: componentDidCatch_def boundary_click_def split: boundary_view.splits card_button.splits if_splits)
qed (simp add: boundary_after_def)

text \<open>
  C38. In every run the page shows its children or a card with a button on it, never nothing. When it shows
  its children an error thrown below puts up its card; Try again on a card brings the children back,
  calling \<^verbatim>\<open>onRetry\<close> when there is one; and every status given to the span has passed the sanitizer.
\<close>

theorem boundary_never_blank:
  assumes "boundary_after onRetry es = (b, out)"
  shows "(case boundary_render onRetry b of
      Blank \<Rightarrow> False
    | Children \<Rightarrow> boundary_render onRetry (fst (boundary_after onRetry (es @ [Throw sp e info]))) = Card (card_of onRetry e)
    | Card c \<Rightarrow> ec_buttons c \<noteq> [] \<and> (Try_again \<in> set (ec_buttons c) \<longrightarrow>
        boundary_after onRetry (es @ [Click Try_again]) = (no_error, out @ (if onRetry then [Called_onRetry] else [])))) \<and>
    (\<forall>m. Set_error_status m \<in> set out \<longrightarrow> (\<exists>x. m = sanitizeErrorMessage x))"
  using boundary_after_ok [of onRetry es] status_log [of _ onRetry es] assms card_has_button [of onRetry]
  by (auto simp: boundary_ok_def boundary_render_def renderErrorContent_def boundary_after_def componentDidCatch_def
      getDerivedStateFromError_def boundary_click_def split: option.split)

theorem boundary_never_blank_witness:
  "boundary_render False (fst (boundary_after False [Throw True \<lparr>ca_exn = JsExn ''boom'', ca_status = None\<rparr> [] ]))
     = Card (card_of False \<lparr>ca_exn = JsExn ''boom'', ca_status = None\<rparr>)"
proof -
  have e: "boundary_after False [] = (no_error, [])" by (simp add: boundary_after_def)
  show ?thesis
    using boundary_never_blank [OF e, of True "\<lparr>ca_exn = JsExn ''boom'', ca_status = None\<rparr>" "[]"]
    by (simp add: boundary_render_def no_error_def)
qed

end
