(* ===== verification/Teller_Script.thy ===== *)
theory Teller_Script
  imports Teller_Link Transition_Systems
begin

text \<open>
  The loader of the Teller widget's script, \<^verbatim>\<open>ensureTellerScript\<close> of
  \<^verbatim>\<open>hooks/useTellerConnect.ts\<close>: the module's flag and shared promise, the script element of
  the page with its listeners, and the events of the browser. The script itself is a parameter: when it
  runs it may or may not leave its global behind.
\<close>

section \<open>The loader\<close>

datatype promise_status = Pending | Fulfilled | Rejected jstring

text \<open>
  A script element that carries the attribute: whether its load or error event has fired, its
  \<^verbatim>\<open>dataset.loaded\<close>, and the listeners, each with its promise and whether it belongs to the
  call that appended the element.
\<close>

record script_element =
  se_fired :: bool
  se_loaded :: bool
  se_listeners :: "(bool \<times> nat) list"

record script_loader =
  sl_global :: bool
  sl_loaded :: bool
  sl_promise :: "nat option"
  sl_status :: "promise_status list"
  sl_script :: "script_element option"
  sl_appended :: nat

definition page_with :: "script_element option \<Rightarrow> script_loader" where
  "page_with script = \<lparr>sl_global = False, sl_loaded = False, sl_promise = None, sl_status = [],
     sl_script = script, sl_appended = 0\<rparr>"

definition empty_page :: script_loader where
  "empty_page = page_with None"

text \<open>A promise is settled once.\<close>

definition settle :: "nat \<Rightarrow> promise_status \<Rightarrow> script_loader \<Rightarrow> script_loader" where
  "settle i r s = (if sl_status s ! i = Pending then s\<lparr>sl_status := (sl_status s)[i := r]\<rparr> else s)"

definition resolveOnce :: "nat \<Rightarrow> script_loader \<Rightarrow> script_loader" where
  "resolveOnce i s = (if sl_loaded s then s
     else settle i Fulfilled (s\<lparr>sl_loaded := True, sl_promise := None\<rparr>))"

definition rejectOnce :: "nat \<Rightarrow> jstring \<Rightarrow> script_loader \<Rightarrow> script_loader" where
  "rejectOnce i error s = settle i (Rejected error) (s\<lparr>sl_promise := None\<rparr>)"

definition completeLoad :: "nat \<Rightarrow> script_loader \<Rightarrow> script_loader" where
  "completeLoad i s = (if sl_global s then resolveOnce i s
     else rejectOnce i ''Teller Connect SDK loaded but did not expose a global instance'' s)"

text \<open>What a caller gets: a promise already resolved, one already rejected, or one to wait for.\<close>

datatype script_answer = Ready_now | No_browser | Awaits nat

definition ensureTellerScript :: "bool \<Rightarrow> script_loader \<Rightarrow> script_answer \<times> script_loader" where
  "ensureTellerScript browser s =
     (if \<not> browser then (No_browser, s)
      else if sl_global s then (Ready_now, s\<lparr>sl_loaded := True\<rparr>)
      else if sl_loaded s then (Ready_now, s)
      else case sl_promise s of
        Some i \<Rightarrow> (Awaits i, s)
      | None \<Rightarrow>
          let i = length (sl_status s);
              s1 = s\<lparr>sl_status := sl_status s @ [Pending]\<rparr>;
              s2 = (case sl_script s of
                  Some e \<Rightarrow> if se_loaded e then completeLoad i s1
                    else s1\<lparr>sl_script := Some (e\<lparr>se_listeners := se_listeners e @ [(False, i)]\<rparr>)\<rparr>
                | None \<Rightarrow> s1\<lparr>sl_script := Some \<lparr>se_fired = False, se_loaded = False, se_listeners = [(True, i)]\<rparr>,
                    sl_appended := Suc (sl_appended s)\<rparr>)
          in (Awaits i, s2\<lparr>sl_promise := Some i\<rparr>))"

text \<open>The listeners of the load and of the error event.\<close>

definition mark_loaded :: "script_loader \<Rightarrow> script_loader" where
  "mark_loaded s = s\<lparr>sl_script := map_option (\<lambda>e. e\<lparr>se_loaded := True\<rparr>) (sl_script s)\<rparr>"

definition handleLoad :: "bool \<times> nat \<Rightarrow> script_loader \<Rightarrow> script_loader" where
  "handleLoad l s = completeLoad (snd l) (mark_loaded s)"

definition handleScriptError :: "bool \<times> nat \<Rightarrow> script_loader \<Rightarrow> script_loader" where
  "handleScriptError l s = rejectOnce (snd l) ''Failed to load Teller Connect script''
     (if fst l then s\<lparr>sl_script := None\<rparr> else s)"

text \<open>
  The browser: the script runs and leaves its global, then its load event fires, or its error event
  does; each at most once for an element, listeners in the order they were added.
\<close>

datatype script_event = Call bool | Script_ran | Load_fires | Error_fires

definition unfired :: "script_loader \<Rightarrow> script_element option" where
  "unfired s = (case sl_script s of Some e \<Rightarrow> if se_fired e then None else Some e | None \<Rightarrow> None)"

definition fire :: "script_element \<Rightarrow> script_loader \<Rightarrow> script_loader" where
  "fire e s = s\<lparr>sl_script := Some (e\<lparr>se_fired := True, se_listeners := []\<rparr>)\<rparr>"

fun script_handle :: "script_event \<Rightarrow> script_loader \<Rightarrow> script_loader" where
  "script_handle (Call browser) s = snd (ensureTellerScript browser s)"
| "script_handle Script_ran s = (case unfired s of Some e \<Rightarrow> s\<lparr>sl_global := True\<rparr> | None \<Rightarrow> s)"
| "script_handle Load_fires s = (case unfired s of
     Some e \<Rightarrow> fold handleLoad (se_listeners e) (fire e s) | None \<Rightarrow> s)"
| "script_handle Error_fires s = (case unfired s of
     Some e \<Rightarrow> fold handleScriptError (se_listeners e) (fire e s) | None \<Rightarrow> s)"

definition script_run :: "script_loader \<Rightarrow> script_event list \<Rightarrow> script_loader" where
  "script_run s es = fold script_handle es s"

text \<open>Which outcome \<^verbatim>\<open>initialize\<close> gets once the answer is settled.\<close>

definition script_outcome :: "script_loader \<Rightarrow> script_answer \<Rightarrow> setup_result option" where
  "script_outcome s a = (case a of
     No_browser \<Rightarrow> Some Script_failed
   | Ready_now \<Rightarrow> if sl_global s then Some Setup_done else Some Script_failed
   | Awaits i \<Rightarrow> (case sl_status s ! i of Pending \<Rightarrow> None
       | Rejected _ \<Rightarrow> Some Script_failed
       | Fulfilled \<Rightarrow> if sl_global s then Some Setup_done else Some Script_failed))"

section \<open>What every run keeps\<close>

text \<open>
  On a page that had no script of its own: at most one promise is open; it waits for the one listener
  of the script that is loading, or the script has fired and the flag was set before it did.
\<close>

definition open_only :: "script_loader \<Rightarrow> nat \<Rightarrow> bool" where
  "open_only s i \<longleftrightarrow> i < length (sl_status s) \<and> sl_promise s = Some i \<and>
     (\<forall>j < length (sl_status s). sl_status s ! j = Pending \<longrightarrow> j = i)"

definition script_ok :: "script_loader \<Rightarrow> bool" where
  "script_ok s \<longleftrightarrow> (case sl_script s of
     None \<Rightarrow> sl_promise s = None \<and> Pending \<notin> set (sl_status s)
   | Some e \<Rightarrow>
       if se_fired e then se_loaded e \<and> se_listeners e = [] \<and>
         (Pending \<notin> set (sl_status s) \<or> sl_loaded s \<and> sl_global s) \<and>
         (sl_promise s = None \<and> Pending \<notin> set (sl_status s) \<or> (\<exists>i. open_only s i))
       else \<not> se_loaded e \<and> (\<exists>i. se_listeners e = [(True, i)] \<and> open_only s i \<and> sl_status s ! i = Pending))"

lemma script_okE:
  assumes "script_ok s"
  obtains (absent) "sl_script s = None" "sl_promise s = None" "Pending \<notin> set (sl_status s)"
  | (loading) i where "sl_script s = Some \<lparr>se_fired = False, se_loaded = False, se_listeners = [(True, i)]\<rparr>"
      "open_only s i" "sl_status s ! i = Pending"
  | (fired) "sl_script s = Some \<lparr>se_fired = True, se_loaded = True, se_listeners = []\<rparr>"
      "Pending \<notin> set (sl_status s) \<or> sl_loaded s \<and> sl_global s"
      "sl_promise s = None \<and> Pending \<notin> set (sl_status s) \<or> (\<exists>i. open_only s i)"
proof (cases "sl_script s")
  case None
  then show thesis using assms absent by (simp add: script_ok_def)
next
  case (Some e)
  then show thesis
  proof (cases "se_fired e")
    case True
    then have "e = \<lparr>se_fired = True, se_loaded = True, se_listeners = []\<rparr>"
      using assms Some by (cases e) (simp add: script_ok_def)
    then show thesis using assms Some fired by (simp add: script_ok_def)
  next
    case False
    then obtain i where "se_listeners e = [(True, i)]" "open_only s i" "sl_status s ! i = Pending" "\<not> se_loaded e"
      using assms Some by (auto simp: script_ok_def)
    moreover from this False have "e = \<lparr>se_fired = False, se_loaded = False, se_listeners = [(True, i)]\<rparr>"
      by (cases e) simp
    ultimately show thesis using Some loading by simp
  qed
qed

lemmas loader_defs = completeLoad_def resolveOnce_def rejectOnce_def settle_def
  handleLoad_def handleScriptError_def mark_loaded_def unfired_def fire_def

lemma open_only_update [simp]:
  "open_only (s\<lparr>sl_loaded := b\<rparr>) i = open_only s i" "open_only (s\<lparr>sl_global := b\<rparr>) i = open_only s i"
  "open_only (s\<lparr>sl_script := x\<rparr>) i = open_only s i"
  by (simp_all add: open_only_def)

lemma flags_ok:
  assumes "script_ok s"
  shows "script_ok (s\<lparr>sl_loaded := True\<rparr>)" and "script_ok (s\<lparr>sl_global := True\<rparr>)"
proof -
  show "script_ok (s\<lparr>sl_loaded := True\<rparr>)" using assms by (auto simp: script_ok_def split: option.splits if_splits)
  show "script_ok (s\<lparr>sl_global := True\<rparr>)" using assms by (auto simp: script_ok_def split: option.splits if_splits)
qed

lemma settled_only: "open_only s i \<Longrightarrow> r \<noteq> Pending \<Longrightarrow> Pending \<notin> set ((sl_status s)[i := r])"
  by (auto simp: open_only_def in_set_conv_nth nth_list_update split: if_splits)

lemma pending_in: "open_only s i \<Longrightarrow> sl_status s ! i = Pending \<Longrightarrow> Pending \<in> set (sl_status s)"
  by (metis nth_mem open_only_def)

lemma open_only_new:
  "Pending \<notin> set (sl_status s) \<Longrightarrow> sl_status s' = sl_status s @ [r] \<Longrightarrow> sl_promise s' = Some (length (sl_status s)) \<Longrightarrow>
   open_only s' (length (sl_status s))"
  by (auto simp: open_only_def nth_append) (metis less_antisym nth_mem)

text \<open>The equations of one event in each of the three situations.\<close>

lemma load_loading:
  assumes "sl_script s = Some \<lparr>se_fired = False, se_loaded = False, se_listeners = [(True, i)]\<rparr>"
  shows "script_handle Load_fires s = completeLoad i
    (s\<lparr>sl_script := Some \<lparr>se_fired = True, se_loaded = True, se_listeners = []\<rparr>\<rparr>)"
  using assms by (simp add: unfired_def fire_def handleLoad_def mark_loaded_def)

lemma error_loading:
  assumes "sl_script s = Some \<lparr>se_fired = False, se_loaded = False, se_listeners = [(True, i)]\<rparr>"
  shows "script_handle Error_fires s =
    rejectOnce i ''Failed to load Teller Connect script'' (s\<lparr>sl_script := None\<rparr>)"
  using assms by (simp add: unfired_def fire_def handleScriptError_def)

lemma call_event_ok: "script_ok s \<Longrightarrow> script_ok (script_handle (Call b) s)"
proof (cases "b \<and> \<not> sl_global s \<and> \<not> sl_loaded s \<and> sl_promise s = None")
  case False
  then have "script_handle (Call b) s = s \<or> script_handle (Call b) s = s\<lparr>sl_loaded := True\<rparr>"
    by (auto simp: ensureTellerScript_def split: option.split)
  then show "script_ok s \<Longrightarrow> script_ok (script_handle (Call b) s)" using flags_ok(1) by metis
next
  case True
  assume "script_ok s"
  then show "script_ok (script_handle (Call b) s)"
  proof (cases rule: script_okE)
    case absent
    let ?s = "script_handle (Call b) s" and ?n = "length (sl_status s)"
    have s: "?s = s\<lparr>sl_status := sl_status s @ [Pending], sl_promise := Some ?n, sl_appended := Suc (sl_appended s),
        sl_script := Some \<lparr>se_fired = False, se_loaded = False, se_listeners = [(True, ?n)]\<rparr>\<rparr>"
      using True absent by (simp add: ensureTellerScript_def Let_def)
    have "open_only ?s ?n" by (rule open_only_new [OF absent(3), where r = Pending]) (simp only: s, simp)+
    moreover have "sl_script ?s = Some \<lparr>se_fired = False, se_loaded = False, se_listeners = [(True, ?n)]\<rparr>"
      "sl_status ?s ! ?n = Pending" by (simp only: s, simp)+
    ultimately show ?thesis by (simp add: script_ok_def del: script_handle.simps)
  next
    case (loading i)
    then show ?thesis using True by (simp add: open_only_def)
  next
    case fired
    let ?s = "script_handle (Call b) s" and ?n = "length (sl_status s)"
    let ?r = "Rejected ''Teller Connect SDK loaded but did not expose a global instance''"
    have p: "Pending \<notin> set (sl_status s)" using fired True by (auto simp: open_only_def)
    have s: "?s = s\<lparr>sl_status := sl_status s @ [?r], sl_promise := Some ?n\<rparr>"
      using True fired by (simp add: ensureTellerScript_def Let_def loader_defs)
    have "open_only ?s ?n" by (rule open_only_new [OF p, where r = ?r]) (simp only: s, simp)+
    then have "\<exists>i. open_only ?s i" ..
    moreover have "sl_script ?s = sl_script s" "Pending \<notin> set (sl_status ?s)" using p by (simp only: s, simp)+
    ultimately show ?thesis using fired(1) by (simp add: script_ok_def del: script_handle.simps)
  qed
qed

lemma completed:
  assumes "open_only s i" and "sl_status s ! i = Pending" and "\<not> (sl_loaded s \<and> sl_global s)"
  shows "Pending \<notin> set (sl_status (completeLoad i s))" and "sl_promise (completeLoad i s) = None"
    and "sl_script (completeLoad i s) = sl_script s"
  using assms settled_only [OF assms(1)] by (auto simp: completeLoad_def resolveOnce_def rejectOnce_def settle_def)

lemma load_event_ok:
  assumes "script_ok s"
  shows "script_ok (script_handle Load_fires s)"
  using assms
proof (cases rule: script_okE)
  case (loading i)
  let ?t = "s\<lparr>sl_script := Some \<lparr>se_fired = True, se_loaded = True, se_listeners = []\<rparr>\<rparr>"
  have t: "open_only ?t i" "sl_status ?t ! i = Pending" using loading by simp_all
  show ?thesis unfolding load_loading [OF loading(1)]
  proof (cases "sl_loaded s \<and> sl_global s")
    case True
    then have "completeLoad i ?t = ?t" by (simp add: completeLoad_def resolveOnce_def)
    then show "script_ok (completeLoad i ?t)" using t(1) True by (auto simp: script_ok_def)
  next
    case False
    then show "script_ok (completeLoad i ?t)" using completed [OF t] by (simp add: script_ok_def)
  qed
qed (use assms in \<open>simp_all add: unfired_def\<close>)

lemma error_event_ok:
  assumes "script_ok s"
  shows "script_ok (script_handle Error_fires s)"
  using assms
proof (cases rule: script_okE)
  case (loading i)
  show ?thesis unfolding error_loading [OF loading(1)]
    using settled_only [OF loading(2)] loading(3) by (simp add: rejectOnce_def settle_def script_ok_def)
qed (use assms in \<open>simp_all add: unfired_def\<close>)

interpretation script_machine: event_machine script_handle "\<lambda>s e. True" "\<lambda>s. s = empty_page" script_ok
proof
  fix s e
  assume ok: "script_ok s"
  show "script_ok (script_handle e s)"
  proof (cases e)
    case Script_ran
    then show ?thesis using ok flags_ok(2) by (simp split: option.split)
  qed (use call_event_ok load_event_ok error_event_ok ok in blast)+
qed (simp add: script_ok_def empty_page_def page_with_def)

lemma loader_run_ok: "script_ok (script_run empty_page es)"
  unfolding script_run_def by (rule script_machine.invar_fold) auto

lemma run_append: "script_run s (es @ fs) = script_run (script_run s es) fs"
  by (simp add: script_run_def)

lemma run_single: "script_run s (es @ [e]) = script_handle e (script_run s es)"
  by (simp add: script_run_def)

lemma run_fixed: "(\<And>e. script_handle e s = s) \<Longrightarrow> script_run s es = s"
  by (induction es) (simp_all add: script_run_def)

lemma loaded_global: "sl_loaded (script_run empty_page es) \<Longrightarrow> sl_global (script_run empty_page es)"
proof (induction es rule: rev_induct)
  case (snoc e es)
  let ?s = "script_run empty_page es"
  have "sl_loaded (script_handle e ?s) \<longrightarrow> sl_loaded ?s \<or> sl_global ?s" "sl_global ?s \<longrightarrow> sl_global (script_handle e ?s)"
    using loader_run_ok [of es]
    by (cases rule: script_okE; cases e; auto simp: ensureTellerScript_def loader_defs Let_def split: option.splits if_splits)+
  then show ?case using snoc by (auto simp: run_single)
qed (simp add: script_run_def empty_page_def page_with_def)

section \<open>Properties\<close>

text \<open>
  C25. However calls and events of the browser follow each other on a page without a script of its own: when
  the load or the error event has fired every caller has its answer, if the loaded flag was not yet set
  before it.
\<close>

theorem script_event_answers_all:
  assumes "\<not> sl_loaded (script_run empty_page es)" and "e = Load_fires \<or> e = Error_fires"
  shows "\<forall>i < length (sl_status (script_run empty_page (es @ [e]))).
    script_outcome (script_run empty_page (es @ [e])) (Awaits i) \<noteq> None"
proof -
  let ?s = "script_run empty_page es"
  have "Pending \<notin> set (sl_status (script_handle e ?s))"
    using loader_run_ok [of es]
  proof (cases rule: script_okE)
    case absent
    then show ?thesis using assms(2) by (auto simp: unfired_def)
  next
    case (loading i)
    let ?t = "?s\<lparr>sl_script := Some \<lparr>se_fired = True, se_loaded = True, se_listeners = []\<rparr>\<rparr>"
    have "Pending \<notin> set (sl_status (script_handle Load_fires ?s))"
      unfolding load_loading [OF loading(1)] using loading(2,3) assms(1) by (intro completed(1)) simp_all
    moreover have "Pending \<notin> set (sl_status (script_handle Error_fires ?s))"
      unfolding error_loading [OF loading(1)]
      using settled_only [OF loading(2)] loading(3) by (simp add: rejectOnce_def settle_def)
    ultimately show ?thesis using assms(2) by blast
  next
    case fired
    then show ?thesis using assms by (auto simp: unfired_def)
  qed
  then show ?thesis
    unfolding run_single script_outcome_def
    by (auto split: promise_status.split) (metis nth_mem)
qed

theorem script_event_answers_all_witness:
  "script_outcome (script_run empty_page ([Call True, Call True, Script_ran] @ [Load_fires])) (Awaits 0) = Some Setup_done"
proof -
  have "\<not> sl_loaded (script_run empty_page [Call True, Call True, Script_ran])"
    "0 < length (sl_status (script_run empty_page ([Call True, Call True, Script_ran] @ [Load_fires])))"
    "script_outcome (script_run empty_page ([Call True, Call True, Script_ran] @ [Load_fires])) (Awaits 0) \<noteq> Some Script_failed"
    "script_outcome (script_run empty_page ([Call True, Call True, Script_ran] @ [Load_fires])) (Awaits 0) \<noteq> Some Setup_failed"
    by code_simp+
  then show ?thesis using script_event_answers_all [of "[Call True, Call True, Script_ran]" Load_fires]
    by (metis option.exhaust setup_result.exhaust)
qed

text \<open>
  The script is not loaded twice: one more element is appended than there were error events at most, and
  while one loads every call gets the one open promise and changes nothing.
\<close>

theorem script_loaded_once:
  "sl_appended (script_run empty_page es) \<le> Suc (count_list es Error_fires) \<and>
   (Pending \<in> set (sl_status (script_run empty_page es)) \<longrightarrow> \<not> sl_global (script_run empty_page es) \<longrightarrow>
     (\<exists>i. sl_status (script_run empty_page es) ! i = Pending \<and>
        ensureTellerScript True (script_run empty_page es) = (Awaits i, script_run empty_page es)))"
proof -
  have "sl_appended (script_run empty_page es) \<le> count_list es Error_fires +
      (if sl_script (script_run empty_page es) = None then 0 else 1)"
  proof (induction es rule: rev_induct)
    case (snoc e es)
    let ?s = "script_run empty_page es"
    have "sl_appended (script_handle e ?s) + (if sl_script ?s = None then 0 else 1) \<le>
      sl_appended ?s + (if sl_script (script_handle e ?s) = None then 0 else 1) + count_list [e] Error_fires"
      using loader_run_ok [of es]
      by (cases rule: script_okE; cases e)
        (auto simp: ensureTellerScript_def loader_defs Let_def split: option.split)
    then show ?case using snoc by (auto simp: run_single split: if_splits)
  qed (simp add: script_run_def empty_page_def page_with_def)
  moreover have "\<exists>i. sl_status s ! i = Pending \<and> ensureTellerScript True s = (Awaits i, s)"
    if "script_ok s" "Pending \<in> set (sl_status s)" "\<not> sl_global s" "\<not> sl_loaded s" for s
    using that(1)
  proof (cases rule: script_okE)
    case (loading i)
    then show ?thesis using that by (auto simp: ensureTellerScript_def open_only_def)
  qed (use that in auto)
  ultimately show ?thesis using loader_run_ok [of es] loaded_global [of es] by (force split: if_splits)
qed

theorem script_loaded_once_witness:
  "\<exists>i. ensureTellerScript True (script_run empty_page [Call True, Call True]) =
     (Awaits i, script_run empty_page [Call True, Call True])"
proof -
  have "Pending \<in> set (sl_status (script_run empty_page [Call True, Call True]))"
    "\<not> sl_global (script_run empty_page [Call True, Call True])" by code_simp+
  then show ?thesis using script_loaded_once [of "[Call True, Call True]"] by blast
qed

text \<open>
  C27. A call between the moment the script has run and its load event answers itself and sets the flag; the
  load event then finds the flag set, and the caller that waits for it is never answered, whatever follows.
\<close>

theorem early_check_strands_caller:
  "fst (ensureTellerScript True (script_run empty_page [])) = Awaits 0 \<and>
   fst (ensureTellerScript True (script_run empty_page [Call True, Script_ran])) = Ready_now \<and>
   script_outcome (script_run empty_page ([Call True, Script_ran, Call True, Load_fires] @ es)) (Awaits 0) = None"
proof -
  let ?s = "\<lparr>sl_global = True, sl_loaded = True, sl_promise = Some 0, sl_status = [Pending],
    sl_script = Some \<lparr>se_fired = True, se_loaded = True, se_listeners = []\<rparr>, sl_appended = 1\<rparr>"
  have "script_run empty_page [Call True, Script_ran, Call True, Load_fires] = ?s"
    "fst (ensureTellerScript True (script_run empty_page [])) = Awaits 0"
    "fst (ensureTellerScript True (script_run empty_page [Call True, Script_ran])) = Ready_now" by code_simp+
  moreover have "script_run ?s es = ?s"
  proof (rule run_fixed)
    show "script_handle e ?s = ?s" for e by (cases e) (simp_all add: ensureTellerScript_def unfired_def)
  qed
  ultimately show ?thesis by (simp add: run_append script_outcome_def del: append.simps)
qed

text \<open>
  A script that loads without leaving its global is never loaded again: from the second call on every
  call gets the same rejected promise, and no other element is appended.
\<close>

theorem missing_global_final:
  "fst (ensureTellerScript True (script_run empty_page ([Call True, Load_fires, Call True] @ es))) = Awaits 1 \<and>
   script_outcome (script_run empty_page ([Call True, Load_fires, Call True] @ es)) (Awaits 1) = Some Script_failed \<and>
   sl_appended (script_run empty_page ([Call True, Load_fires, Call True] @ es)) = 1"
proof -
  let ?r = "Rejected ''Teller Connect SDK loaded but did not expose a global instance''"
  let ?s = "\<lparr>sl_global = False, sl_loaded = False, sl_promise = Some 1, sl_status = [?r, ?r],
    sl_script = Some \<lparr>se_fired = True, se_loaded = True, se_listeners = []\<rparr>, sl_appended = 1\<rparr>"
  have "script_run empty_page [Call True, Load_fires, Call True] = ?s" by code_simp
  moreover have "script_run ?s es = ?s"
  proof (rule run_fixed)
    show "script_handle e ?s = ?s" for e by (cases e) (simp_all add: ensureTellerScript_def unfired_def)
  qed
  ultimately show ?thesis by (simp add: run_append script_outcome_def ensureTellerScript_def del: append.simps)
qed

text \<open>
  After an error event the loader starts afresh: the failed element is gone, and the next call appends
  another and waits for it.
\<close>

theorem failed_script_retried:
  assumes "unfired (script_run empty_page es) \<noteq> None" and "\<not> sl_global (script_run empty_page es)"
    and "\<not> sl_loaded (script_run empty_page es)"
  shows "sl_appended (script_run empty_page (es @ [Error_fires, Call True])) = Suc (sl_appended (script_run empty_page es)) \<and>
    script_outcome (script_run empty_page (es @ [Error_fires, Call True]))
      (fst (ensureTellerScript True (script_run empty_page (es @ [Error_fires])))) = None \<and>
    unfired (script_run empty_page (es @ [Error_fires, Call True])) \<noteq> None"
proof -
  let ?s = "script_run empty_page es"
  obtain i where l: "sl_script ?s = Some \<lparr>se_fired = False, se_loaded = False, se_listeners = [(True, i)]\<rparr>"
    using loader_run_ok [of es] assms(1) by (cases rule: script_okE) (auto simp: unfired_def)
  let ?t = "rejectOnce i ''Failed to load Teller Connect script'' (?s\<lparr>sl_script := None\<rparr>)"
  have e: "script_run empty_page (es @ [Error_fires]) = ?t" unfolding run_single by (rule error_loading [OF l])
  then have c: "script_run empty_page (es @ [Error_fires, Call True]) = snd (ensureTellerScript True ?t)"
    using run_single [of empty_page "es @ [Error_fires]" "Call True"] by simp
  have t: "sl_script ?t = None" "sl_promise ?t = None" "sl_global ?t = sl_global ?s" "sl_loaded ?t = sl_loaded ?s"
    "sl_appended ?t = sl_appended ?s"
    by (simp_all add: rejectOnce_def settle_def)
  show ?thesis unfolding c e using t assms(2,3)
    by (simp add: ensureTellerScript_def Let_def script_outcome_def unfired_def)
qed

theorem failed_script_retried_witness:
  "sl_appended (script_run empty_page ([Call True] @ [Error_fires, Call True])) = 2"
proof -
  have "unfired (script_run empty_page [Call True]) \<noteq> None" "\<not> sl_global (script_run empty_page [Call True])"
    "\<not> sl_loaded (script_run empty_page [Call True])" "sl_appended (script_run empty_page [Call True]) = 1" by code_simp+
  then show ?thesis using failed_script_retried [of "[Call True]"] by simp
qed

text \<open>A call on a page whose own script tag has failed waits for events that have already fired.\<close>

theorem failed_tag_waits_forever:
  "script_outcome (script_run (page_with (Some \<lparr>se_fired = True, se_loaded = False, se_listeners = []\<rparr>)) (Call True # es))
     (Awaits 0) = None"
proof -
  let ?p = "page_with (Some \<lparr>se_fired = True, se_loaded = False, se_listeners = []\<rparr>)"
  let ?s = "\<lparr>sl_global = False, sl_loaded = False, sl_promise = Some 0, sl_status = [Pending],
    sl_script = Some \<lparr>se_fired = True, se_loaded = False, se_listeners = [(False, 0)]\<rparr>, sl_appended = 0\<rparr>"
  have "script_run ?p [Call True] = ?s" by code_simp
  moreover have "script_run ?s es = ?s"
  proof (rule run_fixed)
    show "script_handle e ?s = ?s" for e by (cases e) (simp_all add: ensureTellerScript_def unfired_def)
  qed
  ultimately have "script_run ?p ([Call True] @ es) = ?s" by (simp only: run_append)
  then show ?thesis by (simp add: script_outcome_def)
qed

end
