(* ===== verification/Bank_Cards.thy ===== *)
theory Bank_Cards
  imports Accounts_Page "HOL-Library.Product_Lexorder"
begin

text \<open>
  The cards of the connected banks: the time of the last synchronisation, the order and the groups of
  the accounts, the buttons of a card (\<^verbatim>\<open>components/BankCard.tsx\<close>,
  \<^verbatim>\<open>StatusPill.tsx\<close>), the row of an account (\<^verbatim>\<open>AccountRow.tsx\<close>), and the
  dialog that asks before a bank is disconnected
  (\<^verbatim>\<open>features/plaid/components/ConnectionsList.tsx\<close>, \<^verbatim>\<open>components/DisconnectModal.tsx\<close>).
  The parser of dates and the formats of numbers are parameters.
\<close>

section \<open>The time of the last synchronisation\<close>

definition relativeTime :: "(jstring \<Rightarrow> int option) \<Rightarrow> int \<Rightarrow> jstring option \<Rightarrow> jstring" where
  "relativeTime parse now stamp = (if \<not> truthy stamp then ''Never''
     else case parse (the stamp) of
       None \<Rightarrow> ''NaNd ago''
     | Some d \<Rightarrow>
         let mins = js_round (of_int (now - d) / 60000) in
         if mins < 1 then ''just now''
         else if mins < 60 then int_str mins @ ''m ago''
         else let hrs = js_round (of_int mins / 60) in
           if hrs < 24 then int_str hrs @ ''h ago''
           else int_str (js_round (of_int hrs / 24)) @ ''d ago'')"

definition lastSyncLabel :: "(jstring \<Rightarrow> int option) \<Rightarrow> int \<Rightarrow> jstring option \<Rightarrow> jstring" where
  "lastSyncLabel parse now stamp = (let label = relativeTime parse now stamp in
     ''Last sync '' @ (if str_includes label ''ago'' then label else label @ '' ago''))"

definition statusLabel :: "ConnectionHealth \<Rightarrow> jstring" where
  "statusLabel status = (case status of Connected \<Rightarrow> ''Connected''
     | Needs_reauth \<Rightarrow> ''Re-auth needed'' | Error_state \<Rightarrow> ''Error'')"

text \<open>The page gives a bank one of two of them.\<close>

definition bank_status :: "bank \<Rightarrow> ConnectionHealth" where
  "bank_status b = (if bk_connected b then Connected else Error_state)"

section \<open>The accounts of a card\<close>

definition typeOrder :: "AccountKind \<Rightarrow> nat" where
  "typeOrder k = (case k of Checking \<Rightarrow> 1 | Savings \<Rightarrow> 1 | Credit \<Rightarrow> 2 | Loan \<Rightarrow> 3
     | Investment \<Rightarrow> 4 | Other_account \<Rightarrow> 5)"

text \<open>The order: by kind, then by falling balance; \<^verbatim>\<open>sort\<close> is stable.\<close>

definition account_key :: "conn_account \<Rightarrow> nat \<times> rat" where
  "account_key a = (typeOrder (ca_type a), - default_to (ca_balance a) 0)"

definition sortedAccounts :: "conn_account list \<Rightarrow> conn_account list" where
  "sortedAccounts accounts = sort_key account_key accounts"

definition cashAccounts :: "conn_account list \<Rightarrow> conn_account list" where
  "cashAccounts accounts = filter (\<lambda>a. ca_type a = Checking \<or> ca_type a = Savings) (sortedAccounts accounts)"

definition debtAccounts :: "conn_account list \<Rightarrow> conn_account list" where
  "debtAccounts accounts = filter (\<lambda>a. ca_type a = Credit \<or> ca_type a = Loan) (sortedAccounts accounts)"

definition investmentAccounts :: "conn_account list \<Rightarrow> conn_account list" where
  "investmentAccounts accounts = filter (\<lambda>a. ca_type a = Investment \<or> ca_type a = Other_account) (sortedAccounts accounts)"

definition card_groups :: "conn_account list \<Rightarrow> (jstring \<times> conn_account list) list" where
  "card_groups accounts = filter (\<lambda>g. 0 < length (snd g))
     [(''Cash'', cashAccounts accounts), (''Debt'', debtAccounts accounts),
      (''Investments'', investmentAccounts accounts)]"

section \<open>The row of an account\<close>

definition formatTransactionCount :: "(rat \<Rightarrow> jstring) \<Rightarrow> rat option \<Rightarrow> jstring" where
  "formatTransactionCount show_num n = (let value = default_to n 0 in
     show_num value @ '' '' @ (if value = 1 then ''transaction'' else ''transactions''))"

definition balanceText :: "(rat \<Rightarrow> jstring) \<Rightarrow> conn_account \<Rightarrow> jstring" where
  "balanceText format a = (case ca_balance a of Some b \<Rightarrow> format b | None \<Rightarrow> ''Balance unavailable'')"

definition isDebtAccount :: "conn_account \<Rightarrow> bool" where
  "isDebtAccount a \<longleftrightarrow> ca_type a = Credit \<or> ca_type a = Loan"

definition isOtherAccount :: "conn_account \<Rightarrow> bool" where
  "isOtherAccount a \<longleftrightarrow> ca_type a = Other_account \<or> ca_type a = Investment"

text \<open>The colours \<^verbatim>\<open>cn\<close> joins; it only concatenates, so several may be given at once.\<close>

datatype balance_tone = Unknown_grey | Emerald_text | Grey_text | Rose_text | Red_text | Zero_grey

definition balanceColor :: "conn_account \<Rightarrow> balance_tone list" where
  "balanceColor a = (case ca_balance a of None \<Rightarrow> [Unknown_grey]
     | Some b \<Rightarrow>
         (if \<not> isDebtAccount a \<and> 0 < b \<and> \<not> isOtherAccount a then [Emerald_text] else []) @
         (if \<not> isDebtAccount a \<and> 0 < b \<and> isOtherAccount a then [Grey_text] else []) @
         (if b < 0 then [Rose_text] else []) @
         (if isDebtAccount a then [Red_text] else []) @
         (if b = 0 then [Zero_grey] else []))"

section \<open>The buttons of a card\<close>

record bank_card =
  bc_expanded :: bool
  bc_loading :: bool

definition new_card :: bank_card where
  "new_card = \<lparr>bc_expanded = True, bc_loading = False\<rparr>"

text \<open>Sync and Reconnect are disabled while one of them runs; \<open>onReconnect\<close> is optional.\<close>

datatype card_event = Card_sync | Card_reconnect | Card_settled "exn option" | Card_toggle

datatype card_call = Sync_call jstring | Reconnect_call jstring

fun card_handle :: "jstring \<Rightarrow> bool \<Rightarrow> card_event \<Rightarrow> bank_card \<times> card_call list \<Rightarrow> bank_card \<times> card_call list" where
  "card_handle i hasReconnect Card_sync (c, calls) =
     (if bc_loading c then (c, calls) else (c\<lparr>bc_loading := True\<rparr>, calls @ [Sync_call i]))"
| "card_handle i hasReconnect Card_reconnect (c, calls) =
     (if \<not> hasReconnect \<or> bc_loading c then (c, calls) else (c\<lparr>bc_loading := True\<rparr>, calls @ [Reconnect_call i]))"
| "card_handle i hasReconnect (Card_settled failure) (c, calls) = (c\<lparr>bc_loading := False\<rparr>, calls)"
| "card_handle i hasReconnect Card_toggle (c, calls) = (c\<lparr>bc_expanded := \<not> bc_expanded c\<rparr>, calls)"

section \<open>Disconnecting\<close>

text \<open>\<open>dd_running\<close> is the bank whose \<^verbatim>\<open>onDisconnect\<close> has not answered yet.\<close>

record disconnect_dialog =
  dd_bank :: "bank option"
  dd_loading :: bool
  dd_error :: "jstring option"
  dd_running :: "bank option"

definition no_dialog :: disconnect_dialog where
  "no_dialog = \<lparr>dd_bank = None, dd_loading = False, dd_error = None, dd_running = None\<rparr>"

definition openDisconnect :: "bank \<Rightarrow> disconnect_dialog \<Rightarrow> disconnect_dialog" where
  "openDisconnect nextBank d = d\<lparr>dd_error := None, dd_bank := Some nextBank\<rparr>"

definition closeDisconnectModal :: "disconnect_dialog \<Rightarrow> disconnect_dialog" where
  "closeDisconnectModal d = (if dd_loading d then d else d\<lparr>dd_error := None, dd_bank := None\<rparr>)"

definition begin_disconnect :: "disconnect_dialog \<Rightarrow> disconnect_dialog" where
  "begin_disconnect d = (case dd_bank d of None \<Rightarrow> d
     | Some b \<Rightarrow> d\<lparr>dd_loading := True, dd_error := None, dd_running := Some b\<rparr>)"

definition end_disconnect :: "exn option \<Rightarrow> disconnect_dialog \<Rightarrow> disconnect_dialog" where
  "end_disconnect failure d = (case failure of
     None \<Rightarrow> d\<lparr>dd_bank := None\<rparr>
   | Some x \<Rightarrow> d\<lparr>dd_error := Some (exn_message x)\<rparr>)\<lparr>dd_loading := False, dd_running := None\<rparr>"

text \<open>Both buttons of the dialog are disabled while the request runs, and the backdrop does not close it.\<close>

datatype dialog_event = Click_disconnect bank | Click_cancel | Click_confirm | Disconnect_answered "exn option"

definition dialog_step :: "dialog_event \<Rightarrow> disconnect_dialog \<Rightarrow> disconnect_dialog" where
  "dialog_step e d = (case e of
     Click_disconnect b \<Rightarrow> openDisconnect b d
   | Click_cancel \<Rightarrow> if dd_bank d = None \<or> dd_loading d then d else closeDisconnectModal d
   | Click_confirm \<Rightarrow> if dd_bank d = None \<or> dd_loading d then d else begin_disconnect d
   | Disconnect_answered failure \<Rightarrow> if dd_running d = None then d else end_disconnect failure d)"

text \<open>The calls of \<^verbatim>\<open>onDisconnect\<close> a run makes.\<close>

fun dialog_handle :: "dialog_event \<Rightarrow> disconnect_dialog \<times> bank list \<Rightarrow> disconnect_dialog \<times> bank list" where
  "dialog_handle e (d, calls) = (let d' = dialog_step e d in
     (d', calls @ (if dd_running d = None then case dd_running d' of Some b \<Rightarrow> [b] | None \<Rightarrow> [] else [])))"

definition removal_text :: "bank \<Rightarrow> jstring" where
  "removal_text b = (let accountCount = length (bk_accounts b);
       accountText = (if accountCount = 1 then ''1 account'' else int_str (int accountCount) @ '' accounts'')
     in ''This will remove '' @ accountText @
        '' and related transactions from your dashboard. This action cannot be undone.'')"

section \<open>Properties\<close>

lemma groups_mset:
  "mset (cashAccounts xs) + mset (debtAccounts xs) + mset (investmentAccounts xs) = mset xs"
proof -
  have "mset (filter (\<lambda>a. ca_type a = Checking \<or> ca_type a = Savings) ys) +
      mset (filter (\<lambda>a. ca_type a = Credit \<or> ca_type a = Loan) ys) +
      mset (filter (\<lambda>a. ca_type a = Investment \<or> ca_type a = Other_account) ys) = mset ys" for ys
  proof (induction ys)
    case (Cons a ys)
    then show ?case by (cases "ca_type a") simp_all
  qed simp
  from this [of "sortedAccounts xs"] show ?thesis
    by (simp add: cashAccounts_def debtAccounts_def investmentAccounts_def sortedAccounts_def)
qed

lemma group_sorted: "sorted (map account_key (filter P (sortedAccounts xs)))"
  unfolding sortedAccounts_def by (simp add: sorted_filter)

text \<open>
  The accounts of a card fall into its groups without loss or repetition, the groups come in the fixed
  order, none of them is empty, and in a group the accounts are in the order of kind and falling balance.
\<close>

theorem accounts_grouped:
  "mset (concat (map snd (card_groups xs))) = mset xs \<and>
   subseq (map fst (card_groups xs)) [''Cash'', ''Debt'', ''Investments''] \<and>
   list_all (\<lambda>g. snd g \<noteq> [] \<and> sorted (map account_key (snd g))) (card_groups xs)"
proof -
  have "mset (concat (map snd (card_groups xs))) = mset xs"
    using groups_mset [of xs] by (auto simp: card_groups_def add_ac)
  moreover have "list_all (\<lambda>g. snd g \<noteq> [] \<and> sorted (map account_key (snd g))) (card_groups xs)"
    using group_sorted by (auto simp: card_groups_def cashAccounts_def debtAccounts_def investmentAccounts_def)
  ultimately show ?thesis by (simp add: card_groups_def)
qed

text \<open>
  The three roundings of the time stay close: a card that counts days is off by less than half a day,
  half an hour and half a minute together, and never shows a day that has not begun to count.
\<close>

theorem days_shown_close:
  assumes "parse stamp = Some d" and "stamp \<noteq> []" and "1410 * 60000 \<le> now - d"
  shows "\<exists>k \<ge> 1. relativeTime parse now (Some stamp) = int_str k @ ''d ago'' \<and>
    \<bar>of_int (now - d) - of_int k * 86400000\<bar> \<le> (12 * 60 + 30 + 1 / 2) * (60000 :: rat)"
proof -
  define diff :: rat where "diff = of_int (now - d)"
  define mins where "mins = js_round (diff / 60000)"
  define hrs where "hrs = js_round (of_int mins / 60 :: rat)"
  define days where "days = js_round (of_int hrs / 24 :: rat)"
  have b1: "of_int mins \<le> diff / 60000 + 1 / 2" "diff / 60000 - 1 / 2 < of_int mins"
    unfolding mins_def by (rule js_round_bounds)+
  have b2: "of_int hrs \<le> of_int mins / 60 + (1 / 2 :: rat)" "of_int mins / 60 - (1 / 2 :: rat) < of_int hrs"
    unfolding hrs_def by (rule js_round_bounds)+
  have b3: "of_int days \<le> of_int hrs / 24 + (1 / 2 :: rat)" "of_int hrs / 24 - (1 / 2 :: rat) < of_int days"
    unfolding days_def by (rule js_round_bounds)+
  have "(of_int (1410 * 60000) :: rat) \<le> of_int (now - d)" using assms(3) by (rule of_int_le_iff [THEN iffD2])
  then have "1410 \<le> diff / 60000" unfolding diff_def by simp
  then have m: "1410 \<le> mins"
    using js_round_mono [of 1410 "diff / 60000"] js_round_of_int [of 1410] unfolding mins_def by simp
  have h: "24 \<le> hrs"
  proof -
    have "(1410 :: rat) / 60 \<le> of_int mins / 60" using m by simp
    then have "js_round (1410 / 60 :: rat) \<le> hrs" unfolding hrs_def by (rule js_round_mono)
    moreover have "js_round (1410 / 60 :: rat) = 24" by (simp add: js_round_def floor_eq_iff)
    ultimately show ?thesis by simp
  qed
  have "1 \<le> days"
    using js_round_mono [of 1 "of_int hrs / 24 :: rat"] js_round_of_int [of 1] h unfolding days_def by simp
  moreover have "relativeTime parse now (Some stamp) = int_str days @ ''d ago''"
    using m h assms(1,2) unfolding days_def hrs_def mins_def diff_def
    by (simp add: relativeTime_def Let_def truthy_def)
  moreover have "\<bar>diff - of_int days * 86400000\<bar> \<le> (12 * 60 + 30 + 1 / 2) * 60000"
    using b1 b2 b3 by (simp add: abs_le_iff field_simps)
  ultimately show ?thesis unfolding diff_def by blast
qed

theorem days_shown_close_witness:
  "\<exists>k \<ge> 1. relativeTime (\<lambda>_. Some 0) 172800000 (Some ''x'') = int_str k @ ''d ago''"
  using days_shown_close [of "\<lambda>_. Some 0" "''x''" 0 172800000] by auto

text \<open>
  A bank that was never synchronised is said to have been so \<^verbatim>\<open>Never ago\<close>, and one just
  now \<^verbatim>\<open>just now ago\<close>: neither text contains the word the label looks for.
\<close>

theorem never_ago:
  "lastSyncLabel parse now None = ''Last sync Never ago'' \<and>
   (stamp \<noteq> [] \<longrightarrow> parse stamp = Some now \<longrightarrow> lastSyncLabel parse now (Some stamp) = ''Last sync just now ago'')"
proof -
  have "\<not> str_includes ''Never'' ''ago''" "\<not> str_includes ''just now'' ''ago''" by code_simp+
  moreover have "js_round (0 :: rat) = 0" using js_round_of_int [of 0] by simp
  ultimately show ?thesis by (simp add: lastSyncLabel_def relativeTime_def Let_def truthy_def)
qed

theorem never_ago_witness: "lastSyncLabel (\<lambda>_. Some 5) 5 (Some ''t'') = ''Last sync just now ago''"
  using never_ago [of "\<lambda>_. Some 5" 5 "''t''"] by simp

text \<open>The balance of a debt that is negative or zero is given two colours; any other has one at most.\<close>

theorem balance_colours:
  "length (balanceColor a) = (case ca_balance a of None \<Rightarrow> 1
     | Some b \<Rightarrow> if isDebtAccount a then (if b \<le> 0 then 2 else 1) else 1)"
  by (auto simp: balanceColor_def split: option.split)

definition answers :: "card_event list \<Rightarrow> nat" where
  "answers es = length (filter (\<lambda>e. case e of Card_settled _ \<Rightarrow> True | _ \<Rightarrow> False) es)"

text \<open>
  A card never has two requests running: whatever is clicked, a request starts only when the one before
  has been answered, and Reconnect only where it is offered.
\<close>

theorem card_one_request:
  assumes "fold (card_handle i hasReconnect) es (new_card, []) = (c, calls)"
  shows "length calls \<le> answers es + (if bc_loading c then 1 else 0) \<and>
    set calls \<subseteq> {Sync_call i} \<union> (if hasReconnect then {Reconnect_call i} else {})"
  using assms
proof (induction es arbitrary: c calls rule: rev_induct)
  case (snoc e es)
  obtain c0 calls0 where f: "fold (card_handle i hasReconnect) es (new_card, []) = (c0, calls0)" by fastforce
  show ?case using snoc.prems snoc.IH [OF f] f by (cases e) (auto simp: answers_def split: if_splits)
qed (simp add: new_card_def answers_def)

theorem card_one_request_witness:
  "length (snd (fold (card_handle ''b'' True) [Card_sync, Card_reconnect, Card_sync] (new_card, []))) \<le> 1"
proof -
  have e: "fold (card_handle ''b'' True) [Card_sync, Card_reconnect, Card_sync] (new_card, []) =
      (\<lparr>bc_expanded = True, bc_loading = True\<rparr>, [Sync_call ''b''])" by code_simp
  show ?thesis using card_one_request [OF e] unfolding e by (simp add: answers_def)
qed

definition dialog_ok :: "disconnect_dialog \<times> bank list \<Rightarrow> bool" where
  "dialog_ok r \<longleftrightarrow> (dd_loading (fst r) \<longleftrightarrow> dd_running (fst r) \<noteq> None) \<and>
     (dd_running (fst r) \<noteq> None \<longrightarrow> dd_bank (fst r) \<noteq> None) \<and>
     (\<forall>b. dd_running (fst r) = Some b \<longrightarrow> snd r \<noteq> [] \<and> last (snd r) = b)"

interpretation dialog: event_machine dialog_handle "\<lambda>s e. True" "\<lambda>s. s = (no_dialog, [])" dialog_ok
proof
  fix s e
  assume "dialog_ok s"
  then show "dialog_ok (dialog_handle e s)"
    by (cases s; cases e)
      (auto simp: dialog_ok_def dialog_step_def openDisconnect_def closeDisconnectModal_def begin_disconnect_def
        end_disconnect_def Let_def split: option.splits)
qed (simp add: dialog_ok_def no_dialog_def)

definition dialog_after :: "dialog_event list \<Rightarrow> disconnect_dialog \<times> bank list" where
  "dialog_after es = fold dialog_handle es (no_dialog, [])"

lemma dialog_after_snoc: "dialog_after (es @ [e]) = dialog_handle e (dialog_after es)"
  by (simp add: dialog_after_def)

lemma dialog_shown: "dd_bank (fst (dialog_after es)) = Some b \<Longrightarrow> Click_disconnect b \<in> set es"
proof (induction es rule: rev_induct)
  case (snoc e es)
  then show ?case unfolding dialog_after_snoc
    by (cases e; cases "dialog_after es")
      (auto simp: dialog_step_def openDisconnect_def closeDisconnectModal_def begin_disconnect_def
        end_disconnect_def Let_def split: option.splits if_splits)
qed (simp add: dialog_after_def no_dialog_def)

lemma dialog_call:
  "snd (dialog_handle e (d, calls)) = calls \<or>
   e = Click_confirm \<and> (\<exists>b. dd_bank d = Some b \<and> snd (dialog_handle e (d, calls)) = calls @ [b])"
  by (cases e) (auto simp: dialog_step_def openDisconnect_def closeDisconnectModal_def begin_disconnect_def
      end_disconnect_def Let_def split: option.split)

lemma dialog_calls:
  "set (snd (dialog_after es)) \<subseteq> {b. Click_disconnect b \<in> set es} \<and>
   length (snd (dialog_after es)) \<le> count_list es Click_confirm"
proof (induction es rule: rev_induct)
  case (snoc e es)
  obtain d calls where r: "dialog_after es = (d, calls)" by fastforce
  have "snd (dialog_after (es @ [e])) = calls \<or>
      e = Click_confirm \<and> (\<exists>b. Click_disconnect b \<in> set es \<and> snd (dialog_after (es @ [e])) = calls @ [b])"
    using dialog_call [of e d calls] dialog_shown [of es] unfolding dialog_after_snoc r by auto
  then show ?case using snoc by (auto simp: r)
qed (simp add: dialog_after_def)

text \<open>
  Every bank that is disconnected was clicked and confirmed while its dialog was shown; while the
  request runs the dialog cannot be cancelled, and no second request starts.
\<close>

theorem disconnect_only_confirmed:
  "(\<forall>b. dd_bank (fst (dialog_after es)) = Some b \<longrightarrow> Click_disconnect b \<in> set es) \<and>
   set (snd (dialog_after es)) \<subseteq> {b. Click_disconnect b \<in> set es} \<and>
   length (snd (dialog_after es)) \<le> count_list es Click_confirm \<and>
   (dd_running (fst (dialog_after es)) \<noteq> None \<longrightarrow> e \<in> {Click_cancel, Click_confirm} \<longrightarrow>
     dialog_after (es @ [e]) = dialog_after es)"
proof -
  have "dialog_ok (dialog_after es)" unfolding dialog_after_def by (rule dialog.invar_fold) auto
  then have "dd_running (fst (dialog_after es)) \<noteq> None \<longrightarrow> e \<in> {Click_cancel, Click_confirm} \<longrightarrow>
      dialog_after (es @ [e]) = dialog_after es"
    unfolding dialog_after_snoc by (cases "dialog_after es") (auto simp: dialog_step_def dialog_ok_def)
  then show ?thesis using dialog_shown dialog_calls by blast
qed

theorem disconnect_only_confirmed_witness:
  "let b = \<lparr>bk_id = ''i'', bk_name = ''Bank'', bk_short = ''B'', bk_connected = True, bk_lastSync = None, bk_accounts = []\<rparr>
   in dialog_after ([Click_disconnect b, Click_confirm] @ [Click_cancel]) = dialog_after [Click_disconnect b, Click_confirm]"
proof -
  let ?b = "\<lparr>bk_id = ''i'', bk_name = ''Bank'', bk_short = ''B'', bk_connected = True, bk_lastSync = None, bk_accounts = []\<rparr>"
  have "dd_running (fst (dialog_after [Click_disconnect ?b, Click_confirm])) \<noteq> None"
    by (simp add: dialog_after_def no_dialog_def dialog_step_def openDisconnect_def begin_disconnect_def Let_def)
  then show ?thesis
    unfolding Let_def using disconnect_only_confirmed [of "[Click_disconnect ?b, Click_confirm]" Click_cancel] by blast
qed

text \<open>
  The answer to a running request closes the dialog that is shown, also when the dialog of another bank
  was opened meanwhile; a failure of the one is shown as the failure of the other.
\<close>

theorem answer_hits_other_dialog:
  "fst (dialog_after [Click_disconnect a, Click_confirm, Click_disconnect b, Disconnect_answered None]) = no_dialog \<and>
   dd_bank (fst (dialog_after [Click_disconnect a, Click_confirm, Click_disconnect b, Disconnect_answered (Some x)])) = Some b \<and>
   dd_error (fst (dialog_after [Click_disconnect a, Click_confirm, Click_disconnect b, Disconnect_answered (Some x)])) =
     Some (exn_message x)"
  by (simp add: dialog_after_def no_dialog_def dialog_step_def openDisconnect_def begin_disconnect_def end_disconnect_def Let_def)

end
