(* ===== verification/Connect_Step.thy ===== *)
theory Connect_Step
  imports Onboarding Transition_Systems
begin

text \<open>
  The pages of the onboarding: the text of a provider (\<^verbatim>\<open>utils/providerCards.ts\<close>), the
  messages and the button of the connect step (\<^verbatim>\<open>components/onboarding/ConnectAccountStep.tsx\<close>),
  and the wizard that shows it (\<^verbatim>\<open>OnboardingWizard.tsx\<close>): the provider in force, its flow,
  the buttons of the footer and the height of the page.
\<close>

section \<open>The text of a provider\<close>

record provider_content =
  ct_displayName :: jstring
  ct_eyebrow :: jstring
  ct_defaultLabel :: jstring
  ct_badge :: "jstring option"
  ct_requiresApplicationId :: "bool option"
  ct_applicationIdMissingCopy :: "jstring option"

definition PLAID_CONNECT_CONTENT :: provider_content where
  "PLAID_CONNECT_CONTENT = \<lparr>ct_displayName = ''Plaid'', ct_eyebrow = ''Plaid Secure Link'',
     ct_defaultLabel = ''Connect with Plaid'', ct_badge = Some ''Secure'', ct_requiresApplicationId = None,
     ct_applicationIdMissingCopy = None\<rparr>"

definition TELLER_CONNECT_CONTENT :: provider_content where
  "TELLER_CONNECT_CONTENT = \<lparr>ct_displayName = ''Teller'', ct_eyebrow = ''Teller Connect'',
     ct_defaultLabel = ''Launch Teller Connect'', ct_badge = Some ''mTLS'', ct_requiresApplicationId = Some True,
     ct_applicationIdMissingCopy =
       Some ''Teller onboarding requires a Teller application ID. Add it in provider settings before connecting.''\<rparr>"

definition CONNECT_ACCOUNT_PROVIDER_CONTENT :: "FinancialProvider \<Rightarrow> provider_content" where
  "CONNECT_ACCOUNT_PROVIDER_CONTENT p = (case p of Plaid \<Rightarrow> PLAID_CONNECT_CONTENT | Teller \<Rightarrow> TELLER_CONNECT_CONTENT)"

text \<open>The card of a provider.\<close>

record provider_card =
  pd_title :: jstring
  pd_badge :: jstring
  pd_description :: jstring
  pd_bullets :: "jstring list"

definition PROVIDER_CARD_CONFIG :: "FinancialProvider \<Rightarrow> provider_card" where
  "PROVIDER_CARD_CONFIG p = (case p of
     Plaid \<Rightarrow> \<lparr>pd_title = ''Plaid'', pd_badge = ''Premium'',
       pd_description = ''Enterprise-grade data enrichment with the broadest institution coverage.'',
       pd_bullets = [''Enhanced categorization with confidence scores'', ''12,000+ supported institutions'',
         ''Merchant enrichment and location data'', ''Managed compliance under our SaaS offering'']\<rparr>
   | Teller \<Rightarrow> \<lparr>pd_title = ''Teller'', pd_badge = ''Self-hosted friendly'',
       pd_description = ''Bring your own Teller credentials for lightweight, developer-first access.'',
       pd_bullets = [''Unlimited sandbox with 100 free live connections'', ''Direct connections with running balances'',
         ''Simple category strings that map into your budgets'', ''Ideal for self-hosted deployments'']\<rparr>)"

section \<open>The connect step\<close>

datatype StatusTone = Info_tone | Warning_tone | Error_tone

text \<open>The text of a message; the first of them is a fixed one.\<close>

datatype status_text = Loading_configuration | Text jstring

record StatusMessage =
  sm_tone :: StatusTone
  sm_text :: status_text
  sm_retry :: bool

record connect_props =
  cp_content :: provider_content
  cp_providerLoading :: bool
  cp_providerError :: "jstring option"
  cp_applicationId :: "jstring option"
  cp_isConnected :: bool
  cp_inProgress :: bool
  cp_institutionName :: "jstring option"
  cp_error :: "jstring option"

definition missingApplicationId :: "connect_props \<Rightarrow> bool" where
  "missingApplicationId P \<longleftrightarrow> ct_requiresApplicationId (cp_content P) = Some True \<and> \<not> truthy (cp_applicationId P)"

definition statusMessages :: "connect_props \<Rightarrow> StatusMessage list" where
  "statusMessages P =
     (if cp_providerLoading P then [\<lparr>sm_tone = Info_tone, sm_text = Loading_configuration, sm_retry = False\<rparr>] else []) @
     (if truthy (cp_providerError P)
      then [\<lparr>sm_tone = Error_tone, sm_text = Text (the (cp_providerError P)), sm_retry = True\<rparr>] else []) @
     (if missingApplicationId P
      then [\<lparr>sm_tone = Warning_tone, sm_text = Text (default_to (ct_applicationIdMissingCopy (cp_content P))
          ''Add your Teller application ID in provider settings to continue.''), sm_retry = False\<rparr>] else [])"

definition connect_disabled :: "connect_props \<Rightarrow> bool" where
  "connect_disabled P \<longleftrightarrow> cp_inProgress P \<or> cp_isConnected P \<or> cp_providerLoading P \<or> missingApplicationId P"

datatype connect_label = Is_connected "jstring option" | Is_connecting | Try_again_label
  | Call_to_action jstring "jstring option"

definition connect_button :: "connect_props \<Rightarrow> connect_label" where
  "connect_button P =
     (if cp_isConnected P then Is_connected (if truthy (cp_institutionName P) then cp_institutionName P else None)
      else if cp_inProgress P then Is_connecting
      else if truthy (cp_error P) then Try_again_label
      else Call_to_action (ct_defaultLabel (cp_content P))
        (if truthy (ct_badge (cp_content P)) then ct_badge (cp_content P) else None))"

datatype connect_click = Do_connect | Do_retry

definition connect_onClick :: "connect_props \<Rightarrow> connect_click option" where
  "connect_onClick P = (if connect_disabled P then None
     else Some (if truthy (cp_error P) then Do_retry else Do_connect))"

section \<open>The wizard and its flows\<close>

definition activeProvider :: "provider_info \<Rightarrow> FinancialProvider" where
  "activeProvider info = default_to (Option.bind (pi_catalogue info) tp_user)
     (default_to (map_option tp_default (pi_catalogue info)) Plaid)"

definition providerLoading :: "provider_info \<Rightarrow> bool" where
  "providerLoading info \<longleftrightarrow> pi_loading info \<and> Option.bind (pi_catalogue info) tp_user = None \<and>
     map_option tp_default (pi_catalogue info) = None"

text \<open>What the wizard sees of a flow, and the flow of the provider in force.\<close>

record connection_flow =
  cf_isConnected :: bool
  cf_inProgress :: bool
  cf_institutionName :: "jstring option"
  cf_error :: "jstring option"

definition plaid_view :: "'w plaid_onboarding \<Rightarrow> connection_flow" where
  "plaid_view s = \<lparr>cf_isConnected = po_isConnected s, cf_inProgress = po_inProgress s,
     cf_institutionName = po_institutionName s, cf_error = po_error s\<rparr>"

definition teller_view :: "teller_onboarding \<Rightarrow> connection_flow" where
  "teller_view s = \<lparr>cf_isConnected = to_isConnected s, cf_inProgress = to_inProgress s,
     cf_institutionName = to_institutionName s, cf_error = to_error s\<rparr>"

record 'w onboarding_page =
  on_wizard :: wizard
  on_info :: provider_info
  on_plaid :: "'w plaid_onboarding"
  on_teller :: teller_onboarding

definition connectionFlow :: "'w onboarding_page \<Rightarrow> connection_flow" where
  "connectionFlow s = (if activeProvider (on_info s) = Teller then teller_view (on_teller s) else plaid_view (on_plaid s))"

definition step_props :: "'w onboarding_page \<Rightarrow> connect_props" where
  "step_props s = \<lparr>cp_content = CONNECT_ACCOUNT_PROVIDER_CONTENT (activeProvider (on_info s)),
     cp_providerLoading = providerLoading (on_info s), cp_providerError = pi_error (on_info s),
     cp_applicationId = Option.bind (pi_catalogue (on_info s)) tp_application_id,
     cp_isConnected = cf_isConnected (connectionFlow s), cp_inProgress = cf_inProgress (connectionFlow s),
     cp_institutionName = cf_institutionName (connectionFlow s), cp_error = cf_error (connectionFlow s)\<rparr>"

definition isLastStep :: "wizard \<Rightarrow> bool" where
  "isLastStep w \<longleftrightarrow> Suc (wz_stepIndex w) = length ONBOARDING_STEPS"

definition canProceed :: "'w onboarding_page \<Rightarrow> bool" where
  "canProceed s \<longleftrightarrow> (case currentStep (on_wizard s) of
     Some Welcome \<Rightarrow> True
   | Some Connect_account \<Rightarrow> cf_isConnected (connectionFlow s)
   | None \<Rightarrow> canGoNext (on_wizard s))"

datatype wizard_action = Complete | Next

definition handleNext :: "'w onboarding_page \<Rightarrow> wizard_action" where
  "handleNext s = (if isLastStep (on_wizard s) \<and> currentStep (on_wizard s) = Some Connect_account \<and>
       cf_isConnected (connectionFlow s) then Complete else Next)"

definition next_label :: "'w onboarding_page \<Rightarrow> jstring" where
  "next_label s = (if isLastStep (on_wizard s) \<and> cf_isConnected (connectionFlow s) then ''Get started'' else ''Continue'')"

definition wizard_steps :: "provider_content \<Rightarrow> (OnboardingStep \<times> jstring \<times> jstring) list" where
  "wizard_steps content = map (\<lambda>step. (step, case step of
       Welcome \<Rightarrow> (''Welcome'', ''Get oriented with Sumurai'')
     | Connect_account \<Rightarrow> (''Connect account'', ''Securely link via '' @ ct_displayName content)))
   [Welcome, Connect_account]"

datatype step_state = Step_complete | Step_active | Step_idle

definition stepIndicator :: "wizard \<Rightarrow> step_state list" where
  "stepIndicator w = map (\<lambda>index. if index < wz_stepIndex w then Step_complete
     else if wz_stepIndex w = index then Step_active else Step_idle) [0..<length ONBOARDING_STEPS]"

text \<open>
  The buttons of the wizard; \<open>log\<close> lists what was done, \<open>onComplete\<close> is called once the
  wizard is complete. The flows change by their own handlers: a flow event is any change of its state.
\<close>

datatype footer_action = Completed_connected | Skipped | Moved_on | Moved_back

datatype 'w page_event = Press_next | Press_back | Press_skip
  | Info_changed provider_info | Plaid_changed "'w plaid_onboarding" | Teller_changed teller_onboarding

definition complete_wizard :: "wizard \<Rightarrow> wizard" where
  "complete_wizard w = w\<lparr>wz_isComplete := True\<rparr>"

fun page_handle :: "'w page_event \<Rightarrow> 'w onboarding_page \<times> footer_action list \<Rightarrow> 'w onboarding_page \<times> footer_action list" where
  "page_handle Press_next (s, done) =
     (if \<not> canProceed s then (s, done)
      else case handleNext s of
        Complete \<Rightarrow> (s\<lparr>on_wizard := complete_wizard (on_wizard s)\<rparr>, done @ [Completed_connected])
      | Next \<Rightarrow> (s\<lparr>on_wizard := goToNext (on_wizard s) (on_wizard s)\<rparr>, done @ [Moved_on]))"
| "page_handle Press_back (s, done) =
     (if \<not> canGoBack (on_wizard s) then (s, done)
      else (s\<lparr>on_wizard := goToPrevious (on_wizard s) (on_wizard s)\<rparr>, done @ [Moved_back]))"
| "page_handle Press_skip (s, done) =
     (if currentStep (on_wizard s) \<noteq> Some Connect_account then (s, done)
      else (s\<lparr>on_wizard := complete_wizard (on_wizard s)\<rparr>, done @ [Skipped]))"
| "page_handle (Info_changed i) (s, done) = (s\<lparr>on_info := i\<rparr>, done)"
| "page_handle (Plaid_changed p) (s, done) = (s\<lparr>on_plaid := p\<rparr>, done)"
| "page_handle (Teller_changed t) (s, done) = (s\<lparr>on_teller := t\<rparr>, done)"

section \<open>The height of the page\<close>

definition measure_height :: "rat \<Rightarrow> int option \<Rightarrow> int option" where
  "measure_height naturalHeight prev = (if naturalHeight \<le> 0 then prev
     else let nextHeight = \<lceil>naturalHeight\<rceil> in
       Some (case prev of None \<Rightarrow> nextHeight | Some p \<Rightarrow> if nextHeight > p then nextHeight else p))"

section \<open>Properties of the step\<close>

text \<open>
  The button of the step does what it says: it retries just when its label is Try again, connects just
  when it shows the call of the provider, and does neither while a warning or a loading message is shown,
  while it connects, or once it is connected.
\<close>

theorem connect_button_consistent:
  "(connect_onClick P = Some Do_retry \<longrightarrow> connect_button P = Try_again_label) \<and>
   (connect_onClick P = Some Do_connect \<longrightarrow> (\<exists>b. connect_button P = Call_to_action (ct_defaultLabel (cp_content P)) b)) \<and>
   (connect_onClick P \<noteq> None \<longrightarrow> list_all (\<lambda>m. sm_tone m = Error_tone) (statusMessages P)) \<and>
   (connect_onClick P = None \<longleftrightarrow> cp_isConnected P \<or> cp_inProgress P \<or>
      list_ex (\<lambda>m. sm_tone m \<noteq> Error_tone) (statusMessages P))"
  by (auto simp: connect_onClick_def connect_disabled_def connect_button_def statusMessages_def)

theorem connect_button_consistent_witness:
  "\<exists>b. connect_button \<lparr>cp_content = PLAID_CONNECT_CONTENT, cp_providerLoading = False, cp_providerError = None,
     cp_applicationId = None, cp_isConnected = False, cp_inProgress = False, cp_institutionName = None, cp_error = None\<rparr>
   = Call_to_action ''Connect with Plaid'' b"
proof -
  let ?P = "\<lparr>cp_content = PLAID_CONNECT_CONTENT, cp_providerLoading = False, cp_providerError = None,
     cp_applicationId = None, cp_isConnected = False, cp_inProgress = False, cp_institutionName = None, cp_error = None\<rparr>"
  have "connect_onClick ?P = Some Do_connect" "ct_defaultLabel (cp_content ?P) = ''Connect with Plaid''" by code_simp+
  then show ?thesis using connect_button_consistent [of ?P] by simp
qed

text \<open>
  When the provider cannot be loaded the step says so, and its button still connects: with Plaid,
  whatever provider the server would have named.
\<close>

theorem failed_info_connects_plaid:
  assumes "pi_error (on_info s) = Some e" and "pi_catalogue (on_info s) = None" and "\<not> pi_loading (on_info s)"
    and "po_error (on_plaid s) = None" and "\<not> po_isConnected (on_plaid s)" and "\<not> po_inProgress (on_plaid s)"
  shows "activeProvider (on_info s) = Plaid \<and> connect_onClick (step_props s) = Some Do_connect"
  using assms by (simp add: activeProvider_def connect_onClick_def connect_disabled_def step_props_def providerLoading_def
      missingApplicationId_def connectionFlow_def plaid_view_def CONNECT_ACCOUNT_PROVIDER_CONTENT_def
      PLAID_CONNECT_CONTENT_def truthy_def)

definition sample_page :: "provider_info \<Rightarrow> unit onboarding_page" where
  "sample_page i = \<lparr>on_wizard = \<lparr>wz_stepIndex = 0, wz_isComplete = False\<rparr>, on_info = i,
     on_plaid = no_plaid_onboarding (), on_teller = no_teller_onboarding\<rparr>"

theorem failed_info_connects_plaid_witness:
  "connect_onClick (step_props (sample_page (end_info (Inl (JsExn ''down'')) \<lparr>pi_loading = True, pi_error = None, pi_catalogue = None\<rparr>)))
     = Some Do_connect"
  using failed_info_connects_plaid [of "sample_page (end_info (Inl (JsExn ''down'')) \<lparr>pi_loading = True, pi_error = None, pi_catalogue = None\<rparr>)"
      "''Unable to load provider information''"]
  by (simp add: sample_page_def end_info_def no_plaid_onboarding_def)

text \<open>The height kept for the page is the greatest ever measured, rounded up: it never shrinks.\<close>

theorem height_is_greatest:
  "fold measure_height hs None = (if filter (\<lambda>h. 0 < h) hs = [] then None
     else Some (Max (set (map ceiling (filter (\<lambda>h. 0 < h) hs)))))"
proof (induction hs rule: rev_induct)
  case (snoc h hs)
  let ?H = "set (map ceiling (filter (\<lambda>h. 0 < h) hs))"
  show ?case
  proof (cases "0 < h")
    case True
    show ?thesis
    proof (cases "filter (\<lambda>h. 0 < h) hs = []")
      case False
      then have "?H \<noteq> {}" by (metis (no_types) map_is_Nil_conv set_empty)
      then have "Max (insert \<lceil>h\<rceil> ?H) = max \<lceil>h\<rceil> (Max ?H)" by (intro Max_insert) simp_all
      then show ?thesis using snoc True False by (simp add: measure_height_def Let_def max_def)
    qed (use snoc True in \<open>simp add: measure_height_def\<close>)
  qed (use snoc in \<open>simp add: measure_height_def\<close>)
qed simp

section \<open>Properties of the wizard\<close>

text \<open>The label of the button tells what it does.\<close>

lemma steps: "wizard_ok w \<Longrightarrow> wz_stepIndex w = 0 \<and> currentStep w = Some Welcome \<and> \<not> isLastStep w \<or>
    wz_stepIndex w = 1 \<and> currentStep w = Some Connect_account \<and> isLastStep w"
  by (auto simp: wizard_ok_def currentStep_def isLastStep_def ONBOARDING_STEPS_def less_Suc_eq)

lemma label_tells_action:
  "wizard_ok (on_wizard s) \<Longrightarrow> next_label s = (if handleNext s = Complete then ''Get started'' else ''Continue'')"
  using steps [of "on_wizard s"] by (auto simp: next_label_def handleNext_def)

definition onboarding_ok :: "'w onboarding_page \<times> footer_action list \<Rightarrow> bool" where
  "onboarding_ok r \<longleftrightarrow> wizard_ok (on_wizard (fst r)) \<and>
     (wz_isComplete (on_wizard (fst r)) \<longleftrightarrow> Completed_connected \<in> set (snd r) \<or> Skipped \<in> set (snd r)) \<and>
     count_list (snd r) Moved_on = wz_stepIndex (on_wizard (fst r)) + count_list (snd r) Moved_back \<and>
     (wz_isComplete (on_wizard (fst r)) \<longrightarrow> Moved_on \<in> set (snd r))"

lemma moved_on: "count_list xs Moved_on = Suc n \<Longrightarrow> Moved_on \<in> set xs"
  by (metis count_list_0_iff nat.distinct(1))

lemma page_handle_ok:
  assumes "onboarding_ok (s, done)"
  shows "onboarding_ok (page_handle e (s, done))"
proof -
  have w: "wizard_ok (on_wizard s)" using assms by (simp add: onboarding_ok_def)
  have m: "wz_stepIndex (on_wizard s) = 1 \<Longrightarrow> Moved_on \<in> set done"
    using assms moved_on [of "done"] by (auto simp: onboarding_ok_def)
  show ?thesis
  proof (cases e)
    case Press_next
    then show ?thesis using assms steps [OF w] m
      by (elim disjE) (auto simp: onboarding_ok_def canProceed_def handleNext_def complete_wizard_def goToNext_def canGoNext_def
          wizard_ok_def ONBOARDING_STEPS_def)
  next
    case Press_back
    then show ?thesis using assms steps [OF w] m
      by (elim disjE) (auto simp: onboarding_ok_def goToPrevious_def canGoBack_def wizard_ok_def ONBOARDING_STEPS_def)
  next
    case Press_skip
    then show ?thesis using assms steps [OF w] m
      by (elim disjE) (auto simp: onboarding_ok_def complete_wizard_def wizard_ok_def)
  qed (use assms in \<open>simp_all add: onboarding_ok_def\<close>)
qed

interpretation onboarding_run: event_machine page_handle "\<lambda>s e. True"
  "\<lambda>r. first_page (on_wizard (fst r)) \<and> snd r = []" onboarding_ok
proof
  fix r :: "'w onboarding_page \<times> footer_action list" and e
  assume "onboarding_ok r"
  then show "onboarding_ok (page_handle e r)" by (metis page_handle_ok prod.exhaust)
qed (auto simp: onboarding_ok_def first_page_def wizard_ok_def ONBOARDING_STEPS_def)

text \<open>
  C34. However buttons are pressed and flows and provider change under the wizard, it is complete only by
  Skip or by Get started, after the connect step was reached; and Get started completes it only while
  the flow of the provider in force is connected.
\<close>

theorem wizard_completed_by_choice:
  assumes "first_page (on_wizard s0)" and "fold page_handle es (s0, []) = (s, done)"
  shows "(wz_isComplete (on_wizard s) \<longleftrightarrow> Completed_connected \<in> set done \<or> Skipped \<in> set done) \<and>
    (wz_isComplete (on_wizard s) \<longrightarrow> Moved_on \<in> set done) \<and>
    (snd (page_handle e (s, done)) = done @ [Completed_connected] \<longrightarrow> cf_isConnected (connectionFlow s)) \<and>
    (wz_isComplete (on_wizard s) \<longrightarrow> wz_isComplete (on_wizard (fst (page_handle e (s, done)))))"
proof -
  have "onboarding_ok (fold page_handle es (s0, []))" by (rule onboarding_run.invar_fold) (use assms(1) in auto)
  then have ok: "onboarding_ok (s, done)" using assms(2) by simp
  have "snd (page_handle e (s, done)) = done @ [Completed_connected] \<longrightarrow> cf_isConnected (connectionFlow s)"
    by (cases e) (auto simp: handleNext_def split: if_splits)
  moreover have "wz_isComplete (on_wizard s) \<longrightarrow> wz_isComplete (on_wizard (fst (page_handle e (s, done))))"
    by (cases e) (auto simp: complete_wizard_def goToNext_def goToPrevious_def split: wizard_action.split)
  ultimately show ?thesis using ok by (auto simp: onboarding_ok_def)
qed

theorem wizard_completed_by_choice_witness:
  "wz_isComplete (on_wizard (fst (fold page_handle [Press_next, Press_skip, Press_back]
     (sample_page \<lparr>pi_loading = False, pi_error = None, pi_catalogue = None\<rparr>, []))))"
proof -
  let ?s0 = "sample_page \<lparr>pi_loading = False, pi_error = None, pi_catalogue = None\<rparr>"
  obtain s "done" where r: "fold page_handle [Press_next, Press_skip, Press_back] (?s0, []) = (s, done)" by fastforce
  have "done = [Moved_on, Skipped, Moved_back]"
    using arg_cong [OF r, of snd] by (simp add: sample_page_def canProceed_def handleNext_def currentStep_def
        ONBOARDING_STEPS_def isLastStep_def goToNext_def canGoNext_def complete_wizard_def canGoBack_def goToPrevious_def)
  moreover have "first_page (on_wizard ?s0)" by (simp add: sample_page_def first_page_def)
  ultimately show ?thesis using wizard_completed_by_choice [OF _ r] r by simp
qed

end
