(* ===== verification/View_Widgets.thy ===== *)
theory View_Widgets
  imports Sankey_Calculator Accounts_Page
begin

text \<open>
  The widgets that keep a state or compute where things go: the tooltip
  (\<^verbatim>\<open>ui/primitives/InfoTooltip.tsx\<close>), the rows of pills that scroll
  (\<^verbatim>\<open>features/transactions/components/TransactionsFilters.tsx\<close>,
  \<^verbatim>\<open>components/widgets/HeroStatCard.tsx\<close>), the menu
  (\<^verbatim>\<open>ui/primitives/MenuDropdown.tsx\<close>), the flow chart
  (\<^verbatim>\<open>features/analytics/components/SankeyChart.tsx\<close>) and the selector of the currency
  (\<^verbatim>\<open>components/CurrencySelector.tsx\<close>). What the browser measures is an argument.
\<close>

section \<open>The tooltip\<close>

record client_rect =
  cr_top :: rat
  cr_bottom :: rat
  cr_left :: rat
  cr_width :: rat

definition tooltip_left :: "client_rect \<Rightarrow> rat \<Rightarrow> rat \<Rightarrow> rat" where
  "tooltip_left rect tooltipWidth innerWidth = (let padding = 12;
       left = cr_left rect + cr_width rect / 2 - tooltipWidth / 2 in
     if left < padding then padding
     else if left + tooltipWidth > innerWidth - padding then innerWidth - padding - tooltipWidth
     else left)"

datatype tooltip_side = Side_top | Side_bottom

definition tooltip_top :: "tooltip_side \<Rightarrow> client_rect \<Rightarrow> rat \<Rightarrow> rat" where
  "tooltip_top preferredPosition rect tooltipHeight = (let padding = 12;
       fitsTop = cr_top rect - tooltipHeight - 8 > padding in
     if preferredPosition = Side_top \<and> fitsTop then cr_top rect - tooltipHeight - 8
     else if preferredPosition = Side_bottom \<or> \<not> fitsTop then cr_bottom rect + 8
     else cr_top rect - tooltipHeight - 8)"

text \<open>
  The state: whether it is open and the button has the focus, the timers that will close it and have not fired, the one the
  reference holds, and the number of timers made so far.
\<close>

record tooltip =
  tt_open :: bool
  tt_focused :: bool
  tt_timers :: "nat list"
  tt_ref :: "nat option"
  tt_made :: nat

definition closed_tooltip :: tooltip where
  "closed_tooltip = \<lparr>tt_open = False, tt_focused = False, tt_timers = [], tt_ref = None, tt_made = 0\<rparr>"

definition tooltip_show :: "tooltip \<Rightarrow> tooltip" where
  "tooltip_show t = (case tt_ref t of
     Some i \<Rightarrow> t\<lparr>tt_timers := filter (\<lambda>j. j \<noteq> i) (tt_timers t), tt_ref := None, tt_open := True\<rparr>
   | None \<Rightarrow> t\<lparr>tt_open := True\<rparr>)"

definition tooltip_hide :: "tooltip \<Rightarrow> tooltip" where
  "tooltip_hide t = t\<lparr>tt_timers := tt_timers t @ [tt_made t], tt_ref := Some (tt_made t), tt_made := Suc (tt_made t)\<rparr>"

definition tooltip_toggle :: "tooltip \<Rightarrow> tooltip" where
  "tooltip_toggle t = t\<lparr>tt_open := \<not> tt_open t\<rparr>"

text \<open>
  The events: pointer and focus on the button or the tooltip, clicks, a timer (120 ms after its hide),
  Escape, which gives the button the
  focus, and a press outside; the last two are heard only while it is open.
\<close>

datatype tooltip_event = Mouse_enter | Mouse_leave | Focus | Blur | Toggle_click | Timer nat | Escape | Press_outside

definition tooltip_handle :: "tooltip_event \<Rightarrow> tooltip \<Rightarrow> tooltip" where
  "tooltip_handle e t = (case e of
     Mouse_enter \<Rightarrow> tooltip_show t
   | Focus \<Rightarrow> tooltip_show (t\<lparr>tt_focused := True\<rparr>)
   | Mouse_leave \<Rightarrow> tooltip_hide t
   | Blur \<Rightarrow> tooltip_hide (t\<lparr>tt_focused := False\<rparr>)
   | Toggle_click \<Rightarrow> tooltip_toggle t
   | Timer i \<Rightarrow> if i \<in> set (tt_timers t)
       then t\<lparr>tt_open := False, tt_timers := filter (\<lambda>j. j \<noteq> i) (tt_timers t)\<rparr> else t
   | Escape \<Rightarrow> if \<not> tt_open t then t
       else if tt_focused t then t\<lparr>tt_open := False\<rparr>
       else tooltip_show (t\<lparr>tt_open := False, tt_focused := True\<rparr>)
   | Press_outside \<Rightarrow> if tt_open t then t\<lparr>tt_open := False\<rparr> else t)"

definition tooltip_run :: "tooltip_event list \<Rightarrow> tooltip" where
  "tooltip_run es = fold tooltip_handle es closed_tooltip"

section \<open>Rows that scroll\<close>

record scroll_box =
  sb_scrollLeft :: rat
  sb_scrollWidth :: rat
  sb_clientWidth :: rat

definition showLeftFade :: "scroll_box \<Rightarrow> bool" where
  "showLeftFade el \<longleftrightarrow> sb_scrollLeft el > 0"

definition showRightFade :: "scroll_box \<Rightarrow> bool" where
  "showRightFade el \<longleftrightarrow> sb_scrollLeft el < sb_scrollWidth el - sb_clientWidth el - 1"

text \<open>The browser keeps \<^verbatim>\<open>scrollLeft\<close> between zero and the overflow.\<close>

definition set_scrollLeft :: "rat \<Rightarrow> scroll_box \<Rightarrow> scroll_box" where
  "set_scrollLeft x el = el\<lparr>sb_scrollLeft := max 0 (min x (sb_scrollWidth el - sb_clientWidth el))\<rparr>"

definition handleWheel :: "rat \<Rightarrow> rat \<Rightarrow> scroll_box \<Rightarrow> bool \<times> scroll_box" where
  "handleWheel deltaX deltaY el =
     (if sb_scrollWidth el \<le> sb_clientWidth el then (False, el)
      else let delta = (if \<bar>deltaX\<bar> > \<bar>deltaY\<bar> then deltaX else deltaY) in
        if delta = 0 then (False, el) else (True, set_scrollLeft (sb_scrollLeft el + delta) el))"

text \<open>A row of pills: which are pressed, and what a click selects.\<close>

definition pill_selected :: "jstring option \<Rightarrow> jstring \<Rightarrow> bool" where
  "pill_selected selectedItem name \<longleftrightarrow> map_option toLowerCase selectedItem = Some (toLowerCase name)"

definition isAllSelected :: "jstring option \<Rightarrow> bool" where
  "isAllSelected selectedItem \<longleftrightarrow> \<not> truthy selectedItem"

definition pill_click :: "jstring option \<Rightarrow> jstring \<Rightarrow> jstring option" where
  "pill_click selectedItem name = (if pill_selected selectedItem name then None else Some name)"

definition pill_title :: "jstring option \<Rightarrow> jstring \<Rightarrow> jstring" where
  "pill_title selectedItem name =
     (if pill_selected selectedItem name then ''Remove filter: '' @ name else ''Filter by '' @ name)"

section \<open>The menu\<close>

datatype menu_event = Menu_trigger | Menu_inside

definition menu_handle :: "menu_event \<Rightarrow> bool \<Rightarrow> bool" where
  "menu_handle e isOpen = (case e of Menu_trigger \<Rightarrow> \<not> isOpen | Menu_inside \<Rightarrow> False)"

section \<open>The flow chart\<close>

definition hasSubcategories :: "SankeyNode list \<Rightarrow> bool" where
  "hasSubcategories nodes \<longleftrightarrow> list_ex (\<lambda>n. sn_categoryType n = Subcategory_node) nodes"

definition count_kinds :: "NodeKind list \<Rightarrow> SankeyNode list \<Rightarrow> nat" where
  "count_kinds ks nodes = length (filter (\<lambda>n. sn_categoryType n \<in> set ks) nodes)"

definition chart_rows :: "SankeyNode list \<Rightarrow> nat" where
  "chart_rows nodes = max (max (count_kinds [Subcategory_node] nodes) (count_kinds [Outflow] nodes))
     (max (count_kinds [Inflow, Deficit] nodes) 8)"

definition computedHeight :: "rat option \<Rightarrow> SankeyNode list \<Rightarrow> rat" where
  "computedHeight height nodes = (if height \<noteq> None \<and> height \<noteq> Some 0 then the height
     else max 540 (min 1050 (of_nat (chart_rows nodes) * 34)))"

datatype text_anchor = Anchor_start | Anchor_end | Anchor_middle

definition node_height :: "rat option \<Rightarrow> rat" where
  "node_height nodeHeight = max 8 (case nodeHeight of Some h \<Rightarrow> if h \<noteq> 0 then h else 8 | None \<Rightarrow> 8)"

text \<open>Where the label of a node stands: its point and what of it is there.\<close>

definition node_label :: "bool \<Rightarrow> NodeKind \<Rightarrow> rat \<Rightarrow> rat \<Rightarrow> rat \<Rightarrow> rat option \<Rightarrow> rat \<times> rat \<times> text_anchor" where
  "node_label subs k x y width nodeHeight = (let centerY = y + node_height nodeHeight / 2 in
     if k = Inflow \<or> k = Deficit then (x - 8, centerY, Anchor_end)
     else if k = Hub then
       (if y \<ge> 20 then (x + width / 2, y - 10, Anchor_middle) else (x + width + 8, centerY, Anchor_start))
     else if k = Outflow then
       (if subs then (x - 8, centerY, Anchor_end) else (x + width + 8, centerY, Anchor_start))
     else (x + width + 8, centerY, Anchor_start))"

record chart_hover =
  ch_link :: "nat option"
  ch_node :: "nat option"

definition node_opacity :: "chart_hover \<Rightarrow> nat \<Rightarrow> rat" where
  "node_opacity h index = (if ch_node h \<noteq> None \<or> ch_link h \<noteq> None
     then (if ch_node h = Some index then 1 else 45 / 100) else 95 / 100)"

definition link_opacity :: "chart_hover \<Rightarrow> nat \<Rightarrow> SankeyLink \<Rightarrow> rat" where
  "link_opacity h index l = (let isHovered = ch_link h = Some index;
       isConnectedNode = (ch_node h \<noteq> None \<and> (Some (sl_source l) = ch_node h \<or> Some (sl_target l) = ch_node h)) in
     if ch_link h \<noteq> None \<or> ch_node h \<noteq> None then (if isHovered \<or> isConnectedNode then 75 / 100 else 15 / 100)
     else 38 / 100)"

section \<open>The selector of the currency\<close>

definition currency_title :: "DisplayCurrency \<Rightarrow> rat \<Rightarrow> jstring option \<Rightarrow> jstring" where
  "currency_title currency rate rateDate = (if currency = USD then ''Display currency: USD''
     else ''1 USD = '' @ to_fixed (if currency = JPY then 2 else 4) rate @ '' '' @ currency_code currency @
       (if truthy rateDate then '' as of '' @ the rateDate else []))"

section \<open>Properties\<close>

text \<open>A tooltip that fits beside the margins stays within them, and it never covers its button.\<close>

theorem tooltip_placed:
  assumes "tooltipWidth + 24 \<le> innerWidth" and "cr_top rect \<le> cr_bottom rect"
  shows "12 \<le> tooltip_left rect tooltipWidth innerWidth \<and>
    tooltip_left rect tooltipWidth innerWidth + tooltipWidth \<le> innerWidth - 12 \<and>
    (tooltip_top side rect tooltipHeight + tooltipHeight + 8 = cr_top rect \<and> 12 < tooltip_top side rect tooltipHeight \<or>
     tooltip_top side rect tooltipHeight = cr_bottom rect + 8)"
  using assms by (cases side) (auto simp: tooltip_left_def tooltip_top_def Let_def)

theorem tooltip_placed_witness:
  "12 \<le> tooltip_left \<lparr>cr_top = 5, cr_bottom = 20, cr_left = 2, cr_width = 14\<rparr> 260 320"
  using tooltip_placed [of 260 320 "\<lparr>cr_top = 5, cr_bottom = 20, cr_left = 2, cr_width = 14\<rparr>"] by simp

text \<open>A pointer that comes back before the timer keeps the tooltip open: the one timer is cleared.\<close>

theorem return_keeps_open:
  assumes "tt_timers t = []" and "tt_ref t = None"
  shows "tt_open (tooltip_handle (Timer i) (tooltip_handle Mouse_enter (tooltip_handle Mouse_leave t)))"
  using assms by (simp add: tooltip_handle_def tooltip_show_def tooltip_hide_def)

theorem return_keeps_open_witness:
  "tt_open (tooltip_handle (Timer 0) (tooltip_handle Mouse_enter (tooltip_handle Mouse_leave closed_tooltip)))"
  by (rule return_keeps_open) (simp_all add: closed_tooltip_def)

text \<open>
  When pointer and focus both leave there are two timers and the reference holds one: the other closes
  the tooltip under a pointer that has come back.
\<close>

theorem lost_timer_closes:
  "\<not> tt_open (tooltip_run [Mouse_enter, Focus, Mouse_leave, Blur, Mouse_enter, Timer 0]) \<and>
   tt_open (tooltip_run [Mouse_enter, Focus, Mouse_leave, Blur, Mouse_enter, Timer 1])"
  by code_simp

text \<open>A click closes what the pointer and the focus that come with it have opened: a tap shows nothing.\<close>

lemma show_open: "tt_open (tooltip_show t)"
  by (simp add: tooltip_show_def split: option.split)

theorem tap_shows_nothing: "\<not> tt_open (fold tooltip_handle [Mouse_enter, Focus, Toggle_click] t)"
  using show_open by (simp add: tooltip_handle_def tooltip_toggle_def)

text \<open>Escape does not close a tooltip that the pointer has opened: the focus it gives opens it again.\<close>

theorem escape_reopens:
  "\<not> tt_focused t \<Longrightarrow> tt_open t \<Longrightarrow> tt_open (tooltip_handle Escape t)"
  using show_open by (simp add: tooltip_handle_def)

theorem escape_reopens_witness: "tt_open (tooltip_handle Escape (tooltip_run [Mouse_enter]))"
proof -
  have "\<not> tt_focused (tooltip_run [Mouse_enter])" "tt_open (tooltip_run [Mouse_enter])" by code_simp+
  then show ?thesis by (rule escape_reopens)
qed

text \<open>
  However the wheel turns a row stays within its overflow; a fade is shown on some side whenever more
  than a pixel is hidden, and none when nothing is.
\<close>

definition box_ok :: "scroll_box \<Rightarrow> bool" where
  "box_ok el \<longleftrightarrow> 0 \<le> sb_scrollLeft el \<and> sb_scrollLeft el \<le> max 0 (sb_scrollWidth el - sb_clientWidth el)"

lemma wheel_ok: "box_ok el \<Longrightarrow> box_ok (snd (handleWheel dx dy el))"
  by (auto simp: box_ok_def handleWheel_def set_scrollLeft_def Let_def)

lemma wheel_widths:
  "sb_scrollWidth (snd (handleWheel dx dy el)) = sb_scrollWidth el" "sb_clientWidth (snd (handleWheel dx dy el)) = sb_clientWidth el"
  by (simp_all add: handleWheel_def set_scrollLeft_def Let_def)

theorem fades_tell_overflow:
  assumes "box_ok el" and "el' = fold (\<lambda>(dx, dy) e. snd (handleWheel dx dy e)) ds el"
  shows "box_ok el' \<and>
    (1 < sb_scrollWidth el - sb_clientWidth el \<longrightarrow> showLeftFade el' \<or> showRightFade el') \<and>
    (sb_scrollWidth el \<le> sb_clientWidth el \<longrightarrow> \<not> showLeftFade el' \<and> \<not> showRightFade el')"
proof -
  have "box_ok e \<Longrightarrow> box_ok (fold (\<lambda>(dx, dy) e. snd (handleWheel dx dy e)) ds e) \<and>
      sb_scrollWidth (fold (\<lambda>(dx, dy) e. snd (handleWheel dx dy e)) ds e) = sb_scrollWidth e \<and>
      sb_clientWidth (fold (\<lambda>(dx, dy) e. snd (handleWheel dx dy e)) ds e) = sb_clientWidth e" for e
    by (induction ds arbitrary: e) (auto simp: wheel_ok wheel_widths)
  from this [OF assms(1)] have "box_ok el'" "sb_scrollWidth el' = sb_scrollWidth el" "sb_clientWidth el' = sb_clientWidth el"
    using assms(2) by simp_all
  then show ?thesis by (auto simp: box_ok_def showLeftFade_def showRightFade_def)
qed

theorem fades_tell_overflow_witness:
  "box_ok (fold (\<lambda>(dx, dy) e. snd (handleWheel dx dy e)) [(0, 30), (- 100, 2)]
     \<lparr>sb_scrollLeft = 0, sb_scrollWidth = 500, sb_clientWidth = 300\<rparr>)"
proof -
  have b: "box_ok \<lparr>sb_scrollLeft = 0, sb_scrollWidth = 500, sb_clientWidth = 300\<rparr>" by (simp add: box_ok_def)
  show ?thesis by (rule conjunct1 [OF fades_tell_overflow [OF b refl]])
qed

lemma pill_selected_Some: "pill_selected (Some k) = (\<lambda>x. toLowerCase x = toLowerCase k)"
  by (auto simp: pill_selected_def)

lemma distinct_one: "distinct (map f xs) \<Longrightarrow> filter (\<lambda>x. f x = k) xs = [] \<or> (\<exists>x. filter (\<lambda>x. f x = k) xs = [x])"
  by (induction xs) (auto simp: filter_empty_conv rev_image_eqI)

text \<open>
  Of a row of pills whose names differ in more than case at most one is pressed; it is the one clicked
  last, a second click on it takes the filter off, and All is pressed just when no pill can be.
\<close>

theorem pill_row_exclusive:
  assumes "distinct (map toLowerCase items)" and "name \<in> set items"
  shows "length (filter (pill_selected selectedItem) items) \<le> 1 \<and>
    filter (pill_selected (Some name)) items = [name] \<and>
    pill_click (Some name) name = None \<and>
    (\<not> pill_selected selectedItem name \<longrightarrow> filter (pill_selected (pill_click selectedItem name)) items = [name])"
proof -
  have one: "filter (\<lambda>x. toLowerCase x = k) items = [] \<or> (\<exists>x. filter (\<lambda>x. toLowerCase x = k) items = [x])" for k
    using distinct_one [OF assms(1)] .
  have "length (filter (pill_selected selectedItem) items) \<le> 1"
  proof (cases selectedItem)
    case (Some k)
    then show ?thesis using one [of "toLowerCase k"] by (auto simp: pill_selected_Some)
  qed (simp add: pill_selected_def)
  moreover have "name \<in> set (filter (\<lambda>x. toLowerCase x = toLowerCase name) items)" using assms(2) by simp
  then have "filter (\<lambda>x. toLowerCase x = toLowerCase name) items = [name]"
    using one [of "toLowerCase name"] by (metis empty_iff empty_set list.set_cases set_ConsD)
  then have n: "filter (pill_selected (Some name)) items = [name]"
    by (simp add: pill_selected_Some)
  ultimately show ?thesis by (simp add: pill_click_def pill_selected_def)
qed

theorem pill_row_exclusive_witness:
  "filter (pill_selected (Some ''Food'')) [''Food'', ''Travel''] = [''Food'']"
proof -
  have "distinct (map toLowerCase [''Food'', ''Travel''])" by code_simp
  then show ?thesis using pill_row_exclusive [of "[''Food'', ''Travel'']" "''Food''"] by simp
qed

text \<open>
  The chart is between 540 and 1050 points high, and each node of its fullest column has 34 of them as
  long as there are at most 30.
\<close>

theorem chart_rows_have_room:
  assumes "height = None \<or> height = Some 0"
  shows "540 \<le> computedHeight height nodes \<and> computedHeight height nodes \<le> 1050 \<and>
    (chart_rows nodes \<le> 30 \<longrightarrow> of_nat (chart_rows nodes) * 34 \<le> computedHeight height nodes)"
proof -
  have "(of_nat (chart_rows nodes) :: rat) \<le> 30" if "chart_rows nodes \<le> 30"
    using that by (metis of_nat_mono of_nat_numeral)
  then show ?thesis using assms by (auto simp: computedHeight_def)
qed

theorem chart_rows_have_room_witness: "540 \<le> computedHeight None []"
  using chart_rows_have_room [of None "[]"] by simp

text \<open>The label of a node never stands on its bar.\<close>

theorem label_beside_bar:
  assumes "node_label subs k x y width h = (tx, ty, a)" and "0 \<le> width"
  shows "case a of Anchor_end \<Rightarrow> tx < x | Anchor_start \<Rightarrow> x + width < tx | Anchor_middle \<Rightarrow> ty < y"
  using assms by (auto simp: node_label_def Let_def split: if_splits)

theorem label_beside_bar_witness:
  "case node_label True Inflow 100 50 14 None of (tx, ty, a) \<Rightarrow> a = Anchor_end \<and> tx < 100"
proof -
  have e: "node_label True Inflow 100 50 14 None = (92, 54, Anchor_end)" by (simp add: node_label_def node_height_def Let_def)
  show ?thesis unfolding e using label_beside_bar [OF e] by simp
qed

text \<open>With a node under the pointer just its own links stand out, and with a link just that link.\<close>

theorem highlight_exact:
  assumes "ch_node h = None \<or> ch_link h = None"
  shows "link_opacity h i l = 75 / 100 \<longleftrightarrow>
    (case ch_node h of Some n \<Rightarrow> n = sl_source l \<or> n = sl_target l | None \<Rightarrow> ch_link h = Some i)"
  using assms by (auto simp: link_opacity_def Let_def split: option.split)

theorem highlight_exact_witness:
  "\<forall>l. link_opacity \<lparr>ch_link = Some 2, ch_node = None\<rparr> 2 l = 75 / 100"
  using highlight_exact [of "\<lparr>ch_link = Some 2, ch_node = None\<rparr>" 2] by simp

end
