(* ===== verification/Budget_Dialog.thy ===== *)
theory Budget_Dialog
  imports Transactions_View Transaction_List Transition_Systems
begin

text \<open>
  What the transactions page shows of its figures and budgets (\<^verbatim>\<open>views/TransactionsPage.tsx\<close>):
  the cards at the top, the row of accounts and the paging, and the dialog of the budgets with its
  titles, choices, preview and list; and the dialog as a state machine over clicks, typing and answers.
  \<open>fm\<close> is the currency formatter, \<open>bullet\<close> the separator beyond the model's characters.
\<close>

section \<open>The cards at the top\<close>

record hero_card =
  hc_title :: jstring
  hc_value :: jstring
  hc_suffix :: "jstring option"
  hc_subtext :: "jstring option"
  hc_pills :: "(jstring \<times> Tone option) list"
  hc_accent :: Accent

definition counted :: "nat \<Rightarrow> jstring \<Rightarrow> jstring \<Rightarrow> jstring" where
  "counted n one many = (if n = 1 then one else many)"

definition count_card :: "(rat \<Rightarrow> jstring) \<Rightarrow> list_stats \<Rightarrow> hero_card" where
  "count_card fm st = \<lparr>hc_title = ''Transactions'', hc_value = int_str (int (ls_totalCount st)),
     hc_suffix = Some (counted (ls_totalCount st) ''item'' ''items''),
     hc_subtext = Some (''Net flow '' @ fm (ls_totalShown st)),
     hc_pills = (if 0 < ls_pendingCount st then [(int_str (int (ls_pendingCount st)) @ '' pending'', Some Warning)] else []),
     hc_accent = accentFromIndex (Some 1)\<rparr>"

definition spent_card :: "(rat \<Rightarrow> jstring) \<Rightarrow> list_stats \<Rightarrow> hero_card" where
  "spent_card fm st = \<lparr>hc_title = ''Total spent'', hc_value = fm (ls_totalSpent st), hc_suffix = None,
     hc_subtext = Some (int_str (int (ls_spendingCount st)) @ '' '' @ counted (ls_spendingCount st) ''spend item'' ''spend items''),
     hc_pills = [], hc_accent = Rose\<rparr>"

definition average_card :: "(rat \<Rightarrow> jstring) \<Rightarrow> list_stats \<Rightarrow> hero_card" where
  "average_card fm st = \<lparr>hc_title = ''Average size'', hc_value = fm (ls_avgTransaction st), hc_suffix = None,
     hc_subtext = (if truthy (ls_categoryDriver st) then ls_categoryDriver st else None), hc_pills = [],
     hc_accent = accentFromIndex (Some 3)\<rparr>"

definition largest_card :: "(rat \<Rightarrow> jstring) \<Rightarrow> list_stats \<Rightarrow> hero_card" where
  "largest_card fm st = \<lparr>hc_title = ''Largest size'',
     hc_value = (case ls_largestTransaction st of Some t \<Rightarrow> fm \<bar>getDisplayAmount t\<bar> | None \<Rightarrow> fm 0),
     hc_suffix = None, hc_subtext = None,
     hc_pills = (case ls_largestTransaction st of
         Some t \<Rightarrow> if 1 < ls_totalCount st then [(str_or (tx_merchant t) (tx_name t), None)] else []
       | None \<Rightarrow> []),
     hc_accent = accentFromIndex (Some 4)\<rparr>"

definition budget_hero :: "budget_card \<Rightarrow> hero_card" where
  "budget_hero b = \<lparr>hc_title = bc_title b, hc_value = bc_value b, hc_suffix = bc_suffix b,
     hc_subtext = Some (bc_subtext b), hc_pills = map (\<lambda>(l, t). (l, Some t)) (bc_pills b), hc_accent = bc_accent b\<rparr>"

definition transaction_cards :: "(rat \<Rightarrow> jstring) \<Rightarrow> list_stats \<Rightarrow> budget_card \<Rightarrow> hero_card list" where
  "transaction_cards fm st b = [count_card fm st, spent_card fm st, average_card fm st, largest_card fm st, budget_hero b]"

section \<open>Accounts and paging\<close>

definition account_click :: "jstring option \<Rightarrow> ProviderAccount \<Rightarrow> jstring option" where
  "account_click selectedAccountId account = (if selectedAccountId = Some (pa_id account) then None else Some (pa_id account))"

definition account_pill_title :: "jstring \<Rightarrow> jstring option \<Rightarrow> ProviderAccount \<Rightarrow> jstring" where
  "account_pill_title bullet selectedAccountId account = (let title = formatAccountOptionTitle bullet account in
     if selectedAccountId = Some (pa_id account) then ''Remove account filter: '' @ title else ''Filter by '' @ title)"

definition onPrev :: "nat \<Rightarrow> nat" where
  "onPrev currentPage = max 1 (currentPage - 1)"

definition onNext :: "nat \<Rightarrow> nat \<Rightarrow> nat" where
  "onNext lastPage currentPage = min lastPage (currentPage + 1)"

section \<open>The texts of the dialog\<close>

definition selected_name :: "jstring option \<Rightarrow> jstring option \<Rightarrow> jstring option" where
  "selected_name category subcategory = (if truthy subcategory then subcategory
     else if truthy category then category else None)"

definition modal_title :: "jstring option \<Rightarrow> jstring option \<Rightarrow> Budget option \<Rightarrow> jstring" where
  "modal_title category subcategory matched = (case selected_name category subcategory of
     None \<Rightarrow> ''Manage Budgets''
   | Some name \<Rightarrow> (case matched of Some _ \<Rightarrow> ''Edit Budget: '' | None \<Rightarrow> ''Set Budget: '') @ formatCategoryName (Some name) @
       (if truthy subcategory \<and> truthy category \<and> subcategory \<noteq> category
        then '' ('' @ formatCategoryName category @ '')'' else []))"

definition modal_subtitle :: "(rat \<Rightarrow> jstring) \<Rightarrow> jstring \<Rightarrow> jstring option \<Rightarrow> jstring option \<Rightarrow> MonthYearSelection \<Rightarrow>
    rat \<Rightarrow> rat \<Rightarrow> jstring" where
  "modal_subtitle fm bullet category subcategory period spent ytdSpent =
     (if selected_name category subcategory = None
      then ''Configure monthly spending targets, frequencies, and rollover tracking across categories''
      else if sel_month period = None then ''Spend: '' @ fm spent @ '' in '' @ int_str (sel_year period)
      else ''Spend: '' @ fm spent @ '' this month '' @ bullet @ '' '' @ fm ytdSpent @ '' Year-To-Date ('' @
        int_str (sel_year period) @ '')'')"

definition ytd_label :: "jstring \<Rightarrow> MonthYearSelection \<Rightarrow> jstring" where
  "ytd_label category period = (if toLowerCase (resolveMajorCategory (Some category) []) = ''insurance''
     then ''Year-To-Date spent on all insurances:'' else ''Year-To-Date spent in '' @ int_str (sel_year period) @ '':'')"

definition rate_text :: "(rat \<Rightarrow> jstring) \<Rightarrow> BudgetFrequency \<Rightarrow> RolloverBudgetResult \<Rightarrow> jstring option" where
  "rate_text fm f r = (if f \<noteq> Monthly
     then Some (fm (rb_periodAmount r) @ '' every '' @ int_str (rb_periodMultiplier r) @ '' months'') else None)"

text \<open>The preview, shown for a positive amount: its rows, and the rest in red or green.\<close>

record preview_box =
  pb_rate :: "jstring option"
  pb_rows :: "(jstring \<times> jstring) list"
  pb_over :: bool
  pb_ytd :: "jstring \<times> jstring"

definition preview_box_of :: "(rat \<Rightarrow> jstring) \<Rightarrow> MonthYearSelection \<Rightarrow> budget_modal \<Rightarrow> RolloverBudgetResult option \<Rightarrow> preview_box option" where
  "preview_box_of fm period s preview = (case preview of None \<Rightarrow> None
     | Some r \<Rightarrow>
       if (case number_of_string (bm_amount s) of Fin q \<Rightarrow> 0 < q | PosInf \<Rightarrow> True | _ \<Rightarrow> False) then
         Some \<lparr>pb_rate = rate_text fm (bm_frequency s) r,
           pb_rows = [(''Monthly Target'', fm (rb_monthlyAmount r) @ '' / mo'')] @
             (if bm_rollover s then [(''Rollover Pool'', ''+'' @ fm (rb_priorCarryover r))] else []) @
             [(''Spent This Month'', fm (rb_monthSpent r)),
              (if bm_rollover s then ''Available This Month'' else ''Remaining'',
               fm (if bm_rollover s then rb_availableThisMonth r else rb_remainingThisMonth r))],
           pb_over = rb_isOverBudget r,
           pb_ytd = (ytd_label (bm_category s) period, fm (rb_ytdSpent r))\<rparr>
       else None)"

text \<open>The choices of the select: each major category that is budgeted, with its subcategories.\<close>

definition budget_options :: "(jstring \<times> (jstring \<times> jstring) list) list" where
  "budget_options = map (\<lambda>c. (cat_name c, (cat_name c, cat_name c @ '' (All)'') #
       map (\<lambda>sub. (sub, sub)) (cat_subcategories c)))
     (filter (\<lambda>c. cat_type c \<noteq> Exclude_from_Budget) CATEGORIES_TAXONOMY)"

text \<open>A line of the list of active budgets.\<close>

record budget_line =
  bl_name :: jstring
  bl_parent :: "jstring option"
  bl_freqBadge :: "jstring option"
  bl_rollover :: bool
  bl_over :: bool
  bl_percent :: jstring
  bl_spent :: jstring
  bl_roll :: "jstring option"
  bl_ytd :: jstring

definition freqBadge :: "Budget \<Rightarrow> jstring option" where
  "freqBadge b = (let freq = default_to (bd_frequency b) Monthly in
     if freq = Semi_annual then Some ''Twice / yr'' else if freq = Quarterly then Some ''Every 3 mos''
     else if freq = Annual then Some ''Yearly'' else None)"

definition budget_line_of :: "(rat \<Rightarrow> jstring) \<Rightarrow> date_env \<Rightarrow> Transaction list \<Rightarrow> MonthYearSelection \<Rightarrow> Budget \<Rightarrow> budget_line result" where
  "budget_line_of fm e ytd period b = (case computeRolloverBudget e b ytd period None of
     Inl err \<Rightarrow> Inl err
   | Inr r \<Rightarrow> (let parent = resolveMajorCategory (Some (bd_category b)) []; rollover = (bd_rollover b = Some True) in
       Inr \<lparr>bl_name = formatCategoryName (Some (bd_category b)),
         bl_parent = (if toLowerCase parent \<noteq> toLowerCase (bd_category b) then Some (''in '' @ parent) else None),
         bl_freqBadge = freqBadge b, bl_rollover = rollover, bl_over = rb_isOverBudget r,
         bl_percent = int_str (rb_percentageUsed r) @ ''%'',
         bl_spent = fm (rb_monthSpent r) @ '' of '' @
           (if rollover then fm (rb_availableThisMonth r) @ '' available'' else fm (bd_amount b)),
         bl_roll = (if rollover \<and> 0 < rb_priorCarryover r then Some (''(+'' @ fm (rb_priorCarryover r) @ '' roll)'') else None),
         bl_ytd = fm (rb_ytdSpent r) @ '' YTD''\<rparr>))"

section \<open>The dialog as a machine\<close>

text \<open>The select of the manage view, and the pencil of a line.\<close>

definition load_form :: "Budget option \<Rightarrow> budget_modal \<Rightarrow> budget_modal" where
  "load_form existing s = (case existing of
     Some b \<Rightarrow> s\<lparr>bm_amount := num_str (bd_amount b), bm_frequency := default_to (bd_frequency b) Monthly,
       bm_rollover := (bd_rollover b = Some True)\<rparr>
   | None \<Rightarrow> s\<lparr>bm_amount := [], bm_frequency := Monthly, bm_rollover := False\<rparr>)"

definition choose_category :: "jstring \<Rightarrow> budget_modal \<Rightarrow> budget_modal" where
  "choose_category val s = load_form (find_budget val (bm_budgets s)) (s\<lparr>bm_category := val\<rparr>)"

definition edit_line :: "Budget \<Rightarrow> budget_modal \<Rightarrow> budget_modal" where
  "edit_line b s = load_form (Some b) (s\<lparr>bm_category := bd_category b\<rparr>)"

definition save_disabled :: "bool \<Rightarrow> budget_modal \<Rightarrow> bool" where
  "save_disabled managing s \<longleftrightarrow> bm_saving s \<or> managing \<and> (bm_category s = [] \<or> bm_amount s = [])"

datatype dialog_action = Open_dialog "jstring option" | Choose jstring | Edit_line Budget | Enter_amount jstring
  | Pick_frequency BudgetFrequency | Tick_rollover bool | Close_dialog
  | Save "budget_request \<Rightarrow> exn + unit" "exn + Budget list" | Delete jstring "exn + unit" "exn + Budget list"
  | Reloaded "exn + Budget list"

text \<open>
  Only what is shown can be used: the select and the lines belong to the view without a selection, a
  button that is disabled does nothing. The requests that were sent are kept.
\<close>

definition managing :: "jstring option \<Rightarrow> jstring option \<Rightarrow> bool" where
  "managing category subcategory \<longleftrightarrow> selected_name category subcategory = None"

fun dialog_act :: "MonthYearSelection \<Rightarrow> jstring option \<Rightarrow> jstring option \<Rightarrow> dialog_action \<Rightarrow>
    budget_modal \<times> budget_request list \<Rightarrow> budget_modal \<times> budget_request list" where
  "dialog_act p c sc (Open_dialog target) (s, out) = (handleOpenBudgetModal target c sc s, out)"
| "dialog_act p c sc (Choose v) (s, out) = (if bm_open s \<and> managing c sc then (choose_category v s, out) else (s, out))"
| "dialog_act p c sc (Edit_line b) (s, out) =
     (if bm_open s \<and> managing c sc \<and> b \<in> set (bm_budgets s) then (edit_line b s, out) else (s, out))"
| "dialog_act p c sc (Enter_amount t) (s, out) = (if bm_open s then (s\<lparr>bm_amount := t\<rparr>, out) else (s, out))"
| "dialog_act p c sc (Pick_frequency f) (s, out) = (if bm_open s then (s\<lparr>bm_frequency := f\<rparr>, out) else (s, out))"
| "dialog_act p c sc (Tick_rollover r) (s, out) = (if bm_open s then (s\<lparr>bm_rollover := r\<rparr>, out) else (s, out))"
| "dialog_act p c sc Close_dialog (s, out) = (s\<lparr>bm_open := False\<rparr>, out)"
| "dialog_act p c sc (Save send reload) (s, out) =
     (if \<not> bm_open s \<or> save_disabled (managing c sc) s then (s, out)
      else case handleSaveBudget p send reload s of (r, s') \<Rightarrow> (s', out @ (case r of Some q \<Rightarrow> [q] | None \<Rightarrow> [])))"
| "dialog_act p c sc (Delete i answer reload) (s, out) =
     (if \<not> bm_open s \<or> bm_saving s then (s, out) else (handleDeleteBudget answer reload s, out))"
| "dialog_act p c sc (Reloaded answer) (s, out) = (loadBudgets answer s, out)"

fun request_amount :: "budget_request \<Rightarrow> rat" where
  "request_amount (Update_budget i a f r st) = a"
| "request_amount (Create_budget n a f r st) = a"

section \<open>Properties\<close>

text \<open>The paging buttons never leave the pages.\<close>

theorem paging_within:
  assumes "1 \<le> currentPage" and "currentPage \<le> totalPages n pageSize"
  shows "1 \<le> onPrev currentPage \<and> onPrev currentPage \<le> totalPages n pageSize \<and>
    1 \<le> onNext (totalPages n pageSize) currentPage \<and> onNext (totalPages n pageSize) currentPage \<le> totalPages n pageSize \<and>
    (currentPage < totalPages n pageSize \<longrightarrow> onPrev (onNext (totalPages n pageSize) currentPage) = currentPage)"
  using assms by (auto simp: onPrev_def onNext_def)

theorem paging_within_witness: "onNext (totalPages 12 10) 2 \<le> totalPages 12 10"
  using paging_within [of 2 12 10] by (simp add: totalPages_def)

text \<open>
  A value of the select need not stand for one entry of the taxonomy: choosing the insurance of pets
  chooses all insurances.
\<close>

definition option_values :: "jstring list" where
  "option_values = concat (map (\<lambda>g. map fst (snd g)) budget_options)"

theorem insurance_option_ambiguous:
  "count_list option_values ''Insurance'' = 2 \<and>
   map fst (filter (\<lambda>g. ''Insurance'' \<in> set (map fst (snd g))) budget_options) = [''Insurance'', ''Pets'']"
  by code_simp

lemma positive_number_pos: "positive_number x = Some q \<Longrightarrow> 0 < q"
  by (auto simp: positive_number_def split: jsnum.splits if_splits)

lemma save_request:
  assumes "handleSaveBudget p send reload s = (Some r, s')"
  shows "\<exists>a. positive_number (number_of_string (bm_amount s)) = Some a \<and> r = budget_request_of p a s \<and> bm_category s \<noteq> []"
  using assms by (auto simp: handleSaveBudget_def Let_def split: if_splits option.splits)

lemma handleSave_saving: "\<not> bm_saving s \<Longrightarrow> \<not> bm_saving (snd (handleSaveBudget p send reload s))"
  by (simp add: handleSaveBudget_def Let_def split: option.split sum.split)

definition dialog_fine :: "budget_modal \<times> budget_request list \<Rightarrow> bool" where
  "dialog_fine r \<longleftrightarrow> \<not> bm_saving (fst r) \<and> list_all (\<lambda>q. 0 < request_amount q) (snd r)"

lemma dialog_act_fine:
  assumes "dialog_fine (s, out)"
  shows "dialog_fine (dialog_act p c sc e (s, out))"
proof (cases e)
  case (Save send reload)
  obtain r s' where h: "handleSaveBudget p send reload s = (r, s')" by fastforce
  have "\<not> bm_saving s'" using handleSave_saving [of s p send reload] assms by (simp add: h dialog_fine_def)
  moreover have "0 < request_amount q" if "r = Some q" for q
    using save_request [of p send reload s q s'] h that positive_number_pos
    by (auto simp: budget_request_of_def split: option.splits)
  ultimately show ?thesis using assms Save h by (auto simp: dialog_fine_def split: option.split)
qed (use assms in \<open>auto simp: dialog_fine_def handleOpenBudgetModal_def choose_category_def edit_line_def load_form_def
    handleDeleteBudget_def loadBudgets_def Let_def split: option.split sum.split\<close>)

interpretation budget_dialog: event_machine "dialog_act p c sc" "\<lambda>s e. True"
  "\<lambda>r. r = (initial_modal, [])" dialog_fine
proof
  fix r e
  assume "dialog_fine r"
  then show "dialog_fine (dialog_act p c sc e r)" by (metis dialog_act_fine prod.exhaust)
qed (simp add: dialog_fine_def initial_modal_def)

text \<open>
  C32. Whatever is clicked and typed in the dialog, and whatever the server answers, every request it sends
  is for more than zero; and each is an update of a budget that is listed for its category, or makes
  one for a category that has none.
\<close>

theorem dialog_requests_valid:
  assumes "fold (dialog_act p c sc) es (initial_modal, []) = (s, out)"
  shows "list_all (\<lambda>q. 0 < request_amount q) out \<and>
    (\<forall>i a f r st. snd (dialog_act p c sc e (s, out)) = out @ [Update_budget i a f r st] \<longrightarrow>
       (\<exists>b \<in> set (bm_budgets s). bd_id b = i \<and> category_is (bm_category s) b)) \<and>
    (\<forall>n a f r st. snd (dialog_act p c sc e (s, out)) = out @ [Create_budget n a f r st] \<longrightarrow>
       n = trim (bm_category s) \<and> \<not> list_ex (category_is (bm_category s)) (bm_budgets s))"
proof -
  have "dialog_fine (fold (dialog_act p c sc) es (initial_modal, []))" by (rule budget_dialog.invar_fold) auto
  then have "list_all (\<lambda>q. 0 < request_amount q) out" using assms by (simp add: dialog_fine_def)
  moreover have req: "\<exists>a. r = budget_request_of p a s" if "snd (dialog_act p c sc e (s, out)) = out @ [r]" for r
  proof (cases e)
    case (Save send reload)
    obtain q s' where h: "handleSaveBudget p send reload s = (q, s')" by fastforce
    then have "q = Some r" using that Save by (auto split: if_splits option.splits)
    then show ?thesis using save_request [of p send reload s r s'] h by blast
  qed (use that in \<open>auto split: if_splits\<close>)
  moreover have "\<exists>b \<in> set (bm_budgets s). bd_id b = i \<and> category_is (bm_category s) b"
    if "Update_budget i a f r st = budget_request_of p a' s" for i a f r st a'
    using that unfolding budget_request_of_def find_budget_def
    by (auto split: option.splits simp: find_Some_iff)
  moreover have "n = trim (bm_category s) \<and> \<not> list_ex (category_is (bm_category s)) (bm_budgets s)"
    if "Create_budget n a f r st = budget_request_of p a' s" for n a f r st a'
    using that unfolding budget_request_of_def find_budget_def
    by (auto split: option.splits simp: find_None_iff list_ex_iff)
  ultimately show ?thesis by blast
qed

theorem dialog_requests_valid_witness:
  "list_all (\<lambda>q. 0 < request_amount q) (snd (fold (dialog_act \<lparr>sel_year = 2024, sel_month = Some 2\<rparr> None None)
     [Open_dialog None, Choose ''Dining'', Enter_amount ''-5'', Save (\<lambda>_. Inr ()) (Inr []), Enter_amount ''5'',
      Save (\<lambda>_. Inr ()) (Inr [])] (initial_modal, [])))"
proof -
  obtain s out where r: "fold (dialog_act \<lparr>sel_year = 2024, sel_month = Some 2\<rparr> None None)
     [Open_dialog None, Choose ''Dining'', Enter_amount ''-5'', Save (\<lambda>_. Inr ()) (Inr []), Enter_amount ''5'',
      Save (\<lambda>_. Inr ()) (Inr [])] (initial_modal, []) = (s, out)" by fastforce
  show ?thesis using dialog_requests_valid [OF r, of Close_dialog] unfolding r by simp
qed

text \<open>
  A budget opened for editing and saved as it is sends what is stored: its amount, its frequency and
  its rollover with the month it started.
\<close>

theorem saved_unchanged:
  assumes "find_budget (bd_category b) (bm_budgets s) = Some b" and "decimal (bd_amount b)" and "0 < bd_amount b"
    and "bd_category b \<noteq> []" and "bm_open s" and "\<not> bm_saving s" and "managing c sc" and "bd_frequency b = Some f"
    and "bd_rollover b = Some True" and "bd_rollover_start_month b = Some (x # m)"
  shows "snd (dialog_act p c sc (Save send reload) (dialog_act p c sc (Choose (bd_category b)) (s, out))) =
    out @ [Update_budget (bd_id b) (bd_amount b) f True (Some (x # m))]"
proof -
  let ?s = "choose_category (bd_category b) s"
  have s: "?s = s\<lparr>bm_category := bd_category b, bm_amount := num_str (bd_amount b), bm_frequency := f, bm_rollover := True\<rparr>"
    using assms(1,8,9) by (simp add: choose_category_def load_form_def)
  have n: "number_of_string (num_str (bd_amount b)) = Fin (bd_amount b)" by (rule number_of_num_str [OF assms(2)])
  then have "num_str (bd_amount b) \<noteq> []" using assms(3) by (auto simp: number_of_string_def)
  then have "\<not> save_disabled (managing c sc) ?s" using assms by (simp add: save_disabled_def s)
  moreover have "positive_number (Fin (bd_amount b)) = Some (bd_amount b)" using assms(3) by (simp add: positive_number_def)
  ultimately show ?thesis using assms n
    by (simp add: s handleSaveBudget_def budget_request_of_def rolloverStart_def Let_def split: sum.split)
qed

theorem saved_unchanged_witness:
  "let p = \<lparr>sel_year = 2024, sel_month = Some 2\<rparr>; b = \<lparr>bd_id = ''7'', bd_category = ''Travel'', bd_amount = 120, bd_frequency = Some Annual, bd_rollover = Some True,
       bd_rollover_start_month = Some ''2024-02'', bd_created_at = None\<rparr>;
     s = initial_modal\<lparr>bm_open := True, bm_budgets := [b]\<rparr>
   in snd (dialog_act p None None (Save (\<lambda>_. Inr ()) (Inr [])) (dialog_act p None None (Choose ''Travel'') (s, []))) =
     [Update_budget ''7'' 120 Annual True (Some ''2024-02'')]"
proof -
  let ?b = "\<lparr>bd_id = ''7'', bd_category = ''Travel'', bd_amount = 120, bd_frequency = Some Annual, bd_rollover = Some True,
       bd_rollover_start_month = Some ''2024-02'', bd_created_at = None\<rparr>"
  have "find_budget ''Travel'' [?b] = Some ?b" by (simp add: find_budget_def category_is_def)
  then show ?thesis
    unfolding Let_def using saved_unchanged [of ?b "initial_modal\<lparr>bm_open := True, bm_budgets := [?b]\<rparr>" None None Annual]
    by (simp add: initial_modal_def managing_def selected_name_def truthy_def decimal_def)
qed

end
