(* ===== verification/Accounts_View.thy ===== *)
theory Accounts_View
  imports Accounts_Page Connect_Step Budget_Dialog
begin

text \<open>
  What \<^verbatim>\<open>views/AccountsPage.tsx\<close> shows of the state that \<open>Accounts_Page\<close> keeps: which of its
  four screens, the buttons with their labels and when they are disabled, the three cards at the top,
  and the sections of the accounts kept by hand with the message about the rate of a currency. The
  lemmas say which screens a run reaches, that an error screen is final, and that what is shown (the
  health of the connections, the converted amount, the equity) is what the state holds.
\<close>

section \<open>Screens\<close>

record choice_card =
  cc_provider :: FinancialProvider
  cc_card :: provider_card
  cc_disabled :: bool
  cc_label :: jstring

datatype accounts_screen = Catalogue_pending | Catalogue_failed jstring
  | Provider_choice "choice_card list" | Accounts_of FinancialProvider

text \<open>\<open>dots\<close> is the ellipsis, a character beyond those of the model.\<close>

definition choice_card_of :: "jstring \<Rightarrow> provider_page \<Rightarrow> FinancialProvider \<Rightarrow> choice_card" where
  "choice_card_of dots s p = (let details = PROVIDER_CARD_CONFIG p; selecting = pp_selecting s = Some p in
     \<lparr>cc_provider = p, cc_card = details, cc_disabled = selecting,
      cc_label = (if selecting then ''Selecting'' @ dots else ''Use '' @ pd_title details)\<rparr>)"

definition availableProviders :: "provider_info \<Rightarrow> FinancialProvider list" where
  "availableProviders s = (case pi_catalogue s of None \<Rightarrow> [] | Some c \<Rightarrow> tp_available c)"

definition accounts_screen_of :: "jstring \<Rightarrow> provider_page \<Rightarrow> accounts_screen" where
  "accounts_screen_of dots s = (let info = pp_info s in
     if pi_loading info then Catalogue_pending
     else if truthy (pi_error info) then Catalogue_failed (the (pi_error info))
     else (case selectedProvider info of
       None \<Rightarrow> Provider_choice (map (choice_card_of dots s) (filter (\<lambda>p. p = Plaid) (availableProviders info)))
     | Some p \<Rightarrow> Accounts_of p))"

definition providerLabel :: "FinancialProvider \<Rightarrow> jstring" where
  "providerLabel p = pd_title (PROVIDER_CARD_CONFIG p)"

definition providerDescription :: "FinancialProvider \<Rightarrow> jstring" where
  "providerDescription p = (if p = Plaid
     then ''Securely connect institutions with Plaid. Your credentials never touch Sumurai and you can revoke access at any time.''
     else ''Launch Teller Connect to link accounts using your own Teller credentials. Connections stay in your control and can be revoked instantly.'')"

definition syncFooter :: "FinancialProvider \<Rightarrow> jstring" where
  "syncFooter p = (if p = Plaid then ''Plaid keeps credentials read-only and disconnectable anytime.''
     else ''Teller connections respect your API keys and can be rotated from your Teller dashboard.'')"

section \<open>Buttons\<close>

record page_button =
  pb_label :: jstring
  pb_disabled :: bool

definition hasConnections :: "page_summary \<Rightarrow> bool" where
  "hasConnections u \<longleftrightarrow> 0 < su_institutions u"

definition connectDisabled :: "provider_page \<Rightarrow> bool" where
  "connectDisabled s \<longleftrightarrow> pp_selecting s \<noteq> None"

definition sync_button :: "bool \<Rightarrow> bool \<Rightarrow> page_button" where
  "sync_button syncingAll flowLoading = \<lparr>pb_label = (if syncingAll then ''Syncing...'' else ''Sync all''),
     pb_disabled = (syncingAll \<or> flowLoading)\<rparr>"

definition page_actions :: "bool \<Rightarrow> bool \<Rightarrow> page_summary \<Rightarrow> provider_page \<Rightarrow> page_button list" where
  "page_actions syncingAll flowLoading u s =
     (if hasConnections u then [sync_button syncingAll flowLoading] else []) @
     [\<lparr>pb_label = ''Launch Plaid Link'', pb_disabled = connectDisabled s\<rparr>]"

section \<open>The cards at the top\<close>

definition formatAbsoluteTime :: "(jstring \<Rightarrow> int option) \<Rightarrow> (int \<Rightarrow> jstring) \<Rightarrow> jstring \<Rightarrow> jstring" where
  "formatAbsoluteTime parse show_time stamp =
     (case parse stamp of None \<Rightarrow> ''Unknown timestamp'' | Some t \<Rightarrow> show_time t)"

definition institutions_card :: "page_summary \<Rightarrow> hero_card" where
  "institutions_card u = \<lparr>hc_title = ''Active institutions'',
     hc_value = int_str (if hasConnections u then int (su_connectedInstitutions u) else 0),
     hc_suffix = Some (''out of '' @ int_str (int (su_institutions u))),
     hc_subtext = Some (if hasConnections u
       then if su_connectedInstitutions u = su_institutions u then ''All connections healthy''
            else int_str (pendingInstitutions u) @ '' '' @
              (if pendingInstitutions u = 1 then ''needs'' else ''need'') @ '' attention''
       else ''Link your first institution''),
     hc_pills = [], hc_accent = accentFromIndex (Some 1)\<rparr>"

definition accounts_card :: "page_summary \<Rightarrow> hero_card" where
  "accounts_card u = \<lparr>hc_title = ''Accounts tracked'', hc_value = int_str (int (su_accounts u)),
     hc_suffix = Some (counted (su_accounts u) ''account'' ''accounts''),
     hc_subtext = Some (if su_accounts u \<noteq> 0 then ''Balances stay in sync automatically''
       else ''Connect to start syncing''),
     hc_pills = [], hc_accent = accentFromIndex (Some 2)\<rparr>"

definition lastSyncDetail :: "(jstring \<Rightarrow> int option) \<Rightarrow> (int \<Rightarrow> jstring) \<Rightarrow> FinancialProvider \<Rightarrow> page_summary \<Rightarrow> jstring" where
  "lastSyncDetail parse show_time p u = (if truthy (su_latestSync u)
     then ''Refreshed '' @ formatAbsoluteTime parse show_time (the (su_latestSync u)) else syncFooter p)"

definition sync_card :: "(jstring \<Rightarrow> int option) \<Rightarrow> (int \<Rightarrow> jstring) \<Rightarrow> int \<Rightarrow> bool \<Rightarrow> bool \<Rightarrow> FinancialProvider \<Rightarrow>
    page_summary \<Rightarrow> hero_card" where
  "sync_card parse show_time now syncingAll flowLoading p u = \<lparr>hc_title = ''Last sync'',
     hc_value = lastSyncValue parse now syncingAll flowLoading u, hc_suffix = None,
     hc_subtext = Some (if syncingAll then ''Sync in progress'' else lastSyncDetail parse show_time p u),
     hc_pills = [], hc_accent = accentFromIndex (Some 3)\<rparr>"

section \<open>The accounts kept by hand\<close>

definition investments_text :: "manual_page \<Rightarrow> jstring" where
  "investments_text s = (let n = length (mp_investments s) in
     if n \<noteq> 0 then int_str (int n) @ '' account'' @ counted n [] ''s'' @ '' tracked''
     else ''Track brokerage, IRA, 401k, and foreign balances manually'')"

definition properties_text :: "manual_page \<Rightarrow> jstring" where
  "properties_text s = (let n = length (mp_properties s) in
     if n \<noteq> 0 then int_str (int n) @ '' asset'' @ counted n [] ''s'' @ '' tracked''
     else ''Track home value and mortgage principal manually'')"

definition investment_button :: "manual_page \<Rightarrow> page_button" where
  "investment_button s = \<lparr>pb_label = (if truthy (mp_editingId s) then ''Update'' else ''Add''),
     pb_disabled = (mp_rateLoading s \<or> mp_saving s)\<rparr>"

definition property_button :: "manual_page \<Rightarrow> page_button" where
  "property_button s = \<lparr>pb_label = (if truthy (mp_editingPropertyId s) then ''Update'' else ''Add''),
     pb_disabled = mp_propertySaving s\<rparr>"

text \<open>The line below the form of an investment; \<open>fm\<close> writes an amount of dollars.\<close>

definition rate_message :: "(rat \<Rightarrow> jstring) \<Rightarrow> manual_page \<Rightarrow> jstring" where
  "rate_message fm s = (let form = mp_form s; code = currency_code (mf_currency form) in
     if mp_rateLoading s then ''Loading currency rate...''
     else if truthy (mp_rateError s) then the (mp_rateError s)
     else if mf_currency form = USD then ''Saved as USD.''
     else ''Using '' @ code @ '' rate'' @
       (if truthy (mp_rateDate s) then '' from '' @ the (mp_rateDate s) else []) @ '': '' @
       str_or (Some (mf_balance_current form)) ''0'' @ '' '' @ code @ '' = '' @
       fm (manualConvertedUsd form) @ ''.'')"

record manual_row =
  mw_title :: jstring
  mw_detail :: jstring
  mw_updated :: "(jstring \<times> jstring) option"
  mw_balance :: rat
  mw_owed :: bool

definition updated_line :: "(jstring \<Rightarrow> int option) \<Rightarrow> (int \<Rightarrow> jstring) \<Rightarrow> int \<Rightarrow> jstring option \<Rightarrow> (jstring \<times> jstring) option" where
  "updated_line parse show_time now stamp = (if truthy stamp
     then Some (''Updated '' @ formatRelativeTime parse now (the stamp),
       ''Updated '' @ formatAbsoluteTime parse show_time (the stamp)) else None)"

definition property_row :: "(jstring \<Rightarrow> int option) \<Rightarrow> (int \<Rightarrow> jstring) \<Rightarrow> int \<Rightarrow> jstring option \<Rightarrow> Account \<Rightarrow> manual_row" where
  "property_row parse show_time now stamp account = \<lparr>mw_title = acct_name account,
     mw_detail = (if acct_account_type account = ''loan'' then ''Mortgage'' else ''Property''),
     mw_updated = updated_line parse show_time now stamp,
     mw_balance = parseAccountBalance (acct_balance_current account),
     mw_owed = (acct_account_type account = ''loan'')\<rparr>"

definition investment_row :: "jstring \<Rightarrow> (jstring \<Rightarrow> int option) \<Rightarrow> (int \<Rightarrow> jstring) \<Rightarrow> int \<Rightarrow> jstring option \<Rightarrow> Account \<Rightarrow>
    manual_row" where
  "investment_row bullet parse show_time now stamp account = \<lparr>mw_title = formatManualInvestmentTitle account,
     mw_detail = formatManualInvestmentDetail bullet account @
       (if truthy (acct_mask account) then bullet @ the (acct_mask account) else []),
     mw_updated = updated_line parse show_time now stamp,
     mw_balance = parseAccountBalance (acct_balance_current account), mw_owed = False\<rparr>"

section \<open>Which screens a run reaches\<close>

abbreviation connect_after :: "connect_event list \<Rightarrow> connect_run" where
  "connect_after es \<equiv> fold connect_handle es (initial_connect, [])"

lemma info_launch [simp]: "pp_info (launch_effect s) = pp_info s"
  by (simp add: launch_effect_def split: option.splits)

lemma info_select [simp]: "pp_info (begin_select p s) = pp_info s"
    "pp_info (end_select p answer s) = snd (chooseProvider p answer (pp_info s))"
  by (simp_all add: begin_select_def end_select_def split: prod.splits sum.splits)

lemma info_click [simp]: "pp_info (handleConnectProvider p s) = pp_info s"
  by (simp add: handleConnectProvider_def)

definition info_after :: "connect_event \<Rightarrow> provider_info \<Rightarrow> provider_info" where
  "info_after e i = (case e of Select_answered p answer \<Rightarrow> snd (chooseProvider p answer i)
     | Catalogue_loaded answer \<Rightarrow> end_info answer i | _ \<Rightarrow> i)"

lemma info_handle: "pp_info (fst (connect_handle e r)) = info_after e (pp_info (fst r))"
  by (cases r; cases e) (simp_all add: info_after_def)

lemma info_fold: "pp_info (fst (fold connect_handle es r)) = fold info_after es (pp_info (fst r))"
  by (induction es arbitrary: r) (simp_all add: info_handle)

definition info_ok :: "provider_info \<Rightarrow> bool" where
  "info_ok i \<longleftrightarrow> pi_loading i \<or> truthy (pi_error i) \<or> pi_catalogue i \<noteq> None"

interpretation info_flow: event_machine info_after "\<lambda>_ _. True" "\<lambda>i. i = pp_info initial_connect" info_ok
proof
  show "info_ok i" if "i = pp_info initial_connect" for i
    using that by (simp add: info_ok_def initial_connect_def)
  show "info_ok (info_after e i)" if "info_ok i" for e i
    using that by (cases e) (auto simp: info_ok_def info_after_def chooseProvider_def end_info_def truthy_def Let_def
        split: sum.splits)
qed

text \<open>
  C35. The screen that asks for a provider is never shown: a catalogue that has loaded always has a
  provider selected, because a missing or unknown default is read as Plaid.
\<close>

theorem choice_screen_unreachable:
  "accounts_screen_of dots (fst (connect_after es)) \<noteq> Provider_choice cards"
proof -
  have "info_ok (pp_info (fst (connect_after es)))"
    using info_flow.invar_fold [of "pp_info initial_connect" es] by (simp add: info_fold)
  then show ?thesis
    by (auto simp: accounts_screen_of_def info_ok_def selectedProvider_def Let_def split: option.splits)
qed

lemma error_kept:
  assumes "\<not> pi_loading i" "truthy (pi_error i)"
  shows "\<not> pi_loading (info_after e i) \<and> truthy (pi_error (info_after e i))"
  using assms by (cases e) (auto simp: info_after_def chooseProvider_def end_info_def truthy_def Let_def split: sum.splits)

lemma error_kept_fold:
  assumes "\<not> pi_loading i" "truthy (pi_error i)"
  shows "\<not> pi_loading (fold info_after es i) \<and> truthy (pi_error (fold info_after es i))"
  using assms by (induction es arbitrary: i) (simp_all add: error_kept)

text \<open>
  An error screen is final. One choice of a provider that the server refuses takes the place of the
  whole page, and no event of the page brings it back.
\<close>

theorem failed_choice_is_final:
  assumes "\<not> pi_loading (pp_info s)"
  shows "\<exists>message. accounts_screen_of dots (fst (fold connect_handle (Select_answered p (Inl x) # es) (s, clicks))) =
    Catalogue_failed message"
proof -
  let ?i = "info_after (Select_answered p (Inl x)) (pp_info s)"
  have "\<not> pi_loading ?i" "truthy (pi_error ?i)"
    using assms by (simp_all add: info_after_def chooseProvider_def truthy_def)
  then have "\<not> pi_loading (fold info_after es ?i) \<and> truthy (pi_error (fold info_after es ?i))"
    by (rule error_kept_fold)
  then show ?thesis by (simp only: fold_simps comp_apply info_fold info_handle fst_conv accounts_screen_of_def Let_def if_False if_True) blast
qed

theorem failed_choice_is_final_witness:
  "\<exists>message. accounts_screen_of ''...'' (fst (fold connect_handle
     [Select_answered Plaid (Inl (JsExn [])), Click_connect Plaid, Select_answered Plaid (Inr (Some ''plaid''))]
     (initial_connect\<lparr>pp_info := \<lparr>pi_loading = False, pi_error = None, pi_catalogue = None\<rparr>\<rparr>, []))) = Catalogue_failed message"
  by (rule failed_choice_is_final) simp

section \<open>What the buttons do\<close>

text \<open>
  On the accounts screen of either provider the button is enabled exactly when no choice of a
  provider is under way, and a click launches Plaid: at once where Plaid is selected, otherwise after
  the answer to the choice, which also shows the accounts of Plaid with the button enabled again.
\<close>

theorem connect_button_launches:
  assumes "accounts_screen_of dots s = Accounts_of q" "\<not> connectDisabled s"
  shows "if q = Plaid
    then pp_launched (fst (connect_handle (Click_connect Plaid) (s, clicks))) = pp_launched s @ [Plaid] @
      (if pp_pending s = Some Plaid then [Plaid] else [])
    else (let s1 = fst (connect_handle (Click_connect Plaid) (s, clicks));
              s2 = fst (connect_handle (Select_answered Plaid (Inr (Some ''plaid''))) (s1, clicks))
          in connectDisabled s1 \<and> pp_launched s1 = pp_launched s \<and> \<not> connectDisabled s2 \<and>
             pp_launched s2 = pp_launched s @ [Plaid] \<and> accounts_screen_of dots s2 = Accounts_of Plaid)"
proof -
  have n: "normalizeProvider (Some ''plaid'') = Some Plaid" by code_simp
  have i: "\<not> pi_loading (pp_info s)" "\<not> truthy (pi_error (pp_info s))" "selectedProvider (pp_info s) = Some q"
    using assms(1) by (auto simp: accounts_screen_of_def Let_def split: if_splits option.splits)
  show ?thesis
  proof (cases "q = Plaid")
    case True
    then show ?thesis using i assms(2)
      by (auto simp: handleConnectProvider_def launch_effect_def connectDisabled_def split: option.splits)
  next
    case False
    then show ?thesis using i n
      by (auto simp: handleConnectProvider_def launch_effect_def connectDisabled_def begin_select_def
          end_select_def chooseProvider_def selectedProvider_def accounts_screen_of_def Let_def
          split: option.splits)
  qed
qed

theorem connect_button_launches_witness:
  "pp_launched (fst (connect_handle (Click_connect Plaid) (initial_connect\<lparr>pp_info := \<lparr>pi_loading = False,
     pi_error = None, pi_catalogue = Some \<lparr>tp_available = [Plaid], tp_default = Plaid, tp_user = None,
       tp_application_id = None, tp_environment = None\<rparr>\<rparr>\<rparr>, []))) = [Plaid]"
  using connect_button_launches [of "[]" "initial_connect\<lparr>pp_info := \<lparr>pi_loading = False,
     pi_error = None, pi_catalogue = Some \<lparr>tp_available = [Plaid], tp_default = Plaid, tp_user = None,
       tp_application_id = None, tp_environment = None\<rparr>\<rparr>\<rparr>" Plaid "[]"]
  by (simp add: accounts_screen_of_def Let_def truthy_def connectDisabled_def initial_connect_def selectedProvider_def)

section \<open>What is shown is what is held\<close>

lemma summary_counts:
  "su_institutions (page_summary_of parse s connections) = length connections"
  "su_connectedInstitutions (page_summary_of parse s connections) = length (filter cn_isConnected connections)"
  using connected_le [of 0 "map bank_of connections"]
  by (simp_all add: page_summary_of_def Let_def filter_map comp_def bank_of_def)

text \<open>
  The card of the institutions says what the server holds: none, all of them connected, or how
  many are not.
\<close>

theorem institutions_card_truthful:
  "let u = page_summary_of parse s connections; broken = length (filter (\<lambda>c. \<not> cn_isConnected c) connections) in
   hc_value (institutions_card u) = int_str (int (length (filter cn_isConnected connections))) \<and>
   hc_subtext (institutions_card u) = Some (if connections = [] then ''Link your first institution''
     else if list_all cn_isConnected connections then ''All connections healthy''
     else int_str (int broken) @ '' '' @ counted broken ''needs'' ''need'' @ '' attention'')"
proof -
  let ?n = "length connections" and ?k = "length (filter cn_isConnected connections)"
  let ?b = "length (filter (\<lambda>c. \<not> cn_isConnected c) connections)"
  have eq: "?k + ?b = ?n" by (rule sum_length_filter_compl)
  have "?b = 0 \<longleftrightarrow> list_all cn_isConnected connections"
    by (simp add: filter_empty_conv list_all_iff)
  then have all: "?k = ?n \<longleftrightarrow> list_all cn_isConnected connections" using eq by linarith
  have "pendingInstitutions (page_summary_of parse s connections) = int ?b"
    using eq by (simp add: pendingInstitutions_def summary_counts)
  then show ?thesis
    by (simp add: Let_def institutions_card_def hasConnections_def summary_counts all counted_def)
qed

text \<open>
  The amount the line below the form converts to is, to the cent, the one a save sends, and a save
  sends only while that line shows no loading and no failure.
\<close>

theorem preview_is_sent:
  assumes "manualInvestmentPayload s = (Some p, s')"
  shows "mr_balance_current p = round2 (manualConvertedUsd (mp_form s)) \<and>
    rate_message fm s = (if mf_currency (mp_form s) = USD then ''Saved as USD.''
      else ''Using '' @ currency_code (mf_currency (mp_form s)) @ '' rate'' @
        (if truthy (mp_rateDate s) then '' from '' @ the (mp_rateDate s) else []) @ '': '' @
        str_or (Some (mf_balance_current (mp_form s))) ''0'' @ '' '' @ currency_code (mf_currency (mp_form s)) @
        '' = '' @ fm (manualConvertedUsd (mp_form s)) @ ''.'')"
  using investment_payload_sent [OF assms]
  by (auto simp: manualConvertedUsd_def rate_message_def Let_def truthy_def)

theorem preview_is_sent_witness:
  "round2 (manualConvertedUsd (mp_form (initial_accounts\<lparr>mp_form := emptyManualInvestmentForm\<lparr>mf_balance_current := ''12''\<rparr>\<rparr>))) = 12"
proof -
  let ?s = "initial_accounts\<lparr>mp_form := emptyManualInvestmentForm\<lparr>mf_balance_current := ''12''\<rparr>\<rparr>"
  have "fst (manualInvestmentPayload ?s) = Some \<lparr>mr_institution_name = ''Robinhood'', mr_name = ''Brokerage'',
      mr_account_type = None, mr_balance_current = 12, mr_mask = None\<rparr>" by code_simp
  moreover obtain r s' where r: "manualInvestmentPayload ?s = (r, s')" by (cases "manualInvestmentPayload ?s")
  ultimately have "manualInvestmentPayload ?s = (Some \<lparr>mr_institution_name = ''Robinhood'', mr_name = ''Brokerage'',
      mr_account_type = None, mr_balance_current = 12, mr_mask = None\<rparr>, s')" by simp
  from preview_is_sent [OF this, of "\<lambda>_. []"] show ?thesis by simp
qed

lemma signed_rows:
  "sum_list (map f (filter (\<lambda>a. acct_account_type a \<noteq> ''loan'') xs)) -
     sum_list (map f (filter (\<lambda>a. acct_account_type a = ''loan'') xs)) =
   sum_list (map (\<lambda>a. let row = property_row parse show_time now (stamp a) a in
     if mw_owed row then - mw_balance row else mw_balance row) xs)"
  if "f = (\<lambda>a. parseAccountBalance (acct_balance_current a))"
  unfolding that by (induction xs) (simp_all add: property_row_def Let_def)

text \<open>
  The equity is the sum of the balances listed, those in the colour of a debt taken off.
\<close>

theorem equity_is_listed:
  "manualHomeEquity s = sum_list (map (\<lambda>a. let row = property_row parse show_time now (stamp a) a in
     if mw_owed row then - mw_balance row else mw_balance row) (mp_properties s))"
  unfolding manualHomeEquity_def manual_total_def reduce_sum_eq by (rule signed_rows [OF refl])

text \<open>
  A property opened and saved as it is sends its name without outer spaces, its balance, and, for the
  two types the form offers, its type; real estate becomes a property.
\<close>

theorem property_saved_back:
  assumes "trim (acct_name account) \<noteq> []" "decimal (parseAccountBalance (acct_balance_current account))"
    "0 \<le> parseAccountBalance (acct_balance_current account)"
  shows "fst (manualPropertyPayload (editManualProperty account s)) = Some
    \<lparr>mr_institution_name = (if acct_account_type account = ''loan'' then ''Mortgage'' else ''Property''),
     mr_name = trim (acct_name account),
     mr_account_type = Some (if acct_account_type account = ''loan'' then ''loan'' else ''property''),
     mr_balance_current = parseAccountBalance (acct_balance_current account), mr_mask = None\<rparr>"
proof -
  define q where "q = parseAccountBalance (acct_balance_current account)"
  have "number_of_string (num_str q) = Fin q" using number_of_num_str assms(2) by (simp add: q_def)
  moreover have "nonnegative (Fin q) = Some q" using assms(3) by (simp add: nonnegative_def q_def)
  ultimately show ?thesis using assms(1)
    unfolding manualPropertyPayload_def editManualProperty_def Let_def q_def [symmetric]
    by (simp add: getManualPropertyInstitutionName_def asset_type_code_def)
qed

theorem property_saved_back_witness:
  "fst (manualPropertyPayload (editManualProperty \<lparr>acct_id = ''h'', acct_name = ''Cabin'', acct_provider = None,
     acct_account_type = ''real_estate'', acct_balance_ledger = JNull, acct_balance_available = JNull,
     acct_balance_current = JNum (Fin 5), acct_mask = None, acct_institution_name = None, acct_connection_id = None,
     acct_provider_connection_id = None, acct_plaid_connection_id = None, acct_provider_account_id = None,
     acct_ledger = JNull, acct_available = JNull, acct_institutionName = None\<rparr> initial_accounts)) = Some
    \<lparr>mr_institution_name = ''Property'', mr_name = ''Cabin'', mr_account_type = Some ''property'',
     mr_balance_current = 5, mr_mask = None\<rparr>"
proof -
  let ?a = "\<lparr>acct_id = ''h'', acct_name = ''Cabin'', acct_provider = None,
     acct_account_type = ''real_estate'', acct_balance_ledger = JNull, acct_balance_available = JNull,
     acct_balance_current = JNum (Fin 5), acct_mask = None, acct_institution_name = None, acct_connection_id = None,
     acct_provider_connection_id = None, acct_plaid_connection_id = None, acct_provider_account_id = None,
     acct_ledger = JNull, acct_available = JNull, acct_institutionName = None\<rparr>"
  have "(5 :: rat) * 10 ^ 20 = of_int (5 * 10 ^ 20)" by simp
  then have d: "decimal 5" unfolding decimal_def by (metis floor_of_int)
  have t: "trim ''Cabin'' = ''Cabin''" by code_simp
  have b: "parseAccountBalance (acct_balance_current ?a) = 5"
    by (simp add: parseAccountBalance_def fin_or_zero_def)
  have n: "acct_name ?a = ''Cabin''" "acct_account_type ?a = ''real_estate''" by simp_all
  show ?thesis
    using property_saved_back [of ?a initial_accounts] d unfolding b n t by simp
qed

end
