(* ===== verification/Spec2Isabelle.thy ===== *)
theory Spec2Isabelle
  imports Js_Date Categories Tag_Themes Transaction_Amounts Date_Ranges Transaction_Filter
    Account_Normalizer Budget_Calculator Dashboard_Calculator Sankey_Calculator
    Data_Services Transaction_Page Provider_Services Budget_Book Plaid_Link Teller_Link
    Analytics_State Session_Manager Accounts_Page Category_Picker Trends_Page Budgets_Page Transactions_View Dashboard_View Transaction_Table Telemetry App_Shell Settings_View Error_Boundary Teller_Script Bank_Cards Connect_Step View_Widgets Budget_Dialog Accounts_View
begin

text \<open>
  The logic of the Sumurai frontend (\<^verbatim>\<open>frontend/src\<close>, TypeScript): a personal finance
  client. Domain modules compute budgets, forecasts and cash flows from the transactions; services
  talk to the server through one API client; React hooks keep the state of the pages and change it
  with the answers. The model follows these three layers.

  \<^bold>\<open>The language.\<close> \<open>Js_Prelude\<close>, \<open>Js_Chars\<close>, \<open>Js_Collections\<close>, \<open>Js_Date\<close> and \<open>Js_Json\<close>
  hold what the source uses of JavaScript: strings of code units with case, trim, search and
  replace; numbers as exact rationals with infinities and \<^verbatim>\<open>NaN\<close> (\<open>jsnum\<close>) and their
  conversions; the stable sort with a comparator; \<^verbatim>\<open>Map\<close> and \<^verbatim>\<open>Set\<close> in insertion order;
  dates by the day arithmetic of ECMA-262; JSON values, number printing and the query encoding of
  \<^verbatim>\<open>URLSearchParams\<close> with its decoding. \<open>Transition_Systems\<close> holds the interfaces of the state
  machines (\<open>transition_system\<close>, \<open>event_machine\<close>). The locales \<open>comparator\<close> and \<open>keyed_store\<close>
  are the contracts of sorting and of maps; \<open>optimistic_operation\<close> is the one of an edit shown
  before the server answers. Each is interpreted on the definitions of the model.

  \<^bold>\<open>Domain modules.\<close> \<open>Api_Types\<close> has the wire types of \<^verbatim>\<open>types/api.ts\<close>. \<open>Categories\<close> is
  \<^verbatim>\<open>utils/categories.ts\<close> with its whole taxonomy: it shows what a label resolves to, that the
  resolution ignores case and surrounding space, and that display names settle. \<open>Tag_Themes\<close> has
  the 32-bit hash behind the colours, on \<^verbatim>\<open>int32\<close> words. \<open>Transaction_Amounts\<close> defines when a
  transaction is spending. \<open>Date_Ranges\<close> has the calendar keys and the ranges of
  \<^verbatim>\<open>utils/dateRanges.ts\<close>, each proved to hold exactly its days. \<open>Transaction_Filter\<close>,
  \<open>Account_Normalizer\<close>, \<open>Budget_Calculator\<close>, \<open>Dashboard_Calculator\<close> and \<open>Sankey_Calculator\<close> are
  the modules of \<^verbatim>\<open>domain/\<close>: filtering against its predicate; balances; what was spent, rollover
  budgets with their errors, composite budgets and statistics; the forecast of recurring charges
  and that it ends within its horizon; the cash-flow diagram, its totals and the validity of its
  links.

  \<^bold>\<open>Services.\<close> \<open>Http_Boundary\<close> maps every reply to a body or an error class. \<open>Auth_Session\<close> is
  the session of \<^verbatim>\<open>authService.ts\<close>: tokens in a storage that is a map, and the token hash whose
  computation ends in a step of its own. \<open>Api_Client\<close> is \<^verbatim>\<open>ApiClient.ts\<close>: retries with
  backoff and the refresh after a 401, a \<open>partial_function (option)\<close> because nothing in the code
  bounds the refreshes. \<open>None\<close> is a request that never settles; which requests settle, and after how
  many tries, is proved, and so is that one kind does not. \<open>Data_Services\<close> and \<open>Provider_Services\<close>
  are the services built on it; the query a request sends is proved to read back as the filters
  given.

  \<^bold>\<open>Page state.\<close> Each hook is a record of its state, the definitions of its operations, and, for
  an operation that awaits an answer, one definition for its start and one for its end, so that runs
  interleave freely. \<open>Account_Selection\<close> is the account filter, \<open>Transaction_List\<close> and
  \<open>Transaction_Page\<close> the transactions page (duplicates, rule patterns, pages, effects),
  \<open>Budget_Book\<close> the budgets page with its optimistic edits, \<open>Bank_Connections\<close>, \<open>Plaid_Link\<close> and
  \<open>Teller_Link\<close> the connections of the two providers, \<open>Analytics_State\<close> the loads of the
  dashboard and \<open>Onboarding\<close> registration and the first connection. Their lemmas are invariants
  of every run (reachability over the step relations), what each operation changes, that every
  operation settles whatever the server answers, and races that the code does not exclude.

  \<^bold>\<open>Pages and shell.\<close> On top of the hooks stand the pages of \<^verbatim>\<open>views/\<close> with the logic
  of their components. \<open>Session_Token\<close> reads the token of the session (base64, JSON, expiry),
  \<open>Session_Manager\<close> is the guard that warns, counts down and logs out, \<open>App_Shell\<close> the tabs, the
  month selector, the theme and the account filter of the header, \<open>Settings_View\<close> the settings.
  \<open>Dashboard_View\<close> is the dashboard with its predicted charges and axes; \<open>Trends_Page\<close> the trends;
  \<open>Budgets_Page\<close> the budgets page over \<open>Budget_Book\<close>. \<open>Transactions_View\<close> and \<open>Budget_Dialog\<close> are
  the figures, cards and budget dialog of the transactions page, \<open>Transaction_Table\<close> its table and
  \<open>Category_Picker\<close> the category menu of a row with the rule it suggests. \<open>Accounts_Page\<close> keeps the
  accounts entered by hand and the choice of a provider, \<open>Accounts_View\<close> what the page shows of them,
  \<open>Bank_Cards\<close> the cards of the banks and the dialog before one is disconnected, \<open>Connect_Step\<close> the
  pages of the onboarding. \<open>Teller_Script\<close> is the loader of the widget's script with its promises and
  browser events. \<open>Error_Boundary\<close> classifies errors, takes secrets out of their messages and shows a
  card; \<open>Telemetry\<close> redacts what a span carries. \<open>View_Widgets\<close> holds the tooltip, the rows that
  scroll, the menu and the geometry of the flow chart. Their lemmas state what stays true whatever is
  clicked, typed and answered, in any order; that what is shown is what is held, saved or sent; and,
  for the redactions, that no text of the given shape is left.

  \<^bold>\<open>Bounds.\<close> Retries are those of the configuration, after a refresh anew; the delay of a retry is
  at most 6500 ms. Loading the Teller connections retries at most five times. A forecast advances a
  date by a positive step until it passes its horizon, and its recursion is bounded by the distance.
  Every other loop is structural or over a list.

  \<^bold>\<open>Parameters.\<close> What is not under \<^verbatim>\<open>src/\<close> is an argument: the network (\<open>ne_send\<close>), the
  digest, random jitter, the time zone and \<^verbatim>\<open>Date.parse\<close> on texts that are not calendar keys
  (\<open>date_env\<close>), \<^verbatim>\<open>Intl\<close> formatters, \<^verbatim>\<open>localeCompare\<close>, fractional number printing,
  the world the bank services answer from, and the cast of a JSON answer to the type the service
  declares. Hypotheses on them state documented behaviour, for example that a calendar key parses
  to its midnight.

  \<^bold>\<open>Not modelled.\<close> Amounts are exact: the rounding of binary floating point is left out, as are
  exponents in printed numbers. Characters are those below 256, with case changes on the Latin
  letters. Objects used as dictionaries have no prototype. Infinite balances and budget amounts that
  are not numbers (read as zero) are outside. Of the hooks the spans they open, console
  messages, the OAuth redirect and the names of abort errors are left out; a refreshed token that is
  not a string is read as its text. Values thrown are errors, never \<^verbatim>\<open>null\<close>, and the request to
  complete the onboarding, and those of the budget dialog of the transactions page, are answered at
  once. Of the \<^verbatim>\<open>.tsx\<close> files the markup, class names, colours,
  icons, animation and keyboard focus are left out, of the telemetry the start of the tracing library
  and its instrumentations, and of the flow chart the layout, which is a library. The Rust server, the
  Python syncer, deployment and tests are other programs and not modelled.
\<close>

end
